(* ===== verification/Prelude.thy ===== *)
theory Prelude
  imports Main "HOL-Library.Sublist" "HOL-Library.Word"
begin

text \<open>
  The prelude of the AKB development: the value and error types every component shares and the
  Python string primitives the code relies on, each with the lemmas that make it usable by
  \<open>simp\<close> and \<open>auto\<close>.

  Conventions. A Python \<open>str\<close> is a \<open>string\<close>: its characters stand for the code points below 256,
  and the character classes below (white space, hex digits) are the ones Python uses on that range.
  A Python \<open>int\<close> is an \<open>int\<close> or, where it is never negative, a \<open>nat\<close>. A raised exception is the
  \<open>Inl\<close> of a result; a database transaction that raises is rolled back, so an operation that fails
  returns no state at all and the caller keeps the old one.
\<close>

section \<open>Results and errors\<close>

text \<open>
  The exception classes of \<^verbatim>\<open>app/exceptions.py\<close> the modelled code raises. The string names the
  raise site (for a not-found error: the kind of object), so that two refusals of one handler
  are different values. \<open>PyValueError\<close> and \<open>PyRuntimeError\<close> are the built-in exceptions,
  \<open>DbIntegrity\<close> an integrity violation and \<open>PgError\<close> any other error reported by PostgreSQL.
\<close>

datatype api_error =
    NotFound string
  | Forbidden string
  | Conflict string
  | Validation string
  | PyValueError
  | PyRuntimeError string
  | DbIntegrity string
  | PgError string

type_synonym 'a result = "api_error + 'a"

definition rbind :: "'e + 'a \<Rightarrow> ('a \<Rightarrow> 'e + 'b) \<Rightarrow> 'e + 'b" where
  "rbind m f = (case m of Inl e \<Rightarrow> Inl e | Inr x \<Rightarrow> f x)"

definition require :: "bool \<Rightarrow> 'e \<Rightarrow> 'e + unit" where
  "require c e = (if c then Inr () else Inl e)"

definition of_option :: "'e \<Rightarrow> 'a option \<Rightarrow> 'e + 'a" where
  "of_option e m = (case m of None \<Rightarrow> Inl e | Some x \<Rightarrow> Inr x)"

definition is_ok :: "'e + 'a \<Rightarrow> bool" where
  "is_ok r = (case r of Inl _ \<Rightarrow> False | Inr _ \<Rightarrow> True)"

lemma rbind_simps [simp]:
  "rbind (Inl e) f = Inl e"
  "rbind (Inr x) f = f x"
  by (simp_all add: rbind_def)

lemma require_simps [simp]:
  "require True e = Inr ()"
  "require False e = Inl e"
  by (simp_all add: require_def)

lemma of_option_simps [simp]:
  "of_option e None = Inl e"
  "of_option e (Some x) = Inr x"
  by (simp_all add: of_option_def)

lemma is_ok_simps [simp]:
  "is_ok (Inr x)"
  "\<not> is_ok (Inl e)"
  by (simp_all add: is_ok_def)

named_theorems result_iff \<open>when a guarded computation returns or raises\<close>

lemma rbind_Inr_iff [result_iff]:
  "rbind m f = Inr y \<longleftrightarrow> (\<exists>x. m = Inr x \<and> f x = Inr y)"
  by (cases m) simp_all

lemma rbind_Inl_iff [result_iff]:
  "rbind m f = Inl e \<longleftrightarrow> m = Inl e \<or> (\<exists>x. m = Inr x \<and> f x = Inl e)"
  by (cases m) simp_all

lemma require_Inr_iff [result_iff]: "require c e = Inr u \<longleftrightarrow> c"
  by (simp add: require_def)

lemma require_Inl_iff [result_iff]: "require c e = Inl e' \<longleftrightarrow> \<not> c \<and> e' = e"
  by (auto simp: require_def)

lemma of_option_Inr_iff [result_iff]: "of_option e m = Inr x \<longleftrightarrow> m = Some x"
  by (cases m) simp_all

lemma of_option_Inl_iff [result_iff]: "of_option e m = Inl e' \<longleftrightarrow> m = None \<and> e' = e"
  by (cases m) auto

lemma is_ok_iff: "is_ok r \<longleftrightarrow> (\<exists>x. r = Inr x)"
  by (cases r) simp_all

text \<open>A loop whose body may raise: over a state, and collecting values.\<close>

fun fold_res :: "('a \<Rightarrow> 's \<Rightarrow> 'e + 's) \<Rightarrow> 'a list \<Rightarrow> 's \<Rightarrow> 'e + 's" where
  "fold_res f [] s = Inr s"
| "fold_res f (x # xs) s = rbind (f x s) (fold_res f xs)"

fun map_res :: "('a \<Rightarrow> 'e + 'b) \<Rightarrow> 'a list \<Rightarrow> 'e + 'b list" where
  "map_res f [] = Inr []"
| "map_res f (x # xs) = rbind (f x) (\<lambda>y. rbind (map_res f xs) (\<lambda>ys. Inr (y # ys)))"

lemma fold_res_invariant:
  assumes "fold_res f xs s = Inr s'" and "P s"
    and "\<And>x s s'. x \<in> set xs \<Longrightarrow> P s \<Longrightarrow> f x s = Inr s' \<Longrightarrow> P s'"
  shows "P s'"
  using assms
proof (induction xs arbitrary: s)
  case (Cons x xs)
  then obtain t where "f x s = Inr t" and t: "fold_res f xs t = Inr s'" by (auto simp: rbind_Inr_iff)
  with Cons.prems have "P t" by (meson list.set_intros(1))
  then show ?case using Cons.IH [OF t] Cons.prems(3) by (meson list.set_intros(2))
qed simp

lemma fold_res_append: "fold_res f (xs @ ys) s = rbind (fold_res f xs s) (fold_res f ys)"
proof (induction xs arbitrary: s)
  case (Cons x xs)
  then show ?case by (cases "f x s") simp_all
qed simp

lemma map_res_Inr: "map_res f xs = Inr ys \<longleftrightarrow> list_all2 (\<lambda>x y. f x = Inr y) xs ys"
  by (induction xs arbitrary: ys) (auto simp: rbind_Inr_iff list_all2_Cons1)

lemma map_res_InrD: "map_res f xs = Inr ys \<Longrightarrow> x \<in> set xs \<Longrightarrow> \<exists>y. f x = Inr y"
  by (induction xs arbitrary: ys) (auto simp: rbind_Inr_iff)

section \<open>JSON values\<close>

text \<open>The values of an event payload, a request fingerprint and a query AST.\<close>

datatype json =
    JNull
  | JBool bool
  | JInt int
  | JStr string
  | JArr "json list"
  | JObj "(string \<times> json) list"

definition json_opt_str :: "string option \<Rightarrow> json" where
  "json_opt_str s = (case s of None \<Rightarrow> JNull | Some t \<Rightarrow> JStr t)"

section \<open>Python strings\<close>

definition py_in :: "string \<Rightarrow> char \<Rightarrow> bool" where
  "py_in s c \<longleftrightarrow> c \<in> set s"

text \<open>\<open>str.isspace\<close> and the \<open>\s\<close> of \<open>re\<close> on the code points below 256.\<close>

definition is_space :: "char \<Rightarrow> bool" where
  "is_space c = (let n = of_char c :: nat in
     (9 \<le> n \<and> n \<le> 13) \<or> (28 \<le> n \<and> n \<le> 32) \<or> n = 133 \<or> n = 160)"

fun lstrip_by :: "(char \<Rightarrow> bool) \<Rightarrow> string \<Rightarrow> string" where
  "lstrip_by p [] = []"
| "lstrip_by p (c # s) = (if p c then lstrip_by p s else c # s)"

definition rstrip_by :: "(char \<Rightarrow> bool) \<Rightarrow> string \<Rightarrow> string" where
  "rstrip_by p s = rev (lstrip_by p (rev s))"

definition strip_by :: "(char \<Rightarrow> bool) \<Rightarrow> string \<Rightarrow> string" where
  "strip_by p s = rstrip_by p (lstrip_by p s)"

definition py_strip :: "string \<Rightarrow> string" where
  "py_strip = strip_by is_space"

lemma lstrip_by_dropWhile: "lstrip_by p s = dropWhile p s"
  by (induction s) simp_all

lemma rstrip_by_idle: "s = [] \<or> \<not> p (last s) \<Longrightarrow> rstrip_by p s = s"
  by (cases s rule: rev_cases) (simp_all add: rstrip_by_def)

lemma rstrip_by_last: "rstrip_by p s \<noteq> [] \<Longrightarrow> \<not> p (last (rstrip_by p s))"
  by (simp add: rstrip_by_def lstrip_by_dropWhile last_rev hd_dropWhile)

lemma rstrip_by_append_all: "\<forall>c\<in>set t. p c \<Longrightarrow> rstrip_by p (s @ t) = rstrip_by p s"
proof -
  assume "\<forall>c\<in>set t. p c"
  then have "dropWhile p (rev t @ rev s) = dropWhile p (rev s)"
    by (intro dropWhile_append2) simp
  then show ?thesis by (simp add: rstrip_by_def lstrip_by_dropWhile)
qed

lemma set_rstrip_by: "set (rstrip_by p s) \<subseteq> set s"
  by (auto simp: rstrip_by_def lstrip_by_dropWhile dest: set_dropWhileD)

text \<open>\<open>s.split(c)\<close>: the pieces between the occurrences of \<open>c\<close>, never an empty list.\<close>

fun py_split :: "char \<Rightarrow> string \<Rightarrow> string list" where
  "py_split c [] = [[]]"
| "py_split c (x # s) =
     (if x = c then [] # py_split c s
      else (case py_split c s of [] \<Rightarrow> [[x]] | p # ps \<Rightarrow> (x # p) # ps))"

fun py_join :: "string \<Rightarrow> string list \<Rightarrow> string" where
  "py_join sep [] = []"
| "py_join sep [p] = p"
| "py_join sep (p # q # ps) = p @ sep @ py_join sep (q # ps)"

lemma py_split_not_Nil [simp]: "py_split c s \<noteq> []"
  by (induction s) (auto split: list.splits)

lemma py_split_no_sep: "c \<notin> set s \<Longrightarrow> py_split c s = [s]"
  by (induction s) auto

lemma py_split_append_sep: "c \<notin> set p \<Longrightarrow> py_split c (p @ c # s) = p # py_split c s"
  by (induction p) auto

lemma py_split_append: "py_split c (a @ c # b) = py_split c a @ py_split c b"
proof (induction a)
  case (Cons x a)
  then show ?case by (cases "py_split c a") auto
qed simp

lemma py_join_Cons: "ps \<noteq> [] \<Longrightarrow> py_join sep (p # ps) = p @ sep @ py_join sep ps"
  by (cases ps) simp_all

lemma py_split_join:
  "ps \<noteq> [] \<Longrightarrow> \<forall>p\<in>set ps. c \<notin> set p \<Longrightarrow> py_split c (py_join [c] ps) = ps"
proof (induction "[c]" ps rule: py_join.induct)
  case (2 p)
  then show ?case by (simp add: py_split_no_sep)
next
  case (3 p q ps)
  then show ?case by (simp add: py_split_append_sep)
qed simp

lemma py_join_split: "py_join [c] (py_split c s) = s"
proof (induction s)
  case (Cons x s)
  show ?case
  proof (cases "py_split c s")
    case Nil
    then show ?thesis by simp
  next
    case (Cons p ps)
    with Cons.IH show ?thesis by (cases ps) auto
  qed
qed simp

lemma py_split_pieces: "p \<in> set (py_split c s) \<Longrightarrow> c \<notin> set p"
proof (induction s arbitrary: p)
  case (Cons x s)
  then show ?case by (cases "py_split c s") (auto split: if_splits)
qed simp

lemma py_split_subset: "p \<in> set (py_split c s) \<Longrightarrow> set p \<subseteq> set s"
proof (induction s arbitrary: p)
  case (Cons x s)
  then show ?case by (cases "py_split c s") (auto split: if_splits, blast+)
qed simp

lemma set_py_join: "x \<in> set (py_join sep ps) \<Longrightarrow> x \<in> set sep \<or> (\<exists>p\<in>set ps. x \<in> set p)"
  by (induction sep ps rule: py_join.induct) auto

lemma py_join_append:
  "ps \<noteq> [] \<Longrightarrow> qs \<noteq> [] \<Longrightarrow> py_join sep (ps @ qs) = py_join sep ps @ sep @ py_join sep qs"
proof (induction ps)
  case (Cons p ps)
  then show ?case by (cases ps) (simp_all add: py_join_Cons)
qed simp

text \<open>\<open>s.startswith(p)\<close> and what follows the prefix.\<close>

fun strip_prefix :: "string \<Rightarrow> string \<Rightarrow> string option" where
  "strip_prefix [] s = Some s"
| "strip_prefix (c # p) [] = None"
| "strip_prefix (c # p) (x # s) = (if c = x then strip_prefix p s else None)"

definition starts_with :: "string \<Rightarrow> string \<Rightarrow> bool" where
  "starts_with s p = (strip_prefix p s \<noteq> None)"

lemma strip_prefix_append [simp]: "strip_prefix p (p @ s) = Some s"
  by (induction p) simp_all

lemma strip_prefix_Some_iff: "strip_prefix p s = Some t \<longleftrightarrow> s = p @ t"
  by (induction p s rule: strip_prefix.induct) auto

lemma starts_with_iff: "starts_with s p \<longleftrightarrow> prefix p s"
  by (auto simp: starts_with_def strip_prefix_Some_iff prefix_def)

section \<open>UUIDs\<close>

text \<open>
  A \<open>uuid.UUID\<close> is the 128-bit integer it wraps (a machine word). \<open>parse_uuid\<close> is the constructor on a string:
  \<open>urn:\<close> and \<open>uuid:\<close> are removed, outer braces stripped, hyphens removed, and what remains must
  be 32 characters that \<open>int(_, 16)\<close> accepts; \<open>None\<close> is the \<open>ValueError\<close>. \<open>uuid_str\<close> is \<open>str()\<close>:
  lower-case hex in the 8-4-4-4-12 grouping.
\<close>

type_synonym uuid = \<open>128 word\<close>

definition hex_value :: "char \<Rightarrow> nat option" where
  "hex_value c = (let n = of_char c :: nat in
     if 48 \<le> n \<and> n \<le> 57 then Some (n - 48)
     else if 97 \<le> n \<and> n \<le> 102 then Some (n - 87)
     else if 65 \<le> n \<and> n \<le> 70 then Some (n - 55)
     else None)"

text \<open>Digits of \<open>int(_, 16)\<close>: single underscores may stand between two digits.\<close>

fun hex_digits_value :: "nat \<Rightarrow> string \<Rightarrow> nat option" where
  "hex_digits_value acc [] = Some acc"
| "hex_digits_value acc (c # s) =
     (if c = CHR ''_''
      then (case s of [] \<Rightarrow> None
            | d # s' \<Rightarrow> (case hex_value d of None \<Rightarrow> None
                         | Some v \<Rightarrow> hex_digits_value (16 * acc + v) s'))
      else (case hex_value c of None \<Rightarrow> None
            | Some v \<Rightarrow> hex_digits_value (16 * acc + v) s))"

definition py_int16_body :: "string \<Rightarrow> nat option" where
  "py_int16_body s = (case s of [] \<Rightarrow> None
     | c # t \<Rightarrow> (case hex_value c of None \<Rightarrow> None | Some v \<Rightarrow> hex_digits_value v t))"

definition py_int16 :: "string \<Rightarrow> nat option" where
  "py_int16 s =
     (let t = py_strip s;
          u = (case t of c # r \<Rightarrow> if c = CHR ''+'' then r else t | [] \<Rightarrow> t)
      in case strip_prefix ''0x'' u of
           Some r \<Rightarrow> (case r of c # r' \<Rightarrow> if c = CHR ''_'' then py_int16_body r' else py_int16_body r
                      | [] \<Rightarrow> None)
         | None \<Rightarrow> (case strip_prefix ''0X'' u of
             Some r \<Rightarrow> (case r of c # r' \<Rightarrow> if c = CHR ''_'' then py_int16_body r' else py_int16_body r
                        | [] \<Rightarrow> None)
           | None \<Rightarrow> py_int16_body u))"

function remove_all :: "string \<Rightarrow> string \<Rightarrow> string" where
  "remove_all p s =
     (if p = [] then s
      else case s of [] \<Rightarrow> []
           | c # t \<Rightarrow> (case strip_prefix p s of Some r \<Rightarrow> remove_all p r
                        | None \<Rightarrow> c # remove_all p t))"
  by pat_completeness auto
termination
  by (relation "measure (length \<circ> snd)") (auto simp: strip_prefix_Some_iff)

declare remove_all.simps [simp del]

definition parse_uuid :: "string \<Rightarrow> uuid option" where
  "parse_uuid s =
     (let h = filter (\<lambda>c. c \<noteq> CHR ''-'')
                (strip_by (\<lambda>c. c = CHR ''{'' \<or> c = CHR ''}'')
                   (remove_all ''uuid:'' (remove_all ''urn:'' s)))
      in if length h = 32 then map_option of_nat (py_int16 h) else None)"

definition hex_char :: "nat \<Rightarrow> char" where
  "hex_char d = ''0123456789abcdef'' ! (d mod 16)"

fun hex_fixed :: "nat \<Rightarrow> nat \<Rightarrow> string" where
  "hex_fixed 0 n = []"
| "hex_fixed (Suc k) n = hex_fixed k (n div 16) @ [hex_char n]"

definition uuid_hex :: "uuid \<Rightarrow> string" where
  "uuid_hex u = hex_fixed 32 (unat u)"

definition uuid_str :: "uuid \<Rightarrow> string" where
  "uuid_str u = (let h = uuid_hex u in
     take 8 h @ ''-'' @ take 4 (drop 8 h) @ ''-'' @ take 4 (drop 12 h) @ ''-''
       @ take 4 (drop 16 h) @ ''-'' @ drop 20 h)"

lemma length_hex_fixed [simp]: "length (hex_fixed k n) = k"
  by (induction k arbitrary: n) simp_all

lemma length_uuid_hex [simp]: "length (uuid_hex u) = 32"
  by (simp add: uuid_hex_def)

lemma length_uuid_str [simp]: "length (uuid_str u) = 36"
  by (simp add: uuid_str_def Let_def)

lemma hex_fixed_set: "set (hex_fixed k n) \<subseteq> set ''0123456789abcdef''"
proof (induction k arbitrary: n)
  case (Suc k)
  have "hex_char n \<in> set ''0123456789abcdef''"
    unfolding hex_char_def by (rule nth_mem) simp
  with Suc show ?case by auto
qed simp

lemma uuid_hex_set: "set (uuid_hex u) \<subseteq> set ''0123456789abcdef''"
  unfolding uuid_hex_def by (rule hex_fixed_set)

lemma filter_hyphen_uuid_str: "filter (\<lambda>c. c \<noteq> CHR ''-'') (uuid_str u) = uuid_hex u"
proof -
  define h where "h = uuid_hex u"
  have k: "filter (\<lambda>c. c \<noteq> CHR ''-'') g = g" if "set g \<subseteq> set h" for g
    using that uuid_hex_set [of u] by (intro filter_True) (auto simp: h_def)
  have d: "take 4 (drop a h) @ drop (a + 4) h = drop a h" for a
    using append_take_drop_id [of 4 "drop a h"] by (simp add: add.commute)
  have "take 8 h @ take 4 (drop 8 h) @ take 4 (drop 12 h) @ take 4 (drop 16 h) @ drop 20 h = h"
    using d [of 8] d [of 12] d [of 16] by simp
  moreover have "filter (\<lambda>c. c \<noteq> CHR ''-'') (take i (drop j h)) = take i (drop j h)" for i j
    by (rule k) (meson in_set_dropD in_set_takeD subsetI)
  from this [of _ 0] this have "filter (\<lambda>c. c \<noteq> CHR ''-'') (take i h) = take i h"
    and "filter (\<lambda>c. c \<noteq> CHR ''-'') (take i (drop j h)) = take i (drop j h)" for i j by simp_all
  moreover have "filter (\<lambda>c. c \<noteq> CHR ''-'') (drop j h) = drop j h" for j
    by (rule k) (meson in_set_dropD subsetI)
  ultimately show ?thesis unfolding uuid_str_def Let_def h_def [symmetric] by simp
qed

lemma hex_value_digits: "d \<in> set [0..<16] \<Longrightarrow> hex_value (''0123456789abcdef'' ! d) = Some d"
proof -
  have "\<forall>d\<in>set [0..<16]. hex_value (''0123456789abcdef'' ! d) = Some d"
    by (simp add: upt_conv_Cons hex_value_def)
  then show "d \<in> set [0..<16] \<Longrightarrow> hex_value (''0123456789abcdef'' ! d) = Some d" by blast
qed

lemma hex_value_hex_char [simp]: "hex_value (hex_char n) = Some (n mod 16)"
  unfolding hex_char_def by (rule hex_value_digits) simp

lemma hex_char_not_underscore [simp]: "hex_char n \<noteq> CHR ''_''"
proof
  assume "hex_char n = CHR ''_''"
  then have "hex_value CHR ''_'' = Some (n mod 16)" by (metis hex_value_hex_char)
  then show False by (simp add: hex_value_def)
qed

lemma hex_digits_value_fixed:
  "hex_digits_value acc (hex_fixed k n @ s) = hex_digits_value (acc * 16 ^ k + n mod 16 ^ k) s"
proof (induction k arbitrary: n s)
  case (Suc k)
  have "16 * (acc * 16 ^ k + (n div 16) mod 16 ^ k) + n mod 16 = acc * 16 ^ Suc k + n mod 16 ^ Suc k"
    by (simp add: mod_mult2_eq algebra_simps)
  then show ?case unfolding hex_fixed.simps append_assoc Suc.IH by (simp del: power_Suc)
qed simp

lemma remove_all_idle: "p \<noteq> [] \<Longrightarrow> hd p \<notin> set s \<Longrightarrow> remove_all p s = s"
proof (induction s)
  case (Cons c s)
  then have "strip_prefix p (c # s) = None" by (cases p) auto
  with Cons show ?case by (subst remove_all.simps) simp
qed (simp add: remove_all.simps)

lemma strip_by_idle: "\<forall>c\<in>set s. \<not> p c \<Longrightarrow> strip_by p s = s"
proof -
  assume a: "\<forall>c\<in>set s. \<not> p c"
  then have "dropWhile p s = s" and "dropWhile p (rev s) = rev s"
    by (auto simp: dropWhile_eq_self_iff hd_rev)
  then show ?thesis by (simp add: strip_by_def rstrip_by_def lstrip_by_dropWhile)
qed

lemma uuid_str_set: "set (uuid_str u) \<subseteq> insert CHR ''-'' (set ''0123456789abcdef'')"
proof
  fix c
  assume "c \<in> set (uuid_str u)"
  then have "c = CHR ''-'' \<or> c \<in> set (filter (\<lambda>c. c \<noteq> CHR ''-'') (uuid_str u))" by simp
  then show "c \<in> insert CHR ''-'' (set ''0123456789abcdef'')"
    unfolding filter_hyphen_uuid_str using uuid_hex_set [of u] by blast
qed

text \<open>Printing a UUID and reading it back.\<close>

lemma parse_uuid_str [simp]: "parse_uuid (uuid_str u) = Some u"
proof -
  let ?h = "uuid_hex u"
  have no: "c \<notin> set (uuid_str u)" if "c \<notin> insert CHR ''-'' (set ''0123456789abcdef'')" for c
    using that uuid_str_set [of u] by blast
  have "remove_all ''uuid:'' (remove_all ''urn:'' (uuid_str u)) = uuid_str u"
    using no [of "CHR ''u''"] by (simp add: remove_all_idle)
  moreover have "strip_by (\<lambda>c. c = CHR ''{'' \<or> c = CHR ''}'') (uuid_str u) = uuid_str u"
    using no [of "CHR ''{''"] no [of "CHR ''}''"] by (intro strip_by_idle) auto
  ultimately have p: "parse_uuid (uuid_str u) = map_option of_nat (py_int16 ?h)"
    by (simp add: parse_uuid_def Let_def filter_hyphen_uuid_str)
  have c: "\<not> is_space c \<and> c \<noteq> CHR ''+'' \<and> c \<noteq> CHR ''x'' \<and> c \<noteq> CHR ''X'' \<and> c \<noteq> CHR ''_'' \<and> hex_value c \<noteq> None"
    if "c \<in> set ?h" for c
    using that uuid_hex_set [of u] by (auto simp: is_space_def hex_value_def dest!: subsetD)
  have "py_strip ?h = ?h" unfolding py_strip_def using c by (intro strip_by_idle) blast
  moreover obtain a b r where h: "?h = a # b # r"
    using length_uuid_hex [of u] by (cases ?h rule: remdups_adj.cases) auto
  moreover have "strip_prefix ''0x'' ?h = None" and "strip_prefix ''0X'' ?h = None"
    using c [of b] h by auto
  ultimately have "py_int16 ?h = py_int16_body ?h"
    using c [of a] by (simp add: py_int16_def Let_def)
  also have "\<dots> = hex_digits_value 0 ?h"
    using c [of a] h by (auto simp: py_int16_body_def)
  also have "\<dots> = Some (unat u mod 16 ^ 32)"
    using hex_digits_value_fixed [of 0 32 "unat u" "[]"] by (simp add: uuid_hex_def)
  also have "unat u mod 16 ^ 32 = unat u" using unsigned_less [of u, where 'a = nat] by simp
  finally show ?thesis using p by simp
qed

text \<open>Equal digit strings are equal UUIDs, whatever the separators.\<close>

lemma uuid_hex_inject: "uuid_hex u = uuid_hex v \<Longrightarrow> u = v"
proof -
  assume "uuid_hex u = uuid_hex v"
  then have "hex_digits_value 0 (hex_fixed 32 (unat u) @ []) = hex_digits_value 0 (hex_fixed 32 (unat v) @ [])"
    by (simp add: uuid_hex_def)
  then have "unat u mod 16 ^ 32 = unat v mod 16 ^ 32"
    unfolding hex_digits_value_fixed by simp
  moreover have "unat w < 16 ^ 32" for w :: uuid using unsigned_less [of w] by simp
  ultimately show ?thesis by (simp add: word_unat_eq_iff)
qed

lemma uuid_str_inject [simp]: "uuid_str u = uuid_str v \<longleftrightarrow> u = v"
  using filter_hyphen_uuid_str uuid_hex_inject by metis

section \<open>Finding rows\<close>

lemma find_Some_in: "find P xs = Some x \<Longrightarrow> x \<in> set xs \<and> P x"
  by (auto simp: find_Some_iff in_set_conv_nth)

lemma find_map_same:
  assumes "\<And>x. P (f x) = P x"
  shows "find P (map f xs) = map_option f (find P xs)"
  using assms by (induction xs) simp_all

end
