(* ===== verification/Paths.thy ===== *)
theory Paths
  imports Prelude
begin

text \<open>
  Path and name identity, \<^verbatim>\<open>backend/app/util/text.py\<close>: the collection-path normalizer, document
  slugs and paths, the removal of a document's own collision suffix and the escaping of literals
  spliced into SQL \<open>LIKE\<close> patterns.
\<close>

section \<open>Collection paths\<close>

definition RESERVED_COLLECTION_SEGMENTS :: "string list" where
  "RESERVED_COLLECTION_SEGMENTS = [''coll'', ''doc'', ''table'', ''file'']"

definition MAX_PATH_BYTES :: nat where
  "MAX_PATH_BYTES = 1024"

text \<open>\<open>len(s.encode("utf-8"))\<close> on code points below 256.\<close>

definition utf8_len :: "string \<Rightarrow> nat" where
  "utf8_len s = sum_list (map (\<lambda>c. if (of_char c :: nat) < 128 then 1 else 2) s)"

text \<open>The body of the loop over the segments: which one stops it, and with which error.\<close>

definition segment_problem :: "string \<Rightarrow> string option" where
  "segment_problem raw =
     (if raw = '''' \<or> raw = ''.'' \<or> raw = ''..'' then Some ''traversal''
      else if (\<exists>c\<in>set raw. (of_char c :: nat) = 0 \<or> c = CHR 0x5C \<or> (of_char c :: nat) < 32)
        then Some ''invalid character''
      else if List.member RESERVED_COLLECTION_SEGMENTS raw then Some ''reserved segment''
      else None)"

fun check_segments :: "string list \<Rightarrow> string + string list" where
  "check_segments [] = Inr []"
| "check_segments (raw # rest) =
     (case segment_problem raw of
        Some e \<Rightarrow> Inl e
      | None \<Rightarrow> rbind (check_segments rest) (\<lambda>ps. Inr (raw # ps)))"

abbreviation is_slash :: "char \<Rightarrow> bool" where
  "is_slash \<equiv> (\<lambda>c. c = CHR ''/'')"

definition normalize_collection_path :: "string option \<Rightarrow> bool \<Rightarrow> string + string" where
  "normalize_collection_path path allow_empty =
     (case path of
        None \<Rightarrow> if allow_empty then Inr '''' else Inl ''empty''
      | Some p \<Rightarrow>
          if p = '''' then if allow_empty then Inr '''' else Inl ''empty''
          else let normalized = strip_by is_slash (py_strip p) in
            if normalized = '''' then if allow_empty then Inr '''' else Inl ''empty''
            else if MAX_PATH_BYTES < utf8_len normalized then Inl ''too long''
            else rbind (check_segments (py_split CHR ''/'' normalized))
                   (\<lambda>parts. Inr (py_join ''/'' parts)))"

text \<open>A segment the normalizer lets through.\<close>

definition segment_ok :: "string \<Rightarrow> bool" where
  "segment_ok raw \<longleftrightarrow> segment_problem raw = None"

lemma check_segments_Inr:
  "check_segments raws = Inr ps \<longleftrightarrow> ps = raws \<and> (\<forall>r\<in>set raws. segment_ok r)"
proof (induction raws arbitrary: ps)
  case (Cons raw raws)
  then show ?case
    by (cases "segment_problem raw") (auto simp: segment_ok_def rbind_Inr_iff)
qed auto

lemma segment_ok_props:
  assumes "segment_ok r"
  shows "r \<noteq> []" and "CHR 0x0A \<notin> set r" and "r \<notin> set RESERVED_COLLECTION_SEGMENTS"
proof -
  from assms have "r \<noteq> ''''" and c: "\<not> (\<exists>c\<in>set r. (of_char c :: nat) = 0 \<or> c = CHR 0x5C \<or> (of_char c :: nat) < 32)"
    and "\<not> List.member RESERVED_COLLECTION_SEGMENTS r"
    unfolding segment_ok_def segment_problem_def by (metis option.distinct(1))+
  moreover have "(of_char (CHR 0x0A) :: nat) < 32" by simp
  ultimately show "r \<noteq> []" and "CHR 0x0A \<notin> set r" and "r \<notin> set RESERVED_COLLECTION_SEGMENTS"
    by (simp, metis, simp)
qed

lemma normalize_cases:
  assumes "normalize_collection_path path ae = Inr q" and "q \<noteq> ''''"
  shows "utf8_len q \<le> MAX_PATH_BYTES" and "\<forall>r\<in>set (py_split CHR ''/'' q). segment_ok r"
    and "\<exists>p. path = Some p \<and> q = strip_by is_slash (py_strip p)"
proof -
  from assms obtain p where p: "path = Some p" and ne: "p \<noteq> ''''"
    by (auto simp: normalize_collection_path_def split: option.splits if_splits)
  define n where "n = strip_by is_slash (py_strip p)"
  have eq: "normalize_collection_path path ae =
      (if n = '''' then if ae then Inr '''' else Inl ''empty''
       else if MAX_PATH_BYTES < utf8_len n then Inl ''too long''
       else rbind (check_segments (py_split CHR ''/'' n)) (\<lambda>ps. Inr (py_join ''/'' ps)))"
    using p ne by (simp add: normalize_collection_path_def Let_def n_def)
  from assms have "n \<noteq> ''''" and len: "\<not> MAX_PATH_BYTES < utf8_len n"
    unfolding eq by (auto split: if_splits)
  with assms have "rbind (check_segments (py_split CHR ''/'' n)) (\<lambda>ps. Inr (py_join ''/'' ps)) = Inr q"
    unfolding eq by simp
  then have "q = n" and "\<forall>r\<in>set (py_split CHR ''/'' n). segment_ok r"
    by (auto simp: rbind_Inr_iff check_segments_Inr py_join_split)
  with p len show "utf8_len q \<le> MAX_PATH_BYTES" and "\<forall>r\<in>set (py_split CHR ''/'' q). segment_ok r"
    and "\<exists>p. path = Some p \<and> q = strip_by is_slash (py_strip p)"
    by (simp_all add: n_def)
qed

section \<open>Document paths\<close>

text \<open>\<open>s.rsplit("/", 1)\<close> on a string that holds a slash: what precedes the last one, what follows.\<close>

definition rsplit_slash :: "string \<Rightarrow> string \<times> string" where
  "rsplit_slash s = (let ps = py_split CHR ''/'' s in (py_join ''/'' (butlast ps), last ps))"

definition drop_md :: "string \<Rightarrow> string" where
  "drop_md path = (if suffix ''.md'' path then take (length path - 3) path else path)"

definition split_doc_path :: "string \<Rightarrow> string \<times> string" where
  "split_doc_path path =
     (let stem = drop_md path
      in if py_in stem CHR ''/'' then rsplit_slash stem else ('''', stem))"

definition doc_path :: "string \<Rightarrow> string \<Rightarrow> string" where
  "doc_path collection slug =
     (if collection \<noteq> '''' then collection @ ''/'' @ slug @ ''.md'' else slug @ ''.md'')"

lemma rsplit_slash_append:
  assumes "CHR ''/'' \<notin> set b"
  shows "rsplit_slash (a @ CHR ''/'' # b) = (a, b)"
proof -
  have "py_split CHR ''/'' (a @ CHR ''/'' # b) = py_split CHR ''/'' a @ [b]"
    using assms by (simp add: py_split_append py_split_no_sep)
  then show ?thesis by (simp add: rsplit_slash_def Let_def py_join_split)
qed

lemma rsplit_slash_join:
  assumes "py_in s CHR ''/''"
  shows "fst (rsplit_slash s) @ CHR ''/'' # snd (rsplit_slash s) = s"
    and "CHR ''/'' \<notin> set (snd (rsplit_slash s))"
proof -
  from assms obtain a b where "s = a @ CHR ''/'' # b" and "CHR ''/'' \<notin> set b"
    by (auto simp: py_in_def dest: split_list_last)
  then show "fst (rsplit_slash s) @ CHR ''/'' # snd (rsplit_slash s) = s"
    and "CHR ''/'' \<notin> set (snd (rsplit_slash s))"
    by (simp_all add: rsplit_slash_append)
qed

lemma drop_md_append [simp]: "drop_md (s @ ''.md'') = s"
  by (simp add: drop_md_def suffix_def)

text \<open>
  \<open>split_doc_path\<close> inverts \<open>doc_path\<close>. A path composed from a collection (possibly empty, of any
  depth) and a slug without a slash decomposes into exactly that collection and slug.
\<close>

theorem split_doc_path_doc_path:
  assumes "CHR ''/'' \<notin> set slug"
  shows "split_doc_path (doc_path collection slug) = (collection, slug)"
proof (cases "collection = ''''")
  case True
  with assms show ?thesis by (simp add: doc_path_def split_doc_path_def py_in_def)
next
  case False
  have "doc_path collection slug = (collection @ ''/'' @ slug) @ ''.md''"
    using False by (simp add: doc_path_def)
  then have "drop_md (doc_path collection slug) = collection @ CHR ''/'' # slug"
    by (simp del: append_assoc)
  with assms show ?thesis
    by (simp add: split_doc_path_def py_in_def Let_def rsplit_slash_append)
qed

theorem split_doc_path_doc_path_witness:
  "CHR ''/'' \<notin> set ''intro'' \<and>
   split_doc_path (doc_path ''specs/api'' ''intro'') = (''specs/api'', ''intro'')"
proof -
  have h: "CHR ''/'' \<notin> set ''intro''" by simp
  show ?thesis using h split_doc_path_doc_path [OF h, of "''specs/api''"] by simp
qed

section \<open>Slugs\<close>

text \<open>\<open>str.lower\<close> and the \<open>\w\<close> of \<open>re\<close> on the code points below 256.\<close>

definition lower_char :: "char \<Rightarrow> char" where
  "lower_char c = (let n = of_char c :: nat in
     if (65 \<le> n \<and> n \<le> 90) \<or> (192 \<le> n \<and> n \<le> 222 \<and> n \<noteq> 215) then char_of (n + 32) else c)"

definition py_lower :: "string \<Rightarrow> string" where
  "py_lower s = map lower_char s"

definition is_word :: "char \<Rightarrow> bool" where
  "is_word c = (let n = of_char c :: nat in
     (48 \<le> n \<and> n \<le> 57) \<or> (65 \<le> n \<and> n \<le> 90) \<or> n = 95 \<or> (97 \<le> n \<and> n \<le> 122)
     \<or> n = 170 \<or> n = 178 \<or> n = 179 \<or> n = 181 \<or> n = 185 \<or> n = 186
     \<or> (188 \<le> n \<and> n \<le> 190) \<or> (192 \<le> n \<and> n \<noteq> 215 \<and> n \<noteq> 247))"

abbreviation is_hyphen :: "char \<Rightarrow> bool" where
  "is_hyphen \<equiv> (\<lambda>c. c = CHR ''-'')"

text \<open>\<open>re.sub("[-\s]+", "-", s)\<close>: every maximal run of hyphens and spaces becomes one hyphen.\<close>

fun collapse_runs :: "bool \<Rightarrow> string \<Rightarrow> string" where
  "collapse_runs in_run [] = []"
| "collapse_runs in_run (c # s) =
     (if is_hyphen c \<or> is_space c
      then (if in_run then collapse_runs True s else CHR ''-'' # collapse_runs True s)
      else c # collapse_runs False s)"

definition SLUG_MAX :: nat where
  "SLUG_MAX = 80"

definition slugify :: "string \<Rightarrow> string" where
  "slugify text =
     (let slug = py_strip (py_lower text);
          slug = filter (\<lambda>c. is_word c \<or> is_space c \<or> is_hyphen c) slug;
          slug = strip_by is_hyphen (collapse_runs False slug);
          slug = rstrip_by is_hyphen (take SLUG_MAX slug)
      in if slug \<noteq> '''' then slug else ''untitled'')"

definition validate_file_name :: "string \<Rightarrow> string + string" where
  "validate_file_name name =
     (if name = '''' then Inl ''empty''
      else if py_in name CHR ''/'' then Inl ''not a single segment'' else Inr name)"

text \<open>A string \<open>slugify\<close> leaves alone: what its result looks like.\<close>

fun no_double_hyphen :: "string \<Rightarrow> bool" where
  "no_double_hyphen (a # b # s) = ((\<not> is_hyphen a \<or> \<not> is_hyphen b) \<and> no_double_hyphen (b # s))"
| "no_double_hyphen _ = True"

definition slug_ok :: "string \<Rightarrow> bool" where
  "slug_ok s \<longleftrightarrow> s \<noteq> [] \<and> length s \<le> SLUG_MAX \<and> no_double_hyphen s
     \<and> (\<forall>c\<in>set s. (is_word c \<or> is_hyphen c) \<and> lower_char c = c)
     \<and> \<not> is_hyphen (hd s) \<and> \<not> is_hyphen (last s)"

lemma char_less_256: "(of_char c :: nat) < 256"
  by (rule nat_of_char_less_256)

lemma lower_char_idem [simp]: "lower_char (lower_char c) = lower_char c"
proof -
  have "(of_char c :: nat) < 256" by (rule char_less_256)
  then show ?thesis by (auto simp: lower_char_def Let_def of_char_of)
qed

lemma lower_char_eq_hyphen [simp]: "lower_char c = CHR ''-'' \<longleftrightarrow> c = CHR ''-''"
proof
  assume h: "lower_char c = CHR ''-''"
  show "c = CHR ''-''"
  proof (rule ccontr)
    assume "c \<noteq> CHR ''-''"
    with h have "lower_char c \<noteq> c" by auto
    then have "(65 \<le> (of_char c :: nat))" and "lower_char c = char_of ((of_char c :: nat) + 32)"
      and "(of_char c :: nat) + 32 < 256"
      by (auto simp: lower_char_def Let_def split: if_splits)
    moreover have "(of_char (lower_char c) :: nat) = 45" using h by simp
    ultimately show False by (simp add: of_char_of)
  qed
qed (simp add: lower_char_def)

lemma word_not_space: "is_word c \<Longrightarrow> \<not> is_space c"
  by (auto simp: is_word_def is_space_def Let_def)

lemma hyphen_not_space [simp]: "\<not> is_space CHR ''-''"
  by (simp add: is_space_def)

lemma no_double_hyphen_append: "no_double_hyphen (s @ t) \<Longrightarrow> no_double_hyphen s \<and> no_double_hyphen t"
proof (induction s)
  case (Cons a s)
  then show ?case
    by (cases s; cases t) auto
qed simp

lemma no_double_hyphen_take: "no_double_hyphen s \<Longrightarrow> no_double_hyphen (take n s)"
  using no_double_hyphen_append [of "take n s" "drop n s"] by simp

lemma no_double_hyphen_lstrip: "no_double_hyphen s \<Longrightarrow> no_double_hyphen (lstrip_by p s)"
  by (induction s rule: no_double_hyphen.induct) auto

lemma rstrip_by_split: "\<exists>t. s = rstrip_by p s @ t"
proof -
  have "rev s = takeWhile p (rev s) @ lstrip_by p (rev s)" by (simp add: lstrip_by_dropWhile)
  then have "s = rstrip_by p s @ rev (takeWhile p (rev s))"
    by (metis rev_append rev_rev_ident rstrip_by_def)
  then show ?thesis by blast
qed

lemma no_double_hyphen_rstrip: "no_double_hyphen s \<Longrightarrow> no_double_hyphen (rstrip_by p s)"
  using rstrip_by_split [of s p] no_double_hyphen_append by metis

lemma collapse_runs_hd: "collapse_runs True s \<noteq> [] \<Longrightarrow> \<not> is_hyphen (hd (collapse_runs True s))"
  by (induction s) auto

lemma no_double_hyphen_Cons:
  "no_double_hyphen s \<Longrightarrow> \<not> is_hyphen c \<or> s = [] \<or> \<not> is_hyphen (hd s) \<Longrightarrow> no_double_hyphen (c # s)"
  by (cases s) auto

lemma collapse_runs_no_double: "no_double_hyphen (collapse_runs b s)"
  by (induction b s rule: collapse_runs.induct)
     (auto intro!: no_double_hyphen_Cons dest: collapse_runs_hd)

lemma collapse_runs_set: "c \<in> set (collapse_runs b s) \<Longrightarrow> c = CHR ''-'' \<or> c \<in> set s \<and> \<not> is_space c"
  by (induction b s rule: collapse_runs.induct) (auto split: if_splits)

lemma collapse_runs_idle:
  "no_double_hyphen s \<Longrightarrow> \<forall>c\<in>set s. \<not> is_space c \<Longrightarrow> b \<longrightarrow> s = [] \<or> \<not> is_hyphen (hd s) \<Longrightarrow>
   collapse_runs b s = s"
proof (induction b s rule: collapse_runs.induct)
  case (2 in_run c s)
  then show ?case by (cases s) auto
qed simp

lemma lstrip_by_idle: "s = [] \<or> \<not> p (hd s) \<Longrightarrow> lstrip_by p s = s"
  by (cases s) auto

lemma hd_lstrip_by: "lstrip_by p s \<noteq> [] \<Longrightarrow> \<not> p (hd (lstrip_by p s))"
  by (simp add: lstrip_by_dropWhile hd_dropWhile)

lemma hd_rstrip_by: "rstrip_by p s \<noteq> [] \<Longrightarrow> hd (rstrip_by p s) = hd s"
  using rstrip_by_split [of s p] by (metis hd_append2)

lemma set_strip_by: "set (strip_by p s) \<subseteq> set s"
  using set_rstrip_by [of p "lstrip_by p s"]
  by (auto simp: strip_by_def lstrip_by_dropWhile dest: set_dropWhileD)

text \<open>Every string of this shape is left alone.\<close>

lemma slugify_ok_fixed:
  assumes "slug_ok s"
  shows "slugify s = s"
proof -
  from assms have s: "s \<noteq> []" "length s \<le> SLUG_MAX" "no_double_hyphen s" "\<not> is_hyphen (hd s)" "\<not> is_hyphen (last s)"
    and c: "\<And>c. c \<in> set s \<Longrightarrow> is_word c \<or> is_hyphen c" and l: "\<And>c. c \<in> set s \<Longrightarrow> lower_char c = c"
    by (simp_all add: slug_ok_def)
  have low: "py_lower s = s" using l by (simp add: py_lower_def map_idI)
  have nosp: "\<forall>c\<in>set s. \<not> is_space c" using c word_not_space hyphen_not_space by blast
  then have str: "py_strip s = s"
    using s by (simp add: py_strip_def strip_by_def lstrip_by_idle rstrip_by_idle)
  have fil: "filter (\<lambda>c. is_word c \<or> is_space c \<or> is_hyphen c) s = s" using c by (auto simp: filter_id_conv)
  have col: "collapse_runs False s = s" using s nosp by (simp add: collapse_runs_idle)
  have "strip_by is_hyphen s = s" using s by (simp add: strip_by_def lstrip_by_idle rstrip_by_idle)
  then show ?thesis
    using s by (simp add: slugify_def Let_def low str fil col rstrip_by_idle)
qed

lemma slugify_slug_ok: "slug_ok (slugify text)"
proof -
  define a where "a = filter (\<lambda>c. is_word c \<or> is_space c \<or> is_hyphen c) (py_strip (py_lower text))"
  define b where "b = strip_by is_hyphen (collapse_runs False a)"
  define t where "t = take SLUG_MAX b"
  define r where "r = rstrip_by is_hyphen t"
  have eq: "slugify text = (if r \<noteq> '''' then r else ''untitled'')"
    by (simp add: slugify_def Let_def a_def b_def t_def r_def)
  have low: "lower_char c = c \<and> (is_word c \<or> is_space c \<or> is_hyphen c)" if "c \<in> set a" for c
    using that set_strip_by [of is_space "py_lower text"]
    by (auto simp: a_def py_strip_def py_lower_def)
  have bset: "c = CHR ''-'' \<or> c \<in> set a \<and> \<not> is_space c" if "c \<in> set b" for c
    using that set_strip_by [of is_hyphen "collapse_runs False a"]
    by (auto simp: b_def dest!: collapse_runs_set)
  have rt: "set r \<subseteq> set b" and len: "length r \<le> SLUG_MAX"
  proof -
    from rstrip_by_split [of t is_hyphen] obtain u where u: "t = r @ u" by (auto simp: r_def)
    have "length t \<le> SLUG_MAX" by (simp add: t_def)
    with u show "length r \<le> SLUG_MAX" by simp
    from u have "set r \<subseteq> set t" by auto
    then show "set r \<subseteq> set b" using set_take_subset [of SLUG_MAX b] by (auto simp: t_def)
  qed
  have rset: "(is_word c \<or> is_hyphen c) \<and> lower_char c = c" if "c \<in> set r" for c
  proof -
    from that rt have "c \<in> set b" by auto
    then have "c = CHR ''-'' \<or> c \<in> set a \<and> \<not> is_space c" by (rule bset)
    moreover have "lower_char CHR ''-'' = CHR ''-''" by simp
    ultimately show ?thesis using low by metis
  qed
  have nd: "no_double_hyphen r"
    unfolding r_def t_def b_def strip_by_def
    by (intro no_double_hyphen_rstrip no_double_hyphen_take no_double_hyphen_lstrip collapse_runs_no_double)
  have hd: "\<not> is_hyphen (hd r)" if "r \<noteq> []"
  proof -
    from that have "t \<noteq> []" by (auto simp: r_def rstrip_by_def)
    then have "b \<noteq> []" and "hd t = hd b" by (auto simp: t_def SLUG_MAX_def)
    from \<open>b \<noteq> []\<close> have "hd b = hd (lstrip_by is_hyphen (collapse_runs False a))"
      unfolding b_def strip_by_def by (rule hd_rstrip_by)
    moreover from \<open>b \<noteq> []\<close> have "lstrip_by is_hyphen (collapse_runs False a) \<noteq> []"
      by (auto simp: b_def strip_by_def rstrip_by_def)
    ultimately show ?thesis
      using hd_lstrip_by [of is_hyphen "collapse_runs False a"] hd_rstrip_by [of is_hyphen t] that \<open>hd t = hd b\<close>
      by (simp add: r_def)
  qed
  have last: "\<not> is_hyphen (last r)" if "r \<noteq> []"
    using that rstrip_by_last [of is_hyphen t] by (simp add: r_def)
  have unt: "slug_ok ''untitled''" by code_simp
  have "slug_ok r" if "r \<noteq> []"
    unfolding slug_ok_def using that len nd hd last rset by auto
  with unt show ?thesis unfolding eq by simp
qed

text \<open>
  C35: slugs are canonical. Whatever the title, \<open>slugify\<close> returns a non-empty string of at most 80
  characters, lower-case word characters and single hyphens only, without a hyphen at either end;
  and slugifying a slug changes nothing, so a path derived twice is the same path.
\<close>

theorem slugify_canonical: "slug_ok (slugify text) \<and> slugify (slugify text) = slugify text"
  using slugify_slug_ok slugify_ok_fixed by blast

section \<open>A document's own collision suffix\<close>


fun strip_first_suffix :: "string \<Rightarrow> string \<Rightarrow> nat list \<Rightarrow> string" where
  "strip_first_suffix hexs base [] = base"
| "strip_first_suffix hexs base (n # ns) =
     (let sfx = CHR ''-'' # take n hexs
      in if suffix sfx base then take (length base - length sfx) base
         else strip_first_suffix hexs base ns)"

definition strip_own_suffix :: "string \<Rightarrow> uuid \<Rightarrow> string" where
  "strip_own_suffix base_slug doc_id =
     (let hexs = uuid_hex doc_id in strip_first_suffix hexs base_slug [length hexs, 16, 12, 8])"

lemma takeWhile_neq: "c \<notin> set x \<Longrightarrow> takeWhile (\<lambda>d. d \<noteq> c) (x @ c # z) = x"
  by (induction x) auto

lemma hyphen_suffix_eq:
  assumes "suffix (CHR ''-'' # x) (b @ CHR ''-'' # y)"
    and "CHR ''-'' \<notin> set x" and "CHR ''-'' \<notin> set y"
  shows "x = y"
proof -
  from assms(1) obtain z where "b @ CHR ''-'' # y = z @ CHR ''-'' # x"
    by (auto simp: suffix_def)
  then have "rev y @ CHR ''-'' # rev b = rev x @ CHR ''-'' # rev z"
    by (metis rev.simps(2) rev_append append.assoc append_Cons append_Nil)
  then have "takeWhile (\<lambda>c. c \<noteq> CHR ''-'') (rev y @ CHR ''-'' # rev b) =
      takeWhile (\<lambda>c. c \<noteq> CHR ''-'') (rev x @ CHR ''-'' # rev z)" by simp
  with assms(2,3) have "rev y = rev x" by (simp add: takeWhile_neq)
  then show ?thesis by simp
qed

lemma strip_first_suffix_own:
  assumes "CHR ''-'' \<notin> set hexs" and "n \<in> set ns" and "n \<le> length hexs" and "\<forall>m\<in>set ns. m \<le> length hexs"
  shows "strip_first_suffix hexs (base @ CHR ''-'' # take n hexs) ns = base"
  using assms(2,4)
proof (induction ns)
  case (Cons m ns)
  have nh: "CHR ''-'' \<notin> set (take k hexs)" for k using assms(1) by (meson in_set_takeD)
  show ?case
  proof (cases "suffix (CHR ''-'' # take m hexs) (base @ CHR ''-'' # take n hexs)")
    case True
    then have "take m hexs = take n hexs" by (rule hyphen_suffix_eq) (rule nh)+
    then show ?thesis using True by (simp add: Let_def)
  next
    case False
    then have "m \<noteq> n" by (auto simp: suffix_def)
    with Cons False show ?thesis by (simp add: Let_def)
  qed
qed simp

text \<open>
  stripping undoes suffixing. A slug that collided and was given any of the suffixes the
  service writes (8, 12, 16 or all 32 hex digits of the document's own id) goes back to exactly
  the slug it had, whatever that slug is (it may itself end in hex digits).
\<close>

theorem strip_own_suffix_inverse:
  assumes "n \<in> {8, 12, 16, 32}"
  shows "strip_own_suffix (base @ ''-'' @ take n (uuid_hex doc_id)) doc_id = base"
proof -
  have nh: "CHR ''-'' \<notin> set (uuid_hex doc_id)" using uuid_hex_set [of doc_id] by auto
  have len: "length (uuid_hex doc_id) = 32" by simp
  have "strip_first_suffix (uuid_hex doc_id) (base @ CHR ''-'' # take n (uuid_hex doc_id)) [32, 16, 12, 8] = base"
    using assms by (intro strip_first_suffix_own) (auto simp: nh len)
  then show ?thesis by (simp add: strip_own_suffix_def len)
qed

theorem strip_own_suffix_inverse_witness:
  "(12::nat) \<in> {8, 12, 16, 32} \<and>
   strip_own_suffix (''design'' @ ''-'' @ take 12 (uuid_hex 77)) 77 = ''design''"
proof -
  have h: "(12::nat) \<in> {8, 12, 16, 32}" by simp
  show ?thesis using h strip_own_suffix_inverse [OF h, of "''design''" 77] by blast
qed

section \<open>Escaping for LIKE\<close>

fun replace_char :: "char \<Rightarrow> string \<Rightarrow> string \<Rightarrow> string" where
  "replace_char c r [] = []"
| "replace_char c r (x # s) = (if x = c then r @ replace_char c r s else x # replace_char c r s)"

definition like_escape :: "string \<Rightarrow> string" where
  "like_escape s =
     replace_char CHR ''_'' [CHR 0x5C, CHR ''_'']
       (replace_char CHR ''%'' [CHR 0x5C, CHR ''%'']
          (replace_char CHR 0x5C [CHR 0x5C, CHR 0x5C] s))"

text \<open>
  PostgreSQL's matching of a \<open>LIKE\<close> pattern with a backslash as its escape character: a percent
  sign matches any sequence, an underscore any character, an escaped character itself. A pattern
  that ends in a lone backslash is an error there, and matches nothing here.
\<close>

fun like_match :: "string \<Rightarrow> string \<Rightarrow> bool" where
  "like_match [] t = (t = [])"
| "like_match (p # ps) t =
     (if p = CHR ''%'' then like_match ps t \<or> (case t of [] \<Rightarrow> False | _ # t' \<Rightarrow> like_match (p # ps) t')
      else case t of [] \<Rightarrow> False
           | c # t' \<Rightarrow>
             (if p = CHR ''_'' then like_match ps t'
              else if p = CHR 0x5C then (case ps of [] \<Rightarrow> False | q # qs \<Rightarrow> q = c \<and> like_match qs t')
              else p = c \<and> like_match ps t'))"

lemma like_escape_Cons:
  "like_escape (c # s) =
     (if c = CHR 0x5C \<or> c = CHR ''%'' \<or> c = CHR ''_'' then CHR 0x5C # c # like_escape s
      else c # like_escape s)"
  by (auto simp: like_escape_def)

lemma like_escape_Nil [simp]: "like_escape [] = []"
  by (simp add: like_escape_def)

text \<open>
  an escaped literal matches itself and nothing else, so user text spliced into a pattern
  cannot act as a wildcard.
\<close>

theorem like_escape_literal: "like_match (like_escape s) t \<longleftrightarrow> t = s"
proof (induction s arbitrary: t)
  case (Cons c s)
  then show ?case by (cases t) (auto simp: like_escape_Cons)
qed simp

end
