(* ===== verification/Uri.thy ===== *)
theory Uri
  imports Paths
begin

text \<open>
  The AKB URI scheme, \<^verbatim>\<open>backend/app/services/uri_service.py\<close>: the four URI patterns, the parser that
  tries them in order, the builders every emit site uses and the splitters the handlers use.

  Each regular expression is a definition over the slash-separated segments of what follows
  \<^verbatim>\<open>akb://\<close>. Two details of Python's \<open>re\<close> matter and are kept: \<open>.\<close> does not match a newline, and \<open>$\<close>
  also matches before a newline that ends the string.
\<close>

section \<open>The patterns\<close>

definition RESOURCE_LEAF_TYPES :: "string list" where
  "RESOURCE_LEAF_TYPES = [''doc'', ''table'', ''file'']"

text \<open>\<open>(.+)$\<close>: the captured group, if it matches the rest of the string.\<close>

definition match_ident :: "string \<Rightarrow> string option" where
  "match_ident s =
     (let body = (if s \<noteq> [] \<and> last s = CHR 0x0A then butlast s else s)
      in if body \<noteq> [] \<and> CHR 0x0A \<notin> set body then Some body else None)"

text \<open>\<open>_URI_VAULT_ONLY_RE\<close>\<close>

definition match_vault_only :: "string \<Rightarrow> string option" where
  "match_vault_only uri =
     (case strip_prefix ''akb://'' uri of
        None \<Rightarrow> None
      | Some rest \<Rightarrow>
          (case py_split CHR ''/'' rest of
             [v] \<Rightarrow> if v \<noteq> '''' then Some v else None
           | [v, e] \<Rightarrow> if v \<noteq> '''' \<and> (e = '''' \<or> e = [CHR 0x0A]) then Some v else None
           | _ \<Rightarrow> None))"

text \<open>\<open>_URI_COLL_ONLY_RE\<close>: the collection path may be followed by one slash.\<close>

definition match_coll_only :: "string \<Rightarrow> (string \<times> string) option" where
  "match_coll_only uri =
     (case strip_prefix ''akb://'' uri of
        None \<Rightarrow> None
      | Some rest \<Rightarrow>
          (case py_split CHR ''/'' rest of
             v # k # segs \<Rightarrow>
               (let segs = (if segs \<noteq> [] \<and> last segs = '''' then butlast segs else segs)
                in if v \<noteq> '''' \<and> k = ''coll'' \<and> segs \<noteq> [] \<and> '''' \<notin> set segs
                   then Some (v, py_join ''/'' segs) else None)
           | _ \<Rightarrow> None))"

text \<open>\<open>_URI_TYPED_ROOT_RE\<close>\<close>

definition match_typed_root :: "string \<Rightarrow> (string \<times> string \<times> string) option" where
  "match_typed_root uri =
     (case strip_prefix ''akb://'' uri of
        None \<Rightarrow> None
      | Some rest \<Rightarrow>
          (case py_split CHR ''/'' rest of
             v # t # segs \<Rightarrow>
               (if v \<noteq> '''' \<and> List.member RESOURCE_LEAF_TYPES t \<and> segs \<noteq> []
                then map_option (\<lambda>i. (v, t, i)) (match_ident (py_join ''/'' segs)) else None)
           | _ \<Rightarrow> None))"

text \<open>
  \<open>_URI_TYPED_IN_COLL_RE\<close>. The collection group is greedy: the match takes the last segment that
  is a type with a usable identifier after it, so the search runs from the end.
\<close>

definition typed_at :: "string list \<Rightarrow> nat \<Rightarrow> (string \<times> string \<times> string) option" where
  "typed_at segs k =
     (if 1 \<le> k \<and> Suc k < length segs \<and> '''' \<notin> set (take k segs)
         \<and> List.member RESOURCE_LEAF_TYPES (segs ! k)
      then map_option (\<lambda>i. (py_join ''/'' (take k segs), segs ! k, i))
             (match_ident (py_join ''/'' (drop (Suc k) segs)))
      else None)"

fun find_typed :: "string list \<Rightarrow> nat \<Rightarrow> (string \<times> string \<times> string) option" where
  "find_typed segs 0 = None"
| "find_typed segs (Suc k) =
     (case typed_at segs (Suc k) of Some r \<Rightarrow> Some r | None \<Rightarrow> find_typed segs k)"

definition match_typed_in_coll :: "string \<Rightarrow> (string \<times> string \<times> string \<times> string) option" where
  "match_typed_in_coll uri =
     (case strip_prefix ''akb://'' uri of
        None \<Rightarrow> None
      | Some rest \<Rightarrow>
          (case py_split CHR ''/'' rest of
             v # k # segs \<Rightarrow>
               (if v \<noteq> '''' \<and> k = ''coll'' then map_option (Pair v) (find_typed segs (length segs)) else None)
           | _ \<Rightarrow> None))"

section \<open>Parsing\<close>

record parsed_uri =
  pu_vault :: string
  pu_kind :: string
  pu_identifier :: "string option"
  pu_coll_path :: "string option"

definition strip_trailing_slash :: "string \<Rightarrow> string option" where
  "strip_trailing_slash ident =
     (if ident \<noteq> [] \<and> is_slash (last ident)
      then (let i = rstrip_by is_slash ident in if i = [] then None else Some i)
      else Some ident)"

definition parse_uri :: "string \<Rightarrow> parsed_uri option" where
  "parse_uri uri =
     (if py_in uri CHR ''{'' \<or> py_in uri CHR ''}'' then None
      else case match_typed_in_coll uri of
        Some (vault, coll_path, rtype, ident) \<Rightarrow>
          (case strip_trailing_slash ident of
             None \<Rightarrow> None
           | Some ident \<Rightarrow>
               Some \<lparr>pu_vault = vault, pu_kind = rtype,
                     pu_identifier = Some (if rtype = ''doc'' then coll_path @ ''/'' @ ident else ident),
                     pu_coll_path = Some coll_path\<rparr>)
      | None \<Rightarrow>
      (case match_coll_only uri of
        Some (vault, coll_path) \<Rightarrow>
          (let coll_path = rstrip_by is_slash coll_path
           in if coll_path = '''' then None
              else Some \<lparr>pu_vault = vault, pu_kind = ''coll'', pu_identifier = Some coll_path,
                         pu_coll_path = Some coll_path\<rparr>)
      | None \<Rightarrow>
      (case match_typed_root uri of
        Some (vault, rtype, ident) \<Rightarrow>
          (case strip_trailing_slash ident of
             None \<Rightarrow> None
           | Some ident \<Rightarrow>
               Some \<lparr>pu_vault = vault, pu_kind = rtype, pu_identifier = Some ident,
                     pu_coll_path = None\<rparr>)
      | None \<Rightarrow>
      (case match_vault_only uri of
        Some vault \<Rightarrow> Some \<lparr>pu_vault = vault, pu_kind = ''vault'', pu_identifier = None, pu_coll_path = None\<rparr>
      | None \<Rightarrow> None))))"

definition vault_of :: "string \<Rightarrow> string option" where
  "vault_of uri = map_option pu_vault (parse_uri uri)"

section \<open>Builders\<close>

definition vault_uri :: "string \<Rightarrow> string" where
  "vault_uri vault = ''akb://'' @ vault"

definition coll_uri :: "string \<Rightarrow> string \<Rightarrow> string result" where
  "coll_uri vault coll_path =
     (if coll_path = '''' then Inl PyValueError else Inr (''akb://'' @ vault @ ''/coll/'' @ coll_path))"

definition doc_uri :: "string \<Rightarrow> string \<Rightarrow> string" where
  "doc_uri vault path =
     (if py_in path CHR ''/''
      then (let (coll_path, basename) = rsplit_slash path
            in ''akb://'' @ vault @ ''/coll/'' @ coll_path @ ''/doc/'' @ basename)
      else ''akb://'' @ vault @ ''/doc/'' @ path)"

definition table_uri :: "string \<Rightarrow> string \<Rightarrow> string option \<Rightarrow> string" where
  "table_uri vault name collection =
     (case collection of
        Some c \<Rightarrow> if c \<noteq> '''' then ''akb://'' @ vault @ ''/coll/'' @ c @ ''/table/'' @ name
                  else ''akb://'' @ vault @ ''/table/'' @ name
      | None \<Rightarrow> ''akb://'' @ vault @ ''/table/'' @ name)"

definition file_uri :: "string \<Rightarrow> string \<Rightarrow> string option \<Rightarrow> string" where
  "file_uri vault file_id collection =
     (case collection of
        Some c \<Rightarrow> if c \<noteq> '''' then ''akb://'' @ vault @ ''/coll/'' @ c @ ''/file/'' @ file_id
                  else ''akb://'' @ vault @ ''/file/'' @ file_id
      | None \<Rightarrow> ''akb://'' @ vault @ ''/file/'' @ file_id)"

section \<open>Splitters\<close>

definition split_uri :: "string \<Rightarrow> string option \<Rightarrow> (string \<times> string) result" where
  "split_uri uri expected_type =
     (case parse_uri uri of
        None \<Rightarrow> Inl PyValueError
      | Some p \<Rightarrow>
          if pu_kind p = ''vault'' \<or> pu_kind p = ''coll'' then Inl PyValueError
          else if (\<exists>t. expected_type = Some t \<and> t \<noteq> '''' \<and> pu_kind p \<noteq> t) then Inl PyValueError
          else Inr (pu_vault p, case pu_identifier p of Some i \<Rightarrow> i | None \<Rightarrow> ''''))"

definition split_browse_uri :: "string \<Rightarrow> (string \<times> string option) result" where
  "split_browse_uri uri =
     (case parse_uri uri of
        None \<Rightarrow> Inl PyValueError
      | Some p \<Rightarrow>
          if pu_kind p = ''vault'' then Inr (pu_vault p, None)
          else if pu_kind p = ''coll'' then Inr (pu_vault p, pu_coll_path p)
          else Inl PyValueError)"

section \<open>Well-formed components\<close>

definition plain_seg :: "string \<Rightarrow> bool" where
  "plain_seg p \<longleftrightarrow> p \<noteq> [] \<and> CHR ''/'' \<notin> set p \<and> CHR ''{'' \<notin> set p \<and> CHR ''}'' \<notin> set p"

definition plain_path :: "string \<Rightarrow> bool" where
  "plain_path c \<longleftrightarrow> (\<forall>p\<in>set (py_split CHR ''/'' c). plain_seg p)"

definition plain_ident :: "string \<Rightarrow> bool" where
  "plain_ident b \<longleftrightarrow> plain_seg b \<and> CHR 0x0A \<notin> set b"

lemma plain_path_chars:
  assumes "plain_path c"
  shows "c \<noteq> []" and "CHR ''{'' \<notin> set c" and "CHR ''}'' \<notin> set c"
    and "'''' \<notin> set (py_split CHR ''/'' c)" and "\<not> is_slash (last c)"
proof -
  have j: "py_join ''/'' (py_split CHR ''/'' c) = c" by (rule py_join_split)
  show "c \<noteq> []" using assms by (auto simp: plain_path_def plain_seg_def)
  show "CHR ''{'' \<notin> set c" and "CHR ''}'' \<notin> set c"
    using assms j set_py_join [of _ "''/''" "py_split CHR ''/'' c"]
    by (auto simp: plain_path_def plain_seg_def)
  show "'''' \<notin> set (py_split CHR ''/'' c)" using assms by (auto simp: plain_path_def plain_seg_def)
  have "last (py_split CHR ''/'' c) \<in> set (py_split CHR ''/'' c)" by simp
  then have l: "plain_seg (last (py_split CHR ''/'' c))" using assms by (simp add: plain_path_def)
  show "\<not> is_slash (last c)"
  proof (cases "butlast (py_split CHR ''/'' c) = []")
    case True
    then have "py_split CHR ''/'' c = [last (py_split CHR ''/'' c)]"
      by (metis append_Nil append_butlast_last_id py_split_not_Nil)
    then have "c = last (py_split CHR ''/'' c)" using j by (metis py_join.simps(2))
    with l show ?thesis by (metis last_in_set plain_seg_def)
  next
    case False
    then have "c = py_join ''/'' (butlast (py_split CHR ''/'' c)) @ ''/'' @ last (py_split CHR ''/'' c)"
      using j py_join_append [of "butlast (py_split CHR ''/'' c)" "[last (py_split CHR ''/'' c)]" "''/''"]
      by simp
    then have "last c = last (last (py_split CHR ''/'' c))"
      using l by (metis Nil_is_append_conv last_appendR plain_seg_def)
    with l show ?thesis by (metis last_in_set plain_seg_def)
  qed
qed

lemma last_plain_ident: "plain_ident b \<Longrightarrow> b \<noteq> [] \<and> last b \<noteq> CHR 0x0A \<and> \<not> is_slash (last b)"
proof -
  assume b: "plain_ident b"
  then have "last b \<in> set b" by (simp add: plain_ident_def plain_seg_def)
  with b show ?thesis unfolding plain_ident_def plain_seg_def by metis
qed

lemma match_ident_plain: "plain_ident b \<Longrightarrow> match_ident b = Some b"
  using last_plain_ident [of b] by (simp add: match_ident_def plain_ident_def Let_def)

lemma strip_trailing_slash_plain: "plain_ident b \<Longrightarrow> strip_trailing_slash b = Some b"
  using last_plain_ident [of b] by (simp add: strip_trailing_slash_def)

lemma typed_at_end:
  assumes "List.member RESOURCE_LEAF_TYPES t" and "plain_ident b" and "cs \<noteq> []" and "'''' \<notin> set cs"
  shows "find_typed (cs @ [t, b]) (length (cs @ [t, b])) = Some (py_join ''/'' cs, t, b)"
proof -
  have l: "Suc 0 \<le> length cs" using assms(3) by (cases cs) auto
  have "typed_at (cs @ [t, b]) (Suc (Suc (length cs))) = None"
    and "typed_at (cs @ [t, b]) (Suc (length cs)) = None"
    by (simp_all add: typed_at_def)
  moreover have "typed_at (cs @ [t, b]) (length cs) = Some (py_join ''/'' cs, t, b)"
    using assms l by (simp add: typed_at_def match_ident_plain nth_append)
  moreover have "find_typed (cs @ [t, b]) (length cs) =
      (case typed_at (cs @ [t, b]) (length cs) of Some r \<Rightarrow> Some r
       | None \<Rightarrow> find_typed (cs @ [t, b]) (length cs - 1))"
    using find_typed.simps(2) [of "cs @ [t, b]" "length cs - 1"] l
    unfolding Suc_diff_1 [OF l [folded less_eq_Suc_le]] by blast
  ultimately show ?thesis by simp
qed

lemma find_typed_None:
  "\<forall>s\<in>set segs. \<not> List.member RESOURCE_LEAF_TYPES s \<Longrightarrow> find_typed segs k = None"
proof (induction k)
  case (Suc k)
  then show ?case by (auto simp: typed_at_def)
qed simp

section \<open>Round trips\<close>

lemma parse_typed_in_coll:
  assumes v: "plain_seg v" and c: "plain_path c" and t: "List.member RESOURCE_LEAF_TYPES t" and b: "plain_ident b"
  shows "parse_uri (''akb://'' @ v @ ''/coll/'' @ c @ ''/'' @ t @ ''/'' @ b) =
    Some \<lparr>pu_vault = v, pu_kind = t,
          pu_identifier = Some (if t = ''doc'' then c @ ''/'' @ b else b), pu_coll_path = Some c\<rparr>"
proof -
  let ?u = "''akb://'' @ v @ ''/coll/'' @ c @ ''/'' @ t @ ''/'' @ b"
  have t': "CHR ''/'' \<notin> set t" "CHR ''{'' \<notin> set t" "CHR ''}'' \<notin> set t"
    using t by (auto simp: RESOURCE_LEAF_TYPES_def)
  note [simp] = plain_path_chars(2,3) [OF c]
  have "py_split CHR ''/'' (v @ ''/coll/'' @ c @ ''/'' @ t @ ''/'' @ b) =
      v # ''coll'' # py_split CHR ''/'' c @ [t, b]"
    using v b t' by (simp add: py_split_append py_split_no_sep plain_seg_def plain_ident_def)
  then have "match_typed_in_coll ?u = Some (v, c, t, b)"
    using v typed_at_end [OF t b _ plain_path_chars(4) [OF c]]
    by (simp add: match_typed_in_coll_def plain_seg_def py_join_split)
  moreover have "\<not> py_in ?u CHR ''{''" and "\<not> py_in ?u CHR ''}''"
    using v b t' by (auto simp: py_in_def plain_seg_def plain_ident_def)
  ultimately show ?thesis using b by (simp add: parse_uri_def strip_trailing_slash_plain)
qed

lemma parse_typed_root:
  assumes v: "plain_seg v" and t: "List.member RESOURCE_LEAF_TYPES t"
    and i: "match_ident i = Some i" and n: "strip_trailing_slash i = Some j"
    and br: "CHR ''{'' \<notin> set i" "CHR ''}'' \<notin> set i"
  shows "parse_uri (''akb://'' @ v @ ''/'' @ t @ ''/'' @ i) =
    Some \<lparr>pu_vault = v, pu_kind = t, pu_identifier = Some j, pu_coll_path = None\<rparr>"
proof -
  let ?u = "''akb://'' @ v @ ''/'' @ t @ ''/'' @ i"
  have t': "CHR ''/'' \<notin> set t" "CHR ''{'' \<notin> set t" "CHR ''}'' \<notin> set t" "t \<noteq> ''coll''"
    using t by (auto simp: RESOURCE_LEAF_TYPES_def)
  have s: "py_split CHR ''/'' (v @ ''/'' @ t @ ''/'' @ i) = v # t # py_split CHR ''/'' i"
    using v t' by (simp add: py_split_append py_split_no_sep plain_seg_def)
  then have "match_typed_in_coll ?u = None" and "match_coll_only ?u = None"
    using t' by (simp_all add: match_typed_in_coll_def match_coll_only_def)
  moreover have "match_typed_root ?u = Some (v, t, i)"
    using s v t i by (simp add: match_typed_root_def plain_seg_def py_join_split)
  moreover have "\<not> py_in ?u CHR ''{''" and "\<not> py_in ?u CHR ''}''"
    using v t' br by (auto simp: py_in_def plain_seg_def)
  ultimately show ?thesis using n by (simp add: parse_uri_def)
qed

lemma doc_uri_in_coll:
  assumes "CHR ''/'' \<notin> set b"
  shows "doc_uri v (c @ ''/'' @ b) = ''akb://'' @ v @ ''/coll/'' @ c @ ''/'' @ ''doc'' @ ''/'' @ b"
  using assms by (simp add: doc_uri_def py_in_def rsplit_slash_append)

text \<open>What a document path parses back to: the path itself, and its directory as the collection.\<close>

definition parsed_doc :: "string \<Rightarrow> string \<Rightarrow> parsed_uri" where
  "parsed_doc v p = \<lparr>pu_vault = v, pu_kind = ''doc'', pu_identifier = Some p,
     pu_coll_path = (if py_in p CHR ''/'' then Some (fst (rsplit_slash p)) else None)\<rparr>"

definition addressable_doc :: "string \<Rightarrow> bool" where
  "addressable_doc p \<longleftrightarrow> plain_path p \<and> plain_ident (last (py_split CHR ''/'' p))"

lemma plain_ident_path: "plain_ident b \<Longrightarrow> plain_path b"
  by (simp add: plain_ident_def plain_path_def plain_seg_def py_split_no_sep)

lemma addressable_doc_cases:
  assumes "addressable_doc p"
  obtains "plain_ident p" | c b where "p = c @ ''/'' @ b" "plain_path c" "plain_ident b"
proof (cases "py_in p CHR ''/''")
  case True
  define c b where "c = fst (rsplit_slash p)" and "b = snd (rsplit_slash p)"
  have p: "p = c @ CHR ''/'' # b" and nb: "CHR ''/'' \<notin> set b"
    using rsplit_slash_join [OF True] by (simp_all add: c_def b_def)
  then have "py_split CHR ''/'' p = py_split CHR ''/'' c @ [b]"
    by (simp add: py_split_append py_split_no_sep)
  with assms have "plain_path c" "plain_ident b" by (simp_all add: addressable_doc_def plain_path_def)
  with p show ?thesis using that(2) by simp
next
  case False
  with assms have "plain_ident p" by (simp add: addressable_doc_def py_in_def py_split_no_sep)
  then show ?thesis by (rule that(1))
qed

text \<open>
  C33: parsing inverts \<open>doc_uri\<close>: for every vault name and every document path of plain segments, at
  the root or in a collection of any depth (segments named \<open>doc\<close>, \<open>table\<close> or \<open>file\<close> included), the
  URI a document is given parses back to its vault, its full path and its collection.
\<close>

theorem parse_doc_uri:
  assumes "plain_seg v" and "addressable_doc p"
  shows "parse_uri (doc_uri v p) = Some (parsed_doc v p)"
  using assms(2)
proof (cases rule: addressable_doc_cases)
  case 1
  then have "CHR ''/'' \<notin> set p" "CHR ''{'' \<notin> set p" "CHR ''}'' \<notin> set p"
    by (simp_all add: plain_ident_def plain_seg_def)
  then show ?thesis
    using parse_typed_root [OF assms(1) _ match_ident_plain [OF 1] strip_trailing_slash_plain [OF 1], of "''doc''"]
    by (simp add: doc_uri_def parsed_doc_def py_in_def RESOURCE_LEAF_TYPES_def)
next
  case (2 c b)
  then have "CHR ''/'' \<notin> set b" by (simp add: plain_ident_def plain_seg_def)
  then show ?thesis
    using parse_typed_in_coll [OF assms(1) 2(2) _ 2(3), of "''doc''"] 2(1)
    by (simp add: doc_uri_in_coll [simplified] doc_uri_def parsed_doc_def py_in_def rsplit_slash_append
        RESOURCE_LEAF_TYPES_def)
qed

theorem parse_doc_uri_witness:
  "parse_uri (doc_uri ''eng'' ''doc/specs/api.md'') = Some (parsed_doc ''eng'' ''doc/specs/api.md'')"
proof -
  have v: "plain_seg ''eng''" by (simp add: plain_seg_def)
  have p: "addressable_doc ''doc/specs/api.md''"
    by (simp add: addressable_doc_def plain_path_def plain_ident_def plain_seg_def)
  show ?thesis by (rule parse_doc_uri [OF v p])
qed

definition leaf_uri :: "string \<Rightarrow> string \<Rightarrow> string \<Rightarrow> string option \<Rightarrow> string" where
  "leaf_uri kind v name coll =
     (if kind = ''table'' then table_uri v name coll else file_uri v name coll)"

text \<open>
  parsing inverts \<open>table_uri\<close> and \<open>file_uri\<close>: the vault, the table name or file id, and the
  collection (none at the vault root) come back, and \<open>split_uri\<close> hands the handler exactly the
  vault and the identifier when it asks for that kind, a \<open>ValueError\<close> when it asks for another.
\<close>

theorem parse_leaf_uri:
  assumes "plain_seg v" and "plain_ident n" and "\<forall>c. coll = Some c \<longrightarrow> plain_path c"
    and "kind = ''table'' \<or> kind = ''file''"
  shows "parse_uri (leaf_uri kind v n coll) =
      Some \<lparr>pu_vault = v, pu_kind = kind, pu_identifier = Some n, pu_coll_path = coll\<rparr> \<and>
    split_uri (leaf_uri kind v n coll) (Some t) =
      (if t = '''' \<or> t = kind then Inr (v, n) else Inl PyValueError)"
proof -
  have br: "CHR ''{'' \<notin> set n" "CHR ''}'' \<notin> set n"
    using assms(2) by (simp_all add: plain_ident_def plain_seg_def)
  have mem: "List.member RESOURCE_LEAF_TYPES kind"
    using assms(4) by (auto simp: RESOURCE_LEAF_TYPES_def)
  have "parse_uri (leaf_uri kind v n coll) =
      Some \<lparr>pu_vault = v, pu_kind = kind, pu_identifier = Some n, pu_coll_path = coll\<rparr>"
  proof (cases coll)
    case None
    then show ?thesis
      using parse_typed_root [OF assms(1) mem match_ident_plain [OF assms(2)]
          strip_trailing_slash_plain [OF assms(2)] br] assms(4)
      by (auto simp: leaf_uri_def table_uri_def file_uri_def)
  next
    case (Some c)
    with assms(3) have c: "plain_path c" by simp
    then show ?thesis
      using parse_typed_in_coll [OF assms(1) c mem assms(2)] assms(4) plain_path_chars(1) [OF c] Some
      by (auto simp: leaf_uri_def table_uri_def file_uri_def)
  qed
  moreover from this have "split_uri (leaf_uri kind v n coll) (Some t) =
      (if t = '''' \<or> t = kind then Inr (v, n) else Inl PyValueError)"
    using assms(4) by (auto simp: split_uri_def)
  ultimately show ?thesis ..
qed

theorem parse_leaf_uri_witness:
  "parse_uri (leaf_uri ''table'' ''eng'' ''expenses'' (Some ''finance/q1'')) =
      Some \<lparr>pu_vault = ''eng'', pu_kind = ''table'', pu_identifier = Some ''expenses'',
            pu_coll_path = Some ''finance/q1''\<rparr> \<and>
    split_uri (leaf_uri ''table'' ''eng'' ''expenses'' (Some ''finance/q1'')) (Some ''doc'') =
      (if ''doc'' = '''' \<or> ''doc'' = ''table'' then Inr (''eng'', ''expenses'') else Inl PyValueError)"
proof -
  have v: "plain_seg ''eng''" by (simp add: plain_seg_def)
  have n: "plain_ident ''expenses''" by (simp add: plain_ident_def plain_seg_def)
  have c: "\<forall>c. Some ''finance/q1'' = Some c \<longrightarrow> plain_path c" by (simp add: plain_path_def plain_seg_def)
  have k: "''table'' = ''table'' \<or> ''table'' = ''file''" by simp
  show ?thesis by (rule parse_leaf_uri [OF v n c k, of "''doc''"])
qed

text \<open>A normalized collection path never looks like a typed URI, so its URI is a browse target.\<close>

lemma parse_coll_uri:
  assumes v: "plain_seg v" and c: "plain_path c"
    and r: "\<forall>s\<in>set (py_split CHR ''/'' c). s \<notin> set RESERVED_COLLECTION_SEGMENTS"
  shows "parse_uri (''akb://'' @ v @ ''/coll/'' @ c) =
    Some \<lparr>pu_vault = v, pu_kind = ''coll'', pu_identifier = Some c, pu_coll_path = Some c\<rparr>"
proof -
  let ?u = "''akb://'' @ v @ ''/coll/'' @ c"
  note pc = plain_path_chars [OF c]
  have s: "py_split CHR ''/'' (v @ ''/coll/'' @ c) = v # ''coll'' # py_split CHR ''/'' c"
    using v by (simp add: py_split_append py_split_no_sep plain_seg_def)
  have "\<forall>s\<in>set (py_split CHR ''/'' c). \<not> List.member RESOURCE_LEAF_TYPES s"
    using r by (auto simp: RESERVED_COLLECTION_SEGMENTS_def RESOURCE_LEAF_TYPES_def)
  with s have "match_typed_in_coll ?u = None"
    by (simp add: match_typed_in_coll_def find_typed_None)
  moreover have "last (py_split CHR ''/'' c) \<noteq> ''''"
    using pc(4) last_in_set [of "py_split CHR ''/'' c"] by force
  then have "match_coll_only ?u = Some (v, c)"
    using s v pc(4) by (simp add: match_coll_only_def plain_seg_def py_join_split Let_def)
  moreover have "rstrip_by is_slash c = c" using pc(5) by (rule rstrip_by_idle [OF disjI2])
  moreover have "\<not> py_in ?u CHR ''{''" and "\<not> py_in ?u CHR ''}''"
    using v pc(2,3) by (auto simp: py_in_def plain_seg_def)
  ultimately show ?thesis using pc(1) by (simp add: parse_uri_def)
qed

text \<open>
  C34: every collection path the normalizer produces can be browsed: unless it holds a brace, the
  URI built for it parses back to the same vault and collection. A path that holds a brace is
  accepted by the normalizer and gets a URI that the parser refuses.
\<close>

theorem browse_normalized_collection:
  assumes "plain_seg v" and "normalize_collection_path path False = Inr c"
  shows "\<exists>u. coll_uri v c = Inr u \<and>
    split_browse_uri u = (if py_in c CHR ''{'' \<or> py_in c CHR ''}'' then Inl PyValueError else Inr (v, Some c))"
proof -
  from assms(2) have ne: "c \<noteq> ''''"
    by (auto simp: normalize_collection_path_def Let_def check_segments_Inr py_join_split rbind_Inr_iff
        split: option.splits if_splits)
  note ok = normalize_cases(2) [OF assms(2) ne]
  let ?u = "''akb://'' @ v @ ''/coll/'' @ c"
  have "coll_uri v c = Inr ?u" using ne by (simp add: coll_uri_def)
  moreover have "split_browse_uri ?u = Inr (v, Some c)" if "\<not> py_in c CHR ''{''" "\<not> py_in c CHR ''}''"
  proof -
    have "CHR ''{'' \<notin> set p \<and> CHR ''}'' \<notin> set p" if "p \<in> set (py_split CHR ''/'' c)" for p
      using \<open>\<not> py_in c CHR ''{''\<close> \<open>\<not> py_in c CHR ''}''\<close> py_split_subset [OF that] by (auto simp: py_in_def)
    with ok have "plain_path c"
      using py_split_pieces segment_ok_props(1) by (auto simp: plain_path_def plain_seg_def)
    moreover have "\<forall>s\<in>set (py_split CHR ''/'' c). s \<notin> set RESERVED_COLLECTION_SEGMENTS"
      using ok segment_ok_props(3) by blast
    ultimately show ?thesis
      using parse_coll_uri [OF assms(1)] by (simp add: split_browse_uri_def)
  qed
  moreover have "split_browse_uri ?u = Inl PyValueError" if "py_in c CHR ''{'' \<or> py_in c CHR ''}''"
    using that by (auto simp: split_browse_uri_def parse_uri_def py_in_def)
  ultimately show ?thesis by auto
qed

theorem browse_normalized_collection_witness:
  "\<exists>u. coll_uri ''eng'' ''specs/{v1}'' = Inr u \<and>
    split_browse_uri u = (if py_in ''specs/{v1}'' CHR ''{'' \<or> py_in ''specs/{v1}'' CHR ''}''
      then Inl PyValueError else Inr (''eng'', Some ''specs/{v1}''))"
proof -
  have v: "plain_seg ''eng''" by (simp add: plain_seg_def)
  have n: "normalize_collection_path (Some '' /specs/{v1}/'') False = Inr ''specs/{v1}''"
    by code_simp
  show ?thesis by (rule browse_normalized_collection [OF v n])
qed

text \<open>
  a document has two URIs. The pre-0.3.0 form, with the whole path after \<open>doc/\<close>, parses to the
  same vault and identifier as the canonical one; only the collection differs.
\<close>

theorem legacy_doc_uri_parses:
  assumes "plain_seg v" and "plain_path c" and "plain_ident b" and "CHR 0x0A \<notin> set c"
  shows "parse_uri (''akb://'' @ v @ ''/doc/'' @ c @ ''/'' @ b) =
      Some \<lparr>pu_vault = v, pu_kind = ''doc'', pu_identifier = Some (c @ ''/'' @ b), pu_coll_path = None\<rparr> \<and>
    split_uri (''akb://'' @ v @ ''/doc/'' @ c @ ''/'' @ b) (Some ''doc'') =
      split_uri (doc_uri v (c @ ''/'' @ b)) (Some ''doc'')"
proof -
  let ?i = "c @ ''/'' @ b"
  have l: "last ?i = last b" "b \<noteq> []" "\<not> is_slash (last b)" "last b \<noteq> CHR 0x0A"
    using last_plain_ident [OF assms(3)] by simp_all
  have "match_ident ?i = Some ?i"
    using l assms(3,4) by (simp add: match_ident_def Let_def plain_ident_def)
  moreover have "strip_trailing_slash ?i = Some ?i" using l by (simp add: strip_trailing_slash_def)
  moreover have "CHR ''{'' \<notin> set ?i" "CHR ''}'' \<notin> set ?i"
    using plain_path_chars(2,3) [OF assms(2)] assms(3) by (auto simp: plain_ident_def plain_seg_def)
  ultimately have p: "parse_uri (''akb://'' @ v @ ''/'' @ ''doc'' @ ''/'' @ ?i) =
      Some \<lparr>pu_vault = v, pu_kind = ''doc'', pu_identifier = Some ?i, pu_coll_path = None\<rparr>"
    using parse_typed_root [OF assms(1), of "''doc''" ?i ?i] by (simp add: RESOURCE_LEAF_TYPES_def)
  have nb: "CHR ''/'' \<notin> set b" using assms(3) by (simp add: plain_ident_def plain_seg_def)
  have "parse_uri (doc_uri v ?i) =
      Some \<lparr>pu_vault = v, pu_kind = ''doc'', pu_identifier = Some ?i, pu_coll_path = Some c\<rparr>"
    using parse_typed_in_coll [OF assms(1,2) _ assms(3), of "''doc''"]
    by (simp add: doc_uri_in_coll [OF nb, simplified] RESOURCE_LEAF_TYPES_def)
  with p show ?thesis by (simp add: split_uri_def)
qed

theorem legacy_doc_uri_parses_witness:
  "parse_uri (''akb://'' @ ''eng'' @ ''/doc/'' @ ''specs'' @ ''/'' @ ''api.md'') =
      Some \<lparr>pu_vault = ''eng'', pu_kind = ''doc'', pu_identifier = Some (''specs'' @ ''/'' @ ''api.md''),
            pu_coll_path = None\<rparr> \<and>
    split_uri (''akb://'' @ ''eng'' @ ''/doc/'' @ ''specs'' @ ''/'' @ ''api.md'') (Some ''doc'') =
      split_uri (doc_uri ''eng'' (''specs'' @ ''/'' @ ''api.md'')) (Some ''doc'')"
proof -
  have v: "plain_seg ''eng''" by (simp add: plain_seg_def)
  have c: "plain_path ''specs''" by (simp add: plain_path_def plain_seg_def)
  have b: "plain_ident ''api.md''" by (simp add: plain_ident_def plain_seg_def)
  have n: "CHR 0x0A \<notin> set ''specs''" by simp
  show ?thesis by (rule legacy_doc_uri_parses [OF v c b n])
qed

end
