(* ===== verification/Tables.thy ===== *)
theory Tables
  imports Prelude
begin

text \<open>
  Database tables. A table is the list of its rows in the order a scan returns them; a unique
  constraint is a key function whose values are distinct along the list. The SQL statements the
  services use on such a table are the definitions below, and the locale states, once for every
  table, what they promise: \<open>INSERT .. ON CONFLICT (key) DO UPDATE\<close> and \<open>DELETE .. WHERE key = k\<close>
  keep the key unique, are seen by the next \<open>SELECT\<close> on the key and leave every other row alone.
\<close>

definition tab_get :: "('r \<Rightarrow> 'k) \<Rightarrow> 'k \<Rightarrow> 'r list \<Rightarrow> 'r option" where
  "tab_get key k rows = find (\<lambda>r. key r = k) rows"

text \<open>What \<open>ON CONFLICT (key) DO UPDATE\<close> makes of a stored row.\<close>

definition tab_conflict :: "('r \<Rightarrow> 'k) \<Rightarrow> ('r \<Rightarrow> 'r \<Rightarrow> 'r) \<Rightarrow> 'r \<Rightarrow> 'r \<Rightarrow> 'r" where
  "tab_conflict key upd new r = (if key r = key new then upd new r else r)"

definition tab_upsert :: "('r \<Rightarrow> 'k) \<Rightarrow> ('r \<Rightarrow> 'r \<Rightarrow> 'r) \<Rightarrow> 'r \<Rightarrow> 'r list \<Rightarrow> 'r list" where
  "tab_upsert key upd new rows =
     (if key new \<in> key ` set rows
      then map (tab_conflict key upd new) rows
      else rows @ [new])"

definition tab_delete :: "('r \<Rightarrow> 'k) \<Rightarrow> 'k \<Rightarrow> 'r list \<Rightarrow> 'r list" where
  "tab_delete key k rows = filter (\<lambda>r. key r \<noteq> k) rows"

definition tab_update :: "('r \<Rightarrow> 'k) \<Rightarrow> 'k \<Rightarrow> ('r \<Rightarrow> 'r) \<Rightarrow> 'r list \<Rightarrow> 'r list" where
  "tab_update key k f rows = map (\<lambda>r. if key r = k then f r else r) rows"

definition unique_by :: "('r \<Rightarrow> 'k) \<Rightarrow> 'r list \<Rightarrow> bool" where
  "unique_by key rows \<longleftrightarrow> distinct (map key rows)"

named_theorems tab_simps \<open>what the next SELECT sees\<close>

lemma tab_get_Nil [tab_simps]: "tab_get key k [] = None"
  by (simp add: tab_get_def)

lemma tab_get_Cons: "tab_get key k (r # rs) = (if key r = k then Some r else tab_get key k rs)"
  by (simp add: tab_get_def)

lemma tab_get_None_iff: "tab_get key k rows = None \<longleftrightarrow> k \<notin> key ` set rows"
  by (auto simp: tab_get_def find_None_iff)

lemma tab_get_Some: "tab_get key k rows = Some r \<Longrightarrow> r \<in> set rows \<and> key r = k"
  unfolding tab_get_def by (rule find_Some_in)

lemma tab_get_key: "tab_get key k rows = Some r \<Longrightarrow> key r = k"
  by (drule tab_get_Some) simp

lemma tab_get_unique: "unique_by key rows \<Longrightarrow> r \<in> set rows \<Longrightarrow> tab_get key (key r) rows = Some r"
  by (induction rows) (auto simp: unique_by_def tab_get_Cons)

lemma unique_by_filter: "unique_by key rows \<Longrightarrow> unique_by key (filter P rows)"
  by (simp add: unique_by_def distinct_map_filter)

lemma unique_by_map: "(\<And>r. key (f r) = key r) \<Longrightarrow> unique_by key (map f rows) = unique_by key rows"
  by (simp add: unique_by_def comp_def)

lemma unique_by_key_eq:
  "unique_by key rows \<Longrightarrow> r \<in> set rows \<Longrightarrow> s \<in> set rows \<Longrightarrow> key r = key s \<Longrightarrow> r = s"
  using tab_get_unique by (metis option.inject)

lemma tab_get_filter:
  "unique_by key rows \<Longrightarrow> tab_get key k (filter P rows) =
    (case tab_get key k rows of None \<Rightarrow> None | Some r \<Rightarrow> if P r then Some r else None)"
proof (induction rows)
  case (Cons r rows)
  then have u: "unique_by key rows" by (simp add: unique_by_def)
  have "key r \<notin> key ` set rows" using Cons.prems by (simp add: unique_by_def)
  then have "key r = k \<Longrightarrow> tab_get key k (filter P rows) = None"
    by (auto simp: tab_get_None_iff)
  then show ?case using Cons.IH [OF u] by (auto simp: tab_get_Cons split: option.splits)
qed (simp add: tab_get_def)

lemma tab_get_map:
  assumes "\<And>r. key (f r) = key r"
  shows "tab_get key k (map f rows) = map_option f (tab_get key k rows)"
  unfolding tab_get_def by (rule find_map_same) (simp add: assms)

lemma tab_get_append:
  "tab_get key k (xs @ ys) = (case tab_get key k xs of Some r \<Rightarrow> Some r | None \<Rightarrow> tab_get key k ys)"
  by (induction xs) (simp_all add: tab_get_def)

lemma set_tab_delete: "set (tab_delete key k rows) = {r \<in> set rows. key r \<noteq> k}"
  by (auto simp: tab_delete_def)

locale unique_table =
  fixes key :: "'r \<Rightarrow> 'k" and upd :: "'r \<Rightarrow> 'r \<Rightarrow> 'r"
  assumes key_upd: "key new = key old \<Longrightarrow> key (upd new old) = key old"
begin

lemma key_step: "key (tab_conflict key upd new r) = key r"
  using key_upd [of new r] by (simp add: tab_conflict_def)

lemma get_upsert:
  "tab_get key k (tab_upsert key upd new rows) =
     (if k = key new
      then Some (case tab_get key k rows of None \<Rightarrow> new | Some old \<Rightarrow> upd new old)
      else tab_get key k rows)"
proof (cases "key new \<in> key ` set rows")
  case True
  then have "tab_get key (key new) rows \<noteq> None" by (simp add: tab_get_None_iff)
  moreover have "tab_get key k (tab_upsert key upd new rows) =
      map_option (tab_conflict key upd new) (tab_get key k rows)"
    using True tab_get_map [where key = key and f = "tab_conflict key upd new", OF key_step]
    by (simp add: tab_upsert_def)
  ultimately show ?thesis
    using tab_get_key [of key k rows] by (cases "tab_get key k rows") (auto simp: tab_conflict_def)
next
  case False
  then have "tab_get key (key new) rows = None" by (simp add: tab_get_None_iff)
  with False show ?thesis
    by (auto simp: tab_upsert_def tab_get_append tab_get_Cons tab_get_Nil split: option.splits)
qed

lemma get_delete:
  "unique_by key rows \<Longrightarrow>
   tab_get key k (tab_delete key k' rows) = (if k = k' then None else tab_get key k rows)"
  unfolding tab_delete_def using tab_get_filter [of key rows k "\<lambda>r. key r \<noteq> k'"]
  by (auto split: option.splits dest: tab_get_key)

lemma unique_upsert: "unique_by key rows \<Longrightarrow> unique_by key (tab_upsert key upd new rows)"
  unfolding tab_upsert_def
  using unique_by_map [where key = key and f = "tab_conflict key upd new", OF key_step]
  by (auto simp: unique_by_def)

lemma unique_delete: "unique_by key rows \<Longrightarrow> unique_by key (tab_delete key k rows)"
  unfolding tab_delete_def by (rule unique_by_filter)

lemma in_upsert:
  "r \<in> set (tab_upsert key upd new rows) \<Longrightarrow>
     r \<in> set rows \<and> key r \<noteq> key new \<or> r = new \<or> (\<exists>old\<in>set rows. key old = key new \<and> r = upd new old)"
  by (cases "key new \<in> key ` set rows") (auto simp: tab_upsert_def tab_conflict_def image_iff)

lemma keys_upsert: "key ` set (tab_upsert key upd new rows) = insert (key new) (key ` set rows)"
proof (cases "key new \<in> key ` set rows")
  case True
  then show ?thesis by (auto simp: tab_upsert_def image_image key_step)
qed (auto simp: tab_upsert_def)

lemma filter_upsert_other:
  assumes "\<And>r. key r = key new \<Longrightarrow> \<not> P r"
  shows "filter P (tab_upsert key upd new rows) = filter P rows"
proof (cases "key new \<in> key ` set rows")
  case True
  have "filter P (map (tab_conflict key upd new) rows) = filter P rows"
  proof (induction rows)
    case (Cons r rows)
    then show ?case
      using assms [of r] assms [of "upd new r"] key_upd [of new r] by (auto simp: tab_conflict_def)
  qed simp
  with True show ?thesis by (simp add: tab_upsert_def)
next
  case False
  then show ?thesis using assms [of new] by (simp add: tab_upsert_def)
qed

end

end
