(* ===== verification/Catalog.thy ===== *)
theory Catalog
  imports Tables "HOL-Library.List_Lexorder" "HOL-Library.Char_ord" "HOL-Library.Product_Lexorder"
begin

text \<open>
  The catalog: the rows of the tables the access services read and write
  (\<^verbatim>\<open>backend/app/db/init.sql\<close>, migrations 044, 045 and 085), the PostgreSQL roles and memberships
  that \<^verbatim>\<open>role_sync\<close> projects from them, the event outbox, and the per-token vault scope of
  \<^verbatim>\<open>backend/app/models/vault_scope.py\<close>.

  A handler is a function from the catalog to a result; the transaction it runs is the function
  itself, so \<open>Inl\<close> is the rollback. \<open>clock\<close> is the transaction's \<open>NOW()\<close>. Row locks and the
  advisory lock of \<^verbatim>\<open>role_authority\<close> serialise the transactions and have no other effect here.
\<close>

section \<open>Rows\<close>

record user_row =
  u_id :: uuid
  u_name :: string
  u_is_admin :: bool
  u_status :: string
  u_kind :: string

record vault_row =
  v_id :: uuid
  v_name :: string
  v_owner :: "uuid option"
  v_status :: string
  v_public :: string
  v_description :: "string option"

record token_row =
  t_id :: uuid
  t_user :: uuid
  t_class :: string
  t_scopes :: "string list option"
  t_scope :: "json option"
  t_expires :: "nat option"

record access_row =
  a_vault :: uuid
  a_user :: uuid
  a_role :: string
  a_granted_by :: "uuid option"

record contribution =
  c_vault :: uuid
  c_user :: uuid
  c_source :: string
  c_role :: string
  c_granted_by :: "uuid option"
  c_revision :: int

record policy_row =
  p_vault :: uuid
  p_managed_by :: string
  p_note :: "string option"
  p_created_by :: string

record grant_row =
  g_vault :: uuid
  g_token :: uuid
  g_granted_by :: string
  g_actions :: "string list"

record event =
  ev_kind :: string
  ev_vault :: "uuid option"
  ev_uri :: "string option"
  ev_actor :: "string option"
  ev_payload :: "(string \<times> json) list"

text \<open>
  \<open>vault_tables\<close> holds the (vault, logical name) pairs of the user tables, \<open>pg_tables\<close> the physical
  tables that exist and \<open>pg_privs\<close> the table privileges, as (role, table, privilege). A row of
  \<open>pg_auth_members\<close>: \<open>GRANT e_group TO e_member\<close>, by whom and with which options.\<close>

record membership =
  e_group :: string
  e_member :: string
  e_grantor :: string
  e_admin :: bool
  e_inherit :: bool
  e_set :: bool

record db =
  clock :: nat
  users :: "user_row list"
  vaults :: "vault_row list"
  mirrors :: "uuid list"
  tokens :: "token_row list"
  access :: "access_row list"
  contribs :: "contribution list"
  policies :: "policy_row list"
  grants :: "grant_row list"
  events :: "event list"
  pg_user :: string
  pg_roles :: "string list"
  pg_edges :: "membership list"
  vault_tables :: "(uuid \<times> string) list"
  pg_tables :: "string list"
  pg_privs :: "(string \<times> string \<times> string) list"

section \<open>Lookups\<close>

abbreviation user_by_id :: "db \<Rightarrow> uuid \<Rightarrow> user_row option" where
  "user_by_id d u \<equiv> tab_get u_id u (users d)"

abbreviation user_by_name :: "db \<Rightarrow> string \<Rightarrow> user_row option" where
  "user_by_name d n \<equiv> tab_get u_name n (users d)"

abbreviation vault_by_id :: "db \<Rightarrow> uuid \<Rightarrow> vault_row option" where
  "vault_by_id d v \<equiv> tab_get v_id v (vaults d)"

abbreviation vault_by_name :: "db \<Rightarrow> string \<Rightarrow> vault_row option" where
  "vault_by_name d n \<equiv> tab_get v_name n (vaults d)"

definition access_key :: "access_row \<Rightarrow> uuid \<times> uuid" where
  "access_key r = (a_vault r, a_user r)"

definition contrib_key :: "contribution \<Rightarrow> uuid \<times> uuid \<times> string" where
  "contrib_key c = (c_vault c, c_user c, c_source c)"

definition grant_key :: "grant_row \<Rightarrow> uuid \<times> uuid" where
  "grant_key g = (g_vault g, g_token g)"

definition access_role :: "db \<Rightarrow> uuid \<Rightarrow> uuid \<Rightarrow> string option" where
  "access_role d v u = map_option a_role (tab_get access_key (v, u) (access d))"

definition is_admin :: "db \<Rightarrow> uuid \<Rightarrow> bool" where
  "is_admin d u = (case user_by_id d u of Some r \<Rightarrow> u_is_admin r | None \<Rightarrow> False)"

definition is_mirror :: "db \<Rightarrow> uuid \<Rightarrow> bool" where
  "is_mirror d v = List.member (mirrors d) v"

text \<open>\<open>emit_event\<close>: the outbox row is appended in the caller's transaction.\<close>

definition emit_event ::
  "string \<Rightarrow> uuid option \<Rightarrow> string option \<Rightarrow> string option \<Rightarrow> (string \<times> json) list \<Rightarrow> db \<Rightarrow> db" where
  "emit_event kind vault uri actor payload d =
     d\<lparr>events := events d @ [\<lparr>ev_kind = kind, ev_vault = vault, ev_uri = uri, ev_actor = actor,
                             ev_payload = payload\<rparr>]\<rparr>"

text \<open>\<open>UPDATE vaults SET .. WHERE\<close>\<close>

definition update_vault_by_name :: "string \<Rightarrow> (vault_row \<Rightarrow> vault_row) \<Rightarrow> db \<Rightarrow> db" where
  "update_vault_by_name n f d = d\<lparr>vaults := tab_update v_name n f (vaults d)\<rparr>"

definition update_vault_by_id :: "uuid \<Rightarrow> (vault_row \<Rightarrow> vault_row) \<Rightarrow> db \<Rightarrow> db" where
  "update_vault_by_id i f d = d\<lparr>vaults := tab_update v_id i f (vaults d)\<rparr>"

text \<open>The primary keys and unique columns of the schema.\<close>

definition keys_ok :: "db \<Rightarrow> bool" where
  "keys_ok d \<longleftrightarrow> unique_by u_id (users d) \<and> unique_by u_name (users d)
     \<and> unique_by v_id (vaults d) \<and> unique_by v_name (vaults d) \<and> unique_by t_id (tokens d)
     \<and> unique_by access_key (access d) \<and> unique_by contrib_key (contribs d)
     \<and> unique_by p_vault (policies d) \<and> unique_by grant_key (grants d)"

section \<open>Vault scopes\<close>

text \<open>\<open>str()\<close> and \<open>repr()\<close> of a value \<open>json.loads\<close> returns.\<close>

fun nat_str :: "nat \<Rightarrow> string" where
  "nat_str n = (if n < 10 then [char_of (48 + n)] else nat_str (n div 10) @ [char_of (48 + n mod 10)])"

declare nat_str.simps [simp del]

definition int_str :: "int \<Rightarrow> string" where
  "int_str i = (if i < 0 then CHR ''-'' # nat_str (nat (- i)) else nat_str (nat i))"

definition repr_char :: "char \<Rightarrow> char \<Rightarrow> string" where
  "repr_char q c =
     (let n = of_char c :: nat in
      if c = CHR 0x5C \<or> c = q then [CHR 0x5C, c]
      else if n = 9 then [CHR 0x5C, CHR ''t'']
      else if n = 10 then [CHR 0x5C, CHR ''n'']
      else if n = 13 then [CHR 0x5C, CHR ''r'']
      else if n < 32 \<or> (127 \<le> n \<and> n \<le> 160) \<or> n = 173 then [CHR 0x5C, CHR ''x''] @ hex_fixed 2 n
      else [c])"

definition repr_str :: "string \<Rightarrow> string" where
  "repr_str s =
     (let q = (if py_in s CHR 0x27 \<and> \<not> py_in s CHR 0x22 then CHR 0x22 else CHR 0x27)
      in q # concat (map (repr_char q) s) @ [q])"

fun py_repr :: "json \<Rightarrow> string" where
  "py_repr JNull = ''None''"
| "py_repr (JBool b) = (if b then ''True'' else ''False'')"
| "py_repr (JInt i) = int_str i"
| "py_repr (JStr s) = repr_str s"
| "py_repr (JArr xs) = ''['' @ py_join '', '' (map py_repr xs) @ '']''"
| "py_repr (JObj kvs) = ''{'' @ py_join '', '' (map (\<lambda>kv. repr_str (fst kv) @ '': '' @ py_repr (snd kv)) kvs) @ ''}''"

definition py_str :: "json \<Rightarrow> string" where
  "py_str j = (case j of JStr s \<Rightarrow> s | _ \<Rightarrow> py_repr j)"

record vault_scope =
  vs_prefixes :: "string list"
  vs_extra :: "string set"

definition permits :: "vault_scope \<Rightarrow> string \<Rightarrow> bool" where
  "permits s vault_name \<longleftrightarrow>
     (\<exists>p\<in>set (vs_prefixes s). p \<noteq> '''' \<and> starts_with vault_name p) \<or> vault_name \<in> vs_extra s"

definition obj_get :: "(string \<times> json) list \<Rightarrow> string \<Rightarrow> json \<Rightarrow> json" where
  "obj_get kvs k dflt = (case map_of (rev kvs) k of Some v \<Rightarrow> v | None \<Rightarrow> dflt)"

text \<open>
  The column reaches \<open>from_db_json\<close> as the text of a \<open>jsonb\<close> value (no codec is registered on the
  pool), and \<open>json.loads\<close> gives the value back: the argument is that value, \<open>None\<close> for SQL NULL.
\<close>

definition from_db_json :: "json option \<Rightarrow> vault_scope option result" where
  "from_db_json raw =
     (case raw of
        None \<Rightarrow> Inr None
      | Some (JObj kvs) \<Rightarrow>
          (case (obj_get kvs ''prefixes'' (JArr []), obj_get kvs ''extra_vaults'' (JArr [])) of
             (JArr ps, JArr es) \<Rightarrow>
               Inr (Some \<lparr>vs_prefixes = sort (map py_str ps), vs_extra = set (map py_str es)\<rparr>)
           | _ \<Rightarrow> Inl PyValueError)
      | Some _ \<Rightarrow> Inl PyValueError)"

definition to_db_json :: "vault_scope \<Rightarrow> json" where
  "to_db_json s =
     JObj [(''prefixes'', JArr (map JStr (sort (vs_prefixes s)))),
           (''extra_vaults'', JArr (map JStr (sorted_list_of_set (vs_extra s))))]"

text \<open>\<open>_SCOPE_NAME_RE\<close>: \<open>$\<close> also matches before a final newline.\<close>

definition scope_name_char :: "char \<Rightarrow> bool" where
  "scope_name_char c = (let n = of_char c :: nat in (97 \<le> n \<and> n \<le> 122) \<or> (48 \<le> n \<and> n \<le> 57))"

definition scope_name_ok :: "string \<Rightarrow> bool" where
  "scope_name_ok s =
     (let body = (if s \<noteq> [] \<and> last s = CHR 0x0A then butlast s else s)
      in (case body of [] \<Rightarrow> False
          | c # r \<Rightarrow> scope_name_char c \<and> list_all (\<lambda>d. scope_name_char d \<or> d = CHR ''-'') r))"

text \<open>The request models admit an object or null for \<open>vault_scope\<close>, so \<open>raw\<close> is never a string here.\<close>

definition parse_input :: "json option \<Rightarrow> vault_scope option result" where
  "parse_input raw =
     (case raw of
        None \<Rightarrow> Inr None
      | Some _ \<Rightarrow>
          (case from_db_json raw of
             Inl _ \<Rightarrow> Inl (Validation ''vault_scope'')
           | Inr None \<Rightarrow> Inr None
           | Inr (Some s) \<Rightarrow>
               if vs_prefixes s = [] \<and> vs_extra s = {} then Inl (Validation ''empty vault_scope'')
               else if \<not> list_all scope_name_ok (vs_prefixes s) then Inl (Validation ''prefix'')
               else if \<not> (\<forall>v\<in>vs_extra s. scope_name_ok v) then Inl (Validation ''extra_vault'')
               else Inr (Some s)))"

lemma py_str_JStr [simp]: "py_str (JStr s) = s"
  by (simp add: py_str_def)

lemma from_to_db_json:
  "finite (vs_extra s) \<Longrightarrow>
   from_db_json (Some (to_db_json s)) = Inr (Some (s\<lparr>vs_prefixes := sort (vs_prefixes s)\<rparr>))"
  by (cases s) (simp add: from_db_json_def to_db_json_def obj_get_def comp_def sorted_sort_id)

text \<open>A scope only ever subtracts: more prefixes or vaults permit more, none permit nothing.\<close>

lemma permits_mono:
  "set (vs_prefixes s) \<subseteq> set (vs_prefixes t) \<Longrightarrow> vs_extra s \<subseteq> vs_extra t \<Longrightarrow>
   permits s n \<Longrightarrow> permits t n"
  by (auto simp: permits_def)

section \<open>An example catalog\<close>

text \<open>
  Used to show that the hypotheses of the theorems can hold: the vault \<open>eng\<close> (10) is owned by alice
  (1); bob (2) reads it directly and writes it on a rule's basis; root (3) is a system admin; the
  service account bot (4) holds the write token 70, scoped to \<open>eng\<close>.
\<close>

definition example_db :: db where
  "example_db =
     \<lparr>clock = 100,
      users =
        [\<lparr>u_id = 1, u_name = ''alice'', u_is_admin = False, u_status = ''active'', u_kind = ''human''\<rparr>,
         \<lparr>u_id = 2, u_name = ''bob'', u_is_admin = False, u_status = ''active'', u_kind = ''human''\<rparr>,
         \<lparr>u_id = 3, u_name = ''root'', u_is_admin = True, u_status = ''active'', u_kind = ''human''\<rparr>,
         \<lparr>u_id = 4, u_name = ''bot'', u_is_admin = False, u_status = ''active'', u_kind = ''service''\<rparr>],
      vaults =
        [\<lparr>v_id = 10, v_name = ''eng'', v_owner = Some 1, v_status = ''active'', v_public = ''none'',
          v_description = None\<rparr>],
      mirrors = [],
      tokens =
        [\<lparr>t_id = 70, t_user = 4, t_class = ''service'', t_scopes = Some [''write''],
          t_scope = Some (JObj [(''prefixes'', JArr []), (''extra_vaults'', JArr [JStr ''eng''])]),
          t_expires = None\<rparr>],
      access = [\<lparr>a_vault = 10, a_user = 2, a_role = ''writer'', a_granted_by = Some 3\<rparr>],
      contribs =
        [\<lparr>c_vault = 10, c_user = 2, c_source = ''direct'', c_role = ''reader'', c_granted_by = Some 1,
          c_revision = 1\<rparr>,
         \<lparr>c_vault = 10, c_user = 2, c_source = ''rule:7'', c_role = ''writer'', c_granted_by = Some 3,
          c_revision = 4\<rparr>],
      policies = [], grants = [], events = [],
      pg_user = ''akb'', pg_roles = [], pg_edges = [],
      vault_tables = [], pg_tables = [], pg_privs = []\<rparr>"

end
