(* ===== verification/Contributions.thy ===== *)
theory Contributions
  imports Catalog
begin

text \<open>
  Why a (vault, user) pair holds the role it holds: \<^verbatim>\<open>backend/app/services/access_contributions.py\<close>.

  \<open>vault_access\<close> holds one row per pair, the materialised effective role; the contributions table
  holds one row per independent basis. Every write to the second recomputes the first in the same
  transaction. The invariant \<open>access_ok\<close> says the two agree, and every operation preserves it.
\<close>

section \<open>Roles\<close>

definition ROLE_HIERARCHY :: "(string \<times> nat) list" where
  "ROLE_HIERARCHY = [(''owner'', 4), (''admin'', 3), (''writer'', 2), (''reader'', 1)]"

definition DIRECT_SOURCE_KEY :: string where
  "DIRECT_SOURCE_KEY = ''direct''"

definition CONTRIBUTION_ROLES :: "string list" where
  "CONTRIBUTION_ROLES = [''reader'', ''writer'', ''admin'']"

definition SOURCE_KEY_MAX :: nat where
  "SOURCE_KEY_MAX = 255"

definition role_level :: "string option \<Rightarrow> nat" where
  "role_level role =
     (case role of None \<Rightarrow> 0
      | Some r \<Rightarrow> (case map_of ROLE_HIERARCHY r of Some n \<Rightarrow> n | None \<Rightarrow> 0))"

fun strongest :: "string option \<Rightarrow> string option list \<Rightarrow> string option" where
  "strongest best [] = best"
| "strongest best (role # roles) =
     (if role_level best < role_level role then strongest role roles else strongest best roles)"

definition effective_role :: "string option list \<Rightarrow> string option" where
  "effective_role roles = strongest None roles"

definition validate_source_key :: "string \<Rightarrow> string result" where
  "validate_source_key source_key =
     (if source_key = '''' then Inl PyValueError
      else if SOURCE_KEY_MAX < length source_key then Inl PyValueError
      else if list_ex is_space source_key then Inl PyValueError
      else Inr source_key)"

section \<open>Contribution writes\<close>

record outcome =
  o_applied :: bool
  o_effective :: "string option"
  o_previous :: "string option"
  o_contribution :: "string option"

definition effective_role_changed :: "outcome \<Rightarrow> bool" where
  "effective_role_changed oc \<longleftrightarrow> o_effective oc \<noteq> o_previous oc"

definition current_effective_role :: "db \<Rightarrow> uuid \<Rightarrow> uuid \<Rightarrow> string option" where
  "current_effective_role d v u = access_role d v u"

definition pair_contribs :: "db \<Rightarrow> uuid \<Rightarrow> uuid \<Rightarrow> contribution list" where
  "pair_contribs d v u = filter (\<lambda>c. c_vault c = v \<and> c_user c = u) (contribs d)"

definition list_contributions :: "db \<Rightarrow> uuid \<Rightarrow> uuid \<Rightarrow> (contribution \<times> string option) list" where
  "list_contributions d v u =
     map (\<lambda>c. (c, Option.bind (c_granted_by c) (\<lambda>g. map_option u_name (user_by_id d g))))
       (sort_key c_source (pair_contribs d v u))"

text \<open>\<open>DO UPDATE SET\<close> of the two upserts.\<close>

definition access_conflict :: "access_row \<Rightarrow> access_row \<Rightarrow> access_row" where
  "access_conflict new old = old\<lparr>a_role := a_role new, a_granted_by := a_granted_by new\<rparr>"

definition contrib_conflict :: "contribution \<Rightarrow> contribution \<Rightarrow> contribution" where
  "contrib_conflict new old =
     old\<lparr>c_role := c_role new, c_granted_by := c_granted_by new, c_revision := c_revision new\<rparr>"

definition materialize :: "uuid \<Rightarrow> uuid \<Rightarrow> db \<Rightarrow> string option \<times> db" where
  "materialize v u d =
     (let rows = pair_contribs d v u in
      case effective_role (map (Some \<circ> c_role) rows) of
        None \<Rightarrow> (None, d\<lparr>access := tab_delete access_key (v, u) (access d)\<rparr>)
      | Some effective \<Rightarrow>
          (let granted_by = (case find (\<lambda>c. c_role c = effective) rows of
                               Some c \<Rightarrow> c_granted_by c | None \<Rightarrow> None);
               row = \<lparr>a_vault = v, a_user = u, a_role = effective, a_granted_by = granted_by\<rparr>
           in (Some effective, d\<lparr>access := tab_upsert access_key access_conflict row (access d)\<rparr>)))"

text \<open>
  The foreign keys and NOT NULL columns an \<open>INSERT\<close> of a contribution must satisfy. A \<open>None\<close> user
  is SQL NULL: no row matches it, and the insert violates NOT NULL.
\<close>

definition contrib_fk_ok :: "db \<Rightarrow> uuid \<Rightarrow> uuid \<Rightarrow> uuid option \<Rightarrow> bool" where
  "contrib_fk_ok d v u granted_by \<longleftrightarrow>
     vault_by_id d v \<noteq> None \<and> user_by_id d u \<noteq> None
     \<and> (case granted_by of None \<Rightarrow> True | Some g \<Rightarrow> user_by_id d g \<noteq> None)"

text \<open>\<open>revision BIGINT\<close>: the driver refuses a value that does not fit.\<close>

definition fits_bigint :: "int \<Rightarrow> bool" where
  "fits_bigint i \<longleftrightarrow> - (2 ^ 63) \<le> i \<and> i < 2 ^ 63"

definition apply_contribution ::
  "uuid \<Rightarrow> uuid option \<Rightarrow> string \<Rightarrow> string \<Rightarrow> uuid option \<Rightarrow> int option \<Rightarrow> db \<Rightarrow> (outcome \<times> db) result" where
  "apply_contribution v user role source_key granted_by revision d =
     (if \<not> List.member CONTRIBUTION_ROLES role then Inl PyValueError
      else rbind (validate_source_key source_key) (\<lambda>source_key.
      case user of
        None \<Rightarrow> Inl (DbIntegrity ''vault_access_contributions.user_id'')
      | Some u \<Rightarrow>
        (let previous = current_effective_role d v u;
             stored = tab_get contrib_key (v, u, source_key) (contribs d);
             write = (\<lambda>next_revision.
               if \<not> fits_bigint next_revision then Inl (PgError ''value out of int64 range'')
               else if \<not> contrib_fk_ok d v u granted_by then Inl (DbIntegrity ''vault_access_contributions'')
               else (let row = \<lparr>c_vault = v, c_user = u, c_source = source_key, c_role = role,
                                c_granted_by = granted_by, c_revision = next_revision\<rparr>;
                         d1 = d\<lparr>contribs := tab_upsert contrib_key contrib_conflict row (contribs d)\<rparr>;
                         (effective, d2) = materialize v u d1
                     in Inr (\<lparr>o_applied = True, o_effective = effective, o_previous = previous,
                              o_contribution = Some role\<rparr>, d2)))
         in case revision of
              None \<Rightarrow> write ((case stored of Some c \<Rightarrow> c_revision c | None \<Rightarrow> 0) + 1)
            | Some r \<Rightarrow>
                (case stored of
                   None \<Rightarrow> write r
                 | Some c \<Rightarrow>
                     if r \<le> c_revision c
                     then Inr (\<lparr>o_applied = False, o_effective = previous, o_previous = previous,
                                o_contribution = Some (c_role c)\<rparr>, d)
                     else write r))))"

definition remove_contribution ::
  "uuid \<Rightarrow> uuid \<Rightarrow> string \<Rightarrow> int option \<Rightarrow> db \<Rightarrow> (outcome \<times> db) result" where
  "remove_contribution v u source_key revision d =
     rbind (validate_source_key source_key) (\<lambda>source_key.
     let previous = current_effective_role d v u in
     case tab_get contrib_key (v, u, source_key) (contribs d) of
       None \<Rightarrow> Inr (\<lparr>o_applied = False, o_effective = previous, o_previous = previous,
                      o_contribution = None\<rparr>, d)
     | Some c \<Rightarrow>
         if (case revision of Some r \<Rightarrow> r \<le> c_revision c | None \<Rightarrow> False)
         then Inr (\<lparr>o_applied = False, o_effective = previous, o_previous = previous,
                    o_contribution = Some (c_role c)\<rparr>, d)
         else (let d1 = d\<lparr>contribs := tab_delete contrib_key (v, u, source_key) (contribs d)\<rparr>;
                   (effective, d2) = materialize v u d1
               in Inr (\<lparr>o_applied = True, o_effective = effective, o_previous = previous,
                        o_contribution = None\<rparr>, d2)))"

definition remove_all_contributions :: "uuid \<Rightarrow> uuid \<Rightarrow> db \<Rightarrow> outcome \<times> db" where
  "remove_all_contributions v u d =
     (let previous = current_effective_role d v u;
          removed = length (pair_contribs d v u);
          d1 = d\<lparr>contribs := filter (\<lambda>c. \<not> (c_vault c = v \<and> c_user c = u)) (contribs d)\<rparr>;
          (effective, d2) = materialize v u d1
      in (\<lparr>o_applied = (removed \<noteq> 0 \<or> previous \<noteq> None), o_effective = effective,
           o_previous = previous, o_contribution = None\<rparr>, d2))"

section \<open>The derivation\<close>

lemma role_level_simps [simp]:
  "role_level None = 0" "role_level (Some ''owner'') = 4" "role_level (Some ''admin'') = 3"
  "role_level (Some ''writer'') = 2" "role_level (Some ''reader'') = 1"
  by (simp_all add: role_level_def ROLE_HIERARCHY_def)

text \<open>The reference: the strongest known role that occurs, whatever the order.\<close>

definition strongest_in :: "string option set \<Rightarrow> string option" where
  "strongest_in R =
     (if Some ''owner'' \<in> R then Some ''owner'' else if Some ''admin'' \<in> R then Some ''admin''
      else if Some ''writer'' \<in> R then Some ''writer'' else if Some ''reader'' \<in> R then Some ''reader''
      else None)"

lemma role_level_pos_cases:
  "role_level r = (if r = Some ''owner'' then 4 else if r = Some ''admin'' then 3
     else if r = Some ''writer'' then 2 else if r = Some ''reader'' then 1 else 0)"
  by (auto simp: role_level_def ROLE_HIERARCHY_def split: option.splits)

lemma strongest_eq:
  "best \<in> {None, Some ''owner'', Some ''admin'', Some ''writer'', Some ''reader''} \<Longrightarrow>
   strongest best roles = strongest_in (insert best (set roles))"
proof (induction best roles rule: strongest.induct)
  case (1 best)
  then show ?case by (auto simp: strongest_in_def)
next
  case (2 best role roles)
  show ?case
  proof (cases "role_level best < role_level role")
    case True
    then have "role \<in> {None, Some ''owner'', Some ''admin'', Some ''writer'', Some ''reader''}"
      by (auto simp: role_level_pos_cases split: if_splits)
    then have "strongest best (role # roles) = strongest_in (insert role (set roles))"
      using 2 True by simp
    moreover have "strongest_in (insert role (set roles)) = strongest_in (insert best (set (role # roles)))"
      using True 2(3) by (auto simp: strongest_in_def role_level_pos_cases split: if_splits)
    ultimately show ?thesis by simp
  next
    case False
    have "strongest_in (insert best (set roles)) = strongest_in (insert best (set (role # roles)))"
      using False 2(3) by (auto simp: strongest_in_def role_level_pos_cases split: if_splits)
    then show ?thesis using 2 False by simp
  qed
qed

text \<open>
  the effective role is the strongest role that occurs among the bases. It depends on the set of
  roles alone, not on the order the rows come back in, and a role outside the hierarchy counts for
  nothing.
\<close>

theorem effective_role_strongest: "effective_role roles = strongest_in (set roles)"
proof -
  have "effective_role roles = strongest_in (insert None (set roles))"
    unfolding effective_role_def by (rule strongest_eq) simp
  also have "\<dots> = strongest_in (set roles)" by (simp add: strongest_in_def)
  finally show ?thesis .
qed

lemma effective_role_eq: "effective_role roles = strongest_in (set roles)"
proof -
  have "strongest_in (insert None R) = strongest_in R" for R by (simp add: strongest_in_def)
  then show ?thesis
    using strongest_eq [of None roles] by (simp add: effective_role_def)
qed

lemma strongest_in_mem: "strongest_in R = Some r \<Longrightarrow> Some r \<in> R"
  by (auto simp: strongest_in_def split: if_splits)

lemma strongest_in_level: "r \<in> R \<Longrightarrow> role_level r \<le> role_level (strongest_in R)"
  by (auto simp: strongest_in_def role_level_pos_cases)

lemma strongest_in_None: "R \<subseteq> Some ` set CONTRIBUTION_ROLES \<Longrightarrow> strongest_in R = None \<longleftrightarrow> R = {}"
  by (auto simp: strongest_in_def CONTRIBUTION_ROLES_def)

section \<open>The invariant\<close>

interpretation access_table: unique_table access_key access_conflict
  by unfold_locales (simp add: access_key_def access_conflict_def)

interpretation contrib_table: unique_table contrib_key contrib_conflict
  by unfold_locales (simp add: contrib_key_def contrib_conflict_def)

definition basis_roles :: "db \<Rightarrow> uuid \<Rightarrow> uuid \<Rightarrow> string option set" where
  "basis_roles d v u = (Some \<circ> c_role) ` set (pair_contribs d v u)"

definition access_ok :: "db \<Rightarrow> bool" where
  "access_ok d \<longleftrightarrow> unique_by access_key (access d) \<and> unique_by contrib_key (contribs d)
     \<and> (\<forall>c\<in>set (contribs d). c_role c \<in> set CONTRIBUTION_ROLES)
     \<and> (\<forall>v u. access_role d v u = strongest_in (basis_roles d v u))"

lemma materialize_contribs [simp]: "contribs (snd (materialize v u d)) = contribs d"
  by (simp add: materialize_def Let_def split: option.splits)

lemma materialize_frame:
  "snd (materialize v u d) = d\<lparr>access := access (snd (materialize v u d))\<rparr>"
  by (simp add: materialize_def Let_def split: option.splits)

lemma materialize_other [simp]:
  "users (snd (materialize v u d)) = users d" "vaults (snd (materialize v u d)) = vaults d"
  "mirrors (snd (materialize v u d)) = mirrors d" "tokens (snd (materialize v u d)) = tokens d"
  "policies (snd (materialize v u d)) = policies d" "grants (snd (materialize v u d)) = grants d"
  "events (snd (materialize v u d)) = events d" "clock (snd (materialize v u d)) = clock d"
  "pg_user (snd (materialize v u d)) = pg_user d" "pg_roles (snd (materialize v u d)) = pg_roles d"
  "pg_edges (snd (materialize v u d)) = pg_edges d"
  "vault_tables (snd (materialize v u d)) = vault_tables d" "pg_tables (snd (materialize v u d)) = pg_tables d"
  "pg_privs (snd (materialize v u d)) = pg_privs d"
  by (simp_all add: materialize_def Let_def split: option.splits)

lemma fst_materialize: "fst (materialize v u d) = strongest_in (basis_roles d v u)"
  by (simp add: materialize_def Let_def effective_role_eq basis_roles_def image_comp split: option.splits)

lemma materialize_access:
  assumes "unique_by access_key (access d)"
  shows "unique_by access_key (access (snd (materialize v u d)))"
    and "access_role (snd (materialize v u d)) v' u' =
      (if (v', u') = (v, u) then strongest_in (basis_roles d v u) else access_role d v' u')"
proof -
  show "unique_by access_key (access (snd (materialize v u d)))"
    using assms access_table.unique_upsert access_table.unique_delete
    by (simp add: materialize_def Let_def split: option.splits)
  show "access_role (snd (materialize v u d)) v' u' =
      (if (v', u') = (v, u) then strongest_in (basis_roles d v u) else access_role d v' u')"
  proof (cases "strongest_in (basis_roles d v u)")
    case None
    then have "access (snd (materialize v u d)) = tab_delete access_key (v, u) (access d)"
      using fst_materialize [of v u d] by (simp add: materialize_def Let_def split: option.splits)
    with None assms show ?thesis by (auto simp: access_role_def access_table.get_delete)
  next
    case (Some r)
    then obtain g where "access (snd (materialize v u d)) =
        tab_upsert access_key access_conflict \<lparr>a_vault = v, a_user = u, a_role = r, a_granted_by = g\<rparr> (access d)"
      using fst_materialize [of v u d] by (auto simp: materialize_def Let_def split: option.splits)
    with Some show ?thesis
      by (auto simp: access_role_def access_table.get_upsert access_conflict_def access_key_def split: option.splits)
  qed
qed

text \<open>Whatever a write did to one pair's bases, recomputing that pair restores the invariant.\<close>

lemma materialize_ok:
  assumes ok: "access_ok d"
    and frame: "d1 = d\<lparr>contribs := contribs d1\<rparr>"
    and uniq: "unique_by contrib_key (contribs d1)"
    and roles: "\<forall>c\<in>set (contribs d1). c_role c \<in> set CONTRIBUTION_ROLES"
    and other: "\<And>v' u'. (v', u') \<noteq> (v, u) \<Longrightarrow> pair_contribs d1 v' u' = pair_contribs d v' u'"
  shows "access_ok (snd (materialize v u d1))"
proof -
  let ?d = "snd (materialize v u d1)"
  have acc: "access d1 = access d" using frame by (metis db.ext_inject db.surjective db.update_convs(7))
  have u1: "unique_by access_key (access d1)" using ok acc by (simp add: access_ok_def)
  have b: "basis_roles ?d v' u' = basis_roles d1 v' u'" for v' u'
    by (simp add: basis_roles_def pair_contribs_def)
  have "access_role ?d v' u' = strongest_in (basis_roles ?d v' u')" for v' u'
  proof (cases "(v', u') = (v, u)")
    case True
    then show ?thesis using materialize_access(2) [OF u1, of v u v' u'] b by simp
  next
    case False
    then have "access_role ?d v' u' = access_role d v' u'"
      using materialize_access(2) [OF u1, of v u v' u'] acc by (auto simp: access_role_def [of d] access_role_def [of d1])
    also have "\<dots> = strongest_in (basis_roles d v' u')" using ok by (simp add: access_ok_def)
    also have "basis_roles d v' u' = basis_roles d1 v' u'" using other [OF False] by (simp add: basis_roles_def)
    finally show ?thesis by (simp add: b)
  qed
  then show ?thesis
    using materialize_access(1) [OF u1] uniq roles by (simp add: access_ok_def)
qed

section \<open>What the writes do\<close>

definition contrib_write :: "uuid \<Rightarrow> uuid \<Rightarrow> string \<Rightarrow> string \<Rightarrow> uuid option \<Rightarrow> int \<Rightarrow> db \<Rightarrow> db" where
  "contrib_write v u role key g rv d =
     d\<lparr>contribs := tab_upsert contrib_key contrib_conflict
         \<lparr>c_vault = v, c_user = u, c_source = key, c_role = role, c_granted_by = g, c_revision = rv\<rparr>
         (contribs d)\<rparr>"

lemma validate_source_key_Inr: "validate_source_key k = Inr k' \<Longrightarrow> k' = k"
  by (simp add: validate_source_key_def split: if_splits)

text \<open>The two ways \<open>apply_contribution\<close> returns: a stale revision changes nothing, any other writes.\<close>

lemma apply_contribution_cases:
  assumes "apply_contribution v user role key g revision d = Inr (oc, d')"
  obtains (stale) u c where "user = Some u" "tab_get contrib_key (v, u, key) (contribs d) = Some c"
      "d' = d" "\<not> o_applied oc" "o_effective oc = access_role d v u" "revision \<noteq> None"
    | (wrote) u rv where "user = Some u" "role \<in> set CONTRIBUTION_ROLES" "contrib_fk_ok d v u g"
      "fits_bigint rv" "revision = Some rv \<or> revision = None"
      "d' = snd (materialize v u (contrib_write v u role key g rv d))" "o_applied oc"
      "o_effective oc = strongest_in (basis_roles (contrib_write v u role key g rv d) v u)"
proof -
  from assms obtain u where u: "user = Some u" and role: "role \<in> set CONTRIBUTION_ROLES"
    and vk: "validate_source_key key = Inr key"
    by (auto simp: apply_contribution_def rbind_Inr_iff dest: validate_source_key_Inr
        split: if_splits option.splits)
  define w where "w rv = (if \<not> fits_bigint rv then Inl (PgError ''value out of int64 range'')
      else if \<not> contrib_fk_ok d v u g then Inl (DbIntegrity ''vault_access_contributions'')
      else Inr (\<lparr>o_applied = True,
        o_effective = fst (materialize v u (contrib_write v u role key g rv d)),
        o_previous = access_role d v u, o_contribution = Some role\<rparr>,
        snd (materialize v u (contrib_write v u role key g rv d))))" for rv
  have eq: "apply_contribution v user role key g revision d =
      (case revision of
         None \<Rightarrow> w ((case tab_get contrib_key (v, u, key) (contribs d) of Some c \<Rightarrow> c_revision c | None \<Rightarrow> 0) + 1)
       | Some r \<Rightarrow> (case tab_get contrib_key (v, u, key) (contribs d) of
           None \<Rightarrow> w r
         | Some c \<Rightarrow> if r \<le> c_revision c
             then Inr (\<lparr>o_applied = False, o_effective = access_role d v u, o_previous = access_role d v u,
                        o_contribution = Some (c_role c)\<rparr>, d) else w r))"
    using u role vk
    by (simp add: apply_contribution_def w_def contrib_write_def Let_def current_effective_role_def
        case_prod_beta split: option.splits)
  have wr: thesis if "w rv = Inr (oc, d')" and "revision = Some rv \<or> revision = None" for rv
    using that u role wrote [of u rv] by (auto simp: w_def fst_materialize split: if_splits)
  show thesis
    using assms unfolding eq
    by (auto split: option.splits if_splits intro: wr stale [OF u])
qed

lemma contrib_write_facts:
  assumes "access_ok d" and "role \<in> set CONTRIBUTION_ROLES"
  shows "access_ok (snd (materialize v u (contrib_write v u role key g rv d)))"
proof (rule materialize_ok [OF assms(1)])
  let ?d = "contrib_write v u role key g rv d"
  show "?d = d\<lparr>contribs := contribs ?d\<rparr>" by (simp add: contrib_write_def)
  show "unique_by contrib_key (contribs ?d)"
    using assms(1) contrib_table.unique_upsert by (simp add: contrib_write_def access_ok_def)
  show "\<forall>c\<in>set (contribs ?d). c_role c \<in> set CONTRIBUTION_ROLES"
    using assms by (auto simp: contrib_write_def access_ok_def contrib_conflict_def
        dest!: contrib_table.in_upsert)
  show "pair_contribs ?d v' u' = pair_contribs d v' u'" if "(v', u') \<noteq> (v, u)" for v' u'
    using that unfolding pair_contribs_def contrib_write_def
    by (simp, intro contrib_table.filter_upsert_other) (auto simp: contrib_key_def)
qed

lemma contrib_write_basis: "Some role \<in> basis_roles (contrib_write v u role key g rv d) v u"
proof -
  let ?w = "contrib_write v u role key g rv d"
  have "tab_get contrib_key (v, u, key) (contribs ?w) \<noteq> None"
    by (simp add: contrib_write_def contrib_table.get_upsert contrib_key_def)
  moreover have "c_role c = role" if "tab_get contrib_key (v, u, key) (contribs ?w) = Some c" for c
    using that by (auto simp: contrib_write_def contrib_table.get_upsert contrib_key_def contrib_conflict_def
        split: option.splits)
  ultimately show ?thesis
    by (force simp: basis_roles_def pair_contribs_def contrib_key_def dest: tab_get_Some)
qed

lemma contrib_write_role:
  assumes "unique_by access_key (access d)"
  shows "access_role (snd (materialize v u (contrib_write v u role key g rv d))) v' u' =
      (if (v', u') = (v, u) then strongest_in (basis_roles (contrib_write v u role key g rv d) v u)
       else access_role d v' u')"
    and "role_level (Some role) \<le>
      role_level (access_role (snd (materialize v u (contrib_write v u role key g rv d))) v u)"
proof -
  let ?w = "contrib_write v u role key g rv d"
  have uw: "unique_by access_key (access ?w)" using assms by (simp add: contrib_write_def)
  have acc: "access_role ?w a b = access_role d a b" for a b by (simp add: contrib_write_def access_role_def)
  show "access_role (snd (materialize v u ?w)) v' u' =
      (if (v', u') = (v, u) then strongest_in (basis_roles ?w v u) else access_role d v' u')"
    using materialize_access(2) [OF uw] acc by simp
  show "role_level (Some role) \<le> role_level (access_role (snd (materialize v u ?w)) v u)"
    using materialize_access(2) [OF uw, of v u v u] strongest_in_level [OF contrib_write_basis] by simp
qed

lemma apply_contribution_facts:
  assumes "access_ok d" and "apply_contribution v (Some u) role key g revision d = Inr (oc, d')"
  shows "access_ok d' \<and> o_effective oc = access_role d' v u \<and>
    (o_applied oc \<longrightarrow> role_level (Some role) \<le> role_level (access_role d' v u)) \<and>
    (\<not> o_applied oc \<longrightarrow> d' = d) \<and>
    (\<forall>v' u'. (v', u') \<noteq> (v, u) \<longrightarrow> access_role d' v' u' = access_role d v' u')"
  using assms(2)
proof (cases rule: apply_contribution_cases)
  case (stale u c)
  then show ?thesis using assms(1) by simp
next
  case (wrote u' rv)
  have "access_ok d'" using contrib_write_facts [OF assms(1)] wrote by simp
  moreover have "unique_by access_key (access d)" using assms(1) by (simp add: access_ok_def)
  ultimately show ?thesis using wrote contrib_write_role [where d = d and v = v and u = u and role = role and key = key and g = g and rv = rv]
    by auto
qed


lemma remove_contribution_cases:
  assumes "remove_contribution v u key revision d = Inr (oc, d')"
  obtains (kept) "d' = d" "\<not> o_applied oc" "o_effective oc = access_role d v u"
      "tab_get contrib_key (v, u, key) (contribs d) = None \<or>
       (\<exists>c r. tab_get contrib_key (v, u, key) (contribs d) = Some c \<and> revision = Some r \<and> r \<le> c_revision c)"
    | (removed) c where "tab_get contrib_key (v, u, key) (contribs d) = Some c" "o_applied oc"
      "d' = snd (materialize v u (d\<lparr>contribs := tab_delete contrib_key (v, u, key) (contribs d)\<rparr>))"
      "o_effective oc =
        strongest_in (basis_roles (d\<lparr>contribs := tab_delete contrib_key (v, u, key) (contribs d)\<rparr>) v u)"
proof -
  from assms obtain vk: "validate_source_key key = Inr key"
    by (auto simp: remove_contribution_def rbind_Inr_iff dest: validate_source_key_Inr)
  have eq: "remove_contribution v u key revision d =
      (case tab_get contrib_key (v, u, key) (contribs d) of
         None \<Rightarrow> Inr (\<lparr>o_applied = False, o_effective = access_role d v u, o_previous = access_role d v u,
                        o_contribution = None\<rparr>, d)
       | Some c \<Rightarrow>
           if (case revision of Some r \<Rightarrow> r \<le> c_revision c | None \<Rightarrow> False)
           then Inr (\<lparr>o_applied = False, o_effective = access_role d v u, o_previous = access_role d v u,
                      o_contribution = Some (c_role c)\<rparr>, d)
           else (let m = materialize v u (d\<lparr>contribs := tab_delete contrib_key (v, u, key) (contribs d)\<rparr>)
                 in Inr (\<lparr>o_applied = True, o_effective = fst m, o_previous = access_role d v u,
                          o_contribution = None\<rparr>, snd m)))"
    using vk by (simp add: remove_contribution_def Let_def current_effective_role_def case_prod_beta split: option.split)
  show thesis
    using assms unfolding eq
    by (auto simp: Let_def fst_materialize split: option.splits if_splits intro: kept removed)
qed

lemma pair_contribs_delete:
  "pair_contribs (d\<lparr>contribs := tab_delete contrib_key (v, u, key) (contribs d)\<rparr>) v' u' =
     filter (\<lambda>c. (v', u') = (v, u) \<longrightarrow> c_source c \<noteq> key) (pair_contribs d v' u')"
  by (auto simp: pair_contribs_def tab_delete_def contrib_key_def intro: filter_cong)

lemma delete_contrib_ok:
  assumes "access_ok d"
  shows "access_ok (snd (materialize v u (d\<lparr>contribs := tab_delete contrib_key (v, u, key) (contribs d)\<rparr>)))"
proof (rule materialize_ok [OF assms])
  let ?d = "d\<lparr>contribs := tab_delete contrib_key (v, u, key) (contribs d)\<rparr>"
  show "?d = d\<lparr>contribs := contribs ?d\<rparr>" by simp
  show "unique_by contrib_key (contribs ?d)"
    using assms contrib_table.unique_delete by (simp add: access_ok_def)
  show "\<forall>c\<in>set (contribs ?d). c_role c \<in> set CONTRIBUTION_ROLES"
    using assms by (simp add: access_ok_def set_tab_delete)
  show "pair_contribs ?d v' u' = pair_contribs d v' u'" if "(v', u') \<noteq> (v, u)" for v' u'
    using that by (auto simp: pair_contribs_delete)
qed

lemma remove_contribution_facts:
  assumes "access_ok d" and "remove_contribution v u key revision d = Inr (oc, d')"
  shows "access_ok d' \<and> o_effective oc = access_role d' v u \<and>
    (if o_applied oc
     then access_role d' v u =
       strongest_in ((Some \<circ> c_role) ` {c \<in> set (pair_contribs d v u). c_source c \<noteq> key})
     else d' = d) \<and>
    (\<forall>v' u'. (v', u') \<noteq> (v, u) \<longrightarrow> access_role d' v' u' = access_role d v' u')"
  using assms(2)
proof (cases rule: remove_contribution_cases)
  case kept
  then show ?thesis using assms(1) by simp
next
  case (removed c)
  let ?d = "d\<lparr>contribs := tab_delete contrib_key (v, u, key) (contribs d)\<rparr>"
  have "unique_by access_key (access ?d)" using assms(1) by (simp add: access_ok_def)
  note m = materialize_access(2) [OF this]
  have "basis_roles ?d v u = (Some \<circ> c_role) ` {c \<in> set (pair_contribs d v u). c_source c \<noteq> key}"
    by (simp add: basis_roles_def pair_contribs_delete)
  moreover have "access_role ?d v' u' = access_role d v' u'" for v' u' by (simp add: access_role_def)
  ultimately show ?thesis using removed delete_contrib_ok [OF assms(1)] m by auto
qed

text \<open>
  withdrawing one basis cannot take away access held on another. After a removal that was applied
  the pair holds exactly the strongest of the other bases (none only if there is no other), a stale
  or unknown removal changes nothing, and no other pair's role moves.
\<close>

theorem remove_contribution_correct:
  assumes "access_ok d" and "remove_contribution v u key revision d = Inr (oc, d')"
  shows "access_ok d' \<and> o_effective oc = access_role d' v u \<and>
    (if o_applied oc
     then access_role d' v u =
       strongest_in ((Some \<circ> c_role) ` {c \<in> set (pair_contribs d v u). c_source c \<noteq> key})
     else d' = d) \<and>
    (\<forall>v' u'. (v', u') \<noteq> (v, u) \<longrightarrow> access_role d' v' u' = access_role d v' u')"
  using assms by (rule remove_contribution_facts)

lemma remove_all_contributions_facts:
  assumes "access_ok d" and "remove_all_contributions v u d = (oc, d')"
  shows "access_ok d' \<and> access_role d' v u = None \<and> o_effective oc = None \<and> pair_contribs d' v u = [] \<and>
    (\<forall>v' u'. (v', u') \<noteq> (v, u) \<longrightarrow> access_role d' v' u' = access_role d v' u')"
proof -
  let ?d = "d\<lparr>contribs := filter (\<lambda>c. \<not> (c_vault c = v \<and> c_user c = u)) (contribs d)\<rparr>"
  have d': "d' = snd (materialize v u ?d)" and oe: "o_effective oc = fst (materialize v u ?d)"
    using assms(2) by (auto simp: remove_all_contributions_def Let_def case_prod_beta)
  have "unique_by access_key (access ?d)" using assms(1) by (simp add: access_ok_def)
  note m = materialize_access(2) [OF this]
  have e: "pair_contribs ?d v u = []" by (simp add: pair_contribs_def)
  then have n: "strongest_in (basis_roles ?d v u) = None" by (simp add: basis_roles_def strongest_in_def)
  have "access_ok d'" unfolding d'
  proof (rule materialize_ok [OF assms(1)])
    show "?d = d\<lparr>contribs := contribs ?d\<rparr>" by simp
    show "unique_by contrib_key (contribs ?d)"
      using assms(1) by (auto simp: access_ok_def intro: unique_by_filter)
    show "\<forall>c\<in>set (contribs ?d). c_role c \<in> set CONTRIBUTION_ROLES"
      using assms(1) by (simp add: access_ok_def)
    show "pair_contribs ?d v' u' = pair_contribs d v' u'" if "(v', u') \<noteq> (v, u)" for v' u'
      using that by (auto simp: pair_contribs_def intro: filter_cong)
  qed
  moreover have "access_role ?d v' u' = access_role d v' u'" for v' u' by (simp add: access_role_def)
  moreover have "pair_contribs d' v u = []" using e by (simp add: d' pair_contribs_def)
  ultimately show ?thesis using m n oe by (auto simp: d' fst_materialize)
qed

text \<open>
  an administrator's revoke is complete. Removing every basis leaves the pair with no role at all,
  whoever granted the bases, and no other pair's role moves.
\<close>

theorem remove_all_contributions_correct:
  assumes "access_ok d" and "remove_all_contributions v u d = (oc, d')"
  shows "access_ok d' \<and> access_role d' v u = None \<and> o_effective oc = None \<and> pair_contribs d' v u = [] \<and>
    (\<forall>v' u'. (v', u') \<noteq> (v, u) \<longrightarrow> access_role d' v' u' = access_role d v' u')"
  using assms by (rule remove_all_contributions_facts)

text \<open>
  C31: a revision only protects a basis while its row exists. The removal deletes the row and with it
  the revision, so a grant that is older than the removal is applied again when it is replayed.
\<close>

theorem stale_grant_after_removal:
  assumes "remove_contribution v u key (Some r2) d = Inr (oc, d')" and "o_applied oc"
    and "access_ok d" and "role \<in> set CONTRIBUTION_ROLES" and "contrib_fk_ok d v u g" and "fits_bigint r1"
  shows "\<exists>oc' d''. apply_contribution v (Some u) role key g (Some r1) d' = Inr (oc', d'') \<and> o_applied oc' \<and>
    access_role d'' v u \<noteq> None"
proof -
  from assms(1) have vk: "validate_source_key key = Inr key"
    by (auto simp: remove_contribution_def rbind_Inr_iff dest: validate_source_key_Inr)
  from assms(1,2) have d': "d' = snd (materialize v u (d\<lparr>contribs := tab_delete contrib_key (v, u, key) (contribs d)\<rparr>))"
    by (cases rule: remove_contribution_cases) auto
  have g: "tab_get contrib_key (v, u, key) (contribs d') = None"
    using assms(3) contrib_table.get_delete by (simp add: d' access_ok_def)
  have fk: "contrib_fk_ok d' v u g"
    using assms(5) by (auto simp: d' contrib_fk_ok_def split: option.splits)
  have ok: "access_ok d'" unfolding d' by (rule delete_contrib_ok [OF assms(3)])
  define d'' where "d'' = snd (materialize v u (contrib_write v u role key g r1 d'))"
  have "\<exists>oc'. apply_contribution v (Some u) role key g (Some r1) d' = Inr (oc', d'') \<and> o_applied oc'"
    using assms(4,6) vk g fk
    by (simp add: apply_contribution_def Let_def case_prod_beta contrib_write_def d''_def)
  moreover from this obtain oc' where "apply_contribution v (Some u) role key g (Some r1) d' = Inr (oc', d'')"
    and "o_applied oc'" by blast
  then have "role_level (access_role d'' v u) \<ge> role_level (Some role)"
    using ok contrib_write_role(2) by (simp add: d''_def access_ok_def)
  then have "access_role d'' v u \<noteq> None"
    using assms(4) by (cases "access_role d'' v u") (auto simp: CONTRIBUTION_ROLES_def)
  ultimately show ?thesis by blast
qed

section \<open>Witnesses\<close>

lemma example_pair_contribs:
  "pair_contribs example_db v u = (if v = 10 \<and> u = 2 then contribs example_db else [])"
  by (auto simp: pair_contribs_def example_db_def)

lemma example_access_ok: "access_ok example_db"
proof -
  have "access_role example_db v u = strongest_in (basis_roles example_db v u)" for v u
  proof (cases "v = 10 \<and> u = 2")
    case True
    then show ?thesis
      by (simp add: basis_roles_def example_pair_contribs access_role_def)
         (simp add: example_db_def strongest_in_def tab_get_def access_key_def)
  next
    case False
    then show ?thesis
      by (auto simp: basis_roles_def example_pair_contribs access_role_def strongest_in_def)
         (auto simp: example_db_def tab_get_def access_key_def)
  qed
  then show ?thesis
    by (simp add: access_ok_def)
       (simp add: example_db_def unique_by_def access_key_def contrib_key_def CONTRIBUTION_ROLES_def)
qed

definition example_apply :: "outcome \<times> db" where
  "example_apply = (case apply_contribution 10 (Some 2) ''admin'' ''rule:8'' (Some 3) (Some 1) example_db of
     Inr r \<Rightarrow> r | Inl _ \<Rightarrow> (\<lparr>o_applied = False, o_effective = None, o_previous = None, o_contribution = None\<rparr>, example_db))"

definition example_remove :: "outcome \<times> db" where
  "example_remove = (case remove_contribution 10 2 ''rule:7'' (Some 5) example_db of
     Inr r \<Rightarrow> r | Inl _ \<Rightarrow> (\<lparr>o_applied = False, o_effective = None, o_previous = None, o_contribution = None\<rparr>, example_db))"

lemma example_apply_eq:
  "apply_contribution 10 (Some 2) ''admin'' ''rule:8'' (Some 3) (Some 1) example_db =
    Inr (fst example_apply, snd example_apply)"
  unfolding example_apply_def
  by (simp add: apply_contribution_def example_db_def CONTRIBUTION_ROLES_def validate_source_key_def
      SOURCE_KEY_MAX_def is_space_def tab_get_def contrib_key_def contrib_fk_ok_def fits_bigint_def
      case_prod_beta Let_def)

lemma example_remove_eq:
  "remove_contribution 10 2 ''rule:7'' (Some 5) example_db = Inr (fst example_remove, snd example_remove)"
  and example_remove_applied: "o_applied (fst example_remove)"
  unfolding example_remove_def
  by (simp_all add: remove_contribution_def example_db_def validate_source_key_def SOURCE_KEY_MAX_def
      is_space_def tab_get_def contrib_key_def case_prod_beta Let_def)


theorem remove_contribution_correct_witness:
  "access_ok (snd example_remove) \<and> o_effective (fst example_remove) = access_role (snd example_remove) 10 2 \<and>
     (if o_applied (fst example_remove)
      then access_role (snd example_remove) 10 2 =
        strongest_in ((Some \<circ> c_role) ` {c \<in> set (pair_contribs example_db 10 2). c_source c \<noteq> ''rule:7''})
      else snd example_remove = example_db) \<and>
     access_role (snd example_remove) 10 1 = access_role example_db 10 1"
  using remove_contribution_correct [OF example_access_ok example_remove_eq] by simp

theorem remove_all_contributions_correct_witness:
  "access_ok (snd (remove_all_contributions 10 2 example_db)) \<and>
     access_role (snd (remove_all_contributions 10 2 example_db)) 10 2 = None \<and>
     o_effective (fst (remove_all_contributions 10 2 example_db)) = None \<and>
     pair_contribs (snd (remove_all_contributions 10 2 example_db)) 10 2 = [] \<and>
     access_role (snd (remove_all_contributions 10 2 example_db)) 10 1 = access_role example_db 10 1"
proof -
  obtain oc d' where r: "remove_all_contributions 10 2 example_db = (oc, d')" by fastforce
  show ?thesis using remove_all_contributions_correct [OF example_access_ok r] by (simp add: r)
qed

theorem stale_grant_after_removal_witness:
  "\<exists>oc' d''. apply_contribution 10 (Some 2) ''writer'' ''rule:7'' (Some 3) (Some 4) (snd example_remove) =
      Inr (oc', d'') \<and> o_applied oc' \<and> access_role d'' 10 2 \<noteq> None"
proof (rule stale_grant_after_removal [OF example_remove_eq example_remove_applied example_access_ok])
  show "''writer'' \<in> set CONTRIBUTION_ROLES" by (simp add: CONTRIBUTION_ROLES_def)
  show "contrib_fk_ok example_db 10 2 (Some 3)"
    by (simp add: contrib_fk_ok_def example_db_def tab_get_def)
  show "fits_bigint 4" by (simp add: fits_bigint_def)
qed

end
