(* ===== verification/Digest.thy ===== *)
theory Digest
  imports Prelude
begin

text \<open>
  The two digests of \<^verbatim>\<open>hashlib\<close> the backend uses on strings: SHA-1 (a tag in fitted table names) and
  SHA-256 (content hashes and request fingerprints), on the UTF-8 encoding of the argument, as
  lower-case hex.
\<close>

unbundle bit_operations_syntax

text \<open>\<open>s.encode()\<close> on code points below 256.\<close>

definition utf8_bytes :: "string \<Rightarrow> nat list" where
  "utf8_bytes s = concat (map (\<lambda>c. let n = of_char c :: nat in
     if n < 128 then [n] else [192 + n div 64, 128 + n mod 64]) s)"

definition be_bytes :: "nat \<Rightarrow> nat \<Rightarrow> nat list" where
  "be_bytes k n = map (\<lambda>i. (n div 256 ^ (k - 1 - i)) mod 256) [0..<k]"

definition pad_message :: "nat list \<Rightarrow> nat list" where
  "pad_message m =
     m @ [128] @ replicate ((119 - length m mod 64) mod 64) 0 @ be_bytes 8 (8 * length m)"

fun chunks_of :: "nat \<Rightarrow> nat \<Rightarrow> 'a list \<Rightarrow> 'a list list" where
  "chunks_of 0 k xs = []"
| "chunks_of (Suc n) k xs = take k xs # chunks_of n k (drop k xs)"

definition be_word :: "nat list \<Rightarrow> 32 word" where
  "be_word bs = of_nat (foldl (\<lambda>a b. 256 * a + b) 0 bs)"

definition block_words :: "nat list \<Rightarrow> 32 word list" where
  "block_words blk = map be_word (chunks_of 16 4 blk)"

definition message_blocks :: "nat list \<Rightarrow> nat list list" where
  "message_blocks m = (let p = pad_message m in chunks_of (length p div 64) 64 p)"

definition digest_hex :: "32 word list \<Rightarrow> string" where
  "digest_hex ws = concat (map (\<lambda>w. hex_fixed 8 (unat w)) ws)"

section \<open>SHA-1\<close>

definition sha1_extend :: "32 word list \<Rightarrow> 32 word list" where
  "sha1_extend ws = foldl (\<lambda>w i. w @
     [word_rotl 1 (w ! (i - 3) XOR w ! (i - 8) XOR w ! (i - 14) XOR w ! (i - 16))]) ws [16..<80]"

type_synonym sha1_state = \<open>32 word \<times> 32 word \<times> 32 word \<times> 32 word \<times> 32 word\<close>

definition sha1_round :: "32 word list \<Rightarrow> sha1_state \<Rightarrow> nat \<Rightarrow> sha1_state" where
  "sha1_round w s i =
     (case s of (a, b, c, d, e) \<Rightarrow>
       (let (f, k) =
          (if i < 20 then ((b AND c) OR (NOT b AND d), 0x5A827999)
           else if i < 40 then (b XOR c XOR d, 0x6ED9EBA1)
           else if i < 60 then ((b AND c) OR (b AND d) OR (c AND d), 0x8F1BBCDC)
           else (b XOR c XOR d, 0xCA62C1D6))
        in (word_rotl 5 a + f + e + k + w ! i, a, word_rotl 30 b, c, d)))"

definition sha1_block :: "sha1_state \<Rightarrow> nat list \<Rightarrow> sha1_state" where
  "sha1_block s blk =
     (let w = sha1_extend (block_words blk) in
      case (s, foldl (sha1_round w) s [0..<80]) of
        ((a, b, c, d, e), (a', b', c', d', e')) \<Rightarrow> (a + a', b + b', c + c', d + d', e + e'))"

definition sha1_state_of :: "string \<Rightarrow> sha1_state" where
  "sha1_state_of m =
     foldl sha1_block (0x67452301, 0xEFCDAB89, 0x98BADCFE, 0x10325476, 0xC3D2E1F0)
       (message_blocks (utf8_bytes m))"

definition sha1_hex :: "string \<Rightarrow> string" where
  "sha1_hex m = (case sha1_state_of m of (a, b, c, d, e) \<Rightarrow> digest_hex [a, b, c, d, e])"

section \<open>SHA-256\<close>

text \<open>The round constants of SHA-256, in decimal.\<close>

definition SHA256_K :: "32 word list" where
  "SHA256_K =
    [1116352408, 1899447441, 3049323471, 3921009573, 961987163, 1508970993, 2453635748, 2870763221,
     3624381080, 310598401, 607225278, 1426881987, 1925078388, 2162078206, 2614888103, 3248222580,
     3835390401, 4022224774, 264347078, 604807628, 770255983, 1249150122, 1555081692, 1996064986,
     2554220882, 2821834349, 2952996808, 3210313671, 3336571891, 3584528711, 113926993, 338241895,
     666307205, 773529912, 1294757372, 1396182291, 1695183700, 1986661051, 2177026350, 2456956037,
     2730485921, 2820302411, 3259730800, 3345764771, 3516065817, 3600352804, 4094571909, 275423344,
     430227734, 506948616, 659060556, 883997877, 958139571, 1322822218, 1537002063, 1747873779,
     1955562222, 2024104815, 2227730452, 2361852424, 2428436474, 2756734187, 3204031479, 3329325298]"

definition sha256_extend :: "32 word list \<Rightarrow> 32 word list" where
  "sha256_extend ws = foldl (\<lambda>w i.
     (let x = w ! (i - 15); y = w ! (i - 2);
          s0 = word_rotr 7 x XOR word_rotr 18 x XOR drop_bit 3 x;
          s1 = word_rotr 17 y XOR word_rotr 19 y XOR drop_bit 10 y
      in w @ [w ! (i - 16) + s0 + w ! (i - 7) + s1])) ws [16..<64]"

definition sha256_round :: "32 word list \<Rightarrow> 32 word list \<Rightarrow> nat \<Rightarrow> 32 word list" where
  "sha256_round w s i =
     (let a = s ! 0; b = s ! 1; c = s ! 2; d = s ! 3; e = s ! 4; f = s ! 5; g = s ! 6; h = s ! 7;
          s1 = word_rotr 6 e XOR word_rotr 11 e XOR word_rotr 25 e;
          ch = (e AND f) XOR (NOT e AND g);
          t1 = h + s1 + ch + SHA256_K ! i + w ! i;
          s0 = word_rotr 2 a XOR word_rotr 13 a XOR word_rotr 22 a;
          maj = (a AND b) XOR (a AND c) XOR (b AND c)
      in [t1 + s0 + maj, a, b, c, d + t1, e, f, g])"

definition sha256_block :: "32 word list \<Rightarrow> nat list \<Rightarrow> 32 word list" where
  "sha256_block s blk =
     (let w = sha256_extend (block_words blk)
      in map2 (+) s (foldl (sha256_round w) s [0..<64]))"

definition sha256_bytes :: "nat list \<Rightarrow> string" where
  "sha256_bytes b =
     digest_hex (foldl sha256_block
       [0x6a09e667, 0xbb67ae85, 0x3c6ef372, 0xa54ff53a, 0x510e527f, 0x9b05688c, 0x1f83d9ab, 0x5be0cd19]
       (message_blocks b))"

definition sha256_hex :: "string \<Rightarrow> string" where
  "sha256_hex m = sha256_bytes (utf8_bytes m)"

lemma sha256_round_length [simp]: "length (sha256_round w s i) = 8"
  by (simp add: sha256_round_def Let_def)

lemma sha256_block_length: "length s = 8 \<Longrightarrow> length (sha256_block s blk) = 8"
proof -
  have "length (foldl (sha256_round w) s ks) = 8" if "length s = 8" for w s ks
    using that by (induction ks arbitrary: s) simp_all
  then show "length s = 8 \<Longrightarrow> length (sha256_block s blk) = 8"
    unfolding sha256_block_def Let_def by simp
qed

lemma length_digest_hex: "length (digest_hex ws) = 8 * length ws"
  unfolding digest_hex_def by (induction ws) simp_all

text \<open>A SHA-256 digest is 64 hex characters, a SHA-1 digest 40.\<close>

lemma sha256_bytes_length [simp]: "length (sha256_bytes b) = 64"
proof -
  have "length (foldl sha256_block s blks) = 8" if "length s = 8" for s blks
    using that by (induction blks arbitrary: s) (simp_all add: sha256_block_length)
  then show ?thesis unfolding sha256_bytes_def length_digest_hex by simp
qed

lemma sha256_hex_length: "length (sha256_hex m) = 64"
  by (simp add: sha256_hex_def)

lemma sha1_hex_length: "length (sha1_hex m) = 40"
proof -
  obtain a b c d e where "sha1_state_of m = (a, b, c, d, e)" by (rule prod_cases5)
  then show ?thesis by (simp add: sha1_hex_def length_digest_hex)
qed

lemma digest_hex_set: "set (digest_hex ws) \<subseteq> set ''0123456789abcdef''"
proof (induction ws)
  case (Cons w ws)
  then show ?case unfolding digest_hex_def using hex_fixed_set [of 8 "unat w"] by simp
qed (simp add: digest_hex_def)

lemma sha256_bytes_set: "set (sha256_bytes b) \<subseteq> set ''0123456789abcdef''"
  unfolding sha256_bytes_def by (rule digest_hex_set)

section \<open>Strict UTF-8\<close>

text \<open>
  \<open>bytes.decode("utf-8", errors="strict")\<close>: the code points, or \<open>None\<close> for a \<open>UnicodeDecodeError\<close>. Overlong
  forms, surrogates and values above U+10FFFF are refused.
\<close>

definition utf8_cont :: "nat \<Rightarrow> bool" where
  "utf8_cont b \<longleftrightarrow> 128 \<le> b \<and> b < 192"

fun utf8_decode :: "nat list \<Rightarrow> nat list option" where
  "utf8_decode [] = Some []"
| "utf8_decode (b # bs) =
     (if b < 128 then map_option (Cons b) (utf8_decode bs)
      else case bs of
        [] \<Rightarrow> None
      | c # r \<Rightarrow>
          if \<not> utf8_cont c \<or> b < 194 then None
          else if b < 224 then map_option (Cons (64 * (b - 192) + (c - 128))) (utf8_decode r)
          else case r of
            [] \<Rightarrow> None
          | d # r \<Rightarrow>
              if \<not> utf8_cont d then None
              else if b < 240 then
                (if b = 224 \<and> c < 160 \<or> b = 237 \<and> 160 \<le> c then None
                 else map_option (Cons (4096 * (b - 224) + 64 * (c - 128) + (d - 128))) (utf8_decode r))
              else case r of
                [] \<Rightarrow> None
              | e # r \<Rightarrow>
                  if \<not> utf8_cont e \<or> 244 < b \<or> b = 240 \<and> c < 144 \<or> b = 244 \<and> 144 \<le> c then None
                  else map_option (Cons (262144 * (b - 240) + 4096 * (c - 128) + 64 * (d - 128) + (e - 128)))
                         (utf8_decode r))"

text \<open>Encoding a string and decoding it gives its code points back.\<close>

lemma utf8_decode_encode: "utf8_decode (utf8_bytes s) = Some (map of_char s)"
proof (induction s)
  case (Cons c s)
  define n where "n = (of_char c :: nat)"
  have enc: "utf8_bytes (c # s) = (if n < 128 then [n] else [192 + n div 64, 128 + n mod 64]) @ utf8_bytes s"
    by (simp add: utf8_bytes_def n_def Let_def)
  have "n < 256" unfolding n_def by (rule nat_of_char_less_256)
  then have "n div 64 < 4" by (rule less_mult_imp_div_less [of n 4 64, simplified])
  moreover have "128 \<le> n \<Longrightarrow> 2 \<le> n div 64" using div_le_mono [of 128 n 64] by simp
  moreover have "utf8_cont (128 + n mod 64)" by (simp add: utf8_cont_def)
  moreover have "64 * (n div 64) + n mod 64 = n" by simp
  ultimately show ?case using Cons by (cases "n < 128") (simp_all add: enc n_def [symmetric])
qed (simp add: utf8_bytes_def)

end
