(* ===== verification/TableNames.thy ===== *)
theory TableNames
  imports Paths Digest
begin

text \<open>
  Physical table names: \<open>_sanitize_pg_part\<close> and \<open>pg_table_name\<close> of
  \<^verbatim>\<open>backend/app/repositories/table_data_repo.py\<close> and the guard \<open>_is_safe_pg_table_name\<close> of
  \<^verbatim>\<open>backend/app/services/role_sync.py\<close> that stands in front of raw SQL.
\<close>

definition pg_name_char :: "char \<Rightarrow> bool" where
  "pg_name_char c = (let n = of_char c :: nat in (97 \<le> n \<and> n \<le> 122) \<or> (48 \<le> n \<and> n \<le> 57))"

definition sanitize_pg_part :: "string \<Rightarrow> string" where
  "sanitize_pg_part s =
     map (\<lambda>c. if pg_name_char c then c else CHR ''_'')
       (map (\<lambda>c. if c = CHR ''-'' then CHR ''_'' else c) (py_lower s))"

definition PG_IDENT_MAX_LEN :: nat where
  "PG_IDENT_MAX_LEN = 63"

definition VT_FRAMING_LEN :: nat where
  "VT_FRAMING_LEN = length ''vt_'' + length ''__''"

definition VT_DIGEST_LEN :: nat where
  "VT_DIGEST_LEN = 9"

definition pg_table_name :: "string \<Rightarrow> string \<Rightarrow> string" where
  "pg_table_name vault_name table_name =
     (let vault = sanitize_pg_part vault_name;
          table = sanitize_pg_part table_name;
          composed = ''vt_'' @ vault @ ''__'' @ table
      in if length composed \<le> PG_IDENT_MAX_LEN then composed
         else let digest = take 8 (sha1_hex (py_join [CHR 0x00] [vault, table]));
                  budget = PG_IDENT_MAX_LEN - VT_FRAMING_LEN - VT_DIGEST_LEN;
                  table_keep = min (length table) (budget - 1);
                  vault_keep = min (length vault) (budget - table_keep)
              in ''vt_'' @ take vault_keep vault @ ''__'' @ take table_keep table @ ''_'' @ digest)"

text \<open>\<open>_VT_TABLE_RE\<close>; its final \<open>$\<close> also matches before a newline.\<close>

definition vt_table_re :: "string \<Rightarrow> bool" where
  "vt_table_re name =
     (let body = (if name \<noteq> [] \<and> last name = CHR 0x0A then butlast name else name)
      in case strip_prefix ''vt_'' body of
           None \<Rightarrow> False
         | Some r \<Rightarrow> list_all (\<lambda>c. pg_name_char c \<or> c = CHR ''_'') r
             \<and> list_ex (\<lambda>i. take 2 (drop i r) = ''__'' \<and> i + 2 < length r) [1..<length r])"

definition is_safe_pg_table_name :: "string \<Rightarrow> bool" where
  "is_safe_pg_table_name name \<longleftrightarrow> vt_table_re name \<and> length name \<le> PG_IDENT_MAX_LEN"

lemma length_sanitize [simp]: "length (sanitize_pg_part s) = length s"
  by (simp add: sanitize_pg_part_def py_lower_def)

lemma sanitize_Nil_iff [simp]: "sanitize_pg_part s = [] \<longleftrightarrow> s = []"
  by (simp add: sanitize_pg_part_def py_lower_def)

lemma sanitize_chars: "c \<in> set (sanitize_pg_part s) \<Longrightarrow> pg_name_char c \<or> c = CHR ''_''"
  by (auto simp: sanitize_pg_part_def split: if_splits)

lemma hex_pg_name_char: "c \<in> set ''0123456789abcdef'' \<Longrightarrow> pg_name_char c"
  by (auto simp: pg_name_char_def)

lemma sha1_hex_chars: "c \<in> set (sha1_hex m) \<Longrightarrow> pg_name_char c"
proof -
  obtain a b e f g where "sha1_state_of m = (a, b, e, f, g)" by (rule prod_cases5)
  then have "set (sha1_hex m) \<subseteq> set ''0123456789abcdef''"
    using digest_hex_set [of "[a, b, e, f, g]"] by (simp add: sha1_hex_def)
  then show "c \<in> set (sha1_hex m) \<Longrightarrow> pg_name_char c" using hex_pg_name_char by blast
qed

lemma pg_char_not_newline: "pg_name_char c \<or> c = CHR ''_'' \<Longrightarrow> c \<noteq> CHR 0x0A"
  by (auto simp: pg_name_char_def)

text \<open>A framed pair of non-empty parts passes the guard.\<close>

lemma vt_table_re_framed:
  assumes "a \<noteq> []" and "b \<noteq> []"
    and "\<forall>c\<in>set a \<union> set b. pg_name_char c \<or> c = CHR ''_''"
  shows "vt_table_re (''vt_'' @ a @ ''__'' @ b)"
proof -
  define r where "r = a @ ''__'' @ b"
  define n where "n = ''vt_'' @ r"
  have "last n = last b" using assms(2) by (simp add: n_def r_def)
  then have "last n \<noteq> CHR 0x0A" using assms last_in_set [of b] pg_char_not_newline by (metis UnI2)
  then have body: "(if n \<noteq> [] \<and> last n = CHR 0x0A then butlast n else n) = n" by simp
  have pre: "strip_prefix ''vt_'' n = Some r" by (simp add: strip_prefix_Some_iff n_def)
  have all: "list_all (\<lambda>c. pg_name_char c \<or> c = CHR ''_'') r"
    using assms(3) by (auto simp: list_all_iff r_def)
  have "take 2 (drop (length a) r) = ''__'' \<and> length a + 2 < length r"
    using assms(2) by (simp add: numeral_2_eq_2 r_def)
  moreover have "length a \<in> set [1..<length r]" using assms(1) by (simp add: Suc_le_eq r_def)
  ultimately have "list_ex (\<lambda>i. take 2 (drop i r) = ''__'' \<and> i + 2 < length r) [1..<length r]"
    unfolding list_ex_iff by blast
  with all have "vt_table_re n" unfolding vt_table_re_def Let_def body pre option.case by blast
  then show ?thesis by (simp add: n_def r_def)
qed

text \<open>
  C32: the name computed for a table is always safe to splice into raw SQL: whatever the vault and the
  table are called, it has the guarded shape and is at most 63 characters, so it is never truncated
  by PostgreSQL.
\<close>

theorem pg_table_name_safe:
  assumes "vault_name \<noteq> ''''" and "table_name \<noteq> ''''"
  shows "is_safe_pg_table_name (pg_table_name vault_name table_name)"
proof -
  let ?v = "sanitize_pg_part vault_name" and ?t = "sanitize_pg_part table_name"
  have ne: "?v \<noteq> []" "?t \<noteq> []" using assms by simp_all
  show ?thesis
  proof (cases "length (''vt_'' @ ?v @ ''__'' @ ?t) \<le> PG_IDENT_MAX_LEN")
    case True
    then show ?thesis
      using vt_table_re_framed [OF ne] sanitize_chars
      by (auto simp: pg_table_name_def Let_def is_safe_pg_table_name_def)
  next
    case False
    define tk where "tk = min (length ?t) 48"
    define vk where "vk = min (length ?v) (49 - tk)"
    define g where "g = take 8 (sha1_hex (py_join [CHR 0x00] [?v, ?t]))"
    have pos: "0 < vk" "0 < tk" "vk + tk \<le> 49" using ne by (auto simp: vk_def tk_def)
    have eq: "pg_table_name vault_name table_name = ''vt_'' @ take vk ?v @ ''__'' @ (take tk ?t @ ''_'' @ g)"
      using False unfolding pg_table_name_def Let_def vk_def tk_def g_def
      by (simp add: PG_IDENT_MAX_LEN_def VT_FRAMING_LEN_def VT_DIGEST_LEN_def)
    have "vt_table_re (''vt_'' @ take vk ?v @ ''__'' @ (take tk ?t @ ''_'' @ g))"
    proof (rule vt_table_re_framed)
      show "take vk ?v \<noteq> []" using pos ne by simp
      show "take tk ?t @ ''_'' @ g \<noteq> []" by simp
      show "\<forall>c\<in>set (take vk ?v) \<union> set (take tk ?t @ ''_'' @ g). pg_name_char c \<or> c = CHR ''_''"
        using sanitize_chars sha1_hex_chars by (auto simp: g_def dest!: in_set_takeD)
    qed
    moreover have "length g \<le> 8" by (simp add: g_def)
    ultimately show ?thesis
      using pos unfolding is_safe_pg_table_name_def eq PG_IDENT_MAX_LEN_def by simp
  qed
qed

theorem pg_table_name_safe_witness:
  "is_safe_pg_table_name (pg_table_name ''Eng-Team'' (replicate 80 CHR ''x''))"
  by (rule pg_table_name_safe) simp_all

end
