(* ===== verification/RoleSync.thy ===== *)
theory RoleSync
  imports Contributions TableNames
begin

text \<open>
  The projection of the catalog onto PostgreSQL roles: \<^verbatim>\<open>backend/app/services/role_sync.py\<close>.

  \<open>pg_roles\<close> and \<open>pg_edges\<close> are \<^verbatim>\<open>pg_roles\<close> and \<^verbatim>\<open>pg_auth_members\<close>. The low-level helpers come first,
  then the lifecycle operations that run in a handler's transaction, then the passes of the
  reconciler, each statement of which runs in a savepoint, and the read-only diff.
\<close>

section \<open>Role names\<close>

definition AUTHENTICATED_ROLE :: string where
  "AUTHENTICATED_ROLE = ''akb_authenticated''"

definition SCOPES :: "string list" where
  "SCOPES = [''reader'', ''writer'', ''admin'']"

definition to_underscores :: "string \<Rightarrow> string" where
  "to_underscores = map (\<lambda>c. if c = CHR ''-'' then CHR ''_'' else c)"

definition to_hyphens :: "string \<Rightarrow> string" where
  "to_hyphens = map (\<lambda>c. if c = CHR ''_'' then CHR ''-'' else c)"

definition user_role_name :: "uuid \<Rightarrow> string" where
  "user_role_name u = ''akb_user_'' @ to_underscores (uuid_str u)"

definition group_name :: "uuid \<Rightarrow> string \<Rightarrow> string" where
  "group_name v scope = ''akb_vault_'' @ to_underscores (uuid_str v) @ ''_'' @ scope"

definition vault_group_role_name :: "uuid \<Rightarrow> string \<Rightarrow> string result" where
  "vault_group_role_name v scope =
     (if \<not> List.member SCOPES scope then Inl PyValueError else Inr (group_name v scope))"

definition token_role_name :: "uuid \<Rightarrow> string" where
  "token_role_name t = ''akb_token_'' @ to_underscores (uuid_str t)"

definition wanted_token_group_roles :: "(uuid \<times> string \<times> string) list \<Rightarrow> vault_scope \<Rightarrow> string list result" where
  "wanted_token_group_roles accessible scope =
     map_res (\<lambda>(vid, vname, role). vault_group_role_name vid role)
       (filter (\<lambda>(vid, vname, role). permits scope vname) accessible)"

definition public_access_scope :: "string \<Rightarrow> string option" where
  "public_access_scope level =
     (if level = ''reader'' then Some ''reader'' else if level = ''writer'' then Some ''writer'' else None)"

text \<open>\<open>s.rsplit("_", 1)\<close> unpacked into two names.\<close>

definition rsplit_under :: "string \<Rightarrow> (string \<times> string) option" where
  "rsplit_under s =
     (let ps = py_split CHR ''_'' s
      in if length ps < 2 then None else Some (py_join ''_'' (butlast ps), last ps))"

definition is_catalog_role :: "string \<Rightarrow> string \<Rightarrow> bool" where
  "is_catalog_role role kind =
     (let pre = ''akb_'' @ kind @ ''_'' in
      case strip_prefix pre role of
        None \<Rightarrow> False
      | Some rest \<Rightarrow>
          (case (if kind = ''vault''
                 then (case rsplit_under rest of None \<Rightarrow> None
                       | Some (sfx, scope) \<Rightarrow> if List.member SCOPES scope then Some (sfx, Some scope) else None)
                 else Some (rest, None)) of
             None \<Rightarrow> False
           | Some (sfx, scope) \<Rightarrow>
               (case parse_uuid (to_hyphens sfx) of
                  None \<Rightarrow> False
                | Some uid \<Rightarrow>
                    role = pre @ to_underscores (uuid_str uid)
                      @ (case scope of Some s \<Rightarrow> if s \<noteq> '''' then ''_'' @ s else '''' | None \<Rightarrow> ''''))))"

section \<open>Low-level helpers\<close>

definition has_direct_membership :: "db \<Rightarrow> string \<Rightarrow> string \<Rightarrow> bool \<Rightarrow> bool" where
  "has_direct_membership d g m own_grant \<longleftrightarrow>
     list_ex (\<lambda>e. e_group e = g \<and> e_member e = m \<and> (\<not> own_grant \<or> e_grantor e = pg_user d)) (pg_edges d)"

definition membership_options_valid :: "db \<Rightarrow> string \<Rightarrow> string \<Rightarrow> bool" where
  "membership_options_valid d g m \<longleftrightarrow>
     \<not> list_ex (\<lambda>e. e_group e = g \<and> e_member e = m \<and> (e_admin e \<or> \<not> e_inherit e \<or> \<not> e_set e)) (pg_edges d)"

definition create_role_if_missing :: "string \<Rightarrow> db \<Rightarrow> db" where
  "create_role_if_missing role d =
     (if List.member (pg_roles d) role then d else d\<lparr>pg_roles := pg_roles d @ [role]\<rparr>)"

text \<open>\<open>GRANT g TO m\<close>: both roles must exist; the edge is the current user's, with default options.\<close>

definition pg_grant :: "string \<Rightarrow> string \<Rightarrow> db \<Rightarrow> db result" where
  "pg_grant g m d =
     (if \<not> List.member (pg_roles d) g \<or> \<not> List.member (pg_roles d) m then Inl (PgError ''undefined_object'')
      else Inr (d\<lparr>pg_edges := pg_edges d @
             [\<lparr>e_group = g, e_member = m, e_grantor = pg_user d, e_admin = False, e_inherit = True,
               e_set = True\<rparr>]\<rparr>))"

definition pg_revoke :: "string \<Rightarrow> string \<Rightarrow> db \<Rightarrow> db" where
  "pg_revoke g m d =
     d\<lparr>pg_edges := filter (\<lambda>e. \<not> (e_group e = g \<and> e_member e = m \<and> e_grantor e = pg_user d)) (pg_edges d)\<rparr>"

definition grant_membership :: "string \<Rightarrow> string \<Rightarrow> db \<Rightarrow> db result" where
  "grant_membership g m d =
     (if \<not> has_direct_membership d g m False then pg_grant g m d
      else if \<not> membership_options_valid d g m
      then Inl (PyRuntimeError ''membership options differ from catalog authority'')
      else Inr d)"

definition revoke_membership_if_present :: "string \<Rightarrow> string \<Rightarrow> db \<Rightarrow> db" where
  "revoke_membership_if_present g m d =
     (if has_direct_membership d g m True then pg_revoke g m d else d)"

definition revoke_membership_strict :: "string \<Rightarrow> string \<Rightarrow> db \<Rightarrow> db result" where
  "revoke_membership_strict g m d =
     (let d1 = revoke_membership_if_present g m d
      in if has_direct_membership d1 g m False
         then Inl (PyRuntimeError ''membership remains under another grantor'') else Inr d1)"

text \<open>\<open>DROP OWNED BY\<close> then \<open>DROP ROLE\<close>: the role, its privileges and every membership it is part of go.\<close>

definition drop_role_if_present :: "string \<Rightarrow> db \<Rightarrow> db" where
  "drop_role_if_present role d =
     d\<lparr>pg_roles := filter (\<lambda>r. r \<noteq> role) (pg_roles d),
       pg_edges := filter (\<lambda>e. e_group e \<noteq> role \<and> e_member e \<noteq> role) (pg_edges d),
       pg_privs := filter (\<lambda>(r, t, p). r \<noteq> role) (pg_privs d)\<rparr>"

definition pg_grant_table :: "string list \<Rightarrow> string \<Rightarrow> string \<Rightarrow> db \<Rightarrow> db result" where
  "pg_grant_table privs tbl role d =
     (if \<not> List.member (pg_tables d) tbl then Inl (PgError ''undefined_table'')
      else if \<not> List.member (pg_roles d) role then Inl (PgError ''undefined_object'')
      else Inr (d\<lparr>pg_privs := pg_privs d @ map (\<lambda>p. (role, tbl, p)) privs\<rparr>))"

definition grant_table :: "uuid \<Rightarrow> string \<Rightarrow> db \<Rightarrow> db result" where
  "grant_table vid tbl d =
     rbind (pg_grant_table [''SELECT''] tbl (group_name vid ''reader'') d) (\<lambda>d.
     rbind (pg_grant_table [''SELECT'', ''INSERT'', ''UPDATE'', ''DELETE''] tbl (group_name vid ''writer'') d) (\<lambda>d.
     pg_grant_table [''SELECT'', ''INSERT'', ''UPDATE'', ''DELETE'', ''TRUNCATE'', ''REFERENCES'', ''TRIGGER'']
       tbl (group_name vid ''admin'') d))"

section \<open>Scoped tokens\<close>

definition fetch_user_accessible :: "db \<Rightarrow> uuid \<Rightarrow> (uuid \<times> string \<times> string) list" where
  "fetch_user_accessible d uid =
     remdups
       (concat (map (\<lambda>a. map (\<lambda>v. (v_id v, v_name v, a_role a))
                          (filter (\<lambda>v. v_id v = a_vault a) (vaults d)))
                  (filter (\<lambda>a. a_user a = uid) (access d)))
        @ map (\<lambda>v. (v_id v, v_name v, ''admin'')) (filter (\<lambda>v. v_owner v = Some uid) (vaults d)))"

definition token_group_memberships :: "db \<Rightarrow> string \<Rightarrow> string list" where
  "token_group_memberships d role =
     remdups (filter (\<lambda>g. starts_with g ''akb_vault_'' \<and> is_catalog_role g ''vault'')
       (map e_group (filter (\<lambda>e. e_member e = role) (pg_edges d))))"

definition token_live :: "db \<Rightarrow> token_row \<Rightarrow> bool" where
  "token_live d t \<longleftrightarrow> t_scope t \<noteq> None
     \<and> (case t_expires t of None \<Rightarrow> True | Some x \<Rightarrow> clock d < x)
     \<and> (case user_by_id d (t_user t) of Some u \<Rightarrow> u_status u = ''active'' | None \<Rightarrow> False)"

definition locked_live_scoped_tokens :: "uuid option \<Rightarrow> uuid option \<Rightarrow> db \<Rightarrow> token_row list" where
  "locked_live_scoped_tokens user tok d =
     sort_key t_id (filter (\<lambda>t. token_live d t
       \<and> (case user of None \<Rightarrow> True | Some u \<Rightarrow> t_user t = u)
       \<and> (case tok of None \<Rightarrow> True | Some i \<Rightarrow> t_id t = i)) (tokens d))"

definition sync_one_token :: "(uuid \<times> string \<times> string) list \<Rightarrow> token_row \<Rightarrow> db \<Rightarrow> db result" where
  "sync_one_token accessible t d =
     (case from_db_json (t_scope t) of
        Inl _ \<Rightarrow> Inr d
      | Inr None \<Rightarrow> Inr d
      | Inr (Some scope) \<Rightarrow>
          (let role = token_role_name (t_id t);
               d = create_role_if_missing role d
           in rbind (wanted_token_group_roles accessible scope) (\<lambda>wanted.
              let have = token_group_memberships d role in
              rbind (fold_res (\<lambda>g. grant_membership g role) wanted d) (\<lambda>d.
              fold_res (\<lambda>g. revoke_membership_strict g role)
                (filter (\<lambda>g. g \<notin> set wanted) have) d))))"

definition sync_user_scoped_tokens :: "uuid \<Rightarrow> db \<Rightarrow> db result" where
  "sync_user_scoped_tokens uid d =
     (let token_rows = locked_live_scoped_tokens (Some uid) None d
      in if token_rows = [] then Inr d
         else (let accessible = fetch_user_accessible d uid
               in fold_res (sync_one_token accessible) token_rows d))"

section \<open>Operations in the caller's transaction\<close>

definition wanted_scope :: "uuid \<Rightarrow> uuid \<Rightarrow> db \<Rightarrow> string option" where
  "wanted_scope vid uid d =
     (case vault_by_id d vid of
        None \<Rightarrow> None
      | Some v \<Rightarrow>
          if user_by_id d uid = None then None
          else if v_owner v = Some uid then Some ''admin''
          else access_role d vid uid)"

definition sync_vault_user :: "uuid \<Rightarrow> uuid \<Rightarrow> db \<Rightarrow> db result" where
  "sync_vault_user vid uid d =
     (let wanted = wanted_scope vid uid d;
          user = user_role_name uid
      in rbind (fold_res (\<lambda>s d. if Some s \<noteq> wanted then revoke_membership_strict (group_name vid s) user d else Inr d)
                  SCOPES d) (\<lambda>d.
         rbind (case wanted of
                  None \<Rightarrow> Inr d
                | Some w \<Rightarrow> rbind (vault_group_role_name vid w) (\<lambda>g.
                    grant_membership g user (create_role_if_missing user d))) (\<lambda>d.
         sync_user_scoped_tokens uid d)))"

definition on_public_access_change_in_conn :: "uuid \<Rightarrow> string \<Rightarrow> db \<Rightarrow> db result" where
  "on_public_access_change_in_conn vid level d =
     (let target = public_access_scope level;
          d = create_role_if_missing AUTHENTICATED_ROLE d
      in rbind (fold_res (\<lambda>s d. if Some s = target then Inr d
                                else revoke_membership_strict (group_name vid s) AUTHENTICATED_ROLE d)
                  SCOPES d) (\<lambda>d.
         case target of
           None \<Rightarrow> Inr d
         | Some s \<Rightarrow> grant_membership (group_name vid s) AUTHENTICATED_ROLE d))"

definition on_user_create_in_conn :: "uuid \<Rightarrow> db \<Rightarrow> db result" where
  "on_user_create_in_conn uid d =
     (let role = user_role_name uid
      in grant_membership AUTHENTICATED_ROLE role
           (create_role_if_missing AUTHENTICATED_ROLE (create_role_if_missing role d)))"

definition on_vault_create_in_conn :: "uuid \<Rightarrow> uuid option \<Rightarrow> db \<Rightarrow> db result" where
  "on_vault_create_in_conn vid owner d =
     (let reader = group_name vid ''reader'';
          wr = group_name vid ''writer'';
          admin = group_name vid ''admin'';
          d = create_role_if_missing admin (create_role_if_missing wr (create_role_if_missing reader d))
      in rbind (grant_membership reader wr d) (\<lambda>d.
         rbind (grant_membership wr admin d) (\<lambda>d.
         case owner of
           None \<Rightarrow> Inr d
         | Some o1 \<Rightarrow>
             (let owner_role = user_role_name o1 in
              rbind (grant_membership admin owner_role (create_role_if_missing owner_role d)) (\<lambda>d.
              sync_user_scoped_tokens o1 d)))))"

section \<open>Role names identify their objects\<close>

lemma to_hyphens_underscores: "CHR ''_'' \<notin> set s \<Longrightarrow> to_hyphens (to_underscores s) = s"
  by (induction s) (auto simp: to_hyphens_def to_underscores_def)

lemma underscore_not_in_uuid_str: "CHR ''_'' \<notin> set (uuid_str u)"
  using uuid_str_set [of u] by auto

lemma to_hyphens_uuid [simp]: "to_hyphens (to_underscores (uuid_str u)) = uuid_str u"
  by (rule to_hyphens_underscores) (rule underscore_not_in_uuid_str)

lemma to_underscores_uuid_inject [simp]:
  "to_underscores (uuid_str u) = to_underscores (uuid_str v) \<longleftrightarrow> u = v"
  using to_hyphens_uuid uuid_str_inject by metis

lemma length_to_underscores [simp]: "length (to_underscores s) = length s"
  by (simp add: to_underscores_def)

lemma user_role_name_inject [simp]: "user_role_name u = user_role_name v \<longleftrightarrow> u = v"
  by (simp add: user_role_name_def)

lemma token_role_name_inject [simp]: "token_role_name t = token_role_name u \<longleftrightarrow> t = u"
  by (simp add: token_role_name_def)

lemma group_name_inject [simp]: "group_name v s = group_name w t \<longleftrightarrow> v = w \<and> s = t"
  by (auto simp: group_name_def)

lemma role_names_distinct [simp]:
  "user_role_name u \<noteq> token_role_name t" "token_role_name t \<noteq> user_role_name u"
  "user_role_name u \<noteq> AUTHENTICATED_ROLE" "AUTHENTICATED_ROLE \<noteq> user_role_name u"
  "token_role_name t \<noteq> AUTHENTICATED_ROLE" "AUTHENTICATED_ROLE \<noteq> token_role_name t"
  "group_name v s \<noteq> user_role_name u" "group_name v s \<noteq> token_role_name t" "group_name v s \<noteq> AUTHENTICATED_ROLE"
  "user_role_name u \<noteq> group_name v s" "token_role_name t \<noteq> group_name v s" "AUTHENTICATED_ROLE \<noteq> group_name v s"
  by (simp_all add: user_role_name_def token_role_name_def AUTHENTICATED_ROLE_def group_name_def)

lemma rsplit_under_append:
  assumes "CHR ''_'' \<notin> set b"
  shows "rsplit_under (a @ CHR ''_'' # b) = Some (a, b)"
proof -
  have "py_split CHR ''_'' (a @ CHR ''_'' # b) = py_split CHR ''_'' a @ [b]"
    using assms by (simp add: py_split_append py_split_no_sep)
  moreover have "py_split CHR ''_'' a \<noteq> []" by simp
  ultimately show ?thesis
    by (simp add: rsplit_under_def Let_def py_join_split Suc_le_eq)
qed

lemma scope_no_underscore: "s \<in> set SCOPES \<Longrightarrow> CHR ''_'' \<notin> set s \<and> s \<noteq> ''''"
  by (auto simp: SCOPES_def)

lemma is_catalog_group [simp]: "s \<in> set SCOPES \<Longrightarrow> is_catalog_role (group_name v s) ''vault''"
  using rsplit_under_append [of s "to_underscores (uuid_str v)"] scope_no_underscore [of s]
  by (simp add: is_catalog_role_def group_name_def)

lemma starts_with_group [simp]: "starts_with (group_name v s) ''akb_vault_''"
  by (simp add: starts_with_iff group_name_def)

section \<open>Memberships\<close>

text \<open>What a store of memberships promises, and what loops of grants and revokes over it achieve.\<close>

locale membership_store =
  fixes grant revoke :: "'g \<Rightarrow> 'm \<Rightarrow> 's \<Rightarrow> 'e + 's"
    and mem :: "'s \<Rightarrow> ('g \<times> 'm) set"
    and frame :: "'s \<Rightarrow> 'f"
  assumes grant_mem: "grant g m s = Inr s' \<Longrightarrow> mem s' = insert (g, m) (mem s)"
    and revoke_mem: "revoke g m s = Inr s' \<Longrightarrow> mem s' = mem s - {(g, m)}"
    and grant_frame: "grant g m s = Inr s' \<Longrightarrow> frame s' = frame s"
    and revoke_frame: "revoke g m s = Inr s' \<Longrightarrow> frame s' = frame s"
begin

lemma grant_all:
  "fold_res (\<lambda>g. grant g m) gs s = Inr s' \<Longrightarrow>
   mem s' = mem s \<union> (\<lambda>g. (g, m)) ` set gs \<and> frame s' = frame s"
proof (induction gs arbitrary: s)
  case (Cons g gs)
  then obtain t where "grant g m s = Inr t" and "fold_res (\<lambda>g. grant g m) gs t = Inr s'"
    by (auto simp: rbind_Inr_iff)
  with Cons.IH show ?case using grant_mem grant_frame by fastforce
qed simp

lemma revoke_all:
  "fold_res (\<lambda>g. revoke g m) gs s = Inr s' \<Longrightarrow>
   mem s' = mem s - (\<lambda>g. (g, m)) ` set gs \<and> frame s' = frame s"
proof (induction gs arbitrary: s)
  case (Cons g gs)
  then obtain t where "revoke g m s = Inr t" and "fold_res (\<lambda>g. revoke g m) gs t = Inr s'"
    by (auto simp: rbind_Inr_iff)
  with Cons.IH show ?case using revoke_mem revoke_frame by fastforce
qed simp

text \<open>Withdrawing every entry of a list that fails a test.\<close>

lemma revoke_unless:
  "fold_res (\<lambda>x s. if P x then revoke (f x) m s else Inr s) xs s = Inr s' \<Longrightarrow>
   mem s' = mem s - (\<lambda>x. (f x, m)) ` {x \<in> set xs. P x} \<and> frame s' = frame s"
proof (induction xs arbitrary: s)
  case (Cons x xs)
  then obtain t where t: "(if P x then revoke (f x) m s else Inr s) = Inr t"
    and "fold_res (\<lambda>x s. if P x then revoke (f x) m s else Inr s) xs t = Inr s'"
    by (auto simp: rbind_Inr_iff)
  then have r: "mem s' = mem t - (\<lambda>x. (f x, m)) ` {x \<in> set xs. P x} \<and> frame s' = frame t"
    using Cons.IH by blast
  show ?case
  proof (cases "P x")
    case True
    then have "mem t = mem s - {(f x, m)}" and "frame t = frame s"
      using t revoke_mem revoke_frame by auto
    with r True show ?thesis by auto
  next
    case False
    with t have "t = s" by simp
    moreover have "{y \<in> set (x # xs). P y} = {y \<in> set xs. P y}" using False by auto
    ultimately show ?thesis using r by simp
  qed
qed simp

text \<open>Granting what is wanted and withdrawing the rest of what was held leaves exactly what is wanted.\<close>

lemma converge:
  assumes "fold_res (\<lambda>g. grant g m) wanted s = Inr t"
    and "fold_res (\<lambda>g. revoke g m) (filter (\<lambda>g. g \<notin> set wanted) have1) t = Inr s'"
    and "set have1 = {g. (g, m) \<in> mem s \<and> g \<in> G}" and "set wanted \<subseteq> G"
  shows "{g \<in> G. (g, m) \<in> mem s'} = set wanted"
    and "m' \<noteq> m \<or> g' \<notin> G \<Longrightarrow> (g', m') \<in> mem s' \<longleftrightarrow> (g', m') \<in> mem s"
    and "frame s' = frame s"
  using grant_all [OF assms(1)] revoke_all [OF assms(2)] assms(3,4) by auto

end

definition members :: "db \<Rightarrow> (string \<times> string) set" where
  "members d = (\<lambda>e. (e_group e, e_member e)) ` set (pg_edges d)"

text \<open>Everything of the database that is not a PostgreSQL role, membership or privilege.\<close>

definition catalog :: "db \<Rightarrow> db" where
  "catalog d = d\<lparr>pg_roles := [], pg_edges := [], pg_privs := []\<rparr>"

lemma catalogD:
  assumes "catalog d' = catalog d"
  shows "users d' = users d" "vaults d' = vaults d" "mirrors d' = mirrors d" "tokens d' = tokens d"
    "access d' = access d" "contribs d' = contribs d" "policies d' = policies d" "grants d' = grants d"
    "events d' = events d" "clock d' = clock d" "pg_user d' = pg_user d" "vault_tables d' = vault_tables d"
    "pg_tables d' = pg_tables d"
  using assms by (cases d; cases d'; simp add: catalog_def)+

lemma has_direct_iff: "has_direct_membership d g m False \<longleftrightarrow> (g, m) \<in> members d"
  by (auto simp: has_direct_membership_def members_def list_ex_iff)

lemma grant_membership_mem:
  "grant_membership g m d = Inr d' \<Longrightarrow> members d' = insert (g, m) (members d) \<and> catalog d' = catalog d"
  by (auto simp: grant_membership_def pg_grant_def members_def has_direct_iff catalog_def image_iff
      split: if_splits)

lemma members_filter:
  "members (d\<lparr>pg_edges := filter P (pg_edges d)\<rparr>) = (\<lambda>e. (e_group e, e_member e)) ` {e \<in> set (pg_edges d). P e}"
  by (simp add: members_def)

lemma revoke_membership_strict_mem:
  assumes "revoke_membership_strict g m d = Inr d'"
  shows "members d' = members d - {(g, m)} \<and> catalog d' = catalog d"
proof -
  have d': "d' = revoke_membership_if_present g m d" and n: "(g, m) \<notin> members d'"
    using assms by (auto simp: revoke_membership_strict_def Let_def has_direct_iff split: if_splits)
  then have "members d - {(g, m)} \<subseteq> members d'" and "members d' \<subseteq> members d"
    by (auto simp: revoke_membership_if_present_def pg_revoke_def members_def)
  with n d' show ?thesis
    by (auto simp: revoke_membership_if_present_def pg_revoke_def catalog_def)
qed

interpretation pg: membership_store grant_membership revoke_membership_strict members catalog
  by unfold_locales (simp_all add: grant_membership_mem revoke_membership_strict_mem)

lemma create_role_mem [simp]:
  "members (create_role_if_missing r d) = members d"
  "catalog (create_role_if_missing r d) = catalog d"
  "pg_edges (create_role_if_missing r d) = pg_edges d"
  by (simp_all add: create_role_if_missing_def members_def catalog_def)

section \<open>Scoped tokens get the owner's authority cut down to the scope\<close>

lemma wanted_tokens_Inr:
  "wanted_token_group_roles acc scope = Inr ws \<Longrightarrow>
   set ws = {group_name vid role | vid vname role. (vid, vname, role) \<in> set acc \<and> permits scope vname} \<and>
   (\<forall>(vid, vname, role)\<in>set acc. permits scope vname \<longrightarrow> role \<in> set SCOPES)"
proof (induction acc arbitrary: ws)
  case (Cons a acc)
  obtain vid vname role where a: "a = (vid, vname, role)" by (cases a) auto
  show ?case
  proof (cases "permits scope vname")
    case True
    with Cons.prems a obtain ws' where "ws = group_name vid role # ws'" and "role \<in> set SCOPES"
      and "wanted_token_group_roles acc scope = Inr ws'"
      by (auto simp: wanted_token_group_roles_def rbind_Inr_iff vault_group_role_name_def split: if_splits)
    with Cons.IH [of ws'] a True show ?thesis by auto
  next
    case False
    with Cons.prems a have "wanted_token_group_roles acc scope = Inr ws"
      by (simp add: wanted_token_group_roles_def)
    with Cons.IH [of ws] a False show ?thesis by auto
  qed
qed (simp add: wanted_token_group_roles_def)

lemma set_token_group_memberships:
  "set (token_group_memberships d role) =
     {g. (g, role) \<in> members d \<and> starts_with g ''akb_vault_'' \<and> is_catalog_role g ''vault''}"
  by (auto simp: token_group_memberships_def members_def)

definition vault_groups :: "string set" where
  "vault_groups = {g. starts_with g ''akb_vault_'' \<and> is_catalog_role g ''vault''}"

lemma sync_one_token_ok:
  assumes "sync_one_token acc t d = Inr d'"
  shows "catalog d' = catalog d"
    and "m \<noteq> token_role_name (t_id t) \<or> g \<notin> vault_groups \<Longrightarrow> (g, m) \<in> members d' \<longleftrightarrow> (g, m) \<in> members d"
    and "from_db_json (t_scope t) = Inr (Some scope) \<Longrightarrow>
      {g \<in> vault_groups. (g, token_role_name (t_id t)) \<in> members d'} =
        {group_name vid role | vid vname role. (vid, vname, role) \<in> set acc \<and> permits scope vname}"
proof -
  let ?r = "token_role_name (t_id t)"
  have "catalog d' = catalog d \<and>
    (m \<noteq> ?r \<or> g \<notin> vault_groups \<longrightarrow> ((g, m) \<in> members d' \<longleftrightarrow> (g, m) \<in> members d)) \<and>
    (from_db_json (t_scope t) = Inr (Some scope) \<longrightarrow> {g \<in> vault_groups. (g, ?r) \<in> members d'} =
        {group_name vid role | vid vname role. (vid, vname, role) \<in> set acc \<and> permits scope vname})"
    for m g scope
  proof (cases "\<exists>s. from_db_json (t_scope t) = Inr (Some s)")
    case True
    then obtain s where s: "from_db_json (t_scope t) = Inr (Some s)" by blast
    let ?d = "create_role_if_missing ?r d"
    from assms s obtain ws d1 where w: "wanted_token_group_roles acc s = Inr ws"
      and g1: "fold_res (\<lambda>g. grant_membership g ?r) ws ?d = Inr d1"
      and r1: "fold_res (\<lambda>g. revoke_membership_strict g ?r)
        (filter (\<lambda>g. g \<notin> set ws) (token_group_memberships ?d ?r)) d1 = Inr d'"
      by (auto simp: sync_one_token_def Let_def rbind_Inr_iff)
    note ws = wanted_tokens_Inr [OF w]
    have h: "set (token_group_memberships ?d ?r) = {g. (g, ?r) \<in> members ?d \<and> g \<in> vault_groups}"
      by (simp add: set_token_group_memberships vault_groups_def)
    have sub: "set ws \<subseteq> vault_groups" using ws by (auto simp: vault_groups_def)
    note c = pg.converge [OF g1 r1 h sub]
    show ?thesis using c(1,3) c(2) [of m g] ws s by auto
  next
    case False
    with assms have "d' = d" by (auto simp: sync_one_token_def split: sum.splits option.splits)
    with False show ?thesis by auto
  qed
  then show "catalog d' = catalog d"
    and "m \<noteq> ?r \<or> g \<notin> vault_groups \<Longrightarrow> (g, m) \<in> members d' \<longleftrightarrow> (g, m) \<in> members d"
    and "from_db_json (t_scope t) = Inr (Some scope) \<Longrightarrow> {g \<in> vault_groups. (g, ?r) \<in> members d'} =
        {group_name vid role | vid vname role. (vid, vname, role) \<in> set acc \<and> permits scope vname}"
    by blast+
qed

lemma fold_sync_tokens_frame:
  assumes "fold_res (sync_one_token acc) ts d = Inr d'"
  shows "catalog d' = catalog d"
    and "m \<notin> token_role_name ` t_id ` set ts \<or> g \<notin> vault_groups \<Longrightarrow>
      (g, m) \<in> members d' \<longleftrightarrow> (g, m) \<in> members d"
proof -
  have "catalog d' = catalog d \<and> (m \<notin> token_role_name ` t_id ` set ts \<or> g \<notin> vault_groups \<longrightarrow>
      ((g, m) \<in> members d' \<longleftrightarrow> (g, m) \<in> members d))" for m g
  proof (rule fold_res_invariant [OF assms])
    fix t s s'
    assume "t \<in> set ts" and "catalog s = catalog d \<and> (m \<notin> token_role_name ` t_id ` set ts \<or> g \<notin> vault_groups \<longrightarrow>
      ((g, m) \<in> members s \<longleftrightarrow> (g, m) \<in> members d))" and "sync_one_token acc t s = Inr s'"
    then show "catalog s' = catalog d \<and> (m \<notin> token_role_name ` t_id ` set ts \<or> g \<notin> vault_groups \<longrightarrow>
      ((g, m) \<in> members s' \<longleftrightarrow> (g, m) \<in> members d))"
      using sync_one_token_ok(1,2) by (metis image_eqI)
  qed simp
  then show "catalog d' = catalog d"
    and "m \<notin> token_role_name ` t_id ` set ts \<or> g \<notin> vault_groups \<Longrightarrow>
      (g, m) \<in> members d' \<longleftrightarrow> (g, m) \<in> members d" by blast+
qed

lemma fold_sync_tokens_wanted:
  assumes "fold_res (sync_one_token acc) ts d = Inr d'" and "distinct (map t_id ts)" and "t \<in> set ts"
    and "from_db_json (t_scope t) = Inr (Some scope)"
  shows "{g \<in> vault_groups. (g, token_role_name (t_id t)) \<in> members d'} =
        {group_name vid role | vid vname role. (vid, vname, role) \<in> set acc \<and> permits scope vname}"
  using assms(1-3)
proof (induction ts arbitrary: d)
  case (Cons a ts)
  from Cons.prems obtain d1 where a: "sync_one_token acc a d = Inr d1"
    and r: "fold_res (sync_one_token acc) ts d1 = Inr d'" by (auto simp: rbind_Inr_iff)
  show ?case
  proof (cases "t = a")
    case True
    then have "token_role_name (t_id t) \<notin> token_role_name ` t_id ` set ts"
      using Cons.prems(2) by auto
    then have "(g, token_role_name (t_id t)) \<in> members d' \<longleftrightarrow> (g, token_role_name (t_id t)) \<in> members d1" for g
      using fold_sync_tokens_frame(2) [OF r] by blast
    then show ?thesis using sync_one_token_ok(3) [OF a] assms(4) True by simp
  next
    case False
    then show ?thesis using Cons.IH [OF r] Cons.prems by simp
  qed
qed simp

lemma set_fetch_user_accessible:
  "(v, n, r) \<in> set (fetch_user_accessible d u) \<longleftrightarrow>
     (\<exists>vr\<in>set (vaults d). v_id vr = v \<and> v_name vr = n \<and>
        ((\<exists>a\<in>set (access d). a_user a = u \<and> a_vault a = v \<and> a_role a = r) \<or> v_owner vr = Some u \<and> r = ''admin''))"
  by (auto simp: fetch_user_accessible_def)

lemma set_live_tokens:
  "t \<in> set (locked_live_scoped_tokens (Some u) None d) \<longleftrightarrow> t \<in> set (tokens d) \<and> token_live d t \<and> t_user t = u"
  by (auto simp: locked_live_scoped_tokens_def)

lemma distinct_live_tokens:
  "unique_by t_id (tokens d) \<Longrightarrow> distinct (map t_id (locked_live_scoped_tokens u t d))"
proof -
  assume "unique_by t_id (tokens d)"
  then have "distinct (map t_id (filter P (tokens d)))" for P by (simp add: unique_by_def distinct_map_filter)
  then have "inj_on t_id (set (filter P (tokens d))) \<and> distinct (filter P (tokens d))" for P
    by (simp add: distinct_map)
  then show ?thesis by (simp add: locked_live_scoped_tokens_def distinct_map)
qed

lemma sync_user_scoped_tokens_frame:
  assumes "sync_user_scoped_tokens u d = Inr d'"
  shows "catalog d' = catalog d"
    and "(\<forall>t. m \<noteq> token_role_name t) \<or> g \<notin> vault_groups \<Longrightarrow> (g, m) \<in> members d' \<longleftrightarrow> (g, m) \<in> members d"
proof -
  have "catalog d' = catalog d \<and>
    ((\<forall>t. m \<noteq> token_role_name t) \<or> g \<notin> vault_groups \<longrightarrow> ((g, m) \<in> members d' \<longleftrightarrow> (g, m) \<in> members d))" for m g
  proof (cases "locked_live_scoped_tokens (Some u) None d = []")
    case True
    with assms show ?thesis by (simp add: sync_user_scoped_tokens_def)
  next
    case False
    with assms have "fold_res (sync_one_token (fetch_user_accessible d u))
        (locked_live_scoped_tokens (Some u) None d) d = Inr d'"
      by (simp add: sync_user_scoped_tokens_def Let_def)
    note fold_sync_tokens_frame [OF this]
    then show ?thesis by blast
  qed
  then show "catalog d' = catalog d"
    and "(\<forall>t. m \<noteq> token_role_name t) \<or> g \<notin> vault_groups \<Longrightarrow> (g, m) \<in> members d' \<longleftrightarrow> (g, m) \<in> members d"
    by blast+
qed

text \<open>
  C16: after a synchronisation, the PostgreSQL role of a live scoped token is a member of exactly the
  groups its owner may use on the vaults its scope permits: for every vault group, the owner holds
  that role on that vault (or owns it, for admin) and the vault's name is inside the scope. A scope
  can only subtract.
\<close>

theorem scoped_token_confined:
  assumes "unique_by t_id (tokens d)" and "t \<in> set (tokens d)" and "token_live d t" and "t_user t = u"
    and "from_db_json (t_scope t) = Inr (Some scope)" and "sync_user_scoped_tokens u d = Inr d'"
    and "r \<in> set SCOPES"
  shows "(group_name v r, token_role_name (t_id t)) \<in> members d' \<longleftrightarrow>
    (\<exists>vr\<in>set (vaults d). v_id vr = v \<and> permits scope (v_name vr) \<and>
       ((\<exists>a\<in>set (access d). a_user a = u \<and> a_vault a = v \<and> a_role a = r) \<or> v_owner vr = Some u \<and> r = ''admin''))"
proof -
  let ?ts = "locked_live_scoped_tokens (Some u) None d"
  have t: "t \<in> set ?ts" using assms(2-4) by (simp add: set_live_tokens)
  then have "?ts \<noteq> []" by auto
  then have "fold_res (sync_one_token (fetch_user_accessible d u)) ?ts d = Inr d'"
    using assms(6) by (simp add: sync_user_scoped_tokens_def)
  note w = fold_sync_tokens_wanted [OF this distinct_live_tokens [OF assms(1)] t assms(5)]
  have "group_name v r \<in> vault_groups" using assms(7) by (simp add: vault_groups_def)
  then have "(group_name v r, token_role_name (t_id t)) \<in> members d' \<longleftrightarrow>
      group_name v r \<in> {g \<in> vault_groups. (g, token_role_name (t_id t)) \<in> members d'}" by simp
  also have "\<dots> \<longleftrightarrow> (\<exists>n. (v, n, r) \<in> set (fetch_user_accessible d u) \<and> permits scope n)"
    unfolding w by auto
  finally have "(group_name v r, token_role_name (t_id t)) \<in> members d' \<longleftrightarrow>
      (\<exists>n. (v, n, r) \<in> set (fetch_user_accessible d u) \<and> permits scope n)" .
  then show ?thesis by (auto simp: set_fetch_user_accessible)
qed

section \<open>A pair's membership follows the catalog\<close>

text \<open>The memberships a pair's synchronisation may touch: the vault's three groups, for the user.\<close>

definition pair_edges :: "uuid \<Rightarrow> string \<Rightarrow> (string \<times> string) set" where
  "pair_edges v m = {(group_name v s, m) | s. s \<in> set SCOPES}"

lemma sync_vault_user_steps:
  assumes "sync_vault_user v u d = Inr d'"
  shows "catalog d' = catalog d"
    and "s \<in> set SCOPES \<Longrightarrow> (group_name v s, user_role_name u) \<in> members d' \<longleftrightarrow> wanted_scope v u d = Some s"
    and "(g, m) \<notin> pair_edges v (user_role_name u) \<Longrightarrow> \<forall>t. m \<noteq> token_role_name t \<Longrightarrow>
      (g, m) \<in> members d' \<longleftrightarrow> (g, m) \<in> members d"
    and "wanted_scope v u d \<in> insert None (Some ` set SCOPES)"
proof -
  let ?w = "wanted_scope v u d" and ?m = "user_role_name u"
  from assms obtain d1 d2 where
    r: "fold_res (\<lambda>s d. if Some s \<noteq> ?w then revoke_membership_strict (group_name v s) ?m d else Inr d) SCOPES d = Inr d1"
    and g: "(case ?w of None \<Rightarrow> Inr d1 | Some w \<Rightarrow> rbind (vault_group_role_name v w)
              (\<lambda>g. grant_membership g ?m (create_role_if_missing ?m d1))) = Inr d2"
    and t: "sync_user_scoped_tokens u d2 = Inr d'"
    by (auto simp: sync_vault_user_def Let_def rbind_Inr_iff simp del: fold_res.simps)
  have m1: "members d1 = members d - (\<lambda>s. (group_name v s, ?m)) ` {s \<in> set SCOPES. Some s \<noteq> ?w}"
    and c1: "catalog d1 = catalog d"
    using pg.revoke_unless [OF r] by auto
  have m2: "members d2 = members d1 \<union> {(group_name v s, ?m) | s. ?w = Some s} \<and> catalog d2 = catalog d1 \<and>
      ?w \<in> insert None (Some ` set SCOPES)"
  proof (cases ?w)
    case (Some w)
    with g have "w \<in> set SCOPES" and "grant_membership (group_name v w) ?m (create_role_if_missing ?m d1) = Inr d2"
      by (auto simp: rbind_Inr_iff vault_group_role_name_def split: if_splits)
    with grant_membership_mem Some show ?thesis by auto
  qed (use g in auto)
  have m3: "(x, ?m) \<in> members d' \<longleftrightarrow> (x, ?m) \<in> members d2" for x
    using sync_user_scoped_tokens_frame(2) [OF t, of ?m x] by simp
  show "catalog d' = catalog d" using sync_user_scoped_tokens_frame(1) [OF t] m2 c1 by simp
  show "?w \<in> insert None (Some ` set SCOPES)" using m2 by blast
  show "(group_name v s, ?m) \<in> members d' \<longleftrightarrow> ?w = Some s" if "s \<in> set SCOPES" for s
    using m1 m2 m3 that by auto
  show "(g, m) \<in> members d' \<longleftrightarrow> (g, m) \<in> members d"
    if "(g, m) \<notin> pair_edges v ?m" and "\<forall>t. m \<noteq> token_role_name t" for g m
  proof -
    have "(g, m) \<in> members d' \<longleftrightarrow> (g, m) \<in> members d2"
      using sync_user_scoped_tokens_frame(2) [OF t, of m g] that(2) by simp
    moreover have "(g, m) \<in> members d2 \<longleftrightarrow> (g, m) \<in> members d"
      using m1 m2 that(1) by (auto simp: pair_edges_def)
    ultimately show ?thesis by simp
  qed
qed

text \<open>
  C27: a synchronised pair is a member of exactly the vault group the catalog gives it: admin for the
  owner, the materialised role for a member, none for a stranger or a deleted user. The catalog is
  untouched, and so is every membership of another user or vault (scoped tokens apart).
\<close>

theorem sync_vault_user_correct:
  assumes "sync_vault_user v u d = Inr d'"
  shows "(\<forall>s\<in>set SCOPES. (group_name v s, user_role_name u) \<in> members d' \<longleftrightarrow> wanted_scope v u d = Some s) \<and>
    catalog d' = catalog d \<and>
    (\<forall>g m. (g, m) \<notin> pair_edges v (user_role_name u) \<and> (\<forall>t. m \<noteq> token_role_name t) \<longrightarrow>
      ((g, m) \<in> members d' \<longleftrightarrow> (g, m) \<in> members d))"
  using sync_vault_user_steps [OF assms] by blast

lemma public_access_facts:
  assumes "on_public_access_change_in_conn v level d = Inr d'"
  shows "(\<forall>s\<in>set SCOPES. (group_name v s, AUTHENTICATED_ROLE) \<in> members d' \<longleftrightarrow> public_access_scope level = Some s) \<and>
    (group_name v ''admin'', AUTHENTICATED_ROLE) \<notin> members d' \<and> catalog d' = catalog d \<and>
    (\<forall>g m. (g, m) \<notin> pair_edges v AUTHENTICATED_ROLE \<longrightarrow> ((g, m) \<in> members d' \<longleftrightarrow> (g, m) \<in> members d))"
proof -
  let ?w = "public_access_scope level" and ?m = AUTHENTICATED_ROLE
  let ?d = "create_role_if_missing ?m d"
  have flip: "(\<lambda>s d. if Some s = ?w then Inr d else revoke_membership_strict (group_name v s) ?m d) =
      (\<lambda>s d. if Some s \<noteq> ?w then revoke_membership_strict (group_name v s) ?m d else Inr d)"
    by (intro ext) simp
  from assms obtain d1 where
    r: "fold_res (\<lambda>s d. if Some s \<noteq> ?w then revoke_membership_strict (group_name v s) ?m d else Inr d) SCOPES ?d = Inr d1"
    and g: "(case ?w of None \<Rightarrow> Inr d1 | Some s \<Rightarrow> grant_membership (group_name v s) ?m d1) = Inr d'"
    unfolding on_public_access_change_in_conn_def Let_def flip by (auto simp: rbind_Inr_iff)
  have m1: "members d1 = members d - (\<lambda>s. (group_name v s, ?m)) ` {s \<in> set SCOPES. Some s \<noteq> ?w}"
    and c1: "catalog d1 = catalog d"
    using pg.revoke_unless [OF r] by auto
  have m2: "members d' = members d1 \<union> {(group_name v s, ?m) | s. ?w = Some s} \<and> catalog d' = catalog d1"
    using g grant_membership_mem by (cases ?w) auto
  have w: "?w \<in> {None, Some ''reader'', Some ''writer''}" by (simp add: public_access_scope_def)
  then have "?w \<noteq> Some ''admin''" and ws: "\<And>s. ?w = Some s \<Longrightarrow> s \<in> set SCOPES" by (auto simp: SCOPES_def)
  moreover have "''admin'' \<in> set SCOPES" by (simp add: SCOPES_def)
  ultimately have "(group_name v ''admin'', ?m) \<notin> members d'"
    using m1 m2 by auto
  with m1 m2 c1 ws show ?thesis by (auto simp: pair_edges_def)
qed

text \<open>
  the wildcard role every user is in gets exactly the group of the vault's public level: one group
  for \<open>reader\<close> or \<open>writer\<close>, none otherwise, and never \<open>admin\<close>.
\<close>

theorem public_access_projected:
  assumes "on_public_access_change_in_conn v level d = Inr d'"
  shows "(\<forall>s\<in>set SCOPES. (group_name v s, AUTHENTICATED_ROLE) \<in> members d' \<longleftrightarrow> public_access_scope level = Some s) \<and>
    (group_name v ''admin'', AUTHENTICATED_ROLE) \<notin> members d' \<and> catalog d' = catalog d \<and>
    (\<forall>g m. (g, m) \<notin> pair_edges v AUTHENTICATED_ROLE \<longrightarrow> ((g, m) \<in> members d' \<longleftrightarrow> (g, m) \<in> members d))"
  using assms by (rule public_access_facts)

section \<open>When a synchronisation cannot fail\<close>

text \<open>Every membership of \<open>m\<close> is AKB's own grant, with the default options.\<close>

definition own_memberships :: "db \<Rightarrow> string \<Rightarrow> bool" where
  "own_memberships d m \<longleftrightarrow>
     (\<forall>e\<in>set (pg_edges d). e_member e = m \<longrightarrow>
        e_grantor e = pg_user d \<and> \<not> e_admin e \<and> e_inherit e \<and> e_set e)"

lemma revoke_own:
  assumes "own_memberships d m"
  shows "\<exists>d'. revoke_membership_strict g m d = Inr d' \<and> own_memberships d' m \<and> pg_roles d' = pg_roles d"
proof -
  let ?d = "revoke_membership_if_present g m d"
  have "\<not> has_direct_membership ?d g m False"
    using assms by (auto simp: revoke_membership_if_present_def pg_revoke_def has_direct_membership_def
        own_memberships_def list_ex_iff)
  moreover have "own_memberships ?d m \<and> pg_roles ?d = pg_roles d"
    using assms by (auto simp: revoke_membership_if_present_def pg_revoke_def own_memberships_def)
  ultimately show ?thesis by (simp add: revoke_membership_strict_def Let_def)
qed

lemma revoke_all_own:
  assumes "own_memberships d m"
  shows "\<exists>d'. fold_res (\<lambda>s d. if P s then revoke_membership_strict (f s) m d else Inr d) ss d = Inr d' \<and>
    own_memberships d' m \<and> pg_roles d' = pg_roles d"
  using assms
proof (induction ss arbitrary: d)
  case (Cons s ss)
  obtain d1 where "(if P s then revoke_membership_strict (f s) m d else Inr d) = Inr d1"
    and "own_memberships d1 m" and "pg_roles d1 = pg_roles d"
    using revoke_own [OF Cons.prems, of "f s"] Cons.prems by (cases "P s") auto
  then show ?case using Cons.IH [of d1] by simp
qed simp

lemma grant_own:
  assumes "own_memberships d m" and "g \<in> set (pg_roles d)" and "m \<in> set (pg_roles d)"
  shows "\<exists>d'. grant_membership g m d = Inr d'"
  using assms by (auto simp: grant_membership_def pg_grant_def membership_options_valid_def own_memberships_def
      list_ex_iff)

lemma create_role_own:
  "own_memberships d m \<Longrightarrow> own_memberships (create_role_if_missing r d) m"
  "set (pg_roles (create_role_if_missing r d)) = insert r (set (pg_roles d))"
  by (auto simp: create_role_if_missing_def own_memberships_def)

lemma token_live_cong:
  "users d' = users d \<Longrightarrow> clock d' = clock d \<Longrightarrow> token_live d' t = token_live d t"
  unfolding token_live_def by (cases "t_expires t"; cases "user_by_id d (t_user t)") simp_all

lemma sync_succeeds:
  assumes "own_memberships d (user_role_name u)" and "wanted_scope v u d \<in> insert None (Some ` set SCOPES)"
    and "\<And>s. s \<in> set SCOPES \<Longrightarrow> group_name v s \<in> set (pg_roles d)"
    and "locked_live_scoped_tokens (Some u) None d = []"
  shows "\<exists>d'. sync_vault_user v u d = Inr d'"
proof -
  let ?m = "user_role_name u" and ?w = "wanted_scope v u d"
  obtain d1 where r: "fold_res (\<lambda>s d. if Some s \<noteq> ?w then revoke_membership_strict (group_name v s) ?m d else Inr d)
      SCOPES d = Inr d1" and own: "own_memberships d1 ?m" and roles: "pg_roles d1 = pg_roles d"
    using revoke_all_own [OF assms(1), of "\<lambda>s. Some s \<noteq> ?w" "group_name v" SCOPES] by blast
  have c1: "catalog d1 = catalog d" using pg.revoke_unless [OF r] by blast
  have "\<exists>d2. (case ?w of None \<Rightarrow> Inr d1 | Some w \<Rightarrow> rbind (vault_group_role_name v w)
      (\<lambda>g. grant_membership g ?m (create_role_if_missing ?m d1))) = Inr d2 \<and> catalog d2 = catalog d"
  proof (cases ?w)
    case (Some w)
    then have w: "w \<in> set SCOPES" using assms(2) by auto
    then obtain d2 where "grant_membership (group_name v w) ?m (create_role_if_missing ?m d1) = Inr d2"
      using grant_own [OF create_role_own(1) [OF own, of ?m], of "group_name v w"] assms(3) roles
      by (auto simp: create_role_own(2))
    then show ?thesis using w Some grant_membership_mem c1 by (fastforce simp: vault_group_role_name_def)
  qed (use c1 in simp)
  then obtain d2 where g: "(case ?w of None \<Rightarrow> Inr d1 | Some w \<Rightarrow> rbind (vault_group_role_name v w)
      (\<lambda>g. grant_membership g ?m (create_role_if_missing ?m d1))) = Inr d2" and c2: "catalog d2 = catalog d" by blast
  have "locked_live_scoped_tokens (Some u) None d2 = []"
    using assms(4) catalogD(4) [OF c2] token_live_cong [OF catalogD(1,10) [OF c2]]
    by (simp add: locked_live_scoped_tokens_def)
  then have "sync_user_scoped_tokens u d2 = Inr d2" by (simp add: sync_user_scoped_tokens_def)
  then show ?thesis using r g by (simp add: sync_vault_user_def Let_def del: fold_res.simps)
qed

lemma membership_op_own:
  "revoke_membership_strict g u d = Inr d' \<Longrightarrow> own_memberships d m \<Longrightarrow>
     own_memberships d' m \<and> set (pg_roles d') = set (pg_roles d)"
  "grant_membership g u d = Inr d' \<Longrightarrow> own_memberships d m \<Longrightarrow>
     own_memberships d' m \<and> set (pg_roles d') = set (pg_roles d)"
  by (auto simp: revoke_membership_strict_def revoke_membership_if_present_def pg_revoke_def own_memberships_def
      Let_def grant_membership_def pg_grant_def split: if_splits)

lemma sync_keeps_own:
  assumes "sync_vault_user v u d = Inr d'" and "locked_live_scoped_tokens (Some u) None d = []"
    and "own_memberships d m"
  shows "own_memberships d' m \<and> set (pg_roles d) \<subseteq> set (pg_roles d')"
proof -
  let ?w = "wanted_scope v u d" and ?m = "user_role_name u"
  let ?P = "\<lambda>x. own_memberships x m \<and> set (pg_roles d) \<subseteq> set (pg_roles x)"
  from assms(1) obtain d1 d2 where
    r: "fold_res (\<lambda>s d. if Some s \<noteq> ?w then revoke_membership_strict (group_name v s) ?m d else Inr d) SCOPES d = Inr d1"
    and g: "(case ?w of None \<Rightarrow> Inr d1 | Some w \<Rightarrow> rbind (vault_group_role_name v w)
      (\<lambda>g. grant_membership g ?m (create_role_if_missing ?m d1))) = Inr d2"
    and t: "sync_user_scoped_tokens u d2 = Inr d'"
    unfolding sync_vault_user_def Let_def by (auto simp: rbind_Inr_iff simp del: fold_res.simps)
  have P1: "?P d1" using r by (rule fold_res_invariant) (use assms(3) membership_op_own(1) in \<open>auto split: if_splits\<close>)
  have c1: "catalog d1 = catalog d" using pg.revoke_unless [OF r] by blast
  have "?P d2 \<and> catalog d2 = catalog d1"
  proof (cases ?w)
    case (Some w)
    then obtain grp where gr: "grant_membership grp ?m (create_role_if_missing ?m d1) = Inr d2"
      using g by (auto simp: rbind_Inr_iff)
    have "own_memberships (create_role_if_missing ?m d1) m"
      using P1 create_role_own(1) by blast
    from membership_op_own(2) [OF gr this] grant_membership_mem [OF gr] P1 show ?thesis
      by (auto simp: create_role_own(2))
  qed (use g P1 in simp)
  then have c2: "?P d2" "catalog d2 = catalog d" using c1 by auto
  have "locked_live_scoped_tokens (Some u) None d2 = []"
    using assms(2) catalogD(4) [OF c2(2)] token_live_cong [OF catalogD(1,10) [OF c2(2)]]
    by (simp add: locked_live_scoped_tokens_def)
  then have "d' = d2" using t by (simp add: sync_user_scoped_tokens_def)
  then show ?thesis using c2 by simp
qed

section \<open>Witnesses\<close>

text \<open>The example catalog with its roles projected, and a membership for the bot.\<close>

definition example_pg :: db where
  "example_pg = example_db\<lparr>
     access := access example_db @ [\<lparr>a_vault = 10, a_user = 4, a_role = ''writer'', a_granted_by = Some 1\<rparr>],
     pg_roles := [AUTHENTICATED_ROLE, user_role_name 1, user_role_name 2, user_role_name 4,
                  group_name 10 ''reader'', group_name 10 ''writer'', group_name 10 ''admin'']\<rparr>"

definition after_ok :: "db \<Rightarrow> db result \<Rightarrow> db" where
  "after_ok d r = (case r of Inr d' \<Rightarrow> d' | Inl _ \<Rightarrow> d)"

lemma after_ok: "is_ok r \<Longrightarrow> r = Inr (after_ok d r)"
  by (auto simp: is_ok_def after_ok_def split: sum.splits)

lemma example_sync_ok: "is_ok (sync_vault_user 10 2 example_pg)"
  by (simp add: sync_vault_user_def example_pg_def example_db_def wanted_scope_def tab_get_def access_role_def
      access_key_def SCOPES_def revoke_membership_strict_def revoke_membership_if_present_def
      has_direct_membership_def vault_group_role_name_def create_role_if_missing_def grant_membership_def
      pg_grant_def sync_user_scoped_tokens_def locked_live_scoped_tokens_def Let_def)

theorem sync_vault_user_correct_witness:
  "((group_name 10 ''admin'', user_role_name 2) \<in>
         members (after_ok example_pg (sync_vault_user 10 2 example_pg)) \<longleftrightarrow>
       wanted_scope 10 2 example_pg = Some ''admin'') \<and>
     ((group_name 10 ''writer'', user_role_name 2) \<in>
         members (after_ok example_pg (sync_vault_user 10 2 example_pg)) \<longleftrightarrow>
       wanted_scope 10 2 example_pg = Some ''writer'') \<and>
     catalog (after_ok example_pg (sync_vault_user 10 2 example_pg)) = catalog example_pg"
  using sync_vault_user_correct [OF after_ok [OF example_sync_ok]] by (simp add: SCOPES_def)

lemma example_public_ok: "is_ok (on_public_access_change_in_conn 10 ''reader'' example_pg)"
  by (simp add: on_public_access_change_in_conn_def public_access_scope_def example_pg_def example_db_def
      SCOPES_def revoke_membership_strict_def revoke_membership_if_present_def
      has_direct_membership_def create_role_if_missing_def grant_membership_def pg_grant_def Let_def)

theorem public_access_projected_witness:
  "(group_name 10 ''reader'', AUTHENTICATED_ROLE) \<in>
         members (after_ok example_pg (on_public_access_change_in_conn 10 ''reader'' example_pg)) \<and>
     (group_name 10 ''writer'', AUTHENTICATED_ROLE) \<notin>
         members (after_ok example_pg (on_public_access_change_in_conn 10 ''reader'' example_pg)) \<and>
     (group_name 10 ''admin'', AUTHENTICATED_ROLE) \<notin>
         members (after_ok example_pg (on_public_access_change_in_conn 10 ''reader'' example_pg)) \<and>
     catalog (after_ok example_pg (on_public_access_change_in_conn 10 ''reader'' example_pg)) = catalog example_pg"
  using public_access_projected [OF after_ok [OF example_public_ok]]
  by (simp add: SCOPES_def public_access_scope_def)

definition example_token :: token_row where
  "example_token = hd (tokens example_db)"

definition example_scope :: vault_scope where
  "example_scope = \<lparr>vs_prefixes = [], vs_extra = {''eng''}\<rparr>"

lemma example_token_scope: "from_db_json (t_scope example_token) = Inr (Some example_scope)"
  by (simp add: example_token_def example_db_def example_scope_def from_db_json_def obj_get_def)

lemma example_tokens_ok: "is_ok (sync_user_scoped_tokens 4 example_pg)"
proof -
  have "locked_live_scoped_tokens (Some 4) None example_pg = [example_token]"
    by (simp add: locked_live_scoped_tokens_def example_pg_def example_db_def example_token_def token_live_def
        tab_get_def)
  moreover have "fetch_user_accessible example_pg 4 = [(10, ''eng'', ''writer'')]"
    by (simp add: fetch_user_accessible_def example_pg_def example_db_def)
  ultimately show ?thesis
    using example_token_scope
    by (simp add: sync_user_scoped_tokens_def sync_one_token_def example_scope_def wanted_token_group_roles_def
        permits_def vault_group_role_name_def SCOPES_def example_pg_def example_db_def example_token_def
        create_role_if_missing_def grant_membership_def has_direct_membership_def pg_grant_def
        token_group_memberships_def Let_def)
qed

theorem scoped_token_confined_witness:
  "(group_name 10 ''writer'', token_role_name (t_id example_token)) \<in>
      members (after_ok example_pg (sync_user_scoped_tokens 4 example_pg)) \<longleftrightarrow>
    (\<exists>vr\<in>set (vaults example_pg). v_id vr = 10 \<and> permits example_scope (v_name vr) \<and>
       ((\<exists>a\<in>set (access example_pg). a_user a = 4 \<and> a_vault a = 10 \<and> a_role a = ''writer'') \<or>
        v_owner vr = Some 4 \<and> ''writer'' = ''admin''))"
proof (rule scoped_token_confined [OF _ _ _ _ example_token_scope after_ok [OF example_tokens_ok]])
  show "unique_by t_id (tokens example_pg)" by (simp add: example_pg_def example_db_def unique_by_def)
  show "example_token \<in> set (tokens example_pg)" by (simp add: example_token_def example_pg_def example_db_def)
  show "token_live example_pg example_token"
    by (simp add: example_token_def example_pg_def example_db_def token_live_def tab_get_def)
  show "t_user example_token = 4" by (simp add: example_token_def example_db_def)
  show "''writer'' \<in> set SCOPES" by (simp add: SCOPES_def)
qed

end
