(* ===== verification/Reconcile.thy ===== *)
theory Reconcile
  imports RoleSync
begin

text \<open>
  The reconciler of \<^verbatim>\<open>backend/app/services/role_sync.py\<close>: \<open>reconcile_from_catalog\<close>, its passes and the
  read-only \<open>diff_against_catalog\<close>. Each statement of a pass runs in a savepoint: when it raises, its
  effects are undone, an error is reported and the pass goes on.
\<close>

section \<open>Reports\<close>

record report =
  user_roles_created :: nat
  user_roles_dropped :: nat
  vault_roles_created :: nat
  vault_roles_dropped :: nat
  token_roles_created :: nat
  token_roles_dropped :: nat
  grants_added :: nat
  grants_removed :: nat
  table_grants_applied :: nat
  public_grants_applied :: nat
  errors :: "string list"

definition empty_report :: report where
  "empty_report =
     \<lparr>user_roles_created = 0, user_roles_dropped = 0, vault_roles_created = 0, vault_roles_dropped = 0,
      token_roles_created = 0, token_roles_dropped = 0, grants_added = 0, grants_removed = 0,
      table_grants_applied = 0, public_grants_applied = 0, errors = []\<rparr>"

type_synonym run = "db \<times> report"

definition report_error :: "string \<Rightarrow> run \<Rightarrow> run" where
  "report_error tag s = (fst s, (snd s)\<lparr>errors := errors (snd s) @ [tag]\<rparr>)"

text \<open>\<open>async with conn.transaction()\<close> inside \<open>try .. except Exception\<close>\<close>

definition savepoint :: "string \<Rightarrow> (report \<Rightarrow> report) \<Rightarrow> (db \<Rightarrow> db result) \<Rightarrow> run \<Rightarrow> run" where
  "savepoint tag bump f s =
     (case f (fst s) of Inr d' \<Rightarrow> (d', bump (snd s)) | Inl _ \<Rightarrow> report_error tag s)"

section \<open>The passes\<close>

definition existing_roles :: "string \<Rightarrow> db \<Rightarrow> string list" where
  "existing_roles kind d =
     filter (\<lambda>r. starts_with r (''akb_'' @ kind @ ''_'') \<and> is_catalog_role r kind) (pg_roles d)"

definition wanted_user_roles :: "db \<Rightarrow> string list" where
  "wanted_user_roles d = map (user_role_name \<circ> u_id) (users d)"

definition reconcile_user_roles :: "run \<Rightarrow> run" where
  "reconcile_user_roles s =
     (let wanted = wanted_user_roles (fst s);
          existing = existing_roles ''user'' (fst s);
          s = fold (\<lambda>r. savepoint ''CREATE ROLE'' (\<lambda>p. p\<lparr>user_roles_created := user_roles_created p + 1\<rparr>)
                      (\<lambda>d. Inr (create_role_if_missing r d)))
                (filter (\<lambda>r. r \<notin> set existing) wanted) s;
          s = fold (\<lambda>r. savepoint ''GRANT'' id (grant_membership AUTHENTICATED_ROLE r)) wanted s
      in fold (\<lambda>r. savepoint ''DROP ROLE'' (\<lambda>p. p\<lparr>user_roles_dropped := user_roles_dropped p + 1\<rparr>)
                 (\<lambda>d. Inr (drop_role_if_present r d)))
           (filter (\<lambda>r. r \<notin> set wanted) existing) s)"

definition wanted_vault_roles :: "db \<Rightarrow> string list" where
  "wanted_vault_roles d = concat (map (\<lambda>v. map (group_name (v_id v)) SCOPES) (vaults d))"

definition reconcile_vault_hierarchy :: "vault_row \<Rightarrow> run \<Rightarrow> run" where
  "reconcile_vault_hierarchy r s =
     (let reader = group_name (v_id r) ''reader'';
          wr = group_name (v_id r) ''writer'';
          admin = group_name (v_id r) ''admin'';
          s = savepoint ''hierarchy'' id
                (\<lambda>d. rbind (grant_membership reader wr d) (grant_membership wr admin)) s
      in case v_owner r of
           None \<Rightarrow> s
         | Some o1 \<Rightarrow>
             savepoint ''owner grant'' id
               (\<lambda>d. grant_membership admin (user_role_name o1) (create_role_if_missing (user_role_name o1) d)) s)"

definition reconcile_vault_roles :: "run \<Rightarrow> run" where
  "reconcile_vault_roles s =
     (let rows = vaults (fst s);
          wanted = wanted_vault_roles (fst s);
          existing = existing_roles ''vault'' (fst s);
          s = fold (\<lambda>r. savepoint ''CREATE ROLE'' (\<lambda>p. p\<lparr>vault_roles_created := vault_roles_created p + 1\<rparr>)
                      (\<lambda>d. Inr (create_role_if_missing r d)))
                (filter (\<lambda>r. r \<notin> set existing) wanted) s;
          s = fold reconcile_vault_hierarchy rows s
      in fold (\<lambda>r. savepoint ''DROP ROLE'' (\<lambda>p. p\<lparr>vault_roles_dropped := vault_roles_dropped p + 1\<rparr>)
                 (\<lambda>d. Inr (drop_role_if_present r d)))
           (filter (\<lambda>r. r \<notin> set wanted) existing) s)"

type_synonym edge_info = "(string \<times> string) \<times> (uuid \<times> uuid \<times> string)"

definition owned_pairs :: "db \<Rightarrow> (uuid \<times> uuid) list" where
  "owned_pairs d = concat (map (\<lambda>v. case v_owner v of None \<Rightarrow> [] | Some o1 \<Rightarrow> [(v_id v, o1)]) (vaults d))"

definition desired_user_memberships :: "db \<Rightarrow> edge_info list result" where
  "desired_user_memberships d =
     (let owned = owned_pairs d in
      rbind (map_res (\<lambda>a. rbind (vault_group_role_name (a_vault a) (a_role a))
                (\<lambda>g. Inr ((g, user_role_name (a_user a)), (a_vault a, a_user a, a_role a))))
               (filter (\<lambda>a. (a_vault a, a_user a) \<notin> set owned) (access d)))
        (\<lambda>members. Inr (members @
           map (\<lambda>(vid, uid). ((group_name vid ''admin'', user_role_name uid), (vid, uid, ''admin''))) owned)))"

definition edge_info_of :: "string \<Rightarrow> string \<Rightarrow> edge_info option" where
  "edge_info_of grp member =
     (case strip_prefix ''akb_vault_'' grp of
        None \<Rightarrow> None
      | Some rest \<Rightarrow>
          (case rsplit_under rest of
             None \<Rightarrow> None
           | Some (vid_text, scope) \<Rightarrow>
               (case (parse_uuid (to_hyphens vid_text),
                      Option.bind (strip_prefix ''akb_user_'' member) (parse_uuid \<circ> to_hyphens)) of
                  (Some vid, Some uid) \<Rightarrow>
                    if \<not> List.member SCOPES scope then None
                    else if grp \<noteq> group_name vid scope \<or> member \<noteq> user_role_name uid then None
                    else Some ((grp, member), (vid, uid, scope))
                | _ \<Rightarrow> None)))"

definition actual_user_memberships :: "db \<Rightarrow> edge_info list" where
  "actual_user_memberships d =
     List.map_filter
       (\<lambda>e. if e_group e \<in> set (wanted_vault_roles d) \<and> e_member e \<in> set (wanted_user_roles d)
            then edge_info_of (e_group e) (e_member e) else None)
       (filter (\<lambda>e. starts_with (e_group e) ''akb_vault_'' \<and> starts_with (e_member e) ''akb_user_'') (pg_edges d))"

definition sorted_diff :: "(string \<times> string) list \<Rightarrow> (string \<times> string) list \<Rightarrow> (string \<times> string) list" where
  "sorted_diff xs ys = sort (remdups (filter (\<lambda>x. x \<notin> set ys) xs))"

definition sorted_common :: "(string \<times> string) list \<Rightarrow> (string \<times> string) list \<Rightarrow> (string \<times> string) list" where
  "sorted_common xs ys = sort (remdups (filter (\<lambda>x. x \<in> set ys) xs))"

definition reconcile_memberships :: "run \<Rightarrow> run result" where
  "reconcile_memberships s =
     rbind (desired_user_memberships (fst s)) (\<lambda>desired.
     let des = map fst desired;
         act = map fst (actual_user_memberships (fst s));
         s = fold (\<lambda>gm. savepoint ''REVOKE'' (\<lambda>p. p\<lparr>grants_removed := grants_removed p + 1\<rparr>)
                     (\<lambda>d. rbind (revoke_membership_strict (fst gm) (snd gm) d) (\<lambda>d.
                        if has_direct_membership d (fst gm) (snd gm) False
                        then Inl (PyRuntimeError ''membership remains under another grantor'') else Inr d)))
               (sorted_diff act des) s;
         s = fold (\<lambda>gm. savepoint ''GRANT'' (\<lambda>p. p\<lparr>grants_added := grants_added p + 1\<rparr>)
                     (grant_membership (fst gm) (snd gm))) (sorted_diff des act) s
     in Inr (fold (\<lambda>gm. savepoint ''membership options'' id (grant_membership (fst gm) (snd gm)))
               (sorted_common des act) s))"

definition table_rows :: "db \<Rightarrow> (uuid \<times> string \<times> string) list" where
  "table_rows d =
     concat (map (\<lambda>(vid, name). map (\<lambda>v. (vid, name, v_name v)) (filter (\<lambda>v. v_id v = vid) (vaults d)))
       (vault_tables d))"

definition reconcile_table_grants :: "run \<Rightarrow> run" where
  "reconcile_table_grants s =
     fold (\<lambda>(vid, name, vault_name) s.
             let pg_name = pg_table_name vault_name name in
             if \<not> is_safe_pg_table_name pg_name then report_error ''unsafe pg_name'' s
             else savepoint ''GRANT on'' (\<lambda>p. p\<lparr>table_grants_applied := table_grants_applied p + 1\<rparr>)
                    (grant_table vid pg_name) s)
       (table_rows (fst s)) s"

definition sync_public :: "uuid \<Rightarrow> string option \<Rightarrow> db \<Rightarrow> db result" where
  "sync_public vid target d =
     rbind (fold_res (\<lambda>s d. if Some s = target then Inr d
                            else revoke_membership_strict (group_name vid s) AUTHENTICATED_ROLE d)
              SCOPES d) (\<lambda>d.
     case target of
       None \<Rightarrow> Inr d
     | Some s \<Rightarrow> grant_membership (group_name vid s) AUTHENTICATED_ROLE d)"

definition reconcile_public_access :: "run \<Rightarrow> run" where
  "reconcile_public_access s =
     fold (\<lambda>r s. let target = public_access_scope (v_public r) in
             savepoint ''public access''
               (\<lambda>p. if target \<noteq> None then p\<lparr>public_grants_applied := public_grants_applied p + 1\<rparr> else p)
               (sync_public (v_id r) target) s)
       (vaults (fst s)) s"

text \<open>The live tokens with a readable scope; a malformed one is reported and skipped.\<close>

fun live_scopes :: "token_row list \<Rightarrow> (string \<times> uuid \<times> vault_scope) list \<times> nat" where
  "live_scopes [] = ([], 0)"
| "live_scopes (t # ts) =
     (let (live, bad) = live_scopes ts in
      case from_db_json (t_scope t) of
        Inl _ \<Rightarrow> (live, Suc bad)
      | Inr None \<Rightarrow> (live, bad)
      | Inr (Some scope) \<Rightarrow> ((token_role_name (t_id t), t_user t, scope) # live, bad))"

definition reconcile_token_memberships :: "string list \<Rightarrow> string \<Rightarrow> uuid \<Rightarrow> vault_scope \<Rightarrow> run \<Rightarrow> run" where
  "reconcile_token_memberships have role uid scope s =
     (let accessible = fetch_user_accessible (fst s) uid in
      case wanted_token_group_roles accessible scope of
        Inl _ \<Rightarrow> report_error ''token role membership'' s
      | Inr wanted \<Rightarrow>
          savepoint ''token role membership''
            (\<lambda>p. p\<lparr>grants_added := grants_added p + length (remdups (filter (\<lambda>g. g \<notin> set have) wanted)),
                   grants_removed := grants_removed p + length (filter (\<lambda>g. g \<notin> set wanted) have)\<rparr>)
            (\<lambda>d. rbind (fold_res (\<lambda>g. grant_membership g role) wanted d)
               (fold_res (\<lambda>g. revoke_membership_strict g role) (filter (\<lambda>g. g \<notin> set wanted) have))) s)"

definition reconcile_token_roles :: "run \<Rightarrow> run" where
  "reconcile_token_roles s =
     (let (live, bad) = live_scopes (locked_live_scoped_tokens None None (fst s));
          s = (report_error ''scope parse'' ^^ bad) s;
          wanted = map fst live;
          existing = existing_roles ''token'' (fst s);
          s = fold (\<lambda>r. savepoint ''CREATE ROLE'' (\<lambda>p. p\<lparr>token_roles_created := token_roles_created p + 1\<rparr>)
                      (\<lambda>d. Inr (create_role_if_missing r d)))
                (filter (\<lambda>r. r \<notin> set existing) wanted) s;
          s = fold (\<lambda>r. savepoint ''DROP ROLE'' (\<lambda>p. p\<lparr>token_roles_dropped := token_roles_dropped p + 1\<rparr>)
                      (\<lambda>d. Inr (drop_role_if_present r d)))
                (filter (\<lambda>r. r \<notin> set wanted) existing) s;
          actual = token_group_memberships (fst s)
      in fold (\<lambda>(role, uid, scope). reconcile_token_memberships (actual role) role uid scope) live s)"

definition reconcile_from_catalog :: "db \<Rightarrow> run result" where
  "reconcile_from_catalog d =
     (let s = (create_role_if_missing AUTHENTICATED_ROLE d, empty_report);
          s = reconcile_vault_roles (reconcile_user_roles s)
      in rbind (reconcile_memberships s) (\<lambda>s.
         Inr (reconcile_token_roles (reconcile_public_access (reconcile_table_grants s)))))"

section \<open>Drift\<close>

record role_state_diff =
  missing_user_roles :: "string list"
  orphan_user_roles :: "string list"
  missing_vault_roles :: "string list"
  orphan_vault_roles :: "string list"
  missing_token_roles :: "string list"
  orphan_token_roles :: "string list"
  missing_memberships :: "(string \<times> string) list"
  stale_memberships :: "(string \<times> string) list"
  invalid_membership_options :: "(string \<times> string) list"
  missing_public_grants :: "string list"
  stale_public_grants :: "string list"
  missing_table_grants :: "(string \<times> string \<times> string list) list"
  authenticated_role_missing :: bool
  users_not_in_authenticated :: "string list"

definition minus_sorted :: "string list \<Rightarrow> string list \<Rightarrow> string list" where
  "minus_sorted xs ys = sort (remdups (filter (\<lambda>x. x \<notin> set ys) xs))"

definition actual_public_grants :: "db \<Rightarrow> string list" where
  "actual_public_grants d =
     remdups (filter (\<lambda>g. starts_with g ''akb_vault_'' \<and> is_catalog_role g ''vault'')
       (map e_group (filter (\<lambda>e. e_member e = AUTHENTICATED_ROLE) (pg_edges d))))"

definition wanted_public_grants :: "db \<Rightarrow> string list" where
  "wanted_public_grants d =
     concat (map (\<lambda>v. case public_access_scope (v_public v) of None \<Rightarrow> [] | Some s \<Rightarrow> [group_name (v_id v) s])
       (vaults d))"

definition EXPECTED_TABLE_PRIVS :: "(string \<times> string list) list" where
  "EXPECTED_TABLE_PRIVS =
     [(''reader'', [''SELECT'']), (''writer'', [''SELECT'', ''INSERT'', ''UPDATE'', ''DELETE'']),
      (''admin'', [''SELECT'', ''INSERT'', ''UPDATE'', ''DELETE'', ''TRUNCATE''])]"

definition missing_privs :: "db \<Rightarrow> uuid \<Rightarrow> string \<Rightarrow> (string \<times> string \<times> string list) list" where
  "missing_privs d vid pg_name =
     filter (\<lambda>(r, t, ps). ps \<noteq> [])
       (map (\<lambda>(scope, expected). (group_name vid scope, pg_name,
               filter (\<lambda>p. \<not> (List.member (pg_privs d) (group_name vid scope, pg_name, p)
                                 \<and> starts_with pg_name ''vt_'')) expected))
          EXPECTED_TABLE_PRIVS)"

definition diff_table_grants :: "db \<Rightarrow> (string \<times> string \<times> string list) list" where
  "diff_table_grants d =
     concat (map (\<lambda>(vid, name, vault_name).
        let pg_name = pg_table_name vault_name name in
        if \<not> is_safe_pg_table_name pg_name then [] else missing_privs d vid pg_name) (table_rows d))"

definition diff_against_catalog :: "db \<Rightarrow> role_state_diff result" where
  "diff_against_catalog d =
     rbind (desired_user_memberships d) (\<lambda>desired.
     let des = map fst desired;
         act = map fst (actual_user_memberships d);
         live = map (token_role_name \<circ> t_id) (filter (token_live d) (tokens d));
         auth = List.member (pg_roles d) AUTHENTICATED_ROLE
     in Inr \<lparr>missing_user_roles = minus_sorted (wanted_user_roles d) (existing_roles ''user'' d),
             orphan_user_roles = minus_sorted (existing_roles ''user'' d) (wanted_user_roles d),
             missing_vault_roles = minus_sorted (wanted_vault_roles d) (existing_roles ''vault'' d),
             orphan_vault_roles = minus_sorted (existing_roles ''vault'' d) (wanted_vault_roles d),
             missing_token_roles = minus_sorted live (existing_roles ''token'' d),
             orphan_token_roles = minus_sorted (existing_roles ''token'' d) live,
             missing_memberships = sorted_diff des act,
             stale_memberships = sorted_diff act des,
             invalid_membership_options =
               filter (\<lambda>gm. \<not> membership_options_valid d (fst gm) (snd gm)) (sorted_common des act),
             missing_public_grants = filter (\<lambda>g. g \<notin> set (actual_public_grants d)) (wanted_public_grants d),
             stale_public_grants = filter (\<lambda>g. g \<notin> set (wanted_public_grants d)) (actual_public_grants d),
             missing_table_grants = diff_table_grants d,
             authenticated_role_missing = (\<not> auth),
             users_not_in_authenticated =
               (if \<not> auth then []
                else minus_sorted (wanted_user_roles d)
                  (map e_member (filter (\<lambda>e. e_group e = AUTHENTICATED_ROLE) (pg_edges d))))\<rparr>)"

definition drift_count :: "role_state_diff \<Rightarrow> nat" where
  "drift_count x =
     length (missing_user_roles x) + length (orphan_user_roles x) + length (missing_vault_roles x)
     + length (orphan_vault_roles x) + length (missing_token_roles x) + length (orphan_token_roles x)
     + length (missing_memberships x) + length (stale_memberships x) + length (invalid_membership_options x)
     + length (missing_public_grants x) + length (stale_public_grants x) + length (missing_table_grants x)
     + (if authenticated_role_missing x then 1 else 0) + length (users_not_in_authenticated x)"

definition is_clean :: "role_state_diff \<Rightarrow> bool" where
  "is_clean x \<longleftrightarrow> drift_count x = 0"

end
