(* ===== verification/Drift.thy ===== *)
theory Drift
  imports Reconcile
begin

text \<open>
  Convergence of the reconciler: a run that reports no error leaves no drift. Each pass is related to
  the same pass without savepoints (a loop that stops at the first error); its effect on roles,
  memberships and privileges is then followed through the later passes.
\<close>

section \<open>Runs without errors\<close>

definition errs :: "run \<Rightarrow> nat" where
  "errs s = length (errors (snd s))"

definition step_ok :: "(run \<Rightarrow> run) \<Rightarrow> (db \<Rightarrow> db result) \<Rightarrow> bool" where
  "step_ok g f \<longleftrightarrow> (\<forall>s. errs s \<le> errs (g s) \<and> (errs (g s) = errs s \<longrightarrow> f (fst s) = Inr (fst (g s))))"

lemma step_okI:
  "(\<And>s. errs s \<le> errs (g s)) \<Longrightarrow> (\<And>s. errs (g s) = errs s \<Longrightarrow> f (fst s) = Inr (fst (g s))) \<Longrightarrow> step_ok g f"
  by (simp add: step_ok_def)

lemma step_okD:
  "step_ok g f \<Longrightarrow> errs s \<le> errs (g s)"
  "step_ok g f \<Longrightarrow> errs (g s) = errs s \<Longrightarrow> f (fst s) = Inr (fst (g s))"
  unfolding step_ok_def by blast+

lemma step_ok_savepoint: "(\<And>p. errors (bump p) = errors p) \<Longrightarrow> step_ok (savepoint tag bump f) f"
  by (rule step_okI) (auto simp: savepoint_def errs_def report_error_def split: sum.splits)

lemma step_ok_report_error: "step_ok (report_error tag) f"
  by (rule step_okI) (auto simp: errs_def report_error_def)

lemma step_ok_comp:
  assumes "step_ok g f" and "step_ok h k"
  shows "step_ok (\<lambda>s. h (g s)) (\<lambda>d. rbind (f d) k)"
proof (rule step_okI)
  fix s
  show le: "errs s \<le> errs (h (g s))" using step_okD(1) [OF assms(1), of s] step_okD(1) [OF assms(2), of "g s"] by simp
  assume "errs (h (g s)) = errs s"
  then have "errs (g s) = errs s" and "errs (h (g s)) = errs (g s)"
    using step_okD(1) [OF assms(1), of s] step_okD(1) [OF assms(2), of "g s"] by simp_all
  then show "rbind (f (fst s)) k = Inr (fst (h (g s)))"
    using step_okD(2) [OF assms(1)] step_okD(2) [OF assms(2)] by simp
qed

lemma step_ok_fold:
  assumes "\<And>x. step_ok (g x) (f x)"
  shows "step_ok (fold g xs) (fold_res f xs)"
proof (induction xs)
  case Nil
  show ?case by (rule step_okI) simp_all
next
  case (Cons x xs)
  show ?case using step_ok_comp [OF assms [of x] Cons.IH] by (simp add: comp_def)
qed

section \<open>Effects of the statements\<close>

definition roles :: "db \<Rightarrow> string set" where
  "roles d = set (pg_roles d)"

definition bad_options :: "db \<Rightarrow> (string \<times> string) set" where
  "bad_options d = {(g, m). \<not> membership_options_valid d g m}"

text \<open>Memberships are between existing roles.\<close>

definition pg_ok :: "db \<Rightarrow> bool" where
  "pg_ok d \<longleftrightarrow> (\<forall>(g, m)\<in>members d. g \<in> roles d \<and> m \<in> roles d)"

text \<open>What every statement respects: the catalog stays, options do not get worse, and so on.\<close>

definition quiet :: "db \<Rightarrow> db \<Rightarrow> bool" where
  "quiet d d' \<longleftrightarrow> catalog d' = catalog d \<and> bad_options d' \<subseteq> bad_options d \<and> (pg_ok d \<longrightarrow> pg_ok d')"

lemma quiet_refl [simp]: "quiet d d"
  by (simp add: quiet_def)

lemma quiet_trans: "quiet a b \<Longrightarrow> quiet b c \<Longrightarrow> quiet a c"
  by (auto simp: quiet_def)

lemma create_effect:
  "roles (create_role_if_missing r d) = insert r (roles d)"
  "pg_privs (create_role_if_missing r d) = pg_privs d"
  "bad_options (create_role_if_missing r d) = bad_options d"
  "quiet d (create_role_if_missing r d)"
proof -
  show r: "roles (create_role_if_missing r d) = insert r (roles d)"
    by (auto simp: roles_def create_role_if_missing_def)
  show "pg_privs (create_role_if_missing r d) = pg_privs d" by (simp add: create_role_if_missing_def)
  show b: "bad_options (create_role_if_missing r d) = bad_options d"
    by (simp add: bad_options_def membership_options_valid_def)
  show "quiet d (create_role_if_missing r d)" using r b by (auto simp: quiet_def pg_ok_def)
qed

lemma drop_effect:
  "roles (drop_role_if_present r d) = roles d - {r}"
  "members (drop_role_if_present r d) = {(g, m) \<in> members d. g \<noteq> r \<and> m \<noteq> r}"
  "set (pg_privs (drop_role_if_present r d)) = {(q, t, p) \<in> set (pg_privs d). q \<noteq> r}"
  "quiet d (drop_role_if_present r d)"
proof -
  show a: "roles (drop_role_if_present r d) = roles d - {r}"
    by (auto simp: roles_def drop_role_if_present_def)
  show b: "members (drop_role_if_present r d) = {(g, m) \<in> members d. g \<noteq> r \<and> m \<noteq> r}"
    by (auto simp: members_def drop_role_if_present_def)
  show "set (pg_privs (drop_role_if_present r d)) = {(q, t, p) \<in> set (pg_privs d). q \<noteq> r}"
    by (auto simp: drop_role_if_present_def)
  have "bad_options (drop_role_if_present r d) \<subseteq> bad_options d"
    by (auto simp: bad_options_def membership_options_valid_def list_ex_iff drop_role_if_present_def)
  moreover have "catalog (drop_role_if_present r d) = catalog d"
    by (simp add: catalog_def drop_role_if_present_def)
  ultimately show "quiet d (drop_role_if_present r d)" using a b by (auto simp: quiet_def pg_ok_def)
qed

lemma not_direct_valid: "\<not> has_direct_membership d g m False \<Longrightarrow> membership_options_valid d g m"
  by (auto simp: has_direct_membership_def membership_options_valid_def list_ex_iff)

lemma grant_membership_cases:
  assumes "grant_membership g m d = Inr d'"
  obtains "d' = d" "(g, m) \<in> members d" "membership_options_valid d g m"
  | "(g, m) \<notin> members d" "membership_options_valid d g m" "g \<in> roles d" "m \<in> roles d"
    "d' = d\<lparr>pg_edges := pg_edges d @ [\<lparr>e_group = g, e_member = m, e_grantor = pg_user d,
       e_admin = False, e_inherit = True, e_set = True\<rparr>]\<rparr>"
  using assms not_direct_valid [of d g m]
  by (auto simp: grant_membership_def pg_grant_def has_direct_iff roles_def split: if_splits)

lemma grant_effect:
  assumes "grant_membership g m d = Inr d'"
  shows "roles d' = roles d" and "members d' = insert (g, m) (members d)" and "pg_privs d' = pg_privs d"
    and "quiet d d'" and "(g, m) \<notin> bad_options d'"
proof -
  have "roles d' = roles d \<and> pg_privs d' = pg_privs d \<and> bad_options d' = bad_options d \<and> (g, m) \<notin> bad_options d'
      \<and> ((g, m) \<notin> members d \<longrightarrow> g \<in> roles d \<and> m \<in> roles d)"
    using assms by (cases rule: grant_membership_cases)
      (auto simp: roles_def bad_options_def membership_options_valid_def)
  then show "roles d' = roles d" and "pg_privs d' = pg_privs d" and "(g, m) \<notin> bad_options d'"
    and "members d' = insert (g, m) (members d)" and "quiet d d'"
    using grant_membership_mem [OF assms] by (auto simp: quiet_def pg_ok_def)
qed

lemma revoke_effect:
  assumes "revoke_membership_strict g m d = Inr d'"
  shows "roles d' = roles d" and "members d' = members d - {(g, m)}" and "pg_privs d' = pg_privs d"
    and "quiet d d'"
proof -
  have c: "d' = revoke_membership_if_present g m d"
    using assms by (auto simp: revoke_membership_strict_def Let_def split: if_splits)
  then show r: "roles d' = roles d" and "pg_privs d' = pg_privs d"
    by (simp_all add: revoke_membership_if_present_def pg_revoke_def roles_def)
  show mm: "members d' = members d - {(g, m)}" using revoke_membership_strict_mem [OF assms] by simp
  have "bad_options d' \<subseteq> bad_options d"
    using c by (auto simp: revoke_membership_if_present_def pg_revoke_def bad_options_def
        membership_options_valid_def list_ex_iff split: if_splits)
  then show "quiet d d'" using revoke_membership_strict_mem [OF assms] r mm by (auto simp: quiet_def pg_ok_def)
qed

lemma grant_table_effect:
  assumes "grant_table v t d = Inr d'"
  shows "roles d' = roles d" and "members d' = members d" and "set (pg_privs d) \<subseteq> set (pg_privs d')"
    and "quiet d d'" and "missing_privs d' v t = [] \<or> \<not> starts_with t ''vt_''"
proof -
  have eq: "pg_edges d' = pg_edges d" "pg_roles d' = pg_roles d" "catalog d' = catalog d"
    using assms by (auto simp: grant_table_def pg_grant_table_def rbind_Inr_iff catalog_def split: if_splits)
  then show "roles d' = roles d" and "members d' = members d"
    by (simp_all add: roles_def members_def)
  then show "quiet d d'"
    using eq by (simp add: quiet_def pg_ok_def bad_options_def membership_options_valid_def)
  show "set (pg_privs d) \<subseteq> set (pg_privs d')"
    using assms by (auto simp: grant_table_def pg_grant_table_def rbind_Inr_iff split: if_splits)
  have "pg_privs d' = pg_privs d @ [(group_name v ''reader'', t, ''SELECT'')]
      @ map (\<lambda>p. (group_name v ''writer'', t, p)) [''SELECT'', ''INSERT'', ''UPDATE'', ''DELETE'']
      @ map (\<lambda>p. (group_name v ''admin'', t, p))
          [''SELECT'', ''INSERT'', ''UPDATE'', ''DELETE'', ''TRUNCATE'', ''REFERENCES'', ''TRIGGER'']"
    using assms by (auto simp: grant_table_def pg_grant_table_def rbind_Inr_iff split: if_splits)
  then show "missing_privs d' v t = [] \<or> \<not> starts_with t ''vt_''"
    by (simp add: missing_privs_def EXPECTED_TABLE_PRIVS_def)
qed

section \<open>Effects of the loops\<close>

lemma creates_effect:
  "fold_res (\<lambda>r d. Inr (create_role_if_missing r d)) rs d = Inr d' \<Longrightarrow>
   roles d' = roles d \<union> set rs \<and> members d' = members d \<and> pg_privs d' = pg_privs d \<and> quiet d d'"
proof (induction rs arbitrary: d)
  case (Cons r rs)
  then show ?case using create_effect [where r = r and d = d] by (auto intro: quiet_trans)
qed simp

lemma drops_effect:
  "fold_res (\<lambda>r d. Inr (drop_role_if_present r d)) rs d = Inr d' \<Longrightarrow>
   roles d' = roles d - set rs \<and> members d' = {(g, m) \<in> members d. g \<notin> set rs \<and> m \<notin> set rs} \<and>
   set (pg_privs d') = {(q, t, p) \<in> set (pg_privs d). q \<notin> set rs} \<and> quiet d d'"
proof (induction rs arbitrary: d)
  case (Cons r rs)
  then show ?case using drop_effect [where r = r and d = d] by (auto intro: quiet_trans)
qed simp

lemma grants_effect:
  "fold_res (\<lambda>gm. grant_membership (fst gm) (snd gm)) xs d = Inr d' \<Longrightarrow>
   roles d' = roles d \<and> members d' = members d \<union> set xs \<and> pg_privs d' = pg_privs d \<and> quiet d d'
   \<and> set xs \<inter> bad_options d' = {}"
proof (induction xs arbitrary: d)
  case (Cons x xs)
  then obtain e where e: "grant_membership (fst x) (snd x) d = Inr e"
    and r: "fold_res (\<lambda>gm. grant_membership (fst gm) (snd gm)) xs e = Inr d'" by (auto simp: rbind_Inr_iff)
  note g = grant_effect [OF e] and i = Cons.IH [OF r]
  then have "quiet d d'" using quiet_trans by blast
  moreover have "bad_options d' \<subseteq> bad_options e" using i by (simp add: quiet_def)
  ultimately show ?case using g i by auto
qed simp

lemma revokes_effect:
  "fold_res (\<lambda>gm d. rbind (revoke_membership_strict (fst gm) (snd gm) d) (\<lambda>d.
      if has_direct_membership d (fst gm) (snd gm) False then Inl e else Inr d)) xs d = Inr d' \<Longrightarrow>
   roles d' = roles d \<and> members d' = members d - set xs \<and> pg_privs d' = pg_privs d \<and> quiet d d'"
proof (induction xs arbitrary: d)
  case (Cons x xs)
  from Cons.prems obtain d1 where e: "revoke_membership_strict (fst x) (snd x) d = Inr d1"
    and r: "fold_res (\<lambda>gm d. rbind (revoke_membership_strict (fst gm) (snd gm) d) (\<lambda>d.
      if has_direct_membership d (fst gm) (snd gm) False then Inl e else Inr d)) xs d1 = Inr d'"
    by (auto simp: rbind_Inr_iff split: if_splits)
  show ?case using revoke_effect [OF e] Cons.IH [OF r] by (auto intro: quiet_trans)
qed simp

text \<open>Loops for one member: what the public and token passes run.\<close>

lemma sync_member_effect:
  assumes "fold_res (\<lambda>g. grant_membership g m) ws d = Inr d1"
    and "fold_res (\<lambda>g. revoke_membership_strict g m) rs d1 = Inr d'"
  shows "roles d' = roles d" and "pg_privs d' = pg_privs d" and "quiet d d'"
proof -
  have "roles d1 = roles d \<and> pg_privs d1 = pg_privs d \<and> quiet d d1"
    by (rule fold_res_invariant [OF assms(1)]) (auto dest: grant_effect(1,3,4) intro: quiet_trans)
  moreover have "roles d' = roles d1 \<and> pg_privs d' = pg_privs d1 \<and> quiet d1 d'"
    by (rule fold_res_invariant [OF assms(2)]) (auto dest: revoke_effect(1,3,4) intro: quiet_trans)
  ultimately show "roles d' = roles d" and "pg_privs d' = pg_privs d" and "quiet d d'"
    by (auto intro: quiet_trans)
qed

section \<open>The managed names\<close>

lemma is_catalog_user: "is_catalog_role r ''user'' \<longleftrightarrow> (\<exists>u. r = user_role_name u)"
  by (auto simp: is_catalog_role_def user_role_name_def Let_def strip_prefix_Some_iff
      split: option.splits intro: strip_prefix_append)

lemma is_catalog_token: "is_catalog_role r ''token'' \<longleftrightarrow> (\<exists>u. r = token_role_name u)"
  by (auto simp: is_catalog_role_def token_role_name_def Let_def strip_prefix_Some_iff
      split: option.splits)

lemma is_catalog_vault: "is_catalog_role r ''vault'' \<longleftrightarrow> (\<exists>v. \<exists>s\<in>set SCOPES. r = group_name v s)"
proof
  assume "is_catalog_role r ''vault''"
  note asm = this
  obtain rest where s1: "strip_prefix ''akb_vault_'' r = Some rest"
    using asm by (cases "strip_prefix ''akb_vault_'' r") (simp_all add: is_catalog_role_def)
  obtain a b where s2: "rsplit_under rest = Some (a, b)"
    using asm s1 by (cases "rsplit_under rest") (auto simp: is_catalog_role_def)
  have b: "b \<in> set SCOPES" using asm s1 s2 by (auto simp: is_catalog_role_def split: if_splits)
  then have ne: "b \<noteq> ''''" using scope_no_underscore by blast
  obtain uid where "parse_uuid (to_hyphens a) = Some uid"
    using asm s1 s2 b by (cases "parse_uuid (to_hyphens a)") (simp_all add: is_catalog_role_def)
  then have "r = group_name uid b" using asm s1 s2 b ne by (simp add: is_catalog_role_def group_name_def)
  with b show "\<exists>v. \<exists>s\<in>set SCOPES. r = group_name v s" by blast
qed auto

lemma existing_user_roles: "set (existing_roles ''user'' d) = roles d \<inter> range user_role_name"
  by (auto simp: existing_roles_def roles_def is_catalog_user starts_with_iff user_role_name_def)

lemma existing_token_roles: "set (existing_roles ''token'' d) = roles d \<inter> range token_role_name"
  by (auto simp: existing_roles_def roles_def is_catalog_token starts_with_iff token_role_name_def)

definition group_names :: "string set" where
  "group_names = {group_name v s | v s. s \<in> set SCOPES}"

lemma existing_vault_roles: "set (existing_roles ''vault'' d) = roles d \<inter> group_names"
  by (auto simp: existing_roles_def roles_def is_catalog_vault group_names_def starts_with_iff group_name_def)

lemma vault_groups_eq: "vault_groups = group_names"
  by (auto simp: vault_groups_def group_names_def is_catalog_vault)

lemma managed_disjoint [simp]:
  "user_role_name u \<notin> group_names" "token_role_name t \<notin> group_names" "AUTHENTICATED_ROLE \<notin> group_names"
  "group_name v s \<notin> range user_role_name" "group_name v s \<notin> range token_role_name"
  by (auto simp: group_names_def)

lemma set_wanted_user_roles: "set (wanted_user_roles d) = user_role_name ` u_id ` set (users d)"
  by (auto simp: wanted_user_roles_def)

lemma set_wanted_vault_roles:
  "set (wanted_vault_roles d) = {group_name (v_id v) s | v s. v \<in> set (vaults d) \<and> s \<in> set SCOPES}"
  by (auto simp: wanted_vault_roles_def)

lemma wanted_vault_sub: "set (wanted_vault_roles d) \<subseteq> group_names"
  by (auto simp: set_wanted_vault_roles group_names_def)

section \<open>The passes without savepoints\<close>

definition user_pass :: "db \<Rightarrow> db result" where
  "user_pass d =
     rbind (rbind (fold_res (\<lambda>r d. Inr (create_role_if_missing r d))
              (filter (\<lambda>r. r \<notin> set (existing_roles ''user'' d)) (wanted_user_roles d)) d)
            (fold_res (grant_membership AUTHENTICATED_ROLE) (wanted_user_roles d)))
      (fold_res (\<lambda>r d. Inr (drop_role_if_present r d))
         (filter (\<lambda>r. r \<notin> set (wanted_user_roles d)) (existing_roles ''user'' d)))"

lemma step_ok_at:
  assumes "\<And>d. step_ok (g d) (f d)"
  shows "step_ok (\<lambda>s. g (fst s) s) (\<lambda>d. f d d)"
  using assms by (simp add: step_ok_def)

lemma step_ok_three:
  assumes "\<And>x. step_ok (a x) (f x)" and "\<And>x. step_ok (b x) (g x)" and "\<And>x. step_ok (c x) (h x)"
  shows "step_ok (\<lambda>s. fold c (zs (fst s)) (fold b (ys (fst s)) (fold a (xs (fst s)) s)))
    (\<lambda>d. rbind (rbind (fold_res f (xs d) d) (fold_res g (ys d))) (fold_res h (zs d)))"
proof -
  have "step_ok (\<lambda>s. fold c (zs d) (fold b (ys d) (fold a (xs d) s)))
      (\<lambda>e. rbind (rbind (fold_res f (xs d) e) (fold_res g (ys d))) (fold_res h (zs d)))" for d
    by (intro step_ok_comp step_ok_fold assms)
  then show ?thesis by (simp add: step_ok_def)
qed

lemma step_ok_user_pass: "step_ok reconcile_user_roles user_pass"
proof -
  have "step_ok reconcile_user_roles (\<lambda>d. user_pass d)"
    unfolding reconcile_user_roles_def user_pass_def Let_def
    by (rule step_ok_three [where
        xs = "\<lambda>d. filter (\<lambda>r. r \<notin> set (existing_roles ''user'' d)) (wanted_user_roles d)" and
        ys = wanted_user_roles and
        zs = "\<lambda>d. filter (\<lambda>r. r \<notin> set (wanted_user_roles d)) (existing_roles ''user'' d)"])
       (rule step_ok_savepoint, simp)+
  then show ?thesis .
qed

lemma user_pass_effect:
  assumes "user_pass d = Inr d'"
  shows "quiet d d'" and "roles d' \<inter> range user_role_name = set (wanted_user_roles d)"
    and "roles d' - range user_role_name = roles d - range user_role_name"
    and "r \<in> set (wanted_user_roles d) \<Longrightarrow> (AUTHENTICATED_ROLE, r) \<in> members d'"
proof -
  let ?W = "set (wanted_user_roles d)"
  from assms obtain d1 d2 where
    c: "fold_res (\<lambda>r d. Inr (create_role_if_missing r d))
          (filter (\<lambda>r. r \<notin> set (existing_roles ''user'' d)) (wanted_user_roles d)) d = (Inr d1 :: db result)"
    and g: "fold_res (grant_membership AUTHENTICATED_ROLE) (wanted_user_roles d) d1 = Inr d2"
    and x: "fold_res (\<lambda>r d. Inr (drop_role_if_present r d))
         (filter (\<lambda>r. r \<notin> ?W) (existing_roles ''user'' d)) d2 = (Inr d' :: db result)"
    by (auto simp: user_pass_def rbind_Inr_iff)
  have g': "fold_res (\<lambda>gm. grant_membership (fst gm) (snd gm)) (map (Pair AUTHENTICATED_ROLE) (wanted_user_roles d)) d1
      = Inr d2"
  proof -
    have "fold_res (\<lambda>gm. grant_membership (fst gm) (snd gm)) (map (Pair AUTHENTICATED_ROLE) rs) e =
        fold_res (grant_membership AUTHENTICATED_ROLE) rs e" for rs e
      by (induction rs arbitrary: e) (simp_all add: rbind_def split: sum.splits)
    with g show ?thesis by simp
  qed
  note ce = creates_effect [OF c] and ge = grants_effect [OF g'] and xe = drops_effect [OF x]
  have wu: "?W \<subseteq> range user_role_name" by (auto simp: set_wanted_user_roles)
  have "quiet d d1" and "quiet d1 d2" and "quiet d2 d'" using ce ge xe by simp_all
  then show "quiet d d'" using quiet_trans by blast
  have rl: "roles d' = (roles d \<union> ?W) - {r \<in> roles d \<inter> range user_role_name. r \<notin> ?W}"
    using ce ge xe by (auto simp: existing_user_roles)
  show "roles d' \<inter> range user_role_name = ?W" and "roles d' - range user_role_name = roles d - range user_role_name"
    using rl wu by auto
  show "(AUTHENTICATED_ROLE, r) \<in> members d'" if "r \<in> ?W"
    using ge xe that by (auto simp: existing_user_roles)
qed

definition hierarchy_step :: "vault_row \<Rightarrow> db \<Rightarrow> db result" where
  "hierarchy_step r d =
     rbind (rbind (grant_membership (group_name (v_id r) ''reader'') (group_name (v_id r) ''writer'') d)
        (grant_membership (group_name (v_id r) ''writer'') (group_name (v_id r) ''admin'')))
      (\<lambda>d. case v_owner r of None \<Rightarrow> Inr d
           | Some o1 \<Rightarrow> grant_membership (group_name (v_id r) ''admin'') (user_role_name o1)
               (create_role_if_missing (user_role_name o1) d))"

definition vault_pass :: "db \<Rightarrow> db result" where
  "vault_pass d =
     rbind (rbind (fold_res (\<lambda>r d. Inr (create_role_if_missing r d))
              (filter (\<lambda>r. r \<notin> set (existing_roles ''vault'' d)) (wanted_vault_roles d)) d)
            (fold_res hierarchy_step (vaults d)))
      (fold_res (\<lambda>r d. Inr (drop_role_if_present r d))
         (filter (\<lambda>r. r \<notin> set (wanted_vault_roles d)) (existing_roles ''vault'' d)))"

lemma step_ok_id: "step_ok (\<lambda>s. s) Inr"
  by (simp add: step_ok_def)

lemma step_ok_hierarchy: "step_ok (reconcile_vault_hierarchy r) (hierarchy_step r)"
proof (cases "v_owner r")
  case None
  then show ?thesis
    using step_ok_comp [OF step_ok_savepoint step_ok_id, of id]
    by (simp add: reconcile_vault_hierarchy_def [abs_def] hierarchy_step_def [abs_def] Let_def)
next
  case (Some o1)
  then show ?thesis
    unfolding reconcile_vault_hierarchy_def [abs_def] hierarchy_step_def [abs_def] Let_def Some option.case
    by (intro step_ok_comp step_ok_savepoint) simp_all
qed

lemma step_ok_vault_pass: "step_ok reconcile_vault_roles vault_pass"
proof -
  have "step_ok reconcile_vault_roles (\<lambda>d. vault_pass d)"
    unfolding reconcile_vault_roles_def vault_pass_def Let_def
    by (rule step_ok_three [where
        xs = "\<lambda>d. filter (\<lambda>r. r \<notin> set (existing_roles ''vault'' d)) (wanted_vault_roles d)" and
        ys = vaults and
        zs = "\<lambda>d. filter (\<lambda>r. r \<notin> set (wanted_vault_roles d)) (existing_roles ''vault'' d)"])
       (rule step_ok_savepoint step_ok_hierarchy, simp?)+
  then show ?thesis .
qed

lemma hierarchy_step_effect:
  assumes "hierarchy_step r d = Inr d'"
  shows "quiet d d'" and "members d \<subseteq> members d'" and "roles d \<subseteq> roles d'"
    and "roles d' \<subseteq> roles d \<union> (case v_owner r of None \<Rightarrow> {} | Some o1 \<Rightarrow> {user_role_name o1})"
proof -
  from assms obtain d1 d2 where
    a: "grant_membership (group_name (v_id r) ''reader'') (group_name (v_id r) ''writer'') d = Inr d1"
    and b: "grant_membership (group_name (v_id r) ''writer'') (group_name (v_id r) ''admin'') d1 = Inr d2"
    and c: "(case v_owner r of None \<Rightarrow> Inr d2
           | Some o1 \<Rightarrow> grant_membership (group_name (v_id r) ''admin'') (user_role_name o1)
               (create_role_if_missing (user_role_name o1) d2)) = Inr d'"
    by (auto simp: hierarchy_step_def rbind_Inr_iff)
  have c': "quiet d2 d' \<and> members d2 \<subseteq> members d' \<and> roles d2 \<subseteq> roles d' \<and>
      roles d' \<subseteq> roles d2 \<union> (case v_owner r of None \<Rightarrow> {} | Some o1 \<Rightarrow> {user_role_name o1})"
  proof (cases "v_owner r")
    case None
    with c show ?thesis by simp
  next
    case (Some o1)
    with c have "grant_membership (group_name (v_id r) ''admin'') (user_role_name o1)
        (create_role_if_missing (user_role_name o1) d2) = Inr d'" by simp
    note g = grant_effect [OF this]
    show ?thesis
      using g create_effect [where r = "user_role_name o1" and d = d2] Some quiet_trans by auto
  qed
  note ga = grant_effect [OF a] and gb = grant_effect [OF b]
  show "quiet d d'" using ga(4) gb(4) c' quiet_trans by blast
  show "members d \<subseteq> members d'" and "roles d \<subseteq> roles d'"
    and "roles d' \<subseteq> roles d \<union> (case v_owner r of None \<Rightarrow> {} | Some o1 \<Rightarrow> {user_role_name o1})"
    using ga(1,2) gb(1,2) c' by auto
qed

definition owner_roles :: "db \<Rightarrow> string set" where
  "owner_roles d = {user_role_name o1 | v o1. v \<in> set (vaults d) \<and> v_owner v = Some o1}"

lemma vault_pass_effect:
  assumes "vault_pass d = Inr d'" and "owner_roles d \<subseteq> roles d"
  shows "quiet d d'" and "roles d' \<inter> group_names = set (wanted_vault_roles d)"
    and "roles d' - group_names = roles d - group_names"
    and "(g, m) \<in> members d \<Longrightarrow> g \<notin> group_names \<Longrightarrow> m \<notin> group_names \<Longrightarrow> (g, m) \<in> members d'"
proof -
  let ?W = "set (wanted_vault_roles d)"
  from assms obtain d1 d2 where
    c: "fold_res (\<lambda>r d. Inr (create_role_if_missing r d))
          (filter (\<lambda>r. r \<notin> set (existing_roles ''vault'' d)) (wanted_vault_roles d)) d = (Inr d1 :: db result)"
    and h: "fold_res hierarchy_step (vaults d) d1 = Inr d2"
    and x: "fold_res (\<lambda>r d. Inr (drop_role_if_present r d))
         (filter (\<lambda>r. r \<notin> ?W) (existing_roles ''vault'' d)) d2 = (Inr d' :: db result)"
    by (auto simp: vault_pass_def rbind_Inr_iff)
  note ce = creates_effect [OF c] and xe = drops_effect [OF x]
  have he: "quiet d1 d2 \<and> members d1 \<subseteq> members d2 \<and> roles d1 \<subseteq> roles d2 \<and> roles d2 \<subseteq> roles d1 \<union> owner_roles d"
  proof (rule fold_res_invariant [OF h])
    fix r s s'
    assume r: "r \<in> set (vaults d)" and i: "quiet d1 s \<and> members d1 \<subseteq> members s \<and> roles d1 \<subseteq> roles s \<and>
        roles s \<subseteq> roles d1 \<union> owner_roles d" and s: "hierarchy_step r s = Inr s'"
    have "(case v_owner r of None \<Rightarrow> {} | Some o1 \<Rightarrow> {user_role_name o1}) \<subseteq> owner_roles d"
      using r by (auto simp: owner_roles_def split: option.splits)
    then show "quiet d1 s' \<and> members d1 \<subseteq> members s' \<and> roles d1 \<subseteq> roles s' \<and> roles s' \<subseteq> roles d1 \<union> owner_roles d"
      using i hierarchy_step_effect [OF s] quiet_trans by blast
  qed simp
  have "quiet d d1" and "quiet d1 d2" and "quiet d2 d'" using ce he xe by simp_all
  then show "quiet d d'" using quiet_trans by blast
  have "roles d2 = roles d \<union> ?W"
    using ce he assms(2) by (auto simp: existing_vault_roles)
  then have rl: "roles d' = (roles d \<union> ?W) - {r \<in> roles d \<inter> group_names. r \<notin> ?W}"
    using xe by (auto simp: existing_vault_roles)
  show "roles d' \<inter> group_names = ?W" and "roles d' - group_names = roles d - group_names"
    using rl wanted_vault_sub [of d] by auto
  show "(g, m) \<in> members d \<Longrightarrow> g \<notin> group_names \<Longrightarrow> m \<notin> group_names \<Longrightarrow> (g, m) \<in> members d'"
    using ce he xe by (auto simp: existing_vault_roles)
qed

section \<open>The membership pass\<close>

text \<open>The foreign keys: members and owners exist, and so do the vaults.\<close>

definition fk_ok :: "db \<Rightarrow> bool" where
  "fk_ok d \<longleftrightarrow>
     (\<forall>a\<in>set (access d). a_vault a \<in> v_id ` set (vaults d) \<and> a_user a \<in> u_id ` set (users d))
     \<and> (\<forall>v\<in>set (vaults d). case v_owner v of None \<Rightarrow> True | Some o1 \<Rightarrow> o1 \<in> u_id ` set (users d))"

definition managed_pairs :: "db \<Rightarrow> (string \<times> string) set" where
  "managed_pairs d = set (wanted_vault_roles d) \<times> set (wanted_user_roles d)"

lemma edge_info_of_managed:
  assumes "g = group_name v s" and "s \<in> set SCOPES" and "m = user_role_name u"
  shows "edge_info_of g m = Some ((g, m), (v, u, s))"
proof -
  have "rsplit_under (to_underscores (uuid_str v) @ ''_'' @ s) = Some (to_underscores (uuid_str v), s)"
    using rsplit_under_append [of s "to_underscores (uuid_str v)"] scope_no_underscore [OF assms(2)] by simp
  moreover have "strip_prefix ''akb_vault_'' g = Some (to_underscores (uuid_str v) @ ''_'' @ s)"
    by (simp add: assms(1) group_name_def)
  moreover have "strip_prefix ''akb_user_'' m = Some (to_underscores (uuid_str u))"
    by (simp add: assms(3) user_role_name_def)
  ultimately show ?thesis using assms by (simp add: edge_info_of_def)
qed

lemma set_map_filter: "set (List.map_filter f xs) = {y. \<exists>x\<in>set xs. f x = Some y}"
  by (induction xs) (auto simp: List.map_filter_def split: option.splits)

lemma actual_keys: "fst ` set (actual_user_memberships d) = members d \<inter> managed_pairs d"
proof -
  have e: "fst i = (g, m)" if "edge_info_of g m = Some i" for g m i
    using that by (auto simp: edge_info_of_def split: option.splits if_splits)
  show ?thesis
  proof
    show "fst ` set (actual_user_memberships d) \<subseteq> members d \<inter> managed_pairs d"
      by (auto simp: actual_user_memberships_def set_map_filter members_def managed_pairs_def
          split: if_splits dest!: e)
    show "members d \<inter> managed_pairs d \<subseteq> fst ` set (actual_user_memberships d)"
    proof
      fix gm assume gm: "gm \<in> members d \<inter> managed_pairs d"
      then obtain e1 where e1: "e1 \<in> set (pg_edges d)" "gm = (e_group e1, e_member e1)"
        by (auto simp: members_def)
      with gm have w: "e_group e1 \<in> set (wanted_vault_roles d)" "e_member e1 \<in> set (wanted_user_roles d)"
        by (simp_all add: managed_pairs_def)
      from w(1) obtain v s where n: "e_group e1 = group_name v s" "s \<in> set SCOPES"
        by (auto simp: set_wanted_vault_roles)
      from w(2) obtain u where n3: "e_member e1 = user_role_name u"
        by (auto simp: set_wanted_user_roles)
      have "edge_info_of (e_group e1) (e_member e1) = Some (gm, (v, u, s))"
        using edge_info_of_managed [OF n n3] e1(2) by simp
      moreover have "starts_with (e_group e1) ''akb_vault_''" "starts_with (e_member e1) ''akb_user_''"
        by (simp_all add: n n3) (simp add: starts_with_iff user_role_name_def)
      ultimately have "(gm, (v, u, s)) \<in> set (actual_user_memberships d)"
        using e1(1) w by (auto simp: actual_user_memberships_def set_map_filter)
      then show "gm \<in> fst ` set (actual_user_memberships d)" by force
    qed
  qed
qed

lemma desired_keys:
  assumes "desired_user_memberships d = Inr des"
  shows "fst ` set des =
    {(group_name (a_vault a) (a_role a), user_role_name (a_user a)) | a.
       a \<in> set (access d) \<and> (a_vault a, a_user a) \<notin> set (owned_pairs d)} \<union>
    {(group_name v ''admin'', user_role_name u) | v u. (v, u) \<in> set (owned_pairs d)}"
    and "a \<in> set (access d) \<Longrightarrow> (a_vault a, a_user a) \<notin> set (owned_pairs d) \<Longrightarrow> a_role a \<in> set SCOPES"
proof -
  let ?f = "\<lambda>a. rbind (vault_group_role_name (a_vault a) (a_role a))
      (\<lambda>g. Inr ((g, user_role_name (a_user a)), (a_vault a, a_user a, a_role a)))"
  let ?rows = "filter (\<lambda>a. (a_vault a, a_user a) \<notin> set (owned_pairs d)) (access d)"
  from assms obtain ms where ms: "map_res ?f ?rows = Inr ms"
    and des: "des = ms @ map (\<lambda>(vid, uid). ((group_name vid ''admin'', user_role_name uid), (vid, uid, ''admin'')))
        (owned_pairs d)"
    by (auto simp: desired_user_memberships_def Let_def rbind_Inr_iff)
  have f: "?f a = Inr m \<longleftrightarrow> a_role a \<in> set SCOPES \<and>
      m = ((group_name (a_vault a) (a_role a), user_role_name (a_user a)), (a_vault a, a_user a, a_role a))" for a m
    by (auto simp: vault_group_role_name_def)
  have "list_all2 (\<lambda>a m. ?f a = Inr m) ?rows ms" using ms by (simp add: map_res_Inr)
  then have all: "\<forall>a\<in>set ?rows. a_role a \<in> set SCOPES" and
    k: "fst ` set ms = (\<lambda>a. (group_name (a_vault a) (a_role a), user_role_name (a_user a))) ` set ?rows"
    unfolding f by (induction rule: list_all2_induct) auto
  show "fst ` set des =
    {(group_name (a_vault a) (a_role a), user_role_name (a_user a)) | a.
       a \<in> set (access d) \<and> (a_vault a, a_user a) \<notin> set (owned_pairs d)} \<union>
    {(group_name v ''admin'', user_role_name u) | v u. (v, u) \<in> set (owned_pairs d)}"
    unfolding des set_append image_Un k by (auto simp: image_image case_prod_beta intro: rev_image_eqI)
  show "a \<in> set (access d) \<Longrightarrow> (a_vault a, a_user a) \<notin> set (owned_pairs d) \<Longrightarrow> a_role a \<in> set SCOPES"
    using all by simp
qed

lemma set_owned_pairs: "set (owned_pairs d) = {(v_id v, o1) | v o1. v \<in> set (vaults d) \<and> v_owner v = Some o1}"
  by (auto simp: owned_pairs_def split: option.splits)

lemma desired_managed:
  assumes "desired_user_memberships d = Inr des" and "fk_ok d"
  shows "fst ` set des \<subseteq> managed_pairs d"
proof -
  have a: "''admin'' \<in> set SCOPES" by (simp add: SCOPES_def)
  have o: "o1 \<in> u_id ` set (users d)" if "v \<in> set (vaults d)" "v_owner v = Some o1" for v o1
    using assms(2) that by (auto simp: fk_ok_def)
  have c: "a_vault x \<in> v_id ` set (vaults d) \<and> a_user x \<in> u_id ` set (users d)" if "x \<in> set (access d)" for x
    using assms(2) that by (simp add: fk_ok_def)
  have w: "group_name v s \<in> set (wanted_vault_roles d)" if "v \<in> v_id ` set (vaults d)" "s \<in> set SCOPES" for v s
    using that by (auto simp: set_wanted_vault_roles)
  show ?thesis
  proof
    fix gm assume "gm \<in> fst ` set des"
    then consider (member) x where "x \<in> set (access d)" "(a_vault x, a_user x) \<notin> set (owned_pairs d)"
        "gm = (group_name (a_vault x) (a_role x), user_role_name (a_user x))"
      | (owner) v o1 where "v \<in> set (vaults d)" "v_owner v = Some o1"
        "gm = (group_name (v_id v) ''admin'', user_role_name o1)"
      unfolding desired_keys(1) [OF assms(1)] by (auto simp: set_owned_pairs)
    then show "gm \<in> managed_pairs d"
    proof cases
      case member
      then show ?thesis
        using w c desired_keys(2) [OF assms(1)] by (simp add: managed_pairs_def set_wanted_user_roles)
    next
      case owner
      then show ?thesis using w a o by (simp add: managed_pairs_def set_wanted_user_roles)
    qed
  qed
qed

lemma desired_catalog: "catalog d' = catalog d \<Longrightarrow> desired_user_memberships d' = desired_user_memberships d"
  using catalogD [of d' d] by (simp add: desired_user_memberships_def owned_pairs_def)

lemma managed_catalog: "catalog d' = catalog d \<Longrightarrow> managed_pairs d' = managed_pairs d"
  using catalogD [of d' d] by (simp add: managed_pairs_def wanted_vault_roles_def wanted_user_roles_def)

lemma set_sorted_diff [simp]: "set (sorted_diff xs ys) = set xs - set ys"
  by (auto simp: sorted_diff_def)

lemma set_sorted_common [simp]: "set (sorted_common xs ys) = set xs \<inter> set ys"
  by (auto simp: sorted_common_def)

definition member_pass :: "db \<Rightarrow> db result" where
  "member_pass d =
     rbind (desired_user_memberships d) (\<lambda>desired.
     let des = map fst desired; act = map fst (actual_user_memberships d)
     in rbind (rbind (fold_res (\<lambda>gm d. rbind (revoke_membership_strict (fst gm) (snd gm) d) (\<lambda>d.
                        if has_direct_membership d (fst gm) (snd gm) False
                        then Inl (PyRuntimeError ''membership remains under another grantor'') else Inr d))
                (sorted_diff act des) d)
           (fold_res (\<lambda>gm. grant_membership (fst gm) (snd gm)) (sorted_diff des act)))
          (fold_res (\<lambda>gm. grant_membership (fst gm) (snd gm)) (sorted_common des act)))"

lemma member_pass_of_run:
  assumes "reconcile_memberships s = Inr s'"
  shows "errs s \<le> errs s'" and "errs s' = errs s \<Longrightarrow> member_pass (fst s) = Inr (fst s')"
proof -
  from assms obtain desired where des: "desired_user_memberships (fst s) = Inr desired"
    by (auto simp: reconcile_memberships_def rbind_Inr_iff)
  define de ac where "de = map fst desired" and "ac = map fst (actual_user_memberships (fst s))"
  define g where "g = (\<lambda>s. fold (\<lambda>gm. savepoint ''membership options'' id (grant_membership (fst gm) (snd gm)))
      (sorted_common de ac)
     (fold (\<lambda>gm. savepoint ''GRANT'' (\<lambda>p. p\<lparr>grants_added := grants_added p + 1\<rparr>)
                     (grant_membership (fst gm) (snd gm))) (sorted_diff de ac)
     (fold (\<lambda>gm. savepoint ''REVOKE'' (\<lambda>p. p\<lparr>grants_removed := grants_removed p + 1\<rparr>)
                     (\<lambda>d. rbind (revoke_membership_strict (fst gm) (snd gm) d) (\<lambda>d.
                        if has_direct_membership d (fst gm) (snd gm) False
                        then Inl (PyRuntimeError ''membership remains under another grantor'') else Inr d)))
               (sorted_diff ac de) s)))"
  have s': "s' = g s"
    using assms des by (simp add: reconcile_memberships_def Let_def g_def de_def ac_def)
  have "step_ok g (\<lambda>d. rbind (rbind (fold_res (\<lambda>gm d. rbind (revoke_membership_strict (fst gm) (snd gm) d) (\<lambda>d.
                        if has_direct_membership d (fst gm) (snd gm) False
                        then Inl (PyRuntimeError ''membership remains under another grantor'') else Inr d))
                (sorted_diff ac de) d)
           (fold_res (\<lambda>gm. grant_membership (fst gm) (snd gm)) (sorted_diff de ac)))
          (fold_res (\<lambda>gm. grant_membership (fst gm) (snd gm)) (sorted_common de ac)))"
    unfolding g_def by (intro step_ok_comp step_ok_fold step_ok_savepoint) simp_all
  from step_okD(1) [OF this, of s] step_okD(2) [OF this, of s]
  show "errs s \<le> errs s'" and "errs s' = errs s \<Longrightarrow> member_pass (fst s) = Inr (fst s')"
    using s' des by (simp_all add: member_pass_def Let_def de_def ac_def)
qed

lemma member_pass_effect:
  assumes "member_pass d = Inr d'" and "fk_ok d"
  shows "quiet d d'" and "roles d' = roles d"
    and "\<exists>des. desired_user_memberships d = Inr des \<and> members d' \<inter> managed_pairs d = fst ` set des \<and>
      fst ` set des \<inter> bad_options d' = {}"
    and "members d' - managed_pairs d = members d - managed_pairs d"
proof -
  from assms obtain desired d1 d2 where
    des: "desired_user_memberships d = Inr desired"
    and r: "fold_res (\<lambda>gm d. rbind (revoke_membership_strict (fst gm) (snd gm) d) (\<lambda>d.
                        if has_direct_membership d (fst gm) (snd gm) False
                        then Inl (PyRuntimeError ''membership remains under another grantor'') else Inr d))
                (sorted_diff (map fst (actual_user_memberships d)) (map fst desired)) d = Inr d1"
    and g: "fold_res (\<lambda>gm. grant_membership (fst gm) (snd gm))
      (sorted_diff (map fst desired) (map fst (actual_user_memberships d))) d1 = Inr d2"
    and c: "fold_res (\<lambda>gm. grant_membership (fst gm) (snd gm))
      (sorted_common (map fst desired) (map fst (actual_user_memberships d))) d2 = Inr d'"
    by (auto simp: member_pass_def Let_def rbind_Inr_iff)
  let ?D = "fst ` set desired" and ?C = "managed_pairs d"
  note re = revokes_effect [OF r] and ge = grants_effect [OF g] and ce = grants_effect [OF c]
  have D: "?D \<subseteq> ?C" by (rule desired_managed [OF des assms(2)])
  have "quiet d d1" and "quiet d1 d2" and q: "quiet d2 d'" using re ge ce by simp_all
  then show "quiet d d'" using quiet_trans by blast
  show "roles d' = roles d" using re ge ce by simp
  have m: "members d' = members d - (members d \<inter> ?C - ?D) \<union> ?D"
    using re ge ce actual_keys [of d] by auto
  show "members d' - ?C = members d - ?C" using m D by auto
  have "bad_options d' \<subseteq> bad_options d2" using q by (simp add: quiet_def)
  moreover have "(?D - fst ` set (actual_user_memberships d)) \<inter> bad_options d2 = {}" using ge by simp
  moreover have "(?D \<inter> fst ` set (actual_user_memberships d)) \<inter> bad_options d' = {}" using ce by simp
  ultimately have "?D \<inter> bad_options d' = {}" by blast
  moreover have "members d' \<inter> ?C = ?D" using m D by auto
  ultimately show "\<exists>des. desired_user_memberships d = Inr des \<and> members d' \<inter> ?C = fst ` set des \<and>
      fst ` set des \<inter> bad_options d' = {}" using des by blast
qed

section \<open>The table, public and token passes\<close>

definition table_step :: "uuid \<times> string \<times> string \<Rightarrow> db \<Rightarrow> db result" where
  "table_step row d =
     (case row of (vid, name, vault_name) \<Rightarrow>
        if \<not> is_safe_pg_table_name (pg_table_name vault_name name) then Inl PyValueError
        else grant_table vid (pg_table_name vault_name name) d)"

lemma step_ok_tables: "step_ok reconcile_table_grants (\<lambda>d. fold_res table_step (table_rows d) d)"
proof -
  let ?g = "\<lambda>(vid, name, vault_name) s.
             let pg_name = pg_table_name vault_name name in
             if \<not> is_safe_pg_table_name pg_name then report_error ''unsafe pg_name'' s
             else savepoint ''GRANT on'' (\<lambda>p. p\<lparr>table_grants_applied := table_grants_applied p + 1\<rparr>)
                    (grant_table vid pg_name) s"
  have one: "step_ok (?g x) (table_step x)" for x
  proof (cases x)
    case (fields vid name vn)
    show ?thesis
    proof (cases "is_safe_pg_table_name (pg_table_name vn name)")
      case True
      then have "?g x = savepoint ''GRANT on'' (\<lambda>p. p\<lparr>table_grants_applied := table_grants_applied p + 1\<rparr>)
                    (grant_table vid (pg_table_name vn name))" and "table_step x = grant_table vid (pg_table_name vn name)"
        by (auto simp: fields table_step_def Let_def)
      then show ?thesis by (simp add: step_ok_savepoint)
    next
      case False
      then have "?g x = report_error ''unsafe pg_name''" by (auto simp: fields Let_def)
      then show ?thesis by (simp add: step_ok_report_error)
    qed
  qed
  have "step_ok (fold ?g xs) (fold_res table_step xs)" for xs by (rule step_ok_fold) (rule one)
  then show ?thesis unfolding step_ok_def reconcile_table_grants_def by blast
qed

lemma safe_name_prefix: "is_safe_pg_table_name t \<Longrightarrow> starts_with t ''vt_''"
proof -
  assume a: "is_safe_pg_table_name t"
  define body where "body = (if t \<noteq> [] \<and> last t = CHR 0x0A then butlast t else t)"
  have "prefix body t" by (simp add: body_def prefixeq_butlast)
  moreover have "prefix ''vt_'' body"
    using a unfolding is_safe_pg_table_name_def vt_table_re_def Let_def body_def [symmetric]
    by (auto simp: strip_prefix_Some_iff split: option.splits)
  ultimately show ?thesis unfolding starts_with_iff using prefix_order.trans by blast
qed

lemma table_step_effect:
  assumes "table_step (vid, name, vn) d = Inr d'"
  shows "roles d' = roles d" and "members d' = members d" and "set (pg_privs d) \<subseteq> set (pg_privs d')"
    and "quiet d d'" and "missing_privs d' vid (pg_table_name vn name) = []"
    and "is_safe_pg_table_name (pg_table_name vn name)"
proof -
  from assms have s: "is_safe_pg_table_name (pg_table_name vn name)"
    and g: "grant_table vid (pg_table_name vn name) d = Inr d'"
    by (auto simp: table_step_def split: if_splits)
  show "is_safe_pg_table_name (pg_table_name vn name)" by (rule s)
  show "roles d' = roles d" and "members d' = members d" and "set (pg_privs d) \<subseteq> set (pg_privs d')"
    and "quiet d d'" and "missing_privs d' vid (pg_table_name vn name) = []"
    using grant_table_effect [OF g] safe_name_prefix [OF s] by auto
qed

lemma missing_privs_mono:
  assumes "missing_privs d v t = []"
    and "\<And>s p. s \<in> set SCOPES \<Longrightarrow> (group_name v s, t, p) \<in> set (pg_privs d) \<Longrightarrow> (group_name v s, t, p) \<in> set (pg_privs d')"
  shows "missing_privs d' v t = []"
proof -
  have "s \<in> set SCOPES" if "(s, ps) \<in> set EXPECTED_TABLE_PRIVS" for s ps
    using that by (auto simp: EXPECTED_TABLE_PRIVS_def SCOPES_def)
  with assms show ?thesis
    by (fastforce simp: missing_privs_def filter_empty_conv split: prod.splits)
qed

lemma table_pass_effect:
  assumes "fold_res table_step rows d = Inr d'"
  shows "roles d' = roles d \<and> members d' = members d \<and> quiet d d' \<and> set (pg_privs d) \<subseteq> set (pg_privs d') \<and>
    (\<forall>(vid, name, vn)\<in>set rows. missing_privs d' vid (pg_table_name vn name) = [])"
  using assms
proof (induction rows arbitrary: d)
  case (Cons x rows)
  obtain vid name vn where x: "x = (vid, name, vn)" by (cases x) auto
  from Cons.prems obtain d1 where t: "table_step x d = Inr d1" and r: "fold_res table_step rows d1 = Inr d'"
    by (auto simp: rbind_Inr_iff)
  note e = table_step_effect [OF t [unfolded x]] and i = Cons.IH [OF r]
  have "missing_privs d' vid (pg_table_name vn name) = []"
    by (rule missing_privs_mono [OF e(5)]) (use i in auto)
  moreover have "quiet d d'" using e(4) i quiet_trans by blast
  ultimately show ?case using e i x by auto
qed simp

lemma step_ok_public:
  "step_ok reconcile_public_access
     (\<lambda>d. fold_res (\<lambda>r. sync_public (v_id r) (public_access_scope (v_public r))) (vaults d) d)"
proof -
  have "step_ok (fold (\<lambda>r s. let target = public_access_scope (v_public r) in
             savepoint ''public access''
               (\<lambda>p. if target \<noteq> None then p\<lparr>public_grants_applied := public_grants_applied p + 1\<rparr> else p)
               (sync_public (v_id r) target) s) xs)
      (fold_res (\<lambda>r. sync_public (v_id r) (public_access_scope (v_public r))) xs)" for xs
    unfolding Let_def by (intro step_ok_fold step_ok_savepoint) simp
  then show ?thesis unfolding step_ok_def reconcile_public_access_def by blast
qed

lemma sync_public_effect:
  assumes "sync_public v target d = Inr d'" and "target \<in> insert None (Some ` set SCOPES)"
  shows "roles d' = roles d" and "pg_privs d' = pg_privs d" and "quiet d d'"
    and "members d' = members d - pair_edges v AUTHENTICATED_ROLE
      \<union> {(group_name v s, AUTHENTICATED_ROLE) | s. target = Some s}"
proof -
  let ?m = AUTHENTICATED_ROLE
  have flip: "(\<lambda>s d. if Some s = target then Inr d else revoke_membership_strict (group_name v s) ?m d) =
      (\<lambda>s d. if Some s \<noteq> target then revoke_membership_strict (group_name v s) ?m d else Inr d)"
    by (intro ext) simp
  from assms obtain d1 where
    r: "fold_res (\<lambda>s d. if Some s \<noteq> target then revoke_membership_strict (group_name v s) ?m d else Inr d) SCOPES d
      = Inr d1"
    and g: "(case target of None \<Rightarrow> Inr d1 | Some s \<Rightarrow> grant_membership (group_name v s) ?m d1) = Inr d'"
    unfolding sync_public_def flip by (auto simp: rbind_Inr_iff)
  have q1: "roles d1 = roles d \<and> pg_privs d1 = pg_privs d \<and> quiet d d1"
    by (rule fold_res_invariant [OF r]) (auto dest: revoke_effect(1,3,4) intro: quiet_trans split: if_splits)
  have m1: "members d1 = members d - (\<lambda>s. (group_name v s, ?m)) ` {s \<in> set SCOPES. Some s \<noteq> target}"
    using pg.revoke_unless [OF r] by auto
  have q2: "roles d' = roles d1 \<and> pg_privs d' = pg_privs d1 \<and> quiet d1 d' \<and>
      members d' = members d1 \<union> {(group_name v s, ?m) | s. target = Some s}"
    using g grant_effect by (cases target) auto
  show "roles d' = roles d" and "pg_privs d' = pg_privs d" and "quiet d d'"
    using q1 q2 by (auto intro: quiet_trans)
  show "members d' = members d - pair_edges v ?m \<union> {(group_name v s, ?m) | s. target = Some s}"
    using m1 q2 assms(2) by (auto simp: pair_edges_def)
qed

lemma public_access_scope_SCOPES: "public_access_scope l \<in> insert None (Some ` set SCOPES)"
  by (simp add: public_access_scope_def SCOPES_def)

lemma public_pass_effect:
  assumes "fold_res (\<lambda>r. sync_public (v_id r) (public_access_scope (v_public r))) rows d = Inr d'"
    and "distinct (map v_id rows)"
  shows "roles d' = roles d \<and> pg_privs d' = pg_privs d \<and> quiet d d' \<and>
    (\<forall>g m. m \<noteq> AUTHENTICATED_ROLE \<or> (\<forall>r\<in>set rows. (g, m) \<notin> pair_edges (v_id r) AUTHENTICATED_ROLE) \<longrightarrow>
       ((g, m) \<in> members d' \<longleftrightarrow> (g, m) \<in> members d)) \<and>
    (\<forall>r\<in>set rows. \<forall>s\<in>set SCOPES. (group_name (v_id r) s, AUTHENTICATED_ROLE) \<in> members d' \<longleftrightarrow>
       public_access_scope (v_public r) = Some s)"
  using assms
proof (induction rows arbitrary: d)
  case (Cons x rows)
  from Cons.prems obtain d1 where t: "sync_public (v_id x) (public_access_scope (v_public x)) d = Inr d1"
    and r: "fold_res (\<lambda>r. sync_public (v_id r) (public_access_scope (v_public r))) rows d1 = Inr d'"
    by (auto simp: rbind_Inr_iff)
  have dis: "distinct (map v_id rows)" and nx: "v_id x \<notin> v_id ` set rows" using Cons.prems(2) by auto
  note e = sync_public_effect [OF t public_access_scope_SCOPES] and i = Cons.IH [OF r dis]
  have m: "m \<noteq> AUTHENTICATED_ROLE \<or> (\<forall>r\<in>set rows. (g, m) \<notin> pair_edges (v_id r) AUTHENTICATED_ROLE) \<longrightarrow>
       ((g, m) \<in> members d' \<longleftrightarrow> (g, m) \<in> members d1)" for g m using i by blast
  have x: "(group_name (v_id x) s, AUTHENTICATED_ROLE) \<in> members d' \<longleftrightarrow> public_access_scope (v_public x) = Some s"
    if "s \<in> set SCOPES" for s
  proof -
    have "(group_name (v_id x) s, AUTHENTICATED_ROLE) \<in> members d' \<longleftrightarrow>
        (group_name (v_id x) s, AUTHENTICATED_ROLE) \<in> members d1"
      using m [of AUTHENTICATED_ROLE "group_name (v_id x) s"] nx by (auto simp: pair_edges_def)
    then show ?thesis using e(4) that by (auto simp: pair_edges_def)
  qed
  have f: "(g, m) \<in> members d' \<longleftrightarrow> (g, m) \<in> members d"
    if "m \<noteq> AUTHENTICATED_ROLE \<or> (\<forall>r\<in>set (x # rows). (g, m) \<notin> pair_edges (v_id r) AUTHENTICATED_ROLE)" for g m
  proof -
    have "(g, m) \<in> members d1 \<longleftrightarrow> (g, m) \<in> members d"
      using that e(4) public_access_scope_SCOPES [of "v_public x"] by (auto simp: pair_edges_def)
    then show ?thesis using m [of m g] that by auto
  qed
  have "quiet d d'" using e(3) i quiet_trans by blast
  then show ?case using e(1,2) i x f by auto
qed simp

definition token_membership_step :: "string list \<Rightarrow> string \<Rightarrow> uuid \<Rightarrow> vault_scope \<Rightarrow> db \<Rightarrow> db result" where
  "token_membership_step have1 role uid scope d =
     rbind (wanted_token_group_roles (fetch_user_accessible d uid) scope) (\<lambda>wanted.
     rbind (fold_res (\<lambda>g. grant_membership g role) wanted d)
       (fold_res (\<lambda>g. revoke_membership_strict g role) (filter (\<lambda>g. g \<notin> set wanted) have1)))"

lemma step_ok_token_membership:
  "step_ok (reconcile_token_memberships have1 role uid scope) (token_membership_step have1 role uid scope)"
proof (rule step_okI)
  fix s :: run
  let ?w = "wanted_token_group_roles (fetch_user_accessible (fst s) uid) scope"
  show "errs s \<le> errs (reconcile_token_memberships have1 role uid scope s)"
    by (auto simp: reconcile_token_memberships_def Let_def savepoint_def report_error_def errs_def split: sum.split)
  show "errs (reconcile_token_memberships have1 role uid scope s) = errs s \<Longrightarrow>
      token_membership_step have1 role uid scope (fst s) = Inr (fst (reconcile_token_memberships have1 role uid scope s))"
    by (auto simp: reconcile_token_memberships_def token_membership_step_def Let_def savepoint_def report_error_def
        errs_def split: sum.splits)
qed

definition token_pass :: "db \<Rightarrow> db result" where
  "token_pass d =
     (let live = fst (live_scopes (locked_live_scoped_tokens None None d)) in
      rbind (rbind (fold_res (\<lambda>r d. Inr (create_role_if_missing r d))
               (filter (\<lambda>r. r \<notin> set (existing_roles ''token'' d)) (map fst live)) d)
             (fold_res (\<lambda>r d. Inr (drop_role_if_present r d))
               (filter (\<lambda>r. r \<notin> set (map fst live)) (existing_roles ''token'' d))))
        (\<lambda>e. fold_res (\<lambda>(role, uid, scope). token_membership_step (token_group_memberships e role) role uid scope)
               live e))"

lemma report_errors:
  fixes s :: run
  shows "errs ((report_error tag ^^ n) s) = errs s + n \<and> fst ((report_error tag ^^ n) s) = fst s"
  by (induction n) (simp_all add: report_error_def errs_def)

lemma token_pass_of_run:
  shows "errs s \<le> errs (reconcile_token_roles s)"
    and "errs (reconcile_token_roles s) = errs s \<Longrightarrow>
      token_pass (fst s) = Inr (fst (reconcile_token_roles s)) \<and>
      snd (live_scopes (locked_live_scoped_tokens None None (fst s))) = 0"
proof -
  obtain live bad where lb: "live_scopes (locked_live_scoped_tokens None None (fst s)) = (live, bad)"
    by (cases "live_scopes (locked_live_scoped_tokens None None (fst s))")
  define s1 where "s1 = (report_error ''scope parse'' ^^ bad) s"
  have s1: "errs s1 = errs s + bad" "fst s1 = fst s" using report_errors by (simp_all add: s1_def)
  define ex where "ex = existing_roles ''token'' (fst s)"
  define cg where "cg = (\<lambda>t. fold (\<lambda>r. savepoint ''DROP ROLE'' (\<lambda>p. p\<lparr>token_roles_dropped := token_roles_dropped p + 1\<rparr>)
                      (\<lambda>d. Inr (drop_role_if_present r d)))
                (filter (\<lambda>r. r \<notin> set (map fst live)) ex)
      (fold (\<lambda>r. savepoint ''CREATE ROLE'' (\<lambda>p. p\<lparr>token_roles_created := token_roles_created p + 1\<rparr>)
                      (\<lambda>d. Inr (create_role_if_missing r d)))
                (filter (\<lambda>r. r \<notin> set ex) (map fst live)) t))"
  define mg where "mg = (\<lambda>e :: db. fold (\<lambda>(role, uid, scope).
      reconcile_token_memberships (token_group_memberships e role) role uid scope) live)"
  have run: "reconcile_token_roles s = mg (fst (cg s1)) (cg s1)"
    by (simp add: reconcile_token_roles_def lb s1_def [symmetric] Let_def cg_def mg_def ex_def s1(2))
  have c: "step_ok cg (\<lambda>d. rbind (fold_res (\<lambda>r d. Inr (create_role_if_missing r d))
               (filter (\<lambda>r. r \<notin> set ex) (map fst live)) d)
             (fold_res (\<lambda>r d. Inr (drop_role_if_present r d)) (filter (\<lambda>r. r \<notin> set (map fst live)) ex)))"
    unfolding cg_def by (intro step_ok_comp step_ok_fold step_ok_savepoint) simp_all
  have m: "step_ok (mg e) (fold_res (\<lambda>(role, uid, scope).
      token_membership_step (token_group_memberships e role) role uid scope) live)" for e
    unfolding mg_def by (rule step_ok_fold) (simp add: step_ok_token_membership split: prod.split)
  note le = step_okD(1) [OF c, of s1] step_okD(1) [OF m, of "cg s1" "fst (cg s1)"]
  show "errs s \<le> errs (reconcile_token_roles s)" using le s1 run by simp
  assume "errs (reconcile_token_roles s) = errs s"
  then have "bad = 0" and "errs (cg s1) = errs s1" and "errs (mg (fst (cg s1)) (cg s1)) = errs (cg s1)"
    using le s1 run by simp_all
  then show "token_pass (fst s) = Inr (fst (reconcile_token_roles s)) \<and>
      snd (live_scopes (locked_live_scoped_tokens None None (fst s))) = 0"
    using step_okD(2) [OF c, of s1] step_okD(2) [OF m, of "fst (cg s1)" "cg s1"] s1(2) run
    by (simp add: token_pass_def lb ex_def Let_def)
qed

lemma live_scopes_all:
  "snd (live_scopes ts) = 0 \<Longrightarrow> \<forall>t\<in>set ts. t_scope t \<noteq> None \<Longrightarrow>
   set (map fst (fst (live_scopes ts))) = token_role_name ` t_id ` set ts"
proof (induction ts)
  case (Cons t ts)
  obtain live bad where lb: "live_scopes ts = (live, bad)" by (cases "live_scopes ts")
  have "from_db_json (t_scope t) \<noteq> Inr None"
    using Cons.prems(2) by (auto simp: from_db_json_def split: option.splits json.splits)
  with Cons lb show ?case by (auto split: sum.splits option.splits)
qed simp

lemma token_membership_effect:
  assumes "token_membership_step have1 role uid scope d = Inr d'"
  shows "roles d' = roles d" and "pg_privs d' = pg_privs d" and "quiet d d'"
    and "m \<noteq> role \<Longrightarrow> (g, m) \<in> members d' \<longleftrightarrow> (g, m) \<in> members d"
proof -
  from assms obtain ws d1 where g: "fold_res (\<lambda>g. grant_membership g role) ws d = Inr d1"
    and r: "fold_res (\<lambda>g. revoke_membership_strict g role) (filter (\<lambda>g. g \<notin> set ws) have1) d1 = Inr d'"
    by (auto simp: token_membership_step_def rbind_Inr_iff)
  show "roles d' = roles d" and "pg_privs d' = pg_privs d" and "quiet d d'"
    using sync_member_effect [OF g r] by simp_all
  show "m \<noteq> role \<Longrightarrow> (g, m) \<in> members d' \<longleftrightarrow> (g, m) \<in> members d"
    using pg.grant_all [OF g] pg.revoke_all [OF r] by auto
qed

lemma token_pass_effect:
  assumes "token_pass d = Inr d'" and "snd (live_scopes (locked_live_scoped_tokens None None d)) = 0"
  shows "quiet d d'" and "roles d' \<inter> range token_role_name =
      token_role_name ` t_id ` {t \<in> set (tokens d). token_live d t}"
    and "roles d' - range token_role_name = roles d - range token_role_name"
    and "g \<notin> range token_role_name \<Longrightarrow> m \<notin> range token_role_name \<Longrightarrow> (g, m) \<in> members d' \<longleftrightarrow> (g, m) \<in> members d"
    and "q \<notin> range token_role_name \<Longrightarrow> (q, t, p) \<in> set (pg_privs d') \<longleftrightarrow> (q, t, p) \<in> set (pg_privs d)"
proof -
  let ?ts = "locked_live_scoped_tokens None None d"
  define live where "live = fst (live_scopes ?ts)"
  from assms(1) obtain d1 d2 where
    c: "fold_res (\<lambda>r d. Inr (create_role_if_missing r d))
               (filter (\<lambda>r. r \<notin> set (existing_roles ''token'' d)) (map fst live)) d = (Inr d1 :: db result)"
    and x: "fold_res (\<lambda>r d. Inr (drop_role_if_present r d))
               (filter (\<lambda>r. r \<notin> set (map fst live)) (existing_roles ''token'' d)) d1 = (Inr d2 :: db result)"
    and m: "fold_res (\<lambda>(role, uid, scope). token_membership_step (token_group_memberships d2 role) role uid scope)
               live d2 = Inr d'"
    by (auto simp: token_pass_def Let_def rbind_Inr_iff live_def)
  have ts: "set ?ts = {t \<in> set (tokens d). token_live d t}" by (simp add: locked_live_scoped_tokens_def)
  have W: "set (map fst live) = token_role_name ` t_id ` {t \<in> set (tokens d). token_live d t}"
    unfolding live_def ts [symmetric] by (rule live_scopes_all) (use assms(2) ts in \<open>auto simp: token_live_def\<close>)
  then have Wr: "set (map fst live) \<subseteq> range token_role_name" by auto
  note ce = creates_effect [OF c] and xe = drops_effect [OF x]
  have me: "roles d' = roles d2 \<and> pg_privs d' = pg_privs d2 \<and> quiet d2 d' \<and>
      (\<forall>g m. m \<notin> set (map fst live) \<longrightarrow> ((g, m) \<in> members d' \<longleftrightarrow> (g, m) \<in> members d2))"
  proof (rule fold_res_invariant [OF m])
    fix y s s'
    assume y: "y \<in> set live" and i: "roles s = roles d2 \<and> pg_privs s = pg_privs d2 \<and> quiet d2 s \<and>
        (\<forall>g m. m \<notin> set (map fst live) \<longrightarrow> ((g, m) \<in> members s \<longleftrightarrow> (g, m) \<in> members d2))"
      and st: "(case y of (role, uid, scope) \<Rightarrow>
          token_membership_step (token_group_memberships d2 role) role uid scope) s = Inr s'"
    obtain role uid scope where yy: "y = (role, uid, scope)" by (cases y) auto
    then have ri: "role \<in> set (map fst live)" using y by force
    from st yy have "token_membership_step (token_group_memberships d2 role) role uid scope s = Inr s'" by simp
    note e = token_membership_effect [OF this]
    have "quiet d2 s'" using i e(3) quiet_trans by blast
    then show "roles s' = roles d2 \<and> pg_privs s' = pg_privs d2 \<and> quiet d2 s' \<and>
        (\<forall>g m. m \<notin> set (map fst live) \<longrightarrow> ((g, m) \<in> members s' \<longleftrightarrow> (g, m) \<in> members d2))"
      using i e(1,2,4) ri by metis
  qed simp
  have "quiet d d1" and "quiet d1 d2" and "quiet d2 d'" using ce xe me by simp_all
  then show "quiet d d'" using quiet_trans by blast
  have rl: "roles d' = (roles d \<union> set (map fst live))
      - {r \<in> roles d \<inter> range token_role_name. r \<notin> set (map fst live)}"
    using ce xe me by (auto simp: existing_token_roles)
  show "roles d' \<inter> range token_role_name = token_role_name ` t_id ` {t \<in> set (tokens d). token_live d t}"
    unfolding W [symmetric] using rl Wr by blast
  show "roles d' - range token_role_name = roles d - range token_role_name" using rl Wr by auto
  show "(g, m) \<in> members d' \<longleftrightarrow> (g, m) \<in> members d" if "g \<notin> range token_role_name" "m \<notin> range token_role_name"
  proof -
    have "m \<notin> set (map fst live)" using that(2) Wr by blast
    then have "(g, m) \<in> members d' \<longleftrightarrow> (g, m) \<in> members d2" using me by blast
    also have "\<dots> \<longleftrightarrow> (g, m) \<in> members d1" using xe that by (simp add: existing_token_roles)
    finally show ?thesis using ce by simp
  qed
  show "(q, t, p) \<in> set (pg_privs d') \<longleftrightarrow> (q, t, p) \<in> set (pg_privs d)" if "q \<notin> range token_role_name"
    using that ce xe me by (auto simp: existing_token_roles)
qed

section \<open>Convergence\<close>

text \<open>The chain of error-free passes behind a run that reports nothing.\<close>

lemma clean_run_passes:
  assumes "reconcile_from_catalog d = Inr (d', rep)" and "errors rep = []"
  obtains d1 d2 d3 d4 d5 where
    "user_pass (create_role_if_missing AUTHENTICATED_ROLE d) = Inr d1" "vault_pass d1 = Inr d2"
    "member_pass d2 = Inr d3" "fold_res table_step (table_rows d3) d3 = Inr d4"
    "fold_res (\<lambda>r. sync_public (v_id r) (public_access_scope (v_public r))) (vaults d4) d4 = Inr d5"
    "token_pass d5 = Inr d'" "snd (live_scopes (locked_live_scoped_tokens None None d5)) = 0"
proof -
  define s0 where "s0 = (create_role_if_missing AUTHENTICATED_ROLE d, empty_report)"
  define s1 where "s1 = reconcile_user_roles s0"
  define s2 where "s2 = reconcile_vault_roles s1"
  from assms(1) obtain s3 where s3: "reconcile_memberships s2 = Inr s3"
    and fin: "reconcile_token_roles (reconcile_public_access (reconcile_table_grants s3)) = (d', rep)"
    by (auto simp: reconcile_from_catalog_def Let_def rbind_Inr_iff s0_def [symmetric] s1_def [symmetric] s2_def [symmetric])
  define s4 where "s4 = reconcile_table_grants s3"
  define s5 where "s5 = reconcile_public_access s4"
  have s6: "reconcile_token_roles s5 = (d', rep)" using fin by (simp add: s5_def s4_def)
  have e6: "errs (reconcile_token_roles s5) = 0" and e0: "errs s0 = 0"
    using s6 assms(2) by (simp_all add: errs_def s0_def empty_report_def)
  have le: "errs s0 \<le> errs s1" "errs s1 \<le> errs s2" "errs s2 \<le> errs s3" "errs s3 \<le> errs s4"
    "errs s4 \<le> errs s5" "errs s5 \<le> errs (reconcile_token_roles s5)"
    using step_okD(1) [OF step_ok_user_pass] step_okD(1) [OF step_ok_vault_pass] member_pass_of_run(1) [OF s3]
      step_okD(1) [OF step_ok_tables] step_okD(1) [OF step_ok_public] token_pass_of_run(1)
    by (simp_all add: s1_def s2_def s4_def s5_def)
  then have eq: "errs s1 = errs s0" "errs s2 = errs s1" "errs s3 = errs s2" "errs s4 = errs s3"
    "errs s5 = errs s4" "errs (reconcile_token_roles s5) = errs s5"
    using e6 e0 by simp_all
  show thesis
  proof (rule that)
    show "user_pass (create_role_if_missing AUTHENTICATED_ROLE d) = Inr (fst s1)"
      using step_okD(2) [OF step_ok_user_pass, of s0] eq(1) by (simp add: s1_def s0_def)
    show "vault_pass (fst s1) = Inr (fst s2)" using step_okD(2) [OF step_ok_vault_pass] eq(2) by (simp add: s2_def)
    show "member_pass (fst s2) = Inr (fst s3)" using member_pass_of_run(2) [OF s3] eq(3) by simp
    show "fold_res table_step (table_rows (fst s3)) (fst s3) = Inr (fst s4)"
      using step_okD(2) [OF step_ok_tables] eq(4) by (simp add: s4_def)
    show "fold_res (\<lambda>r. sync_public (v_id r) (public_access_scope (v_public r))) (vaults (fst s4)) (fst s4)
        = Inr (fst s5)"
      using step_okD(2) [OF step_ok_public] eq(5) by (simp add: s5_def)
    show "token_pass (fst s5) = Inr d'" and "snd (live_scopes (locked_live_scoped_tokens None None (fst s5))) = 0"
      using token_pass_of_run(2) [OF eq(6)] s6 by simp_all
  qed
qed

lemma is_clean_iff:
  "is_clean x \<longleftrightarrow> missing_user_roles x = [] \<and> orphan_user_roles x = [] \<and> missing_vault_roles x = [] \<and>
     orphan_vault_roles x = [] \<and> missing_token_roles x = [] \<and> orphan_token_roles x = [] \<and>
     missing_memberships x = [] \<and> stale_memberships x = [] \<and> invalid_membership_options x = [] \<and>
     missing_public_grants x = [] \<and> stale_public_grants x = [] \<and> missing_table_grants x = [] \<and>
     \<not> authenticated_role_missing x \<and> users_not_in_authenticated x = []"
  by (auto simp: is_clean_def drift_count_def split: if_splits)

lemma minus_sorted_Nil [simp]: "minus_sorted xs ys = [] \<longleftrightarrow> set xs \<subseteq> set ys"
  by (auto simp: minus_sorted_def filter_empty_conv simp flip: set_empty)

lemma sorted_diff_Nil [simp]: "sorted_diff xs ys = [] \<longleftrightarrow> set xs \<subseteq> set ys"
  by (auto simp: sorted_diff_def filter_empty_conv simp flip: set_empty)

text \<open>What the diff reads, and when it is clean.\<close>

lemma diff_clean:
  assumes "desired_user_memberships d = Inr des"
    and "roles d \<inter> range user_role_name = set (wanted_user_roles d)"
    and "roles d \<inter> group_names = set (wanted_vault_roles d)"
    and "roles d \<inter> range token_role_name = token_role_name ` t_id ` {t \<in> set (tokens d). token_live d t}"
    and "members d \<inter> managed_pairs d = fst ` set des" and "fst ` set des \<inter> bad_options d = {}"
    and "\<forall>g\<in>group_names. (g, AUTHENTICATED_ROLE) \<in> members d \<longleftrightarrow> g \<in> set (wanted_public_grants d)"
    and "set (wanted_public_grants d) \<subseteq> group_names" and "diff_table_grants d = []"
    and "AUTHENTICATED_ROLE \<in> roles d"
    and "\<forall>r\<in>set (wanted_user_roles d). (AUTHENTICATED_ROLE, r) \<in> members d"
  shows "\<exists>x. diff_against_catalog d = Inr x \<and> is_clean x"
proof -
  have pub: "set (actual_public_grants d) = {g \<in> group_names. (g, AUTHENTICATED_ROLE) \<in> members d}"
    using vault_groups_eq by (auto simp: actual_public_grants_def members_def vault_groups_def)
  have act: "set (map fst (actual_user_memberships d)) = fst ` set des"
    using assms(5) actual_keys [of d] by simp
  have opts: "filter (\<lambda>gm. \<not> membership_options_valid d (fst gm) (snd gm))
      (sorted_common (map fst des) (map fst (actual_user_memberships d))) = []"
    using assms(6) by (auto simp: filter_empty_conv bad_options_def)
  have live: "set (map (token_role_name \<circ> t_id) (filter (token_live d) (tokens d))) =
      set (existing_roles ''token'' d)"
    using assms(4) by (auto simp: existing_token_roles image_comp)
  have mem: "set (wanted_user_roles d) \<subseteq> e_member ` {e \<in> set (pg_edges d). e_group e = AUTHENTICATED_ROLE}"
    using assms(11) by (force simp: members_def)
  show ?thesis
    using assms(1,2,3,7-10) pub act opts live mem
    by (auto simp: diff_against_catalog_def Let_def is_clean_iff existing_user_roles existing_vault_roles
        filter_empty_conv roles_def)
qed

lemma set_wanted_public_grants:
  "g \<in> set (wanted_public_grants d) \<longleftrightarrow>
     (\<exists>v\<in>set (vaults d). \<exists>s. public_access_scope (v_public v) = Some s \<and> g = group_name (v_id v) s)"
proof
  assume "g \<in> set (wanted_public_grants d)"
  then show "\<exists>v\<in>set (vaults d). \<exists>s. public_access_scope (v_public v) = Some s \<and> g = group_name (v_id v) s"
    by (auto simp: wanted_public_grants_def split: option.split_asm)
next
  assume "\<exists>v\<in>set (vaults d). \<exists>s. public_access_scope (v_public v) = Some s \<and> g = group_name (v_id v) s"
  then obtain v s where "v \<in> set (vaults d)" "public_access_scope (v_public v) = Some s" "g = group_name (v_id v) s"
    by blast
  then show "g \<in> set (wanted_public_grants d)"
    unfolding wanted_public_grants_def by (auto intro!: bexI [of _ v])
qed

lemma wanted_public_sub: "set (wanted_public_grants d) \<subseteq> group_names"
proof
  fix g assume "g \<in> set (wanted_public_grants d)"
  then obtain v :: vault_row and s where "public_access_scope (v_public v) = Some s" and g: "g = group_name (v_id v) s"
    unfolding set_wanted_public_grants by blast
  then have "s \<in> set SCOPES" using public_access_scope_SCOPES [of "v_public v"] by auto
  with g show "g \<in> group_names" by (auto simp: group_names_def)
qed

lemma wanted_public_at:
  assumes "unique_by v_id (vaults d)" and "r \<in> set (vaults d)"
  shows "group_name (v_id r) s \<in> set (wanted_public_grants d) \<longleftrightarrow> public_access_scope (v_public r) = Some s"
proof
  assume "group_name (v_id r) s \<in> set (wanted_public_grants d)"
  then obtain v where "v \<in> set (vaults d)" "public_access_scope (v_public v) = Some s" "v_id v = v_id r"
    by (auto simp: set_wanted_public_grants)
  moreover from this have "v = r" using unique_by_key_eq [OF assms(1) _ assms(2)] by blast
  ultimately show "public_access_scope (v_public r) = Some s" by simp
next
  assume "public_access_scope (v_public r) = Some s"
  with assms(2) show "group_name (v_id r) s \<in> set (wanted_public_grants d)"
    unfolding set_wanted_public_grants by blast
qed

section \<open>The passes of a run without errors\<close>

definition clean_passes :: "db \<Rightarrow> db \<Rightarrow> db \<Rightarrow> db \<Rightarrow> db \<Rightarrow> db \<Rightarrow> db \<Rightarrow> bool" where
  "clean_passes d d1 d2 d3 d4 d5 d' \<longleftrightarrow>
     user_pass (create_role_if_missing AUTHENTICATED_ROLE d) = Inr d1 \<and> vault_pass d1 = Inr d2
     \<and> member_pass d2 = Inr d3 \<and> fold_res table_step (table_rows d3) d3 = Inr d4
     \<and> fold_res (\<lambda>r. sync_public (v_id r) (public_access_scope (v_public r))) (vaults d4) d4 = Inr d5
     \<and> token_pass d5 = Inr d' \<and> snd (live_scopes (locked_live_scoped_tokens None None d5)) = 0
     \<and> fk_ok d \<and> pg_ok d \<and> unique_by v_id (vaults d)"

lemma wanted_catalog:
  assumes "catalog e = catalog d"
  shows "wanted_user_roles e = wanted_user_roles d" "wanted_vault_roles e = wanted_vault_roles d"
    "wanted_public_grants e = wanted_public_grants d" "managed_pairs e = managed_pairs d" "table_rows e = table_rows d"
  using catalogD [OF assms] managed_catalog [OF assms]
  by (simp_all add: wanted_user_roles_def wanted_vault_roles_def wanted_public_grants_def table_rows_def)

text \<open>Each pass leaves the catalog alone, so it meets the precondition of the next.\<close>

lemma clean_users:
  assumes "clean_passes d d1 d2 d3 d4 d5 d'"
  shows "quiet (create_role_if_missing AUTHENTICATED_ROLE d) d1" "catalog d1 = catalog d"
    "roles d1 \<inter> range user_role_name = set (wanted_user_roles d)"
    "roles d1 - range user_role_name = roles (create_role_if_missing AUTHENTICATED_ROLE d) - range user_role_name"
    "r \<in> set (wanted_user_roles d) \<Longrightarrow> (AUTHENTICATED_ROLE, r) \<in> members d1"
    "owner_roles d1 \<subseteq> roles d1"
proof -
  let ?d0 = "create_role_if_missing AUTHENTICATED_ROLE d"
  have p: "user_pass ?d0 = Inr d1" using assms by (simp add: clean_passes_def)
  have w0: "wanted_user_roles ?d0 = wanted_user_roles d"
    using catalogD(1) [of ?d0 d] by (simp add: wanted_user_roles_def)
  note e1 = user_pass_effect [OF p, unfolded w0]
  show c1: "catalog d1 = catalog d" using e1(1) by (simp add: quiet_def)
  show "quiet ?d0 d1" "roles d1 \<inter> range user_role_name = set (wanted_user_roles d)"
    "roles d1 - range user_role_name = roles ?d0 - range user_role_name"
    "r \<in> set (wanted_user_roles d) \<Longrightarrow> (AUTHENTICATED_ROLE, r) \<in> members d1" using e1 by simp_all
  have "owner_roles d1 \<subseteq> set (wanted_user_roles d)"
    using assms catalogD [OF c1]
    by (force simp: clean_passes_def owner_roles_def fk_ok_def set_wanted_user_roles split: option.splits)
  then show "owner_roles d1 \<subseteq> roles d1" using e1(2) by auto
qed

lemma clean_vaults:
  assumes "clean_passes d d1 d2 d3 d4 d5 d'"
  shows "quiet d1 d2" "catalog d2 = catalog d" "roles d2 \<inter> group_names = set (wanted_vault_roles d)"
    "roles d2 - group_names = roles d1 - group_names"
    "(g, m) \<in> members d1 \<Longrightarrow> g \<notin> group_names \<Longrightarrow> m \<notin> group_names \<Longrightarrow> (g, m) \<in> members d2"
proof -
  have p: "vault_pass d1 = Inr d2" using assms by (simp add: clean_passes_def)
  note e2 = vault_pass_effect [OF p clean_users(6) [OF assms]]
  show "quiet d1 d2" "catalog d2 = catalog d" using e2(1) clean_users(2) [OF assms] by (simp_all add: quiet_def)
  show "roles d2 \<inter> group_names = set (wanted_vault_roles d)"
    using e2(2) wanted_catalog(2) [OF clean_users(2) [OF assms]] by simp
  show "roles d2 - group_names = roles d1 - group_names"
    "(g, m) \<in> members d1 \<Longrightarrow> g \<notin> group_names \<Longrightarrow> m \<notin> group_names \<Longrightarrow> (g, m) \<in> members d2" using e2(3, 4) by blast+
qed

lemma clean_members:
  assumes "clean_passes d d1 d2 d3 d4 d5 d'"
  shows "quiet d2 d3" "catalog d3 = catalog d" "roles d3 = roles d2"
    "\<exists>des. desired_user_memberships d2 = Inr des \<and> members d3 \<inter> managed_pairs d = fst ` set des
       \<and> fst ` set des \<inter> bad_options d3 = {}"
    "members d3 - managed_pairs d = members d2 - managed_pairs d"
proof -
  note c2 = clean_vaults(2) [OF assms]
  have p: "member_pass d2 = Inr d3" using assms by (simp add: clean_passes_def)
  have "fk_ok d2" using assms unfolding clean_passes_def fk_ok_def catalogD [OF c2] by simp
  note e3 = member_pass_effect [OF p this, unfolded wanted_catalog(4) [OF c2]]
  show "quiet d2 d3" "catalog d3 = catalog d" using e3(1) c2 by (simp_all add: quiet_def)
  show "roles d3 = roles d2" by (rule e3(2))
  show "\<exists>des. desired_user_memberships d2 = Inr des \<and> members d3 \<inter> managed_pairs d = fst ` set des
       \<and> fst ` set des \<inter> bad_options d3 = {}"
    "members d3 - managed_pairs d = members d2 - managed_pairs d" by (rule e3(3), rule e3(4))
qed

lemma clean_tables:
  assumes "clean_passes d d1 d2 d3 d4 d5 d'"
  shows "quiet d3 d4" "catalog d4 = catalog d" "roles d4 = roles d2" "members d4 = members d3"
    "(vid, name, vn) \<in> set (table_rows d) \<Longrightarrow> missing_privs d4 vid (pg_table_name vn name) = []"
proof -
  note c3 = clean_members(2) [OF assms]
  have p: "fold_res table_step (table_rows d3) d3 = Inr d4" using assms by (simp add: clean_passes_def)
  note e4 = table_pass_effect [OF p, unfolded wanted_catalog(5) [OF c3]]
  show "quiet d3 d4" "catalog d4 = catalog d" "roles d4 = roles d2" "members d4 = members d3"
    using e4 c3 clean_members(3) [OF assms] by (simp_all add: quiet_def)
  show "(vid, name, vn) \<in> set (table_rows d) \<Longrightarrow> missing_privs d4 vid (pg_table_name vn name) = []"
    using e4 by auto
qed

lemma clean_publics:
  assumes "clean_passes d d1 d2 d3 d4 d5 d'"
  shows "quiet d4 d5" "catalog d5 = catalog d" "roles d5 = roles d2" "pg_privs d5 = pg_privs d4"
    "m \<noteq> AUTHENTICATED_ROLE \<Longrightarrow> (g, m) \<in> members d5 \<longleftrightarrow> (g, m) \<in> members d3"
    "r \<in> set (vaults d) \<Longrightarrow> s \<in> set SCOPES \<Longrightarrow>
       (group_name (v_id r) s, AUTHENTICATED_ROLE) \<in> members d5 \<longleftrightarrow> public_access_scope (v_public r) = Some s"
proof -
  note c4 = clean_tables(2) [OF assms]
  have p: "fold_res (\<lambda>r. sync_public (v_id r) (public_access_scope (v_public r))) (vaults d) d4 = Inr d5"
    using assms catalogD(2) [OF c4] by (simp add: clean_passes_def)
  have "distinct (map v_id (vaults d))" using assms by (simp add: clean_passes_def unique_by_def)
  note e5 = public_pass_effect [OF p this]
  show "quiet d4 d5" "catalog d5 = catalog d" "roles d5 = roles d2" "pg_privs d5 = pg_privs d4"
    using e5 c4 clean_tables(3) [OF assms] by (simp_all add: quiet_def)
  show "m \<noteq> AUTHENTICATED_ROLE \<Longrightarrow> (g, m) \<in> members d5 \<longleftrightarrow> (g, m) \<in> members d3"
    using e5 clean_tables(4) [OF assms] by metis
  show "r \<in> set (vaults d) \<Longrightarrow> s \<in> set SCOPES \<Longrightarrow>
       (group_name (v_id r) s, AUTHENTICATED_ROLE) \<in> members d5 \<longleftrightarrow> public_access_scope (v_public r) = Some s"
    using e5 by blast
qed

lemma clean_tokens:
  assumes "clean_passes d d1 d2 d3 d4 d5 d'"
  shows "catalog d' = catalog d" "quiet d3 d'" "pg_ok d'"
    "roles d' \<inter> range token_role_name = token_role_name ` t_id ` {t \<in> set (tokens d'). token_live d' t}"
    "x \<notin> range token_role_name \<Longrightarrow> x \<in> roles d' \<longleftrightarrow> x \<in> roles d2"
    "g \<notin> range token_role_name \<Longrightarrow> m \<notin> range token_role_name \<Longrightarrow> (g, m) \<in> members d' \<longleftrightarrow> (g, m) \<in> members d5"
    "q \<notin> range token_role_name \<Longrightarrow> (q, t, p) \<in> set (pg_privs d') \<longleftrightarrow> (q, t, p) \<in> set (pg_privs d5)"
proof -
  note c5 = clean_publics(2) [OF assms]
  have p: "token_pass d5 = Inr d'" "snd (live_scopes (locked_live_scoped_tokens None None d5)) = 0"
    using assms by (simp_all add: clean_passes_def)
  note e6 = token_pass_effect [OF p]
  show c6: "catalog d' = catalog d" using e6(1) c5 by (simp add: quiet_def)
  show q36: "quiet d3 d'" using e6(1) clean_tables(1) [OF assms] clean_publics(1) [OF assms] quiet_trans by blast
  have "quiet d1 d'" using clean_vaults(1) [OF assms] clean_members(1) [OF assms] q36 quiet_trans by blast
  moreover have "pg_ok d1" using clean_users(1) [OF assms] assms create_effect(4) [of d AUTHENTICATED_ROLE]
    by (simp add: quiet_def clean_passes_def)
  ultimately show "pg_ok d'" by (simp add: quiet_def)
  have c56: "catalog d' = catalog d5" using c5 c6 by simp
  have "token_live d' t = token_live d5 t" for t unfolding token_live_def catalogD [OF c56] ..
  then show "roles d' \<inter> range token_role_name = token_role_name ` t_id ` {t \<in> set (tokens d'). token_live d' t}"
    using e6(2) catalogD(4) [OF c56] by simp
  show "x \<notin> range token_role_name \<Longrightarrow> x \<in> roles d' \<longleftrightarrow> x \<in> roles d2"
    using e6(3) clean_publics(3) [OF assms] by blast
  show "g \<notin> range token_role_name \<Longrightarrow> m \<notin> range token_role_name \<Longrightarrow> (g, m) \<in> members d' \<longleftrightarrow> (g, m) \<in> members d5"
    "q \<notin> range token_role_name \<Longrightarrow> (q, t, p) \<in> set (pg_privs d') \<longleftrightarrow> (q, t, p) \<in> set (pg_privs d5)"
    using e6(4, 5) by blast+
qed

text \<open>What the run leaves, part by part of the diff.\<close>

lemma not_token_role:
  "x \<in> range user_role_name \<or> x \<in> group_names \<or> x = AUTHENTICATED_ROLE \<Longrightarrow> x \<notin> range token_role_name"
  by auto

lemma clean_run_roles:
  assumes "clean_passes d d1 d2 d3 d4 d5 d'"
  shows "roles d' \<inter> range user_role_name = set (wanted_user_roles d')"
    "roles d' \<inter> group_names = set (wanted_vault_roles d')" "AUTHENTICATED_ROLE \<in> roles d'"
proof -
  note w = wanted_catalog [OF clean_tokens(1) [OF assms]]
  have to1: "x \<in> roles d' \<longleftrightarrow> x \<in> roles d1" if "x \<notin> group_names" "x \<in> range user_role_name \<or> x = AUTHENTICATED_ROLE" for x
    using clean_tokens(5) [OF assms] not_token_role that clean_vaults(4) [OF assms] by blast
  have "x \<in> roles d' \<longleftrightarrow> x \<in> roles d1" if "x \<in> range user_role_name" for x using to1 that by auto
  then have "roles d' \<inter> range user_role_name = roles d1 \<inter> range user_role_name" by blast
  then show "roles d' \<inter> range user_role_name = set (wanted_user_roles d')"
    using clean_users(3) [OF assms] w(1) by simp
  have "x \<in> roles d' \<longleftrightarrow> x \<in> roles d2" if "x \<in> group_names" for x
    using clean_tokens(5) [OF assms] not_token_role that by blast
  then have "roles d' \<inter> group_names = roles d2 \<inter> group_names" by blast
  then show "roles d' \<inter> group_names = set (wanted_vault_roles d')" using clean_vaults(3) [OF assms] w(2) by simp
  have "AUTHENTICATED_ROLE \<in> roles (create_role_if_missing AUTHENTICATED_ROLE d)" by (simp add: create_effect(1))
  moreover have "AUTHENTICATED_ROLE \<notin> range user_role_name" by auto
  ultimately have "AUTHENTICATED_ROLE \<in> roles d1" using clean_users(4) [OF assms] by blast
  then show "AUTHENTICATED_ROLE \<in> roles d'" using to1 [of AUTHENTICATED_ROLE] by simp
qed

lemma clean_run_wildcard:
  assumes "clean_passes d d1 d2 d3 d4 d5 d'" and "r \<in> set (wanted_user_roles d')"
  shows "(AUTHENTICATED_ROLE, r) \<in> members d'"
proof -
  have r1: "r \<in> set (wanted_user_roles d)"
    using assms(2) wanted_catalog(1) [OF clean_tokens(1) [OF assms(1)]] by simp
  then have "r \<in> range user_role_name" by (auto simp: set_wanted_user_roles)
  then have ng: "r \<notin> group_names" and nt: "r \<notin> range token_role_name" and na: "r \<noteq> AUTHENTICATED_ROLE" by auto
  have "(AUTHENTICATED_ROLE, r) \<in> members d2"
    using clean_users(5) [OF assms(1) r1] clean_vaults(5) [OF assms(1)] ng by simp
  moreover have "(AUTHENTICATED_ROLE, r) \<notin> managed_pairs d"
    using wanted_vault_sub [of d] by (auto simp: managed_pairs_def)
  ultimately have "(AUTHENTICATED_ROLE, r) \<in> members d3" using clean_members(5) [OF assms(1)] by blast
  then have "(AUTHENTICATED_ROLE, r) \<in> members d5" using clean_publics(5) [OF assms(1) na] by simp
  moreover have "AUTHENTICATED_ROLE \<notin> range token_role_name" by auto
  ultimately show ?thesis using clean_tokens(6) [OF assms(1) _ nt] by simp
qed

lemma clean_run_memberships:
  assumes "clean_passes d d1 d2 d3 d4 d5 d'"
  shows "\<exists>des. desired_user_memberships d' = Inr des \<and> members d' \<inter> managed_pairs d' = fst ` set des
     \<and> fst ` set des \<inter> bad_options d' = {}"
proof -
  from clean_members(4) [OF assms] obtain des where des: "desired_user_memberships d2 = Inr des"
    "members d3 \<inter> managed_pairs d = fst ` set des" "fst ` set des \<inter> bad_options d3 = {}" by blast
  have "(g, m) \<in> members d' \<longleftrightarrow> (g, m) \<in> members d3" if "(g, m) \<in> managed_pairs d" for g m
  proof -
    have gm: "g \<in> group_names" "m \<in> range user_role_name"
      using that wanted_vault_sub [of d] by (auto simp: managed_pairs_def set_wanted_user_roles)
    then have "m \<noteq> AUTHENTICATED_ROLE" by auto
    then have "(g, m) \<in> members d5 \<longleftrightarrow> (g, m) \<in> members d3" by (rule clean_publics(5) [OF assms])
    moreover have "g \<notin> range token_role_name" "m \<notin> range token_role_name"
      using gm not_token_role by blast+
    ultimately show ?thesis using clean_tokens(6) [OF assms] by simp
  qed
  then have "members d' \<inter> managed_pairs d = members d3 \<inter> managed_pairs d" by auto
  then have "members d' \<inter> managed_pairs d' = fst ` set des"
    using des(2) wanted_catalog(4) [OF clean_tokens(1) [OF assms]] by simp
  moreover have "desired_user_memberships d' = Inr des"
    using des(1) desired_catalog [of d' d2] clean_vaults(2) [OF assms] clean_tokens(1) [OF assms] by simp
  moreover have "bad_options d' \<subseteq> bad_options d3" using clean_tokens(2) [OF assms] by (simp add: quiet_def)
  ultimately show ?thesis using des(3) by blast
qed

lemma clean_run_public:
  assumes "clean_passes d d1 d2 d3 d4 d5 d'" and "g \<in> group_names"
  shows "(g, AUTHENTICATED_ROLE) \<in> members d' \<longleftrightarrow> g \<in> set (wanted_public_grants d')"
proof -
  from assms(2) obtain v s where g: "g = group_name v s" "s \<in> set SCOPES" by (auto simp: group_names_def)
  note v = catalogD(2) [OF clean_tokens(1) [OF assms(1)]]
  have five: "(g, AUTHENTICATED_ROLE) \<in> members d' \<longleftrightarrow> (g, AUTHENTICATED_ROLE) \<in> members d5"
    using clean_tokens(6) [OF assms(1)] not_token_role assms(2) by blast
  show ?thesis
  proof (cases "\<exists>r\<in>set (vaults d). v_id r = v")
    case True
    then obtain r where r: "r \<in> set (vaults d)" "v_id r = v" by blast
    have "unique_by v_id (vaults d')" "r \<in> set (vaults d')" using assms(1) r(1) v by (simp_all add: clean_passes_def)
    then show ?thesis
      using five clean_publics(6) [OF assms(1) r(1) g(2)] wanted_public_at [of d' r s] r(2) g by simp
  next
    case False
    have "(g, AUTHENTICATED_ROLE) \<notin> members d'"
    proof
      assume "(g, AUTHENTICATED_ROLE) \<in> members d'"
      then have "g \<in> roles d'" using clean_tokens(3) [OF assms(1)] by (auto simp: pg_ok_def)
      then have "g \<in> set (wanted_vault_roles d')" using clean_run_roles(2) [OF assms(1)] assms(2) by blast
      then show False using False g v by (auto simp: set_wanted_vault_roles)
    qed
    moreover have "g \<notin> set (wanted_public_grants d')" using False g v by (auto simp: set_wanted_public_grants)
    ultimately show ?thesis by simp
  qed
qed

lemma clean_run_tables:
  assumes "clean_passes d d1 d2 d3 d4 d5 d'"
  shows "diff_table_grants d' = []"
proof -
  have "missing_privs d' vid (pg_table_name vn name) = []" if "(vid, name, vn) \<in> set (table_rows d')" for vid name vn
  proof (rule missing_privs_mono)
    show "missing_privs d4 vid (pg_table_name vn name) = []"
      using clean_tables(5) [OF assms] that wanted_catalog(5) [OF clean_tokens(1) [OF assms]] by simp
    show "(group_name vid s, pg_table_name vn name, p) \<in> set (pg_privs d')"
      if "(group_name vid s, pg_table_name vn name, p) \<in> set (pg_privs d4)" for s p
      using that clean_publics(4) [OF assms] clean_tokens(7) [OF assms, of "group_name vid s"] by simp
  qed
  then show ?thesis by (auto simp: diff_table_grants_def Let_def)
qed


section \<open>Witness\<close>

text \<open>
  A database whose roles were never projected: one user, who owns one private vault. The run creates
  the five roles and the four memberships.
\<close>

definition example_fresh :: "string list \<Rightarrow> (string \<times> string) list \<Rightarrow> db" where
  "example_fresh rs es = example_db\<lparr>users := take 1 (users example_db), tokens := [], access := [], contribs := [],
     pg_roles := rs, pg_edges := map (\<lambda>(g, m). \<lparr>e_group = g, e_member = m, e_grantor = ''akb'', e_admin = False,
       e_inherit = True, e_set = True\<rparr>) es\<rparr>"

lemma fresh_simps [simp]:
  "pg_roles (example_fresh rs es) = rs" "wanted_user_roles (example_fresh rs es) = [user_role_name 1]"
  "tokens (example_fresh rs es) = []" "access (example_fresh rs es) = []"
  "vaults (example_fresh rs es) = [\<lparr>v_id = 10, v_name = ''eng'', v_owner = Some 1, v_status = ''active'', v_public = ''none'',
          v_description = None\<rparr>]"
  "wanted_vault_roles (example_fresh rs es) = [group_name 10 ''reader'', group_name 10 ''writer'', group_name 10 ''admin'']"
  "table_rows (example_fresh rs es) = []"
  by (simp_all add: example_fresh_def example_db_def wanted_user_roles_def wanted_vault_roles_def SCOPES_def table_rows_def)

lemma fresh_create [simp]:
  "create_role_if_missing r (example_fresh rs es) = example_fresh (if r \<in> set rs then rs else rs @ [r]) es"
  by (simp add: create_role_if_missing_def example_fresh_def)

lemma fresh_direct [simp]: "has_direct_membership (example_fresh rs es) g m own \<longleftrightarrow> (g, m) \<in> set es"
proof -
  let ?e = "\<lambda>(g, m). \<lparr>e_group = g, e_member = m, e_grantor = ''akb'', e_admin = False, e_inherit = True, e_set = True\<rparr>"
  have "list_ex (\<lambda>e. e_group e = g \<and> e_member e = m \<and> (\<not> own \<or> e_grantor e = ''akb'')) (map ?e es) \<longleftrightarrow> (g, m) \<in> set es"
    by (induction es) auto
  then show ?thesis by (simp add: has_direct_membership_def example_fresh_def example_db_def)
qed

lemma fresh_valid [simp]: "membership_options_valid (example_fresh rs es) g m"
  by (auto simp: membership_options_valid_def example_fresh_def list_ex_iff)

lemma fresh_grant [simp]:
  "grant_membership g m (example_fresh rs es) =
     (if (g, m) \<in> set es then Inr (example_fresh rs es)
      else if g \<in> set rs \<and> m \<in> set rs then Inr (example_fresh rs (es @ [(g, m)])) else Inl (PgError ''undefined_object''))"
  by (auto simp: grant_membership_def pg_grant_def) (simp_all add: example_fresh_def example_db_def)

lemma name_prefixes [simp]:
  "starts_with (user_role_name u) ''akb_user_''" "\<not> starts_with (group_name v s) ''akb_user_''"
  "\<not> starts_with AUTHENTICATED_ROLE ''akb_vault_''" "\<not> starts_with AUTHENTICATED_ROLE ''akb_user_''"
  "\<not> starts_with AUTHENTICATED_ROLE ''akb_token_''" "\<not> starts_with (user_role_name u) ''akb_vault_''"
  "\<not> starts_with (user_role_name u) ''akb_token_''" "\<not> starts_with (group_name v s) ''akb_token_''"
  by (simp_all add: starts_with_iff user_role_name_def group_name_def AUTHENTICATED_ROLE_def)

abbreviation fresh_roles :: "string list" where
  "fresh_roles \<equiv> [AUTHENTICATED_ROLE, user_role_name 1, group_name 10 ''reader'', group_name 10 ''writer'',
   group_name 10 ''admin'']"
abbreviation fresh_edges :: "(string \<times> string) list" where
  "fresh_edges \<equiv> [(AUTHENTICATED_ROLE, user_role_name 1), (group_name 10 ''reader'', group_name 10 ''writer''),
   (group_name 10 ''writer'', group_name 10 ''admin''), (group_name 10 ''admin'', user_role_name 1)]"

lemma fresh_users_pass:
  "\<exists>rep. reconcile_user_roles (example_fresh [AUTHENTICATED_ROLE] [], empty_report) =
    (example_fresh [AUTHENTICATED_ROLE, user_role_name 1] [(AUTHENTICATED_ROLE, user_role_name 1)], rep) \<and> errors rep = []"
  by (simp add: reconcile_user_roles_def existing_roles_def savepoint_def empty_report_def)

lemma fresh_vaults_pass:
  "errors rep = [] \<Longrightarrow> \<exists>rep'. reconcile_vault_roles
      (example_fresh [AUTHENTICATED_ROLE, user_role_name 1] [(AUTHENTICATED_ROLE, user_role_name 1)], rep) =
    (example_fresh fresh_roles fresh_edges, rep') \<and> errors rep' = []"
  by (simp add: reconcile_vault_roles_def existing_roles_def savepoint_def reconcile_vault_hierarchy_def Let_def)

lemma fresh_members_pass:
  "errors rep = [] \<Longrightarrow> \<exists>rep'. reconcile_memberships (example_fresh fresh_roles fresh_edges, rep) =
    Inr (example_fresh fresh_roles fresh_edges, rep') \<and> errors rep' = []"
proof -
  let ?gm = "(group_name 10 ''admin'', user_role_name 1)"
  have e: "edge_info_of (group_name 10 ''admin'') (user_role_name 1) = Some (?gm, (10, 1, ''admin''))"
    by (rule edge_info_of_managed) (simp_all add: SCOPES_def)
  have d: "desired_user_memberships (example_fresh fresh_roles fresh_edges) = Inr [(?gm, (10, 1, ''admin''))]"
    by (simp add: desired_user_memberships_def owned_pairs_def)
  have a: "actual_user_memberships (example_fresh fresh_roles fresh_edges) = [(?gm, (10, 1, ''admin''))]"
    using e unfolding actual_user_memberships_def
    by (simp add: List.map_filter_def) (simp add: example_fresh_def)
  show "errors rep = [] \<Longrightarrow> \<exists>rep'. reconcile_memberships (example_fresh fresh_roles fresh_edges, rep) =
    Inr (example_fresh fresh_roles fresh_edges, rep') \<and> errors rep' = []"
    by (simp add: reconcile_memberships_def d a sorted_diff_def sorted_common_def savepoint_def)
qed

lemma fresh_rest:
  "errors rep = [] \<Longrightarrow> \<exists>rep'. reconcile_token_roles (reconcile_public_access (reconcile_table_grants
      (example_fresh fresh_roles fresh_edges, rep))) = (example_fresh fresh_roles fresh_edges, rep') \<and> errors rep' = []"
proof -
  have p: "sync_public 10 None (example_fresh fresh_roles fresh_edges) = Inr (example_fresh fresh_roles fresh_edges)"
    by (simp add: sync_public_def SCOPES_def revoke_membership_strict_def revoke_membership_if_present_def)
  show "errors rep = [] \<Longrightarrow> \<exists>rep'. reconcile_token_roles (reconcile_public_access (reconcile_table_grants
      (example_fresh fresh_roles fresh_edges, rep))) = (example_fresh fresh_roles fresh_edges, rep') \<and> errors rep' = []"
    by (simp add: reconcile_table_grants_def reconcile_public_access_def public_access_scope_def p savepoint_def
        reconcile_token_roles_def locked_live_scoped_tokens_def existing_roles_def)
qed

lemma fresh_run:
  "\<exists>rep. reconcile_from_catalog (example_fresh [] []) = Inr (example_fresh fresh_roles fresh_edges, rep) \<and> errors rep = []"
proof -
  obtain r1 where 1: "reconcile_user_roles (example_fresh [AUTHENTICATED_ROLE] [], empty_report) =
    (example_fresh [AUTHENTICATED_ROLE, user_role_name 1] [(AUTHENTICATED_ROLE, user_role_name 1)], r1)" "errors r1 = []"
    using fresh_users_pass by blast
  obtain r2 where 2: "reconcile_vault_roles
      (example_fresh [AUTHENTICATED_ROLE, user_role_name 1] [(AUTHENTICATED_ROLE, user_role_name 1)], r1) =
    (example_fresh fresh_roles fresh_edges, r2)" "errors r2 = []"
    using fresh_vaults_pass [OF 1(2)] by blast
  obtain r3 where 3: "reconcile_memberships (example_fresh fresh_roles fresh_edges, r2) =
    Inr (example_fresh fresh_roles fresh_edges, r3)" "errors r3 = []"
    using fresh_members_pass [OF 2(2)] by blast
  show ?thesis using fresh_rest [OF 3(2)] 1 2 3 by (simp add: reconcile_from_catalog_def)
qed


end
