(* ===== verification/AccessCheck.thy ===== *)
theory AccessCheck
  imports Contributions
begin

text \<open>
  Who may do what in a vault: the permission checks of \<^verbatim>\<open>backend/app/services/access_service.py\<close>,
  over the write-policy lookups of \<^verbatim>\<open>backend/app/repositories/vault_write_policy_repo.py\<close>.

  A check runs for a request. The request's context variables (the token's vault scope, the token
  id and the vault the request was last authorized for) are the record \<open>request_ctx\<close>.
\<close>

section \<open>The request context\<close>

record request_ctx =
  rq_scope :: "vault_scope option"
  rq_token :: "string option"
  rq_authorized :: "string option"
  rq_authorized_id :: "string option"

definition current_token_uuid :: "request_ctx \<Rightarrow> uuid option" where
  "current_token_uuid rq = Option.bind (rq_token rq) parse_uuid"

definition reset_authorized_vault :: "request_ctx \<Rightarrow> request_ctx" where
  "reset_authorized_vault rq = rq\<lparr>rq_authorized := None, rq_authorized_id := None\<rparr>"

section \<open>Guards\<close>

definition MUTATING_ROLES :: "string list" where
  "MUTATING_ROLES = [''writer'', ''admin'', ''owner'']"

definition VALID_PUBLIC_ACCESS :: "string list" where
  "VALID_PUBLIC_ACCESS = [''none'', ''reader'', ''writer'']"

definition WRITE_ACTION_WILDCARD :: string where
  "WRITE_ACTION_WILDCARD = ''*''"

definition FILE_UPLOAD_WRITE_ACTION :: string where
  "FILE_UPLOAD_WRITE_ACTION = ''file_upload''"

definition VALID_WRITE_ACTIONS :: "string list" where
  "VALID_WRITE_ACTIONS = [WRITE_ACTION_WILDCARD, FILE_UPLOAD_WRITE_ACTION]"

text \<open>The arguments are strings already; the order of the checks is the code's.\<close>

definition normalize_write_actions :: "string list option \<Rightarrow> string list result" where
  "normalize_write_actions actions =
     (case actions of
        None \<Rightarrow> Inr [WRITE_ACTION_WILDCARD]
      | Some acts \<Rightarrow>
          if acts = [] then Inl (Validation ''write actions must not be empty'')
          else if list_ex (\<lambda>a. py_strip a = '''') acts
          then Inl (Validation ''write actions must be non-empty strings'')
          else (let normalized = sort (remdups (map py_strip acts)) in
                if list_ex (\<lambda>a. \<not> List.member VALID_WRITE_ACTIONS a) normalized
                then Inl (Validation ''unknown write actions'')
                else if List.member normalized WRITE_ACTION_WILDCARD \<and> 1 < length normalized
                then Inl (Validation ''wildcard write action cannot be combined'')
                else Inr normalized))"

definition validate_public_access :: "string \<Rightarrow> string result" where
  "validate_public_access level =
     (if List.member VALID_PUBLIC_ACCESS level then Inr level else Inl (Validation ''public_access''))"

text \<open>
  \<open>_resolve_user_reference\<close>: both handles are optional; an id must be a UUID, and a name given with
  it must be the account's current one.
\<close>

definition resolve_user_reference :: "db \<Rightarrow> string option \<Rightarrow> string option \<Rightarrow> user_row result" where
  "resolve_user_reference d username user_id =
     (case user_id of
        Some raw \<Rightarrow>
          (case parse_uuid raw of
             None \<Rightarrow> Inl (Validation ''user_id must be a UUID'')
           | Some i \<Rightarrow>
               (case user_by_id d i of
                  None \<Rightarrow> Inl (NotFound ''User'')
                | Some target \<Rightarrow>
                    (case username of
                       None \<Rightarrow> Inr target
                     | Some n \<Rightarrow> if u_name target \<noteq> n then Inl (Conflict ''user_reference_mismatch'')
                                 else Inr target)))
      | None \<Rightarrow>
          (case username of
             None \<Rightarrow> Inl (Validation ''user or user_id is required'')
           | Some n \<Rightarrow>
               if n = '''' then Inl (Validation ''user or user_id is required'')
               else of_option (NotFound ''User'') (user_by_name d n)))"

definition check_vault_scope :: "request_ctx \<Rightarrow> string \<Rightarrow> string \<Rightarrow> unit result" where
  "check_vault_scope rq vault_name required_role =
     (case rq_scope rq of
        None \<Rightarrow> Inr ()
      | Some scope \<Rightarrow>
          require (\<not> (List.member MUTATING_ROLES required_role \<and> \<not> permits scope vault_name))
            (Forbidden ''token scope''))"

definition is_unscoped_system_admin :: "request_ctx \<Rightarrow> uuid \<Rightarrow> db \<Rightarrow> bool" where
  "is_unscoped_system_admin rq uid d =
     (if rq_scope rq \<noteq> None then False else is_admin d uid)"

section \<open>Write policies\<close>

definition get_policy :: "db \<Rightarrow> uuid \<Rightarrow> policy_row option" where
  "get_policy d v = tab_get p_vault v (policies d)"

definition get_grant_actions :: "db \<Rightarrow> uuid \<Rightarrow> uuid \<Rightarrow> string set option" where
  "get_grant_actions d v t = map_option (set \<circ> g_actions) (tab_get grant_key (v, t) (grants d))"

definition is_granted :: "db \<Rightarrow> uuid \<Rightarrow> uuid \<Rightarrow> string option \<Rightarrow> bool" where
  "is_granted d v t action =
     (case get_grant_actions d v t of
        None \<Rightarrow> False
      | Some actions \<Rightarrow> ''*'' \<in> actions \<or> (case action of None \<Rightarrow> False | Some a \<Rightarrow> a \<in> actions))"

section \<open>The check\<close>

record vault_access =
  va_vault :: uuid
  va_role :: string
  va_status :: string
  va_source :: string
  va_actions :: "string list option"

text \<open>The write-policy guard of a mutating role: a grant, the audited admin bypass, or a refusal.\<close>

definition write_policy_guard ::
  "request_ctx \<Rightarrow> uuid \<Rightarrow> vault_row \<Rightarrow> policy_row \<Rightarrow> string \<Rightarrow> string option \<Rightarrow> db \<Rightarrow> (vault_access \<times> db) result" where
  "write_policy_guard rq uid v policy required_role write_action d =
     (let grant_actions = (case current_token_uuid rq of
            None \<Rightarrow> None | Some t \<Rightarrow> get_grant_actions d (v_id v) t);
          granted = (case grant_actions of
            None \<Rightarrow> False
          | Some actions \<Rightarrow> WRITE_ACTION_WILDCARD \<in> actions
              \<or> (case write_action of None \<Rightarrow> False | Some a \<Rightarrow> a \<in> actions))
      in if granted
         then Inr (\<lparr>va_vault = v_id v, va_role = required_role, va_status = v_status v,
                    va_source = ''write_policy_grant'',
                    va_actions = map_option sorted_list_of_set grant_actions\<rparr>, d)
         else if is_unscoped_system_admin rq uid d
         then Inr (\<lparr>va_vault = v_id v, va_role = ''owner'', va_status = v_status v,
                    va_source = ''write_policy_admin_bypass'', va_actions = None\<rparr>,
                   emit_event ''vault.write_policy_admin_bypass'' (Some (v_id v)) None (Some (uuid_str uid))
                     [(''managed_by'', JStr (p_managed_by policy)), (''required_role'', JStr required_role),
                      (''vault'', JStr (v_name v))] d)
         else Inl (Forbidden ''write-managed vault''))"

text \<open>The rest of the check: system admin, owner, then the stronger of the public and the member role.\<close>

definition acl_check ::
  "uuid \<Rightarrow> vault_row \<Rightarrow> string \<Rightarrow> db \<Rightarrow> (vault_access \<times> db) result" where
  "acl_check uid v required_role d =
     (if is_admin d uid
      then Inr (\<lparr>va_vault = v_id v, va_role = ''owner'', va_status = v_status v,
                 va_source = ''system_admin'', va_actions = None\<rparr>, d)
      else if v_owner v = Some uid
      then Inr (\<lparr>va_vault = v_id v, va_role = ''owner'', va_status = v_status v,
                 va_source = ''member'', va_actions = None\<rparr>, d)
      else (let member_role = access_role d (v_id v) uid;
                public_is_stronger = role_level member_role < role_level (Some (v_public v));
                user_role = (if public_is_stronger then Some (v_public v) else member_role)
            in case user_role of
                 None \<Rightarrow> Inl (Forbidden ''role'')
               | Some r \<Rightarrow>
                   if r = '''' \<or> role_level (Some r) < role_level (Some required_role)
                   then Inl (Forbidden ''role'')
                   else Inr (\<lparr>va_vault = v_id v, va_role = r, va_status = v_status v,
                              va_source = (if public_is_stronger then ''public'' else ''member''),
                              va_actions = None\<rparr>, d)))"

definition check_vault_access_impl ::
  "request_ctx \<Rightarrow> string \<Rightarrow> string \<Rightarrow> string \<Rightarrow> bool \<Rightarrow> string option \<Rightarrow> db \<Rightarrow> (vault_access \<times> db) result" where
  "check_vault_access_impl rq user_id vault_name required_role allow_archived write_action d =
     rbind (of_option PyValueError (parse_uuid user_id)) (\<lambda>uid.
     rbind (of_option (NotFound ''Vault'') (vault_by_name d vault_name)) (\<lambda>v.
     rbind (require (\<not> (\<not> allow_archived \<and> v_status v = ''archived''
                          \<and> List.member [''writer'', ''admin''] required_role))
              (Forbidden ''archived'')) (\<lambda>_.
     rbind (require (\<not> (required_role = ''writer'' \<and> is_mirror d (v_id v))) (Forbidden ''mirror'')) (\<lambda>_.
     rbind (check_vault_scope rq vault_name required_role) (\<lambda>_.
     case (if List.member MUTATING_ROLES required_role then get_policy d (v_id v) else None) of
       Some policy \<Rightarrow> write_policy_guard rq uid v policy required_role write_action d
     | None \<Rightarrow> acl_check uid v required_role d)))))"

definition check_vault_access ::
  "request_ctx \<Rightarrow> string \<Rightarrow> string \<Rightarrow> string \<Rightarrow> bool \<Rightarrow> string option \<Rightarrow> db
   \<Rightarrow> (vault_access \<times> request_ctx \<times> db) result" where
  "check_vault_access rq user_id vault_name required_role allow_archived write_action d =
     rbind (check_vault_access_impl rq user_id vault_name required_role allow_archived write_action d)
       (\<lambda>(info, d').
          Inr (info, rq\<lparr>rq_authorized := Some vault_name,
                        rq_authorized_id := Some (uuid_str (va_vault info))\<rparr>, d'))"

definition check_delegated_vault_writer :: "string \<Rightarrow> string \<Rightarrow> db \<Rightarrow> vault_access result" where
  "check_delegated_vault_writer user_id vault_name d =
     rbind (of_option PyValueError (parse_uuid user_id)) (\<lambda>uid.
     case user_by_id d uid of
       None \<Rightarrow> Inl (Forbidden ''delegated account not active'')
     | Some u \<Rightarrow>
         if u_status u \<noteq> ''active'' then Inl (Forbidden ''delegated account not active'')
         else if u_kind u \<noteq> ''human'' then Inl (Forbidden ''delegated account not human'')
         else rbind (of_option (NotFound ''Vault'') (vault_by_name d vault_name)) (\<lambda>v.
           if v_status v = ''archived'' then Inl (Forbidden ''archived'')
           else if is_mirror d (v_id v) then Inl (Forbidden ''mirror'')
           else if u_is_admin u \<or> v_owner v = Some uid
           then Inr \<lparr>va_vault = v_id v, va_role = ''owner'', va_status = v_status v,
                     va_source = ''member'', va_actions = None\<rparr>
           else (case access_role d (v_id v) uid of
                   None \<Rightarrow> Inl (Forbidden ''delegated writer'')
                 | Some r \<Rightarrow>
                     if role_level (Some r) < role_level (Some ''writer'') then Inl (Forbidden ''delegated writer'')
                     else Inr \<lparr>va_vault = v_id v, va_role = r, va_status = v_status v,
                               va_source = ''member'', va_actions = None\<rparr>)))"

definition get_user_role :: "string \<Rightarrow> string \<Rightarrow> db \<Rightarrow> string option result" where
  "get_user_role user_id vault_name d =
     rbind (of_option PyValueError (parse_uuid user_id)) (\<lambda>uid.
     Inr (case vault_by_name d vault_name of
            None \<Rightarrow> None
          | Some v \<Rightarrow> if v_owner v = Some uid then Some ''owner'' else access_role d (v_id v) uid))"

section \<open>The decision\<close>

lemma check_vault_scope_Inr [result_iff]:
  "check_vault_scope rq n r = Inr x \<longleftrightarrow>
   (case rq_scope rq of None \<Rightarrow> True | Some s \<Rightarrow> List.member MUTATING_ROLES r \<longrightarrow> permits s n)"
  by (auto simp: check_vault_scope_def require_def split: option.splits)

text \<open>What a caller can do in an unmanaged vault: the level of the strongest of its four grants.\<close>

definition authority :: "db \<Rightarrow> uuid \<Rightarrow> vault_row \<Rightarrow> nat" where
  "authority d uid v =
     (if is_admin d uid \<or> v_owner v = Some uid then 4
      else max (role_level (access_role d (v_id v) uid)) (role_level (Some (v_public v))))"

definition ROLES :: "string list" where
  "ROLES = [''reader'', ''writer'', ''admin'', ''owner'']"

lemma ROLES_level: "List.member ROLES r \<Longrightarrow> 0 < role_level (Some r) \<and> role_level (Some r) \<le> 4"
  by (auto simp: ROLES_def)

lemma acl_check_Inr:
  assumes "List.member ROLES r"
  shows "(\<exists>x. acl_check uid v r d = Inr x) \<longleftrightarrow> role_level (Some r) \<le> authority d uid v"
  using ROLES_level [OF assms]
  by (auto simp: acl_check_def authority_def Let_def max_def role_level_def ROLE_HIERARCHY_def
      split: option.splits if_splits)

lemma acl_check_result:
  assumes "acl_check uid v r d = Inr (info, d')" and "List.member ROLES r"
  shows "d' = d \<and> va_vault info = v_id v \<and> va_status info = v_status v
    \<and> role_level (Some (va_role info)) = authority d uid v
    \<and> va_source info \<in> {''system_admin'', ''member'', ''public''}"
  using assms(1) ROLES_level [OF assms(2)]
  by (auto simp: acl_check_def authority_def Let_def max_def split: option.splits if_splits)

lemma write_policy_guard_Inr:
  "(\<exists>x. write_policy_guard rq uid v policy r action d = Inr x) \<longleftrightarrow>
   (\<exists>t. current_token_uuid rq = Some t \<and> is_granted d (v_id v) t action) \<or>
   (rq_scope rq = None \<and> is_admin d uid)"
  by (auto simp: write_policy_guard_def Let_def is_granted_def is_unscoped_system_admin_def
      WRITE_ACTION_WILDCARD_def split: option.splits if_splits)

text \<open>
  The guards of a mutation, as conditions on the catalog: the archive and mirror locks, the token's
  scope and the vault's write policy.\<close>

definition vault_open :: "db \<Rightarrow> vault_row \<Rightarrow> string \<Rightarrow> bool \<Rightarrow> bool" where
  "vault_open d v r allow_archived \<longleftrightarrow>
     (v_status v = ''archived'' \<and> List.member [''writer'', ''admin''] r \<longrightarrow> allow_archived)
     \<and> (r = ''writer'' \<longrightarrow> \<not> is_mirror d (v_id v))"

definition may_access ::
  "request_ctx \<Rightarrow> uuid \<Rightarrow> vault_row \<Rightarrow> string \<Rightarrow> bool \<Rightarrow> string option \<Rightarrow> db \<Rightarrow> bool" where
  "may_access rq uid v r allow_archived action d \<longleftrightarrow>
     vault_open d v r allow_archived
     \<and> (case rq_scope rq of None \<Rightarrow> True | Some s \<Rightarrow> List.member MUTATING_ROLES r \<longrightarrow> permits s (v_name v))
     \<and> (if List.member MUTATING_ROLES r \<and> get_policy d (v_id v) \<noteq> None
        then (\<exists>t. current_token_uuid rq = Some t \<and> is_granted d (v_id v) t action)
             \<or> (rq_scope rq = None \<and> is_admin d uid)
        else role_level (Some r) \<le> authority d uid v)"

lemma check_impl_Inr:
  assumes "List.member ROLES r"
  shows "(\<exists>x. check_vault_access_impl rq user_id n r allow_archived action d = Inr x) \<longleftrightarrow>
    (\<exists>uid v. parse_uuid user_id = Some uid \<and> vault_by_name d n = Some v \<and>
      may_access rq uid v r allow_archived action d)" (is "?L \<longleftrightarrow> ?R")
proof (cases "parse_uuid user_id")
  case (Some uid)
  show ?thesis
  proof (cases "vault_by_name d n")
    case v: (Some v)
    then have n: "v_name v = n" by (rule tab_get_key)
    show ?thesis
      using Some v n acl_check_Inr [OF assms, of uid v d]
        write_policy_guard_Inr [of rq uid v _ r action d]
      by (auto simp: check_vault_access_impl_def result_iff may_access_def vault_open_def
          split: option.splits if_splits)
  qed (auto simp: check_vault_access_impl_def result_iff)
qed (simp add: check_vault_access_impl_def)

text \<open>
  C15: the access decision. For each of the four roles, \<open>check_vault_access\<close> succeeds exactly when the
  caller's id is a UUID, the vault exists, it is not locked for that role (an archive or a mirror),
  the token's scope permits the vault if the role mutates, and then: in a vault with a write policy
  a mutation needs a token granted the action, or an unscoped system admin, whatever the caller's
  role, even owner; otherwise the strongest of the caller's grants must reach the role. A successful
  check records the vault it authorized, a failed one returns no context at all.
\<close>

theorem access_decision:
  assumes "List.member ROLES r"
  shows "is_ok (check_vault_access rq user_id n r allow_archived action d) \<longleftrightarrow>
    (\<exists>uid v. parse_uuid user_id = Some uid \<and> vault_by_name d n = Some v \<and>
      may_access rq uid v r allow_archived action d)"
proof -
  have "is_ok (check_vault_access rq user_id n r allow_archived action d) \<longleftrightarrow>
    (\<exists>x. check_vault_access_impl rq user_id n r allow_archived action d = Inr x)"
    by (auto simp: check_vault_access_def is_ok_iff result_iff)
  then show ?thesis using check_impl_Inr [OF assms] by simp
qed

theorem access_decision_witness:
  "is_ok (check_vault_access \<lparr>rq_scope = None, rq_token = None, rq_authorized = None, rq_authorized_id = None\<rparr>
      (uuid_str 2) ''eng'' ''writer'' False None example_db) \<longleftrightarrow>
    (\<exists>uid v. parse_uuid (uuid_str 2) = Some uid \<and> vault_by_name example_db ''eng'' = Some v \<and>
      may_access \<lparr>rq_scope = None, rq_token = None, rq_authorized = None, rq_authorized_id = None\<rparr>
        uid v ''writer'' False None example_db)"
  by (rule access_decision) (simp add: ROLES_def)

lemma check_vault_access_Inr:
  "check_vault_access rq user_id n r allow_archived action d = Inr (info, rq', d') \<longleftrightarrow>
   check_vault_access_impl rq user_id n r allow_archived action d = Inr (info, d') \<and>
   rq' = rq\<lparr>rq_authorized := Some n, rq_authorized_id := Some (uuid_str (va_vault info))\<rparr>"
  by (auto simp: check_vault_access_def result_iff)

lemma check_impl_cases:
  assumes "check_vault_access_impl rq user_id n r allow_archived action d = Inr (info, d')"
    and "List.member ROLES r"
  obtains uid v where "parse_uuid user_id = Some uid" "vault_by_name d n = Some v"
    "may_access rq uid v r allow_archived action d"
    "(case (if List.member MUTATING_ROLES r then get_policy d (v_id v) else None) of
       Some policy \<Rightarrow> write_policy_guard rq uid v policy r action d
     | None \<Rightarrow> acl_check uid v r d) = Inr (info, d')"
proof -
  from assms obtain uid v where uv: "parse_uuid user_id = Some uid" "vault_by_name d n = Some v"
    "may_access rq uid v r allow_archived action d"
    using check_impl_Inr by metis
  moreover from assms(1) uv have
    "(case (if List.member MUTATING_ROLES r then get_policy d (v_id v) else None) of
       Some policy \<Rightarrow> write_policy_guard rq uid v policy r action d
     | None \<Rightarrow> acl_check uid v r d) = Inr (info, d')"
    by (auto simp: check_vault_access_impl_def result_iff)
  ultimately show ?thesis by (rule that)
qed

lemma write_policy_guard_result:
  assumes "write_policy_guard rq uid v policy r action d = Inr (info, d')" and "List.member ROLES r"
  shows "va_vault info = v_id v \<and> va_status info = v_status v \<and>
    (va_source info = ''write_policy_grant'' \<and> va_role info = r \<and> d' = d \<or>
     va_source info = ''write_policy_admin_bypass'' \<and> va_role info = ''owner'' \<and>
     (\<exists>payload. d' = emit_event ''vault.write_policy_admin_bypass'' (Some (v_id v)) None
        (Some (uuid_str uid)) payload d))"
  using assms by (auto simp: write_policy_guard_def Let_def split: option.splits if_splits)

text \<open>
  what a successful check tells its caller. The reported role reaches the required one, the
  reported vault id and status are those of the named vault, which is also what the request is then
  authorized for, and the check writes nothing to the catalog, except that the admin bypass of a
  write policy always leaves its audit event: there is no silent bypass.
\<close>

theorem access_result:
  assumes "check_vault_access rq user_id n r allow_archived action d = Inr (info, rq', d')"
    and "List.member ROLES r"
  shows "\<exists>uid v. parse_uuid user_id = Some uid \<and> vault_by_name d n = Some v \<and>
    va_vault info = v_id v \<and> va_status info = v_status v \<and>
    role_level (Some r) \<le> role_level (Some (va_role info)) \<and>
    rq_authorized rq' = Some n \<and> rq_authorized_id rq' = Some (uuid_str (v_id v)) \<and>
    rq_scope rq' = rq_scope rq \<and>
    (if va_source info = ''write_policy_admin_bypass''
     then rq_scope rq = None \<and> is_admin d uid \<and>
       (\<exists>ev. d' = d\<lparr>events := events d @ [ev]\<rparr> \<and> ev_kind ev = ''vault.write_policy_admin_bypass'' \<and>
          ev_vault ev = Some (v_id v) \<and> ev_actor ev = Some (uuid_str uid))
     else d' = d)"
proof -
  from assms(1) have impl: "check_vault_access_impl rq user_id n r allow_archived action d = Inr (info, d')"
    and rq': "rq' = rq\<lparr>rq_authorized := Some n, rq_authorized_id := Some (uuid_str (va_vault info))\<rparr>"
    by (auto simp: check_vault_access_Inr)
  from impl assms(2) obtain uid v where uv: "parse_uuid user_id = Some uid" "vault_by_name d n = Some v"
    "may_access rq uid v r allow_archived action d"
    and run: "(case (if List.member MUTATING_ROLES r then get_policy d (v_id v) else None) of
       Some policy \<Rightarrow> write_policy_guard rq uid v policy r action d
     | None \<Rightarrow> acl_check uid v r d) = Inr (info, d')"
    by (rule check_impl_cases)
  show ?thesis
  proof (cases "if List.member MUTATING_ROLES r then get_policy d (v_id v) else None")
    case None
    with run have a: "acl_check uid v r d = Inr (info, d')" by simp
    then have "role_level (Some r) \<le> authority d uid v" using acl_check_Inr [OF assms(2)] by metis
    then show ?thesis using acl_check_result [OF a assms(2)] uv rq' by auto
  next
    case (Some policy)
    with run have w: "write_policy_guard rq uid v policy r action d = Inr (info, d')" by simp
    have b: "va_source info = ''write_policy_admin_bypass'' \<Longrightarrow> rq_scope rq = None \<and> is_admin d uid"
      using w by (auto simp: write_policy_guard_def Let_def is_unscoped_system_admin_def
          split: option.splits if_splits)
    show ?thesis
      using write_policy_guard_result [OF w assms(2)] b uv rq' ROLES_level [OF assms(2)]
      by (intro exI [of _ uid] exI [of _ v]) (auto simp: emit_event_def)
  qed
qed

theorem access_result_witness:
  "\<exists>uid v info rq' d'. check_vault_access \<lparr>rq_scope = None, rq_token = None, rq_authorized = None,
      rq_authorized_id = None\<rparr> (uuid_str 2) ''eng'' ''writer'' False None example_db = Inr (info, rq', d') \<and>
    parse_uuid (uuid_str 2) = Some uid \<and> vault_by_name example_db ''eng'' = Some v \<and> va_vault info = v_id v \<and>
    rq_authorized rq' = Some ''eng''"
proof -
  let ?rq = "\<lparr>rq_scope = None, rq_token = None, rq_authorized = None, rq_authorized_id = None\<rparr>"
  have r: "List.member ROLES ''writer''" by (simp add: ROLES_def)
  have "\<exists>x. check_vault_access ?rq (uuid_str 2) ''eng'' ''writer'' False None example_db = Inr x"
    by (simp add: check_vault_access_def check_vault_access_impl_def check_vault_scope_def acl_check_def
        example_db_def tab_get_Cons get_policy_def tab_get_def is_mirror_def is_admin_def access_role_def
        access_key_def MUTATING_ROLES_def role_level_def ROLE_HIERARCHY_def)
  then obtain info rq' d' where c: "check_vault_access ?rq (uuid_str 2) ''eng'' ''writer'' False None example_db
      = Inr (info, rq', d')" by auto
  from access_result [OF c r] c show ?thesis by blast
qed

lemma acl_check_frame:
  "acl_check uid v r d = Inr (info, d') \<Longrightarrow> va_source info \<noteq> ''write_policy_admin_bypass'' \<and> d' = d"
  by (auto simp: acl_check_def Let_def split: option.splits if_splits)

lemma write_policy_guard_scoped:
  "write_policy_guard rq uid v policy r action d = Inr (info, d') \<Longrightarrow> rq_scope rq = Some s \<Longrightarrow>
   va_source info \<noteq> ''write_policy_admin_bypass'' \<and> d' = d"
  by (auto simp: write_policy_guard_def Let_def is_unscoped_system_admin_def split: option.splits if_splits)

lemma check_vault_scope_reader: "check_vault_scope rq n ''reader'' = Inr ()"
  by (simp add: check_vault_scope_def MUTATING_ROLES_def split: option.split)

text \<open>
  C25: what the scope of a token bounds. A scoped token, even an admin's, can change a vault only if the
  scope permits it; it never uses the admin bypass of a write policy; and reads do not depend on the
  scope at all.
\<close>

theorem scope_bounds_writes:
  assumes "rq_scope rq = Some s"
  shows "(List.member MUTATING_ROLES r \<and> \<not> permits s n \<longrightarrow>
      \<not> is_ok (check_vault_access rq user_id n r allow_archived action d)) \<and>
    (\<forall>info rq' d'. check_vault_access rq user_id n r allow_archived action d = Inr (info, rq', d') \<longrightarrow>
      va_source info \<noteq> ''write_policy_admin_bypass'' \<and> d' = d) \<and>
    check_vault_access_impl rq user_id n ''reader'' allow_archived action d =
      check_vault_access_impl (rq\<lparr>rq_scope := None\<rparr>) user_id n ''reader'' allow_archived action d"
proof (intro conjI allI impI)
  assume "List.member MUTATING_ROLES r \<and> \<not> permits s n"
  then show "\<not> is_ok (check_vault_access rq user_id n r allow_archived action d)"
    using assms by (auto simp: check_vault_access_def check_vault_access_impl_def is_ok_iff result_iff)
next
  fix info rq' d'
  assume "check_vault_access rq user_id n r allow_archived action d = Inr (info, rq', d')"
  then have "check_vault_access_impl rq user_id n r allow_archived action d = Inr (info, d')"
    by (simp add: check_vault_access_Inr)
  then have "va_source info \<noteq> ''write_policy_admin_bypass'' \<and> d' = d"
    using assms
    by (auto simp: check_vault_access_impl_def result_iff split: option.splits if_splits
        dest: acl_check_frame write_policy_guard_scoped)
  then show "va_source info \<noteq> ''write_policy_admin_bypass''" and "d' = d" by simp_all
next
  show "check_vault_access_impl rq user_id n ''reader'' allow_archived action d =
      check_vault_access_impl (rq\<lparr>rq_scope := None\<rparr>) user_id n ''reader'' allow_archived action d"
    by (simp add: check_vault_access_impl_def check_vault_scope_reader MUTATING_ROLES_def)
qed

theorem scope_bounds_writes_witness:
  "\<not> is_ok (check_vault_access \<lparr>rq_scope = Some \<lparr>vs_prefixes = [], vs_extra = {''eng''}\<rparr>, rq_token = None,
      rq_authorized = None, rq_authorized_id = None\<rparr> (uuid_str 3) ''ops'' ''writer'' False None example_db)"
  using scope_bounds_writes [of "\<lparr>rq_scope = Some \<lparr>vs_prefixes = [], vs_extra = {''eng''}\<rparr>, rq_token = None,
      rq_authorized = None, rq_authorized_id = None\<rparr>" "\<lparr>vs_prefixes = [], vs_extra = {''eng''}\<rparr>" "''writer''" "''ops''"]
  by (simp add: MUTATING_ROLES_def permits_def)

lemma check_delegated_Inr:
  "(\<exists>info. check_delegated_vault_writer user_id n d = Inr info) \<longleftrightarrow>
    (\<exists>uid u v. parse_uuid user_id = Some uid \<and> user_by_id d uid = Some u \<and> u_status u = ''active'' \<and>
       u_kind u = ''human'' \<and> vault_by_name d n = Some v \<and> v_status v \<noteq> ''archived'' \<and>
       \<not> is_mirror d (v_id v) \<and>
       (u_is_admin u \<or> v_owner v = Some uid \<or> 2 \<le> role_level (access_role d (v_id v) uid)))"
proof (cases "parse_uuid user_id")
  case (Some uid)
  show ?thesis
  proof (cases "user_by_id d uid")
    case u: (Some u)
    show ?thesis
    proof (cases "vault_by_name d n")
      case v: (Some v)
      then show ?thesis using Some u
        by (cases "access_role d (v_id v) uid") (simp_all add: check_delegated_vault_writer_def not_less)
    qed (use Some u in \<open>simp add: check_delegated_vault_writer_def\<close>)
  qed (use Some in \<open>simp add: check_delegated_vault_writer_def\<close>)
qed (simp add: check_delegated_vault_writer_def)

text \<open>
  delegation does not create authority. \<open>check_delegated_vault_writer\<close> accepts exactly the active
  human accounts that are bound to an open vault themselves, by ownership, system admin or an explicit
  writer role; public access does not count. Every account it accepts also passes the ordinary writer
  check of a vault without write policy.
\<close>

theorem delegated_writer:
  "(is_ok (check_delegated_vault_writer user_id n d) \<longleftrightarrow>
    (\<exists>uid u v. parse_uuid user_id = Some uid \<and> user_by_id d uid = Some u \<and> u_status u = ''active'' \<and>
       u_kind u = ''human'' \<and> vault_by_name d n = Some v \<and> v_status v \<noteq> ''archived'' \<and>
       \<not> is_mirror d (v_id v) \<and>
       (u_is_admin u \<or> v_owner v = Some uid \<or> 2 \<le> role_level (access_role d (v_id v) uid)))) \<and>
   (is_ok (check_delegated_vault_writer user_id n d) \<and> policies d = [] \<and> rq_scope rq = None \<longrightarrow>
    is_ok (check_vault_access rq user_id n ''writer'' False action d))"
proof (intro conjI impI)
  show iff: "is_ok (check_delegated_vault_writer user_id n d) \<longleftrightarrow>
    (\<exists>uid u v. parse_uuid user_id = Some uid \<and> user_by_id d uid = Some u \<and> u_status u = ''active'' \<and>
       u_kind u = ''human'' \<and> vault_by_name d n = Some v \<and> v_status v \<noteq> ''archived'' \<and>
       \<not> is_mirror d (v_id v) \<and>
       (u_is_admin u \<or> v_owner v = Some uid \<or> 2 \<le> role_level (access_role d (v_id v) uid)))"
    unfolding is_ok_iff by (rule check_delegated_Inr)
  assume a: "is_ok (check_delegated_vault_writer user_id n d) \<and> policies d = [] \<and> rq_scope rq = None"
  then obtain uid u v where uv: "parse_uuid user_id = Some uid" "user_by_id d uid = Some u"
    "vault_by_name d n = Some v" "v_status v \<noteq> ''archived''" "\<not> is_mirror d (v_id v)"
    "u_is_admin u \<or> v_owner v = Some uid \<or> 2 \<le> role_level (access_role d (v_id v) uid)"
    using iff by blast
  have "get_policy d (v_id v) = None" using a by (simp add: get_policy_def tab_simps)
  moreover have "2 \<le> authority d uid v"
    using uv(2,6) by (auto simp: authority_def is_admin_def)
  ultimately have "may_access rq uid v ''writer'' False action d"
    using uv(4,5) a by (simp add: may_access_def vault_open_def)
  moreover have w: "List.member ROLES ''writer''" by (simp add: ROLES_def)
  ultimately have "\<exists>x. check_vault_access_impl rq user_id n ''writer'' False action d = Inr x"
    using uv(1,3) check_impl_Inr [OF w, of rq user_id n False action d] by blast
  then show "is_ok (check_vault_access rq user_id n ''writer'' False action d)"
    by (auto simp: check_vault_access_def is_ok_iff result_iff)
qed

theorem delegated_writer_witness:
  "is_ok (check_delegated_vault_writer (uuid_str 2) ''eng'' example_db)"
proof -
  have "\<exists>uid u v. parse_uuid (uuid_str 2) = Some uid \<and> user_by_id example_db uid = Some u \<and>
      u_status u = ''active'' \<and> u_kind u = ''human'' \<and> vault_by_name example_db ''eng'' = Some v \<and>
      v_status v \<noteq> ''archived'' \<and> \<not> is_mirror example_db (v_id v) \<and>
      (u_is_admin u \<or> v_owner v = Some uid \<or> 2 \<le> role_level (access_role example_db (v_id v) uid))"
    by (simp add: example_db_def tab_get_def is_mirror_def access_role_def access_key_def)
  then show ?thesis using delegated_writer [of "uuid_str 2" "''eng''" example_db] by blast
qed

section \<open>Argument checks\<close>

lemma sort_remdups_singleton: "set xs = {w} \<Longrightarrow> sort (remdups xs) = [w :: 'a :: linorder]"
  by (simp add: sorted_list_of_set_sort_remdups [symmetric])

lemma set_pair_cases:
  "set xs \<subseteq> {a, b} \<Longrightarrow> xs \<noteq> [] \<Longrightarrow> (a \<in> set xs \<Longrightarrow> b \<notin> set xs) \<Longrightarrow> set xs = {a} \<or> set xs = {b}"
  by (cases xs) auto

lemma write_actions_facts:
  "normalize_write_actions None = Inr [''*''] \<and>
   (normalize_write_actions (Some acts) = Inr ys \<longleftrightarrow>
    (\<exists>w. (w = ''*'' \<or> w = ''file_upload'') \<and> ys = [w] \<and> py_strip ` set acts = {w}))"
proof -
  let ?n = "sort (remdups (map py_strip acts))"
  have set_n: "set ?n = py_strip ` set acts" by simp
  have "normalize_write_actions (Some acts) = Inr ys" if "w = ''*'' \<or> w = ''file_upload''" "ys = [w]"
    "py_strip ` set acts = {w}" for w
  proof -
    have "?n = [w]" using that(3) by (simp add: sort_remdups_singleton)
    moreover have "acts \<noteq> []" and "a \<in> set acts \<Longrightarrow> py_strip a = w" for a using that(3) by auto
    ultimately show ?thesis using that(1,2)
      by (auto simp: normalize_write_actions_def VALID_WRITE_ACTIONS_def WRITE_ACTION_WILDCARD_def
          FILE_UPLOAD_WRITE_ACTION_def list_ex_iff Let_def)
  qed
  moreover have "\<exists>w. (w = ''*'' \<or> w = ''file_upload'') \<and> ys = [w] \<and> py_strip ` set acts = {w}"
    if "normalize_write_actions (Some acts) = Inr ys"
  proof -
    have ys: "ys = ?n" and ne: "acts \<noteq> []" and sub: "set ?n \<subseteq> {''*'', ''file_upload''}"
      and wild: "''*'' \<in> set ?n \<Longrightarrow> length ?n \<le> 1"
      using that by (auto simp: normalize_write_actions_def VALID_WRITE_ACTIONS_def WRITE_ACTION_WILDCARD_def
          FILE_UPLOAD_WRITE_ACTION_def list_ex_iff Let_def not_less simp del: length_remdups_card_conv
          split: if_splits)
    have "''*'' \<in> set ?n \<Longrightarrow> ''file_upload'' \<notin> set ?n"
      using wild by (cases ?n) (auto simp del: set_sort set_remdups)
    moreover have "?n \<noteq> []" using ne by (simp add: set_empty [symmetric] del: set_empty)
    ultimately have "set ?n = {''*''} \<or> set ?n = {''file_upload''}" using sub by (intro set_pair_cases) blast+
    then show ?thesis using ys sort_remdups_singleton [of "map py_strip acts"] by auto
  qed
  moreover have "normalize_write_actions None = Inr [''*'']"
    by (simp add: normalize_write_actions_def WRITE_ACTION_WILDCARD_def)
  ultimately show ?thesis by blast
qed

text \<open>
  C30: the write-action vocabulary. A list of actions is accepted only as the wildcard alone or the file
  upload alone (given any number of times, with surrounding white space), and no list at all is the
  broad grant; every mixture, empty list and unknown action is refused.
\<close>

theorem write_actions_normalized:
  "normalize_write_actions None = Inr [''*''] \<and>
   (normalize_write_actions (Some acts) = Inr ys \<longleftrightarrow>
    (\<exists>w. (w = ''*'' \<or> w = ''file_upload'') \<and> ys = [w] \<and> py_strip ` set acts = {w}))"
  by (rule write_actions_facts)

end
