(* ===== verification/AccessGrants.thy ===== *)
theory AccessGrants
  imports AccessCheck RoleSync Uri
begin

text \<open>
  The operations that change who holds what in a vault:
  \<^verbatim>\<open>backend/app/services/access_service.py\<close>.

  Grants, revokes and transfers first check the caller on a connection of their own and then change
  the catalog in a transaction, which checks again under the row lock. Between the two, other requests
  may commit: the argument \<open>other\<close> of an operation is what they did. A transaction that raises is rolled
  back, and what was committed before it stays; so an operation returns its reply or error together
  with the database it leaves.
\<close>

section \<open>Transactions\<close>

definition commit :: "(db \<Rightarrow> ('a \<times> db) result) \<Rightarrow> db \<Rightarrow> 'a result \<times> db" where
  "commit tx d = (case tx d of Inl e \<Rightarrow> (Inl e, d) | Inr (r, d') \<Rightarrow> (Inr r, d'))"

text \<open>The check on its own connection, then \<open>tx\<close> after whatever the others committed meanwhile.\<close>

definition after_check ::
  "request_ctx \<Rightarrow> string \<Rightarrow> string \<Rightarrow> string \<Rightarrow> (db \<Rightarrow> db) \<Rightarrow> (vault_access \<Rightarrow> db \<Rightarrow> ('a \<times> db) result)
   \<Rightarrow> db \<Rightarrow> 'a result \<times> db" where
  "after_check rq user_id n required_role other tx d =
     (case check_vault_access rq user_id n required_role False None d of
        Inl e \<Rightarrow> (Inl e, d)
      | Inr (info, rq', d1) \<Rightarrow> commit (tx info) (other d1))"

section \<open>Grant and revoke\<close>

record grant_reply =
  gr_vault :: string
  gr_user :: string
  gr_user_id :: string
  gr_role :: string
  gr_source_key :: string
  gr_effective_role :: "string option"
  gr_applied :: bool

record revoke_reply =
  rv_vault :: string
  rv_user :: string
  rv_user_id :: string
  rv_source_key :: "string option"
  rv_effective_role :: "string option"
  rv_applied :: bool

text \<open>The vault under its row lock: it exists, is not archived, and the caller still administers it.\<close>

definition lock_administered :: "string \<Rightarrow> string \<Rightarrow> db \<Rightarrow> (vault_row \<times> uuid) result" where
  "lock_administered caller n d =
     (case vault_by_name d n of
        None \<Rightarrow> Inl (NotFound ''Vault'')
      | Some v \<Rightarrow>
          if v_status v = ''archived'' then Inl (Forbidden ''archived'')
          else (case parse_uuid caller of
                  None \<Rightarrow> Inl PyValueError
                | Some uid \<Rightarrow>
                    if v_owner v \<noteq> Some uid \<and> \<not> is_admin d uid
                       \<and> role_level (access_role d (v_id v) uid) < role_level (Some ''admin'')
                    then Inl (Forbidden ''admin role'')
                    else Inr (v, uid)))"

definition grant_tx ::
  "string \<Rightarrow> string \<Rightarrow> string option \<Rightarrow> string \<Rightarrow> string option \<Rightarrow> string \<Rightarrow> int option \<Rightarrow> db \<Rightarrow> (grant_reply \<times> db) result" where
  "grant_tx granter n username role user_id source_key revision d =
     rbind (lock_administered granter n d) (\<lambda>(v, granter_uid).
     rbind (resolve_user_reference d username user_id) (\<lambda>target.
     rbind (apply_contribution (v_id v) (Some (u_id target)) role source_key (Some granter_uid) revision d)
       (\<lambda>(oc, d).
     let d = emit_event ''access.grant'' (Some (v_id v)) (Some (vault_uri n)) (Some (uuid_str granter_uid))
           [(''vault'', JStr n), (''user'', JStr (u_name target)), (''role'', JStr role),
            (''target_user_id'', JStr (uuid_str (u_id target))),
            (''target_is_owner'', JBool (v_owner v = Some (u_id target))),
            (''target_is_admin'', JBool (u_is_admin target)), (''public_access'', JStr (v_public v)),
            (''source_key'', JStr source_key), (''effective_role'', json_opt_str (o_effective oc)),
            (''previous_effective_role'', json_opt_str (o_previous oc)), (''applied'', JBool (o_applied oc))] d
     in rbind (sync_vault_user (v_id v) (u_id target) d) (\<lambda>d.
        Inr (\<lparr>gr_vault = n, gr_user = u_name target, gr_user_id = uuid_str (u_id target), gr_role = role,
              gr_source_key = source_key, gr_effective_role = o_effective oc, gr_applied = o_applied oc\<rparr>, d)))))"

definition grant_access ::
  "request_ctx \<Rightarrow> string \<Rightarrow> string \<Rightarrow> string option \<Rightarrow> string \<Rightarrow> string option \<Rightarrow> string \<Rightarrow> int option
   \<Rightarrow> (db \<Rightarrow> db) \<Rightarrow> db \<Rightarrow> grant_reply result \<times> db" where
  "grant_access rq granter n username role user_id source_key revision other d =
     (if role \<notin> fst ` set ROLE_HIERARCHY \<or> role = ''owner'' then (Inl (Forbidden ''invalid role''), d)
      else (case validate_source_key source_key of
              Inl _ \<Rightarrow> (Inl (Validation ''source_key''), d)
            | Inr key \<Rightarrow>
                after_check rq granter n ''admin'' other
                  (\<lambda>_. grant_tx granter n username role user_id key revision) d))"

definition revoke_tx ::
  "string \<Rightarrow> string \<Rightarrow> string option \<Rightarrow> string option \<Rightarrow> string option \<Rightarrow> int option \<Rightarrow> db \<Rightarrow> (revoke_reply \<times> db) result" where
  "revoke_tx revoker n username user_id source_key revision d =
     rbind (lock_administered revoker n d) (\<lambda>(v, revoker_uid).
     rbind (resolve_user_reference d username user_id) (\<lambda>target.
     if v_owner v = Some (u_id target) then Inl (Forbidden ''cannot revoke owner'')
     else
       (let had_direct = tab_get contrib_key (v_id v, u_id target, ''direct'') (contribs d) \<noteq> None
        in rbind (case source_key of
                    None \<Rightarrow> Inr (remove_all_contributions (v_id v) (u_id target) d)
                  | Some key \<Rightarrow> remove_contribution (v_id v) (u_id target) key revision d) (\<lambda>(oc, d).
           let d = emit_event ''access.revoke'' (Some (v_id v)) (Some (vault_uri n)) (Some (uuid_str revoker_uid))
                 [(''vault'', JStr n), (''user'', JStr (u_name target)), (''source_key'', json_opt_str source_key),
                  (''target_user_id'', JStr (uuid_str (u_id target))),
                  (''target_is_admin'', JBool (u_is_admin target)), (''public_access'', JStr (v_public v)),
                  (''direct_removed'', JBool (had_direct
                     \<and> (source_key = None \<or> source_key = Some DIRECT_SOURCE_KEY) \<and> o_applied oc)),
                  (''effective_role'', json_opt_str (o_effective oc)),
                  (''previous_effective_role'', json_opt_str (o_previous oc)), (''applied'', JBool (o_applied oc))] d
           in rbind (sync_vault_user (v_id v) (u_id target) d) (\<lambda>d.
              Inr (\<lparr>rv_vault = n, rv_user = u_name target, rv_user_id = uuid_str (u_id target),
                    rv_source_key = source_key, rv_effective_role = o_effective oc,
                    rv_applied = o_applied oc\<rparr>, d))))))"

definition revoke_access ::
  "request_ctx \<Rightarrow> string \<Rightarrow> string \<Rightarrow> string option \<Rightarrow> string option \<Rightarrow> string option \<Rightarrow> int option
   \<Rightarrow> (db \<Rightarrow> db) \<Rightarrow> db \<Rightarrow> revoke_reply result \<times> db" where
  "revoke_access rq revoker n username user_id source_key revision other d =
     (case check_vault_access rq revoker n ''admin'' False None d of
        Inl e \<Rightarrow> (Inl e, d)
      | Inr (_, _, d1) \<Rightarrow>
          (case source_key of
             None \<Rightarrow> commit (revoke_tx revoker n username user_id None revision) (other d1)
           | Some k \<Rightarrow>
               (case validate_source_key k of
                  Inl _ \<Rightarrow> (Inl (Validation ''source_key''), d1)
                | Inr key \<Rightarrow> commit (revoke_tx revoker n username user_id (Some key) revision) (other d1))))"

section \<open>Ownership\<close>

record transfer_reply =
  tr_vault :: string
  tr_new_owner :: string
  tr_new_owner_id :: string

definition transfer_tx ::
  "string \<Rightarrow> string \<Rightarrow> string option \<Rightarrow> string option \<Rightarrow> vault_access \<Rightarrow> db \<Rightarrow> (transfer_reply \<times> db) result" where
  "transfer_tx owner_id n username user_id info d =
     (let caller_is_system_admin =
            List.member [''system_admin'', ''write_policy_admin_bypass''] (va_source info)
      in rbind (of_option (NotFound ''Vault'') (vault_by_name d n)) (\<lambda>v.
         rbind (of_option PyValueError (parse_uuid owner_id)) (\<lambda>current_owner.
         if v_owner v \<noteq> Some current_owner \<and> \<not> caller_is_system_admin
         then Inl (Conflict ''owner_id moved during transfer'')
         else rbind (resolve_user_reference d username user_id) (\<lambda>new_owner.
           let d = update_vault_by_id (v_id v) (\<lambda>r. r\<lparr>v_owner := Some (u_id new_owner)\<rparr>) d
           in rbind (apply_contribution (v_id v) (v_owner v) ''admin'' DIRECT_SOURCE_KEY
                       (Some (u_id new_owner)) None d) (\<lambda>(_, d).
              let d = snd (remove_all_contributions (v_id v) (u_id new_owner) d);
                  d = emit_event ''access.transfer_ownership'' (Some (v_id v)) (Some (vault_uri n))
                        (Some (uuid_str current_owner))
                        [(''vault'', JStr n),
                         (''from_user_id'', JStr (case v_owner v of Some o1 \<Rightarrow> uuid_str o1 | None \<Rightarrow> ''None'')),
                         (''to_username'', JStr (u_name new_owner)),
                         (''to_user_id'', JStr (uuid_str (u_id new_owner)))] d
              in rbind (sync_vault_user (v_id v) (u_id new_owner) d) (\<lambda>d.
                 rbind (case v_owner v of None \<Rightarrow> Inl PyValueError
                        | Some o1 \<Rightarrow> sync_vault_user (v_id v) o1 d) (\<lambda>d.
                 Inr (\<lparr>tr_vault = n, tr_new_owner = u_name new_owner,
                       tr_new_owner_id = uuid_str (u_id new_owner)\<rparr>, d))))))))"

definition transfer_ownership ::
  "request_ctx \<Rightarrow> string \<Rightarrow> string \<Rightarrow> string option \<Rightarrow> string option \<Rightarrow> (db \<Rightarrow> db) \<Rightarrow> db
   \<Rightarrow> transfer_reply result \<times> db" where
  "transfer_ownership rq owner_id n username user_id other d =
     after_check rq owner_id n ''owner'' other (transfer_tx owner_id n username user_id) d"

section \<open>Vault status and metadata\<close>

definition set_status :: "string \<Rightarrow> string \<Rightarrow> db \<Rightarrow> ((string \<times> string) \<times> db) result" where
  "set_status n status d =
     Inr ((n, status), update_vault_by_name n (\<lambda>r. r\<lparr>v_status := status\<rparr>) d)"

definition archive_vault ::
  "request_ctx \<Rightarrow> string \<Rightarrow> string \<Rightarrow> (db \<Rightarrow> db) \<Rightarrow> db \<Rightarrow> (string \<times> string) result \<times> db" where
  "archive_vault rq user_id n other d =
     after_check rq user_id n ''owner'' other (\<lambda>_. set_status n ''archived'') d"

definition unarchive_vault ::
  "request_ctx \<Rightarrow> string \<Rightarrow> string \<Rightarrow> (db \<Rightarrow> db) \<Rightarrow> db \<Rightarrow> (string \<times> string) result \<times> db" where
  "unarchive_vault rq user_id n other d =
     after_check rq user_id n ''owner'' other (\<lambda>_. set_status n ''active'') d"

definition update_metadata_tx ::
  "request_ctx \<Rightarrow> string \<Rightarrow> string \<Rightarrow> string option \<Rightarrow> string option \<Rightarrow> db \<Rightarrow> (bool \<times> db) result" where
  "update_metadata_tx rq user_id n description public_access d =
     rbind (check_vault_access rq user_id n ''owner'' False None d) (\<lambda>(_, _, d).
     let d = update_vault_by_name n (\<lambda>r.
           (case public_access of Some p \<Rightarrow> (\<lambda>r. r\<lparr>v_public := p\<rparr>) | None \<Rightarrow> id)
             ((case description of Some t \<Rightarrow> (\<lambda>r. r\<lparr>v_description := Some t\<rparr>) | None \<Rightarrow> id) r)) d
     in case public_access of
          None \<Rightarrow> Inr (True, d)
        | Some p \<Rightarrow>
            (case vault_by_name d n of
               None \<Rightarrow> Inr (True, d)
             | Some v \<Rightarrow> rbind (on_public_access_change_in_conn (v_id v) p d) (\<lambda>d. Inr (True, d))))"

definition update_vault_metadata ::
  "request_ctx \<Rightarrow> string \<Rightarrow> string \<Rightarrow> string option \<Rightarrow> string option \<Rightarrow> db \<Rightarrow> bool result \<times> db" where
  "update_vault_metadata rq user_id n description public_access d =
     (case (case public_access of None \<Rightarrow> Inr '''' | Some p \<Rightarrow> validate_public_access p) of
        Inl e \<Rightarrow> (Inl e, d)
      | Inr _ \<Rightarrow>
          if description = None \<and> public_access = None
          then (case check_vault_access rq user_id n ''owner'' False None d of
                  Inl e \<Rightarrow> (Inl e, d) | Inr (_, _, d1) \<Rightarrow> (Inr False, d1))
          else commit (update_metadata_tx rq user_id n description public_access) d)"

definition set_public_tx ::
  "request_ctx \<Rightarrow> string \<Rightarrow> string \<Rightarrow> string \<Rightarrow> db \<Rightarrow> (string \<times> db) result" where
  "set_public_tx rq user_id n level d =
     rbind (check_vault_access rq user_id n ''owner'' False None d) (\<lambda>(_, _, d).
     rbind (of_option (NotFound ''Vault'') (vault_by_name d n)) (\<lambda>v.
     if v_status v = ''archived'' then Inl (Forbidden ''archived'')
     else rbind (on_public_access_change_in_conn (v_id v) level
                   (update_vault_by_id (v_id v) (\<lambda>r. r\<lparr>v_public := level\<rparr>) d)) (\<lambda>d.
       Inr (level, emit_event ''vault.public_access'' (Some (v_id v)) (Some (vault_uri n)) (Some user_id)
              [(''vault'', JStr n), (''level'', JStr level)] d))))"

definition set_public_access ::
  "request_ctx \<Rightarrow> string \<Rightarrow> string \<Rightarrow> string \<Rightarrow> db \<Rightarrow> string result \<times> db" where
  "set_public_access rq user_id n level d =
     (case validate_public_access level of
        Inl e \<Rightarrow> (Inl e, d)
      | Inr level \<Rightarrow> commit (set_public_tx rq user_id n level) d)"

end
