(* ===== verification/WritePolicy.thy ===== *)
theory WritePolicy
  imports AccessCheck Uri
begin

text \<open>
  Write-managed vaults: the statements of \<^verbatim>\<open>backend/app/repositories/vault_write_policy_repo.py\<close> and the
  admin operations of \<^verbatim>\<open>backend/app/services/access_service.py\<close> over them. Each operation is one
  transaction; one that raises leaves the catalog as it was.
\<close>

section \<open>The repository\<close>

definition policy_conflict :: "policy_row \<Rightarrow> policy_row \<Rightarrow> policy_row" where
  "policy_conflict new old = old\<lparr>p_managed_by := p_managed_by new, p_note := p_note new\<rparr>"

definition grant_conflict :: "grant_row \<Rightarrow> grant_row \<Rightarrow> grant_row" where
  "grant_conflict new old = old\<lparr>g_actions := g_actions new, g_granted_by := g_granted_by new\<rparr>"

interpretation policy_table: unique_table p_vault policy_conflict
  by unfold_locales (simp add: policy_conflict_def)

interpretation grants_table: unique_table grant_key grant_conflict
  by unfold_locales (simp add: grant_key_def grant_conflict_def)

definition set_policy :: "uuid \<Rightarrow> string \<Rightarrow> string \<Rightarrow> string option \<Rightarrow> db \<Rightarrow> policy_row \<times> db" where
  "set_policy v managed_by created_by note d =
     (let row = \<lparr>p_vault = v, p_managed_by = managed_by, p_note = note, p_created_by = created_by\<rparr>;
          d1 = d\<lparr>policies := tab_upsert p_vault policy_conflict row (policies d)\<rparr>
      in (case get_policy d1 v of Some p \<Rightarrow> p | None \<Rightarrow> row, d1))"

text \<open>The grants reference the policy row with \<open>ON DELETE CASCADE\<close>.\<close>

definition remove_policy :: "uuid \<Rightarrow> db \<Rightarrow> db" where
  "remove_policy v d =
     d\<lparr>policies := tab_delete p_vault v (policies d), grants := filter (\<lambda>g. g_vault g \<noteq> v) (grants d)\<rparr>"

definition add_grant :: "uuid \<Rightarrow> uuid \<Rightarrow> string \<Rightarrow> string list \<Rightarrow> db \<Rightarrow> db result" where
  "add_grant v t granted_by write_actions d =
     (if get_policy d v = None \<or> tab_get t_id t (tokens d) = None
      then Inl (DbIntegrity ''vault_write_grants'')
      else Inr (d\<lparr>grants := tab_upsert grant_key grant_conflict
             \<lparr>g_vault = v, g_token = t, g_granted_by = granted_by, g_actions = write_actions\<rparr> (grants d)\<rparr>))"

definition remove_grant :: "uuid \<Rightarrow> uuid \<Rightarrow> db \<Rightarrow> db" where
  "remove_grant v t d = d\<lparr>grants := tab_delete grant_key (v, t) (grants d)\<rparr>"

section \<open>Grantable tokens\<close>

text \<open>The token joined with its user, as the grant operations select it.\<close>

definition token_with_user :: "db \<Rightarrow> uuid \<Rightarrow> (token_row \<times> user_row) option" where
  "token_with_user d t =
     Option.bind (tab_get t_id t (tokens d)) (\<lambda>r. map_option (Pair r) (user_by_id d (t_user r)))"

definition is_unexpired :: "db \<Rightarrow> token_row \<Rightarrow> bool" where
  "is_unexpired d t = (case t_expires t of None \<Rightarrow> True | Some x \<Rightarrow> clock d < x)"

definition validate_action_limited_grant_token ::
  "db \<Rightarrow> token_row \<Rightarrow> user_row \<Rightarrow> string \<Rightarrow> unit result" where
  "validate_action_limited_grant_token d t u vault_name =
     (if t_class t \<noteq> ''service'' then Inl (Validation ''service key required'')
      else if u_kind u \<noteq> ''service'' \<or> u_is_admin u then Inl (Validation ''non-admin service account required'')
      else if u_status u \<noteq> ''active'' then Inl (Validation ''active service account required'')
      else if \<not> is_unexpired d t then Inl (Validation ''unexpired service key required'')
      else if set (case t_scopes t of None \<Rightarrow> [] | Some ss \<Rightarrow> ss) \<noteq> {''write''}
      then Inl (Validation ''exactly the coarse scope write required'')
      else (case from_db_json (t_scope t) of
              Inl _ \<Rightarrow> Inl (Validation ''invalid token Vault scope'')
            | Inr None \<Rightarrow> Inl (Validation ''token scoped to exactly the target Vault required'')
            | Inr (Some scope) \<Rightarrow>
                if vs_prefixes scope \<noteq> [] \<or> vs_extra scope \<noteq> {vault_name}
                then Inl (Validation ''token scoped to exactly the target Vault required'')
                else Inr ()))"

section \<open>Operations\<close>

record policy_reply =
  pr_vault :: string
  pr_managed_by :: string
  pr_note :: "string option"
  pr_grants :: "(string \<times> string list) list"

definition json_grants :: "(string \<times> string list) list \<Rightarrow> json" where
  "json_grants gs =
     JArr (map (\<lambda>(t, as). JObj [(''token_id'', JStr t), (''write_actions'', JArr (map JStr as))]) gs)"

text \<open>The vault under its lock, refused when it is an external mirror.\<close>

definition lock_markable :: "string \<Rightarrow> db \<Rightarrow> vault_row result" where
  "lock_markable n d =
     rbind (of_option (NotFound ''Vault'') (vault_by_name d n)) (\<lambda>v.
     if is_mirror d (v_id v) then Inl (Conflict ''external-git mirror'') else Inr v)"

definition set_vault_write_policy ::
  "string \<Rightarrow> string \<Rightarrow> string \<Rightarrow> string option \<Rightarrow> db \<Rightarrow> (policy_reply \<times> db) result" where
  "set_vault_write_policy actor n managed_by note d =
     (let managed_by = py_strip managed_by in
      if managed_by = '''' then Inl (Validation ''managed_by must not be empty'')
      else rbind (lock_markable n d) (\<lambda>v.
        let (policy, d) = set_policy (v_id v) managed_by actor note d
        in Inr (\<lparr>pr_vault = n, pr_managed_by = p_managed_by policy, pr_note = p_note policy, pr_grants = []\<rparr>,
                emit_event ''vault.write_policy_changed'' (Some (v_id v)) (Some (vault_uri n)) (Some actor)
                  [(''action'', JStr ''marked''), (''vault'', JStr n), (''managed_by'', JStr managed_by),
                   (''note'', json_opt_str note)] d)))"

text \<open>The loop over the requested grants: parse each token id, refuse a duplicate, normalize the actions.\<close>

fun normalize_bootstrap_grants ::
  "uuid list \<Rightarrow> (string \<times> string list option) list \<Rightarrow> (uuid \<times> string list) list result" where
  "normalize_bootstrap_grants seen [] = Inr []"
| "normalize_bootstrap_grants seen ((token_id, write_actions) # gs) =
     (case parse_uuid token_id of
        None \<Rightarrow> Inl (Validation ''invalid token_id'')
      | Some tid \<Rightarrow>
          if List.member seen tid then Inl (Validation ''duplicate bootstrap token_id'')
          else rbind (normalize_write_actions write_actions) (\<lambda>actions.
               rbind (normalize_bootstrap_grants (tid # seen) gs) (\<lambda>rest. Inr ((tid, actions) # rest))))"

definition check_grant_token :: "string \<Rightarrow> uuid \<times> string list \<Rightarrow> db \<Rightarrow> unit result" where
  "check_grant_token n ta d =
     (case token_with_user d (fst ta) of
        None \<Rightarrow> Inl (NotFound ''Token'')
      | Some (t, u) \<Rightarrow>
          if snd ta \<noteq> [WRITE_ACTION_WILDCARD] then validate_action_limited_grant_token d t u n else Inr ())"

definition bootstrap_vault_write_policy ::
  "string \<Rightarrow> string \<Rightarrow> string \<Rightarrow> (string \<times> string list option) list \<Rightarrow> string option \<Rightarrow> db
   \<Rightarrow> (policy_reply \<times> db) result" where
  "bootstrap_vault_write_policy actor n managed_by gs note d =
     (let managed_by = py_strip managed_by in
      if managed_by = '''' then Inl (Validation ''managed_by must not be empty'')
      else if gs = [] then Inl (Validation ''bootstrap grants must not be empty'')
      else rbind (normalize_bootstrap_grants [] gs) (\<lambda>normalized.
        rbind (lock_markable n d) (\<lambda>v.
        rbind (map_res (\<lambda>ta. check_grant_token n ta d) normalized) (\<lambda>_.
        let (policy, d) = set_policy (v_id v) managed_by actor note d
        in rbind (fold_res (\<lambda>(tid, actions). add_grant (v_id v) tid actor actions) normalized d) (\<lambda>d.
           let results = map (\<lambda>(tid, actions). (uuid_str tid, actions)) normalized
           in Inr (\<lparr>pr_vault = n, pr_managed_by = p_managed_by policy, pr_note = p_note policy,
                    pr_grants = results\<rparr>,
                   emit_event ''vault.write_policy_changed'' (Some (v_id v)) (Some (vault_uri n)) (Some actor)
                     [(''action'', JStr ''bootstrapped''), (''vault'', JStr n), (''managed_by'', JStr managed_by),
                      (''note'', json_opt_str note), (''grants'', json_grants results)] d))))))"

definition remove_vault_write_policy :: "string \<Rightarrow> string \<Rightarrow> db \<Rightarrow> (bool \<times> db) result" where
  "remove_vault_write_policy actor n d =
     rbind (of_option (NotFound ''Vault'') (vault_by_name d n)) (\<lambda>v.
     let existing = get_policy d (v_id v)
     in Inr (existing \<noteq> None,
             emit_event ''vault.write_policy_changed'' (Some (v_id v)) (Some (vault_uri n)) (Some actor)
               [(''action'', JStr ''unmarked''), (''vault'', JStr n),
                (''managed_by'', json_opt_str (map_option p_managed_by existing))]
               (remove_policy (v_id v) d)))"

definition add_vault_write_grant ::
  "string \<Rightarrow> string \<Rightarrow> string \<Rightarrow> string list option \<Rightarrow> db \<Rightarrow> (string list option \<times> db) result" where
  "add_vault_write_grant actor n token_id write_actions d =
     rbind (normalize_write_actions write_actions) (\<lambda>actions.
     rbind (of_option (Validation ''invalid token_id'') (parse_uuid token_id)) (\<lambda>tid.
     rbind (of_option (NotFound ''Vault'') (vault_by_name d n)) (\<lambda>v.
     rbind (of_option (Conflict ''not write-managed'') (get_policy d (v_id v))) (\<lambda>policy.
     rbind (check_grant_token n (tid, actions) d) (\<lambda>_.
     rbind (add_grant (v_id v) tid actor actions d) (\<lambda>d.
     Inr (map_option (\<lambda>_. actions) write_actions,
          emit_event ''vault.write_policy_changed'' (Some (v_id v)) (Some (vault_uri n)) (Some actor)
            [(''action'', JStr ''grant_added''), (''vault'', JStr n), (''managed_by'', JStr (p_managed_by policy)),
             (''token_id'', JStr token_id), (''write_actions'', JArr (map JStr actions))] d)))))))"

definition remove_vault_write_grant :: "string \<Rightarrow> string \<Rightarrow> string \<Rightarrow> db \<Rightarrow> db result" where
  "remove_vault_write_grant actor n token_id d =
     rbind (of_option (Validation ''invalid token_id'') (parse_uuid token_id)) (\<lambda>tid.
     rbind (of_option (NotFound ''Vault'') (vault_by_name d n)) (\<lambda>v.
     rbind (of_option (NotFound ''Token'') (tab_get t_id tid (tokens d))) (\<lambda>_.
     let policy = get_policy d (v_id v)
     in Inr (emit_event ''vault.write_policy_changed'' (Some (v_id v)) (Some (vault_uri n)) (Some actor)
               [(''action'', JStr ''grant_removed''), (''vault'', JStr n),
                (''managed_by'', json_opt_str (map_option p_managed_by policy)), (''token_id'', JStr token_id)]
               (remove_grant (v_id v) tid d)))))"

section \<open>The invariant of the write policies\<close>

definition policy_ok :: "db \<Rightarrow> bool" where
  "policy_ok d \<longleftrightarrow> unique_by p_vault (policies d) \<and> unique_by grant_key (grants d)
     \<and> (\<forall>g\<in>set (grants d). get_policy d (g_vault g) \<noteq> None \<and> tab_get t_id (g_token g) (tokens d) \<noteq> None
          \<and> (g_actions g = [''*''] \<or> g_actions g = [''file_upload'']))"

lemma normalize_write_actions_Inr:
  "normalize_write_actions acts = Inr ys \<Longrightarrow> ys = [''*''] \<or> ys = [''file_upload'']"
  using write_actions_facts by (cases acts) auto

lemma emit_event_fields [simp]:
  "policies (emit_event k v r a p d) = policies d" "grants (emit_event k v r a p d) = grants d"
  "tokens (emit_event k v r a p d) = tokens d" "users (emit_event k v r a p d) = users d"
  "vaults (emit_event k v r a p d) = vaults d" "access (emit_event k v r a p d) = access d"
  "contribs (emit_event k v r a p d) = contribs d" "mirrors (emit_event k v r a p d) = mirrors d"
  "clock (emit_event k v r a p d) = clock d" "pg_edges (emit_event k v r a p d) = pg_edges d"
  "pg_roles (emit_event k v r a p d) = pg_roles d"
  by (simp_all add: emit_event_def)

lemma get_policy_cong: "policies d' = policies d \<Longrightarrow> get_policy d' v = get_policy d v"
  by (simp add: get_policy_def)

lemma policy_ok_cong:
  "policies d' = policies d \<Longrightarrow> grants d' = grants d \<Longrightarrow> tokens d' = tokens d \<Longrightarrow> policy_ok d' = policy_ok d"
  by (simp add: policy_ok_def get_policy_def)

lemma policy_ok_emit [simp]: "policy_ok (emit_event k v r a p d) = policy_ok d"
  by (rule policy_ok_cong) simp_all

lemma set_policy_snd:
  "snd (set_policy v m c nt d) =
     d\<lparr>policies := tab_upsert p_vault policy_conflict
         \<lparr>p_vault = v, p_managed_by = m, p_note = nt, p_created_by = c\<rparr> (policies d)\<rparr>"
  by (simp add: set_policy_def Let_def)

lemma get_set_policy:
  "get_policy (snd (set_policy v m c nt d)) v' =
     (if v' = v then Some (case get_policy d v of
          None \<Rightarrow> \<lparr>p_vault = v, p_managed_by = m, p_note = nt, p_created_by = c\<rparr>
        | Some old \<Rightarrow> old\<lparr>p_managed_by := m, p_note := nt\<rparr>)
      else get_policy d v')"
  by (simp add: set_policy_snd get_policy_def policy_table.get_upsert policy_conflict_def split: option.split)

lemma set_policy_fst:
  "fst (set_policy v m c nt d) =
     (case get_policy d v of
        None \<Rightarrow> \<lparr>p_vault = v, p_managed_by = m, p_note = nt, p_created_by = c\<rparr>
      | Some old \<Rightarrow> old\<lparr>p_managed_by := m, p_note := nt\<rparr>)"
  using get_set_policy [of v m c nt d v] by (simp add: set_policy_def Let_def split: option.splits)

lemma set_policy_ok: "policy_ok d \<Longrightarrow> policy_ok (snd (set_policy v m c nt d))"
  using policy_table.unique_upsert
  by (auto simp: policy_ok_def get_set_policy) (auto simp: set_policy_snd)

lemma remove_policy_ok:
  assumes "policy_ok d"
  shows "policy_ok (remove_policy v d)" and "get_policy (remove_policy v d) v = None"
    and "v' \<noteq> v \<Longrightarrow> get_policy (remove_policy v d) v' = get_policy d v'"
proof -
  have u: "unique_by p_vault (policies d)" using assms by (simp add: policy_ok_def)
  then have g: "get_policy (remove_policy v d) v' = (if v' = v then None else get_policy d v')" for v'
    using policy_table.get_delete [OF u, of v' v] by (simp add: get_policy_def remove_policy_def)
  then show "get_policy (remove_policy v d) v = None"
    and "v' \<noteq> v \<Longrightarrow> get_policy (remove_policy v d) v' = get_policy d v'" by simp_all
  have "unique_by p_vault (policies (remove_policy v d))" and "unique_by grant_key (grants (remove_policy v d))"
    using assms policy_table.unique_delete by (auto simp: remove_policy_def policy_ok_def intro: unique_by_filter)
  moreover have "\<forall>x\<in>set (grants (remove_policy v d)). x \<in> set (grants d) \<and> g_vault x \<noteq> v"
    and "tokens (remove_policy v d) = tokens d" by (simp_all add: remove_policy_def)
  ultimately show "policy_ok (remove_policy v d)" using assms g by (auto simp: policy_ok_def)
qed

lemma add_grant_Inr:
  "add_grant v t by1 acts d = Inr d' \<longleftrightarrow>
     get_policy d v \<noteq> None \<and> tab_get t_id t (tokens d) \<noteq> None \<and>
     d' = d\<lparr>grants := tab_upsert grant_key grant_conflict
            \<lparr>g_vault = v, g_token = t, g_granted_by = by1, g_actions = acts\<rparr> (grants d)\<rparr>"
  by (auto simp: add_grant_def)

lemma add_grant_ok:
  assumes "policy_ok d" and "add_grant v t by1 acts d = Inr d'" and "acts = [''*''] \<or> acts = [''file_upload'']"
  shows "policy_ok d'"
proof -
  have d': "d' = d\<lparr>grants := tab_upsert grant_key grant_conflict
            \<lparr>g_vault = v, g_token = t, g_granted_by = by1, g_actions = acts\<rparr> (grants d)\<rparr>"
    and f: "get_policy d v \<noteq> None" "tab_get t_id t (tokens d) \<noteq> None"
    using assms(2) by (auto simp: add_grant_Inr)
  have "unique_by grant_key (grants d')" using assms(1) grants_table.unique_upsert by (simp add: d' policy_ok_def)
  moreover have "get_policy d' x = get_policy d x" and "tokens d' = tokens d" for x
    by (simp_all add: d' get_policy_def)
  moreover have "get_policy d (g_vault g) \<noteq> None \<and> tab_get t_id (g_token g) (tokens d) \<noteq> None
      \<and> (g_actions g = [''*''] \<or> g_actions g = [''file_upload''])" if "g \<in> set (grants d')" for g
    using that assms(1,3) f unfolding d'
    by (auto simp: policy_ok_def grant_conflict_def grant_key_def dest!: grants_table.in_upsert)
  ultimately show ?thesis using assms(1) by (auto simp: policy_ok_def d')
qed

lemma get_grant_actions_add:
  "add_grant v t by1 acts d = Inr d' \<Longrightarrow>
     get_grant_actions d' v' t' = (if (v', t') = (v, t) then Some (set acts) else get_grant_actions d v' t')"
  by (auto simp: add_grant_Inr get_grant_actions_def grants_table.get_upsert grant_key_def grant_conflict_def
      split: option.splits)

lemma remove_grant_ok:
  assumes "policy_ok d"
  shows "policy_ok (remove_grant v t d)"
    and "get_grant_actions (remove_grant v t d) v' t' =
      (if (v', t') = (v, t) then None else get_grant_actions d v' t')"
proof -
  have u: "unique_by grant_key (grants d)" using assms by (simp add: policy_ok_def)
  show "policy_ok (remove_grant v t d)"
    using assms grants_table.unique_delete
    by (auto simp: policy_ok_def remove_grant_def get_policy_def set_tab_delete)
  show "get_grant_actions (remove_grant v t d) v' t' =
      (if (v', t') = (v, t) then None else get_grant_actions d v' t')"
    using grants_table.get_delete [OF u, of "(v', t')" "(v, t)"]
    by (simp add: get_grant_actions_def remove_grant_def)
qed

section \<open>Histories of admin operations\<close>

inductive policy_step :: "db \<Rightarrow> db \<Rightarrow> bool" where
  mark: "set_vault_write_policy actor n m nt d = Inr (reply, d') \<Longrightarrow> policy_step d d'"
| bootstrap: "bootstrap_vault_write_policy actor n m gs nt d = Inr (reply, d') \<Longrightarrow> policy_step d d'"
| unmark: "remove_vault_write_policy actor n d = Inr (was, d') \<Longrightarrow> policy_step d d'"
| add: "add_vault_write_grant actor n t acts d = Inr (reply2, d') \<Longrightarrow> policy_step d d'"
| remove: "remove_vault_write_grant actor n t d = Inr d' \<Longrightarrow> policy_step d d'"

lemma lock_markable_Inr: "lock_markable n d = Inr v \<longleftrightarrow> vault_by_name d n = Some v \<and> \<not> is_mirror d (v_id v)"
  by (auto simp: lock_markable_def result_iff split: if_splits)

text \<open>What the operations write: policies, grants and exactly one audit event.\<close>

definition audited :: "string \<Rightarrow> string \<Rightarrow> db \<Rightarrow> db \<Rightarrow> bool" where
  "audited actor n d d' \<longleftrightarrow>
     (\<exists>v pl ps gs. vault_by_name d n = Some v \<and>
        d' = emit_event ''vault.write_policy_changed'' (Some (v_id v)) (Some (vault_uri n)) (Some actor) pl
               (d\<lparr>policies := ps, grants := gs\<rparr>))"

lemma add_grants_facts:
  assumes "fold_res (\<lambda>(t, as). add_grant v t by1 as) gs d = Inr d'" and "distinct (map fst gs)"
  shows "d' = d\<lparr>grants := grants d'\<rparr>"
    and "get_grant_actions d' v' t' =
      (case map_of gs t' of Some as \<Rightarrow> if v' = v then Some (set as) else get_grant_actions d v' t'
       | None \<Rightarrow> get_grant_actions d v' t')"
    and "policy_ok d \<Longrightarrow> \<forall>(t, as)\<in>set gs. as = [''*''] \<or> as = [''file_upload''] \<Longrightarrow> policy_ok d'"
proof -
  have "d' = d\<lparr>grants := grants d'\<rparr> \<and> get_grant_actions d' v' t' =
      (case map_of gs t' of Some as \<Rightarrow> if v' = v then Some (set as) else get_grant_actions d v' t'
       | None \<Rightarrow> get_grant_actions d v' t') \<and>
      (policy_ok d \<longrightarrow> (\<forall>(t, as)\<in>set gs. as = [''*''] \<or> as = [''file_upload'']) \<longrightarrow> policy_ok d')"
    using assms
  proof (induction gs arbitrary: d)
    case (Cons g gs)
    obtain t as where g: "g = (t, as)" by fastforce
    with Cons.prems obtain d1 where a: "add_grant v t by1 as d = Inr d1"
      and r: "fold_res (\<lambda>(t, as). add_grant v t by1 as) gs d1 = Inr d'" by (auto simp: rbind_Inr_iff)
    from a have d1: "d1 = d\<lparr>grants := grants d1\<rparr>" by (auto simp: add_grant_Inr)
    have t: "map_of gs t = None" using Cons.prems(2) g by (simp add: map_of_eq_None_iff)
    note ih = Cons.IH [OF r]
    have "d' = d1\<lparr>grants := grants d'\<rparr>" using ih Cons.prems(2) by simp
    then have "d' = d\<lparr>grants := grants d'\<rparr>" by (subst (asm) d1) simp
    moreover have "policy_ok d1" if "policy_ok d" "as = [''*''] \<or> as = [''file_upload'']"
      using add_grant_ok [OF that(1) a that(2)] .
    ultimately show ?case using ih Cons.prems(2) g t get_grant_actions_add [OF a, of v' t']
      by (auto split: option.splits)
  qed simp
  then show "d' = d\<lparr>grants := grants d'\<rparr>"
    and "get_grant_actions d' v' t' =
      (case map_of gs t' of Some as \<Rightarrow> if v' = v then Some (set as) else get_grant_actions d v' t'
       | None \<Rightarrow> get_grant_actions d v' t')"
    and "policy_ok d \<Longrightarrow> \<forall>(t, as)\<in>set gs. as = [''*''] \<or> as = [''file_upload''] \<Longrightarrow> policy_ok d'" by blast+
qed

lemma normalize_bootstrap_facts:
  "normalize_bootstrap_grants seen gs = Inr ns \<Longrightarrow>
   distinct (map fst ns) \<and> set (map fst ns) \<inter> set seen = {} \<and>
   (\<forall>(t, as)\<in>set ns. as = [''*''] \<or> as = [''file_upload''])"
proof (induction seen gs arbitrary: ns rule: normalize_bootstrap_grants.induct)
  case (2 seen token_id acts gs)
  from 2(2) obtain tid as rest where ns: "ns = (tid, as) # rest" and n: "tid \<notin> set seen"
    and p: "parse_uuid token_id = Some tid"
    and a: "normalize_write_actions acts = Inr as" and r: "normalize_bootstrap_grants (tid # seen) gs = Inr rest"
    by (auto simp: rbind_Inr_iff split: option.splits if_splits)
  have "distinct (map fst rest) \<and> set (map fst rest) \<inter> set (tid # seen) = {} \<and>
     (\<forall>(t, as)\<in>set rest. as = [''*''] \<or> as = [''file_upload''])"
    using "2.IH" [OF p _ r] n by simp
  then show ?case using ns n normalize_write_actions_Inr [OF a] by auto
qed simp

text \<open>The four facts a successful bootstrap rests on.\<close>

lemma bootstrap_Inr:
  assumes "bootstrap_vault_write_policy actor n m gs nt d = Inr (reply, d')"
  obtains v ns d1 where "vault_by_name d n = Some v" "\<not> is_mirror d (v_id v)"
    "normalize_bootstrap_grants [] gs = Inr ns" "\<forall>ta\<in>set ns. check_grant_token n ta d = Inr ()"
    "fold_res (\<lambda>(t, as). add_grant (v_id v) t actor as) ns (snd (set_policy (v_id v) (py_strip m) actor nt d)) = Inr d1"
    "\<exists>pl. d' = emit_event ''vault.write_policy_changed'' (Some (v_id v)) (Some (vault_uri n)) (Some actor) pl d1"
proof -
  from assms obtain ns v us where a: "normalize_bootstrap_grants [] gs = Inr ns" "lock_markable n d = Inr v"
    "map_res (\<lambda>ta. check_grant_token n ta d) ns = Inr us"
    and rest: "(let (policy, d) = set_policy (v_id v) (py_strip m) actor nt d
        in rbind (fold_res (\<lambda>(tid, actions). add_grant (v_id v) tid actor actions) ns d) (\<lambda>d.
           let results = map (\<lambda>(tid, actions). (uuid_str tid, actions)) ns
           in Inr (\<lparr>pr_vault = n, pr_managed_by = p_managed_by policy, pr_note = p_note policy,
                    pr_grants = results\<rparr>,
                   emit_event ''vault.write_policy_changed'' (Some (v_id v)) (Some (vault_uri n)) (Some actor)
                     [(''action'', JStr ''bootstrapped''), (''vault'', JStr n), (''managed_by'', JStr (py_strip m)),
                      (''note'', json_opt_str nt), (''grants'', json_grants results)] d))) = Inr (reply, d')"
    by (auto simp: bootstrap_vault_write_policy_def Let_def rbind_Inr_iff split: if_splits)
  from a(3) have "\<forall>ta\<in>set ns. check_grant_token n ta d = Inr ()"
    using map_res_InrD [OF a(3)] by auto
  moreover from rest obtain d1 where
    "fold_res (\<lambda>(t, as). add_grant (v_id v) t actor as) ns (snd (set_policy (v_id v) (py_strip m) actor nt d)) = Inr d1"
    "\<exists>pl. d' = emit_event ''vault.write_policy_changed'' (Some (v_id v)) (Some (vault_uri n)) (Some actor) pl d1"
    by (auto simp: Let_def case_prod_beta rbind_Inr_iff)
  ultimately show thesis using a that by (auto simp: lock_markable_Inr)
qed

lemma bootstrap_d1:
  assumes "fold_res (\<lambda>(t, as). add_grant v t actor as) ns (snd (set_policy v m actor nt d)) = Inr d1"
    and "distinct (map fst ns)" and "\<forall>(t, as)\<in>set ns. as = [''*''] \<or> as = [''file_upload'']"
  shows "policy_ok d \<Longrightarrow> policy_ok d1" and "get_policy d1 v \<noteq> None"
    and "d1 = d\<lparr>policies := policies d1, grants := grants d1\<rparr>"
    and "get_grant_actions d1 v' t' =
      (case map_of ns t' of Some as \<Rightarrow> if v' = v then Some (set as) else get_grant_actions d v' t'
       | None \<Rightarrow> get_grant_actions d v' t')"
proof -
  note f = add_grants_facts [OF assms(1,2)]
  have p: "policies d1 = policies (snd (set_policy v m actor nt d))" by (subst f(1)) simp
  have "get_policy d1 v = get_policy (snd (set_policy v m actor nt d)) v" using p by (rule get_policy_cong)
  then show "get_policy d1 v \<noteq> None" by (simp add: get_set_policy)
  show "policy_ok d \<Longrightarrow> policy_ok d1" using f(3) set_policy_ok assms(3) by blast
  show "d1 = d\<lparr>policies := policies d1, grants := grants d1\<rparr>"
    unfolding p by (subst f(1)) (simp add: set_policy_snd)
  have "get_grant_actions (snd (set_policy v m actor nt d)) a b = get_grant_actions d a b" for a b
    by (simp add: set_policy_snd get_grant_actions_def)
  then show "get_grant_actions d1 v' t' =
      (case map_of ns t' of Some as \<Rightarrow> if v' = v then Some (set as) else get_grant_actions d v' t'
       | None \<Rightarrow> get_grant_actions d v' t')"
    using f(2) [of v' t'] by (simp split: option.splits)
qed

lemma auditedI:
  "vault_by_name d n = Some v \<Longrightarrow>
   audited actor n d (emit_event ''vault.write_policy_changed'' (Some (v_id v)) (Some (vault_uri n)) (Some actor) pl
     (d\<lparr>policies := ps, grants := gs\<rparr>))"
  unfolding audited_def by blast

lemma auditedI':
  "vault_by_name d n = Some v \<Longrightarrow>
   audited actor n d (emit_event ''vault.write_policy_changed'' (Some (v_id v)) (Some (vault_uri n)) (Some actor) pl
     (d\<lparr>policies := ps\<rparr>))"
  using auditedI [where d = d and gs = "grants d" and ps = ps] by (cases d) simp

lemma add_vault_write_grant_Inr:
  assumes "add_vault_write_grant actor n t acts d = Inr (reply, d')"
  obtains v tid as d1 pl where "vault_by_name d n = Some v" "normalize_write_actions acts = Inr as"
    "add_grant (v_id v) tid actor as d = Inr d1"
    "d' = emit_event ''vault.write_policy_changed'' (Some (v_id v)) (Some (vault_uri n)) (Some actor) pl d1"
  using assms by (force simp: add_vault_write_grant_def result_iff)

text \<open>One operation: the invariant, the frame and the audit event.\<close>

lemma policy_step_facts:
  assumes "policy_step d d'" and "policy_ok d"
  shows "policy_ok d' \<and> (\<exists>actor n. audited actor n d d')"
  using assms
proof (cases rule: policy_step.cases)
  case (mark actor n m nt reply)
  then obtain v where "vault_by_name d n = Some v"
    and "\<exists>pl. d' = emit_event ''vault.write_policy_changed'' (Some (v_id v)) (Some (vault_uri n)) (Some actor) pl
      (snd (set_policy (v_id v) (py_strip m) actor nt d))"
    by (auto simp: set_vault_write_policy_def Let_def case_prod_beta lock_markable_Inr result_iff split: if_splits)
  moreover from this have "audited actor n d d'" by (auto simp: set_policy_snd intro!: auditedI')
  ultimately show ?thesis using set_policy_ok [OF assms(2)] by auto
next
  case (bootstrap actor n m gs nt reply)
  then obtain v ns d1 where b: "vault_by_name d n = Some v" "normalize_bootstrap_grants [] gs = Inr ns"
    "fold_res (\<lambda>(t, as). add_grant (v_id v) t actor as) ns (snd (set_policy (v_id v) (py_strip m) actor nt d)) = Inr d1"
    and e: "\<exists>pl. d' = emit_event ''vault.write_policy_changed'' (Some (v_id v)) (Some (vault_uri n)) (Some actor) pl d1"
    by (auto elim!: bootstrap_Inr)
  from normalize_bootstrap_facts [OF b(2)] have "distinct (map fst ns)"
    and "\<forall>(t, as)\<in>set ns. as = [''*''] \<or> as = [''file_upload'']" by auto
  note f = bootstrap_d1 [OF b(3) this]
  from e obtain pl where d': "d' = emit_event ''vault.write_policy_changed'' (Some (v_id v)) (Some (vault_uri n))
      (Some actor) pl d1" by blast
  have "audited actor n d d'" unfolding d' by (subst f(3)) (rule auditedI [OF b(1)])
  then show ?thesis using f(1) [OF assms(2)] d' by auto
next
  case (unmark actor n was)
  then obtain v where "vault_by_name d n = Some v"
    and "\<exists>pl. d' = emit_event ''vault.write_policy_changed'' (Some (v_id v)) (Some (vault_uri n)) (Some actor) pl
      (remove_policy (v_id v) d)"
    by (auto simp: remove_vault_write_policy_def Let_def result_iff)
  moreover from this have "audited actor n d d'" by (auto simp: remove_policy_def intro!: auditedI)
  ultimately show ?thesis using remove_policy_ok(1) [OF assms(2)] by auto
next
  case (add actor n t acts reply2)
  then obtain v tid as d1 pl where v: "vault_by_name d n = Some v" and as: "normalize_write_actions acts = Inr as"
    and g: "add_grant (v_id v) tid actor as d = Inr d1"
    and d': "d' = emit_event ''vault.write_policy_changed'' (Some (v_id v)) (Some (vault_uri n)) (Some actor) pl d1"
    by (rule add_vault_write_grant_Inr)
  obtain gs where "d1 = d\<lparr>policies := policies d, grants := gs\<rparr>" using g by (auto simp: add_grant_Inr)
  then have "audited actor n d d'" unfolding d' by (simp only:) (rule auditedI [OF v])
  then show ?thesis using add_grant_ok [OF assms(2) g normalize_write_actions_Inr [OF as]] d' by auto
next
  case (remove actor n t)
  then obtain v tid where "vault_by_name d n = Some v"
    and "\<exists>pl. d' = emit_event ''vault.write_policy_changed'' (Some (v_id v)) (Some (vault_uri n)) (Some actor) pl
      (remove_grant (v_id v) tid d)"
    by (auto simp: remove_vault_write_grant_def Let_def result_iff)
  moreover from this have "audited actor n d d'"
    using auditedI [where d = d and ps = "policies d"] by (auto simp: remove_grant_def)
  ultimately show ?thesis using remove_grant_ok(1) [OF assms(2)] by auto
qed

lemma audited_fields:
  assumes "audited actor n d d'"
  shows "users d' = users d" "vaults d' = vaults d" "tokens d' = tokens d" "access d' = access d"
    "contribs d' = contribs d" "pg_roles d' = pg_roles d" "pg_edges d' = pg_edges d" "mirrors d' = mirrors d"
    and "\<exists>ev. events d' = events d @ [ev] \<and> ev_kind ev = ''vault.write_policy_changed'' \<and> ev_actor ev = Some actor"
  using assms by (auto simp: audited_def emit_event_def)

text \<open>
  C28: every history of the five admin operations is safe and fully audited. After any number of them,
  in any order, each grant belongs to a marked vault and an existing token and carries exactly one of
  the two action sets; the outbox has gained exactly one \<open>vault.write_policy_changed\<close> event per
  operation; and users, vaults, tokens and memberships are as they were.
\<close>

theorem write_policy_history:
  assumes "(policy_step ^^ k) d d'" and "policy_ok d"
  shows "policy_ok d' \<and>
    (\<exists>evs. events d' = events d @ evs \<and> length evs = k \<and>
       list_all (\<lambda>ev. ev_kind ev = ''vault.write_policy_changed'') evs) \<and>
    users d' = users d \<and> vaults d' = vaults d \<and> tokens d' = tokens d \<and> access d' = access d"
  using assms
proof (induction k arbitrary: d')
  case (Suc k)
  then obtain d1 where d1: "(policy_step ^^ k) d d1" and s: "policy_step d1 d'" by auto
  note ih = Suc.IH [OF d1 Suc.prems(2)]
  with policy_step_facts [OF s] obtain actor n where ok: "policy_ok d'" and a: "audited actor n d1 d'" by blast
  from ih obtain evs where "events d1 = events d @ evs" "length evs = k"
    "list_all (\<lambda>ev. ev_kind ev = ''vault.write_policy_changed'') evs" by blast
  moreover from audited_fields(9) [OF a] obtain ev where "events d' = events d1 @ [ev]"
    and "ev_kind ev = ''vault.write_policy_changed''" by blast
  ultimately have "events d' = events d @ evs @ [ev] \<and> length (evs @ [ev]) = Suc k \<and>
      list_all (\<lambda>ev. ev_kind ev = ''vault.write_policy_changed'') (evs @ [ev])" by simp
  then show ?case using ok ih audited_fields(1-4) [OF a] by metis
qed simp

section \<open>What marking and unmarking do to the access decision\<close>

lemma mutating_role: "List.member MUTATING_ROLES r \<Longrightarrow> List.member ROLES r"
  by (auto simp: MUTATING_ROLES_def ROLES_def)

lemma check_vault_access_ok:
  "List.member ROLES r \<Longrightarrow> is_ok (check_vault_access rq user_id n r allow_archived action d) \<longleftrightarrow>
    (\<exists>uid v. parse_uuid user_id = Some uid \<and> vault_by_name d n = Some v \<and>
      may_access rq uid v r allow_archived action d)"
  using check_impl_Inr [of r rq user_id n allow_archived action d]
  by (auto simp: check_vault_access_def is_ok_iff result_iff)

definition scope_allows :: "request_ctx \<Rightarrow> string \<Rightarrow> bool" where
  "scope_allows rq n = (case rq_scope rq of None \<Rightarrow> True | Some s \<Rightarrow> permits s n)"

text \<open>
  C22: a bootstrap is a complete cutover. In the very catalog it leaves, the vault is marked and a
  mutation passes exactly for the requests that carry a token of the supplied list with the action it
  was given (or a token granted earlier, whose grant is kept), or an unscoped system admin: the owner
  and every other caller are locked out at once, and no supplied writer is ever locked out in between.
\<close>

theorem bootstrap_cutover:
  assumes "policy_ok d" and "bootstrap_vault_write_policy actor n m gs nt d = Inr (reply, d')"
    and "normalize_bootstrap_grants [] gs = Inr ns" and "vault_by_name d n = Some v"
    and "List.member MUTATING_ROLES r"
  shows "policy_ok d' \<and> get_policy d' (v_id v) \<noteq> None \<and>
    (is_ok (check_vault_access rq user_id n r allow_archived action d') \<longleftrightarrow>
      (\<exists>uid. parse_uuid user_id = Some uid \<and> vault_open d v r allow_archived \<and> scope_allows rq n \<and>
        ((\<exists>t. current_token_uuid rq = Some t \<and>
            (case map_of ns t of
               Some acts \<Rightarrow> ''*'' \<in> set acts \<or> (\<exists>a\<in>set acts. action = Some a)
             | None \<Rightarrow> is_granted d (v_id v) t action)) \<or>
         (rq_scope rq = None \<and> is_admin d uid))))"
proof -
  from assms(2-4) obtain d1 pl where
    f: "fold_res (\<lambda>(t, as). add_grant (v_id v) t actor as) ns (snd (set_policy (v_id v) (py_strip m) actor nt d)) = Inr d1"
    and d': "d' = emit_event ''vault.write_policy_changed'' (Some (v_id v)) (Some (vault_uri n)) (Some actor) pl d1"
    by (auto elim!: bootstrap_Inr)
  from normalize_bootstrap_facts [OF assms(3)] have "distinct (map fst ns)"
    and "\<forall>(t, as)\<in>set ns. as = [''*''] \<or> as = [''file_upload'']" by auto
  note b = bootstrap_d1 [OF f this]
  have n: "v_name v = n" using assms(4) by (rule tab_get_key)
  have fld: "vaults d1 = vaults d" "users d1 = users d" "mirrors d1 = mirrors d" by (subst b(3), simp)+
  have fields: "vault_by_name d' n = Some v" "is_admin d' u = is_admin d u" "is_mirror d' w = is_mirror d w" for u w
    using assms(4) by (simp_all add: d' is_admin_def is_mirror_def fld)
  have p: "get_policy d' (v_id v) \<noteq> None" using b(2) by (simp add: d' get_policy_def)
  have "is_granted d' (v_id v) t action \<longleftrightarrow> (case map_of ns t of
      Some acts \<Rightarrow> ''*'' \<in> set acts \<or> (\<exists>a\<in>set acts. action = Some a)
    | None \<Rightarrow> is_granted d (v_id v) t action)" for t
    using b(4) [of "v_id v" t] by (auto simp: d' is_granted_def get_grant_actions_def split: option.splits)
  then show ?thesis
    using b(1) [OF assms(1)] p assms(5) fields n
    by (auto simp: d' check_vault_access_ok [OF mutating_role] may_access_def vault_open_def scope_allows_def
        split: option.splits)
qed

text \<open>
  C29: unmarking is a true rollback. After \<open>remove_vault_write_policy\<close> the vault has no policy and no
  grant, and every request is decided by the archive and mirror locks, the token's scope and the
  caller's own roles, as if it had never been marked.
\<close>

theorem unmark_restores:
  assumes "policy_ok d" and "remove_vault_write_policy actor n d = Inr (was, d')" and "List.member ROLES r"
  shows "policy_ok d' \<and>
    (is_ok (check_vault_access rq user_id n r allow_archived action d') \<longleftrightarrow>
      (\<exists>uid v. parse_uuid user_id = Some uid \<and> vault_by_name d n = Some v \<and>
         vault_open d v r allow_archived \<and> (List.member MUTATING_ROLES r \<longrightarrow> scope_allows rq n) \<and>
         role_level (Some r) \<le> authority d uid v))"
proof -
  from assms(2) obtain v pl where v: "vault_by_name d n = Some v"
    and d': "d' = emit_event ''vault.write_policy_changed'' (Some (v_id v)) (Some (vault_uri n)) (Some actor) pl
      (remove_policy (v_id v) d)"
    by (auto simp: remove_vault_write_policy_def Let_def result_iff)
  have n: "v_name v = n" using v by (rule tab_get_key)
  have fields: "vault_by_name d' n = Some v" "is_mirror d' w = is_mirror d w" "authority d' u v = authority d u v" for u w
    using v by (simp_all add: d' remove_policy_def is_mirror_def authority_def is_admin_def access_role_def)
  have "get_policy d' (v_id v) = None"
    using remove_policy_ok(2) [OF assms(1)] by (simp add: d' get_policy_def)
  then show ?thesis
    using remove_policy_ok(1) [OF assms(1)] fields v n
    by (auto simp: d' check_vault_access_ok [OF assms(3)] may_access_def vault_open_def scope_allows_def
        split: option.splits)
qed

section \<open>Witnesses\<close>

lemma example_policy_ok: "policy_ok example_db"
  by (simp add: policy_ok_def example_db_def unique_by_def)

lemma normalize_upload: "normalize_write_actions (Some [''file_upload'']) = Inr [''file_upload'']"
  using write_actions_facts [of "[''file_upload'']" "[''file_upload'']"]
  by (simp add: py_strip_def strip_by_def rstrip_by_def is_space_def)

lemma example_normalized:
  "normalize_bootstrap_grants [] [(uuid_str 70, Some [''file_upload''])] = Inr [(70, [''file_upload''])]"
  by (simp add: normalize_upload)

lemma example_bootstrap:
  "\<exists>reply d'. bootstrap_vault_write_policy ''root'' ''eng'' ''collector'' [(uuid_str 70, Some [''file_upload''])]
     None example_db = Inr (reply, d')"
proof -
  have "py_strip ''collector'' = ''collector''"
    by (simp add: py_strip_def strip_by_def rstrip_by_def is_space_def)
  moreover have "lock_markable ''eng'' example_db = Inr (hd (vaults example_db))"
    by (simp add: lock_markable_def example_db_def tab_get_def is_mirror_def)
  moreover have "check_grant_token ''eng'' (70, [''file_upload'']) example_db = Inr ()"
    by (simp add: check_grant_token_def token_with_user_def example_db_def tab_get_def
        validate_action_limited_grant_token_def WRITE_ACTION_WILDCARD_def is_unexpired_def from_db_json_def
        obj_get_def)
  moreover have "\<exists>d1. add_grant (v_id (hd (vaults example_db))) 70 ''root'' [''file_upload'']
      (snd (set_policy (v_id (hd (vaults example_db))) ''collector'' ''root'' None example_db)) = Inr d1"
    by (simp add: add_grant_def get_set_policy) (simp add: set_policy_snd example_db_def tab_get_def)
  ultimately show ?thesis
    by (auto simp: bootstrap_vault_write_policy_def normalize_upload case_prod_beta Let_def)
qed

theorem write_policy_history_witness:
  "\<exists>d'. (policy_step ^^ 1) example_db d' \<and> policy_ok d' \<and> (\<exists>ev. events d' = [ev])"
proof -
  obtain reply d' where "bootstrap_vault_write_policy ''root'' ''eng'' ''collector''
      [(uuid_str 70, Some [''file_upload''])] None example_db = Inr (reply, d')"
    using example_bootstrap by blast
  then have s: "(policy_step ^^ 1) example_db d'" by (auto intro: policy_step.bootstrap)
  have "events example_db = []" by (simp add: example_db_def)
  then show ?thesis using write_policy_history [OF s example_policy_ok] s by (auto simp: length_Suc_conv)
qed

theorem bootstrap_cutover_witness:
  "\<exists>reply d'. bootstrap_vault_write_policy ''root'' ''eng'' ''collector'' [(uuid_str 70, Some [''file_upload''])]
     None example_db = Inr (reply, d') \<and> policy_ok d' \<and>
     \<not> is_ok (check_vault_access \<lparr>rq_scope = None, rq_token = None, rq_authorized = None, rq_authorized_id = None\<rparr>
       (uuid_str 1) ''eng'' ''writer'' False None d')"
proof -
  obtain reply d' where b: "bootstrap_vault_write_policy ''root'' ''eng'' ''collector''
      [(uuid_str 70, Some [''file_upload''])] None example_db = Inr (reply, d')"
    using example_bootstrap by blast
  have v: "vault_by_name example_db ''eng'' = Some (hd (vaults example_db))"
    by (simp add: example_db_def tab_get_def)
  have r: "List.member MUTATING_ROLES ''writer''" by (simp add: MUTATING_ROLES_def)
  have "\<not> is_admin example_db 1" by (simp add: is_admin_def example_db_def tab_get_def)
  then show ?thesis
    using bootstrap_cutover [OF example_policy_ok b example_normalized v r,
        of "\<lparr>rq_scope = None, rq_token = None, rq_authorized = None, rq_authorized_id = None\<rparr>" "uuid_str 1" False None]
      b by (simp add: current_token_uuid_def)
qed

theorem unmark_restores_witness:
  "\<exists>was d'. remove_vault_write_policy ''root'' ''eng'' example_db = Inr (was, d') \<and> policy_ok d'"
proof -
  obtain was d' where u: "remove_vault_write_policy ''root'' ''eng'' example_db = Inr (was, d')"
    by (simp add: remove_vault_write_policy_def example_db_def tab_get_def Let_def)
  have r: "List.member ROLES ''reader''" by (simp add: ROLES_def)
  show ?thesis using unmark_restores [OF example_policy_ok u r] u by blast
qed

end
