(* ===== verification/AccessSystem.thy ===== *)
theory AccessSystem
  imports AccessGrants WritePolicy
begin

text \<open>
  The composed access system: vault creation (the catalog part of \<open>create_vault\<close> in
  \<^verbatim>\<open>backend/app/services/native_document_service.py\<close>), every transaction that changes authority as one
  step relation, and the invariant that ties the catalog to the PostgreSQL roles. It holds in every
  state that any interleaving of requests can reach.
\<close>

section \<open>Creating a vault\<close>

definition validate_vault_name :: "string \<Rightarrow> unit result" where
  "validate_vault_name name =
     require (list_all (\<lambda>seg. seg \<noteq> '''' \<and> list_all scope_name_char seg) (py_split CHR ''-'' name))
       (Validation ''vault name'')"

text \<open>\<open>VaultRepository.create\<close>: \<open>vid\<close> is the fresh \<open>uuid4\<close>.\<close>

definition insert_vault :: "uuid \<Rightarrow> string \<Rightarrow> string \<Rightarrow> uuid option \<Rightarrow> string \<Rightarrow> db \<Rightarrow> db result" where
  "insert_vault vid name description owner public_access d =
     (if vault_by_id d vid \<noteq> None then Inl (DbIntegrity ''vaults_pkey'')
      else if vault_by_name d name \<noteq> None then Inl (Conflict ''vault name unavailable'')
      else if (case owner of None \<Rightarrow> False | Some u \<Rightarrow> user_by_id d u = None) then Inl (DbIntegrity ''vaults_owner'')
      else Inr (d\<lparr>vaults := vaults d @ [\<lparr>v_id = vid, v_name = name, v_owner = owner, v_status = ''active'',
                   v_public = public_access, v_description = Some description\<rparr>]\<rparr>))"

text \<open>
  The seeded guide is a document: what the document ledger answers (the new resource and revision ids, or
  an error, which rolls the creation back) is the argument \<open>ledger\<close>; its rows are in none of these tables
  but the event it publishes.
\<close>

definition seed_vault_skill :: "uuid \<Rightarrow> string \<Rightarrow> uuid option \<Rightarrow> (uuid \<times> string) result \<Rightarrow> db \<Rightarrow> db result" where
  "seed_vault_skill vid vault owner ledger d =
     rbind ledger (\<lambda>(resource_id, revision_id).
       let path = ''overview/vault-skill.md'' in
       Inr (emit_event ''document.put'' (Some vid) (Some (doc_uri vault path))
              (Some (case owner of Some u \<Rightarrow> uuid_str u | None \<Rightarrow> ''unknown''))
              [(''vault'', JStr vault), (''path'', JStr path), (''collection'', JStr ''overview''),
               (''resource_id'', JStr (uuid_str resource_id)), (''revision_id'', JStr revision_id),
               (''commit_hash'', JStr revision_id), (''previous_commit'', JNull)] d))"

definition create_vault ::
  "uuid \<Rightarrow> string \<Rightarrow> string \<Rightarrow> string option \<Rightarrow> string \<Rightarrow> (uuid \<times> string) result \<Rightarrow> db \<Rightarrow> (string \<times> db) result" where
  "create_vault vid name description owner_id public_access ledger d =
     rbind (validate_vault_name name) (\<lambda>_.
     rbind (validate_public_access public_access) (\<lambda>public_access.
     rbind (require (vault_by_name d name = None) (Conflict ''vault name unavailable'')) (\<lambda>_.
     rbind (case owner_id of None \<Rightarrow> Inr None
            | Some s \<Rightarrow> if s = '''' then Inr None
                        else map_sum id Some (of_option PyValueError (parse_uuid s))) (\<lambda>uid.
     rbind (insert_vault vid name description uid public_access d) (\<lambda>d.
     rbind (on_vault_create_in_conn vid uid d) (\<lambda>d.
     rbind (on_public_access_change_in_conn vid public_access d) (\<lambda>d.
     rbind (seed_vault_skill vid name uid ledger d) (\<lambda>d.
     Inr (uuid_str vid, d)))))))))"

section \<open>The invariant\<close>

text \<open>A pair is a member of exactly the group the catalog gives it, outside the pairs in \<open>P\<close>.\<close>

definition projected_except :: "(uuid \<times> uuid) set \<Rightarrow> db \<Rightarrow> bool" where
  "projected_except P d \<longleftrightarrow>
     (\<forall>v u s. (v, u) \<notin> P \<longrightarrow> s \<in> set SCOPES \<longrightarrow>
        ((group_name v s, user_role_name u) \<in> members d \<longleftrightarrow> wanted_scope v u d = Some s))"

definition public_projected :: "db \<Rightarrow> bool" where
  "public_projected d \<longleftrightarrow>
     (\<forall>r\<in>set (vaults d). \<forall>s\<in>set SCOPES.
        (group_name (v_id r) s, AUTHENTICATED_ROLE) \<in> members d \<longleftrightarrow> public_access_scope (v_public r) = Some s)"

definition contribs_fk :: "db \<Rightarrow> bool" where
  "contribs_fk d \<longleftrightarrow> c_vault ` set (contribs d) \<subseteq> v_id ` set (vaults d)"

definition sys_ok :: "db \<Rightarrow> bool" where
  "sys_ok d \<longleftrightarrow> unique_by v_id (vaults d) \<and> unique_by v_name (vaults d) \<and> access_ok d \<and> policy_ok d
     \<and> contribs_fk d \<and> projected_except {} d \<and> public_projected d"

section \<open>Frames\<close>

text \<open>Writes of contributions leave everything but the two access tables alone.\<close>

definition acl_only :: "db \<Rightarrow> db \<Rightarrow> bool" where
  "acl_only d d' \<longleftrightarrow> d'\<lparr>access := [], contribs := []\<rparr> = d\<lparr>access := [], contribs := []\<rparr>"

lemma acl_only_fields:
  assumes "acl_only d d'"
  shows "users d' = users d" "vaults d' = vaults d" "tokens d' = tokens d" "policies d' = policies d"
    "grants d' = grants d" "events d' = events d" "pg_edges d' = pg_edges d" "members d' = members d"
    "mirrors d' = mirrors d" "pg_roles d' = pg_roles d" "pg_user d' = pg_user d"
proof -
  show "users d' = users d" "vaults d' = vaults d" "tokens d' = tokens d" "policies d' = policies d"
    "grants d' = grants d" "events d' = events d" "mirrors d' = mirrors d"
    "pg_roles d' = pg_roles d" "pg_user d' = pg_user d"
    using assms by (cases d; cases d'; simp add: acl_only_def)+
  show e: "pg_edges d' = pg_edges d" using assms by (cases d; cases d'; simp add: acl_only_def)
  then show "members d' = members d" by (simp add: members_def)
qed

lemma materialize_acl_only: "acl_only d d1 \<Longrightarrow> acl_only d (snd (materialize v u d1))"
  unfolding acl_only_def by (subst materialize_frame) (cases d1; simp)

lemma apply_contribution_acl:
  assumes "apply_contribution v user role key g revision d = Inr (oc, d')"
  shows "acl_only d d'"
  using assms
proof (cases rule: apply_contribution_cases)
  case (wrote u rv)
  have "acl_only d (contrib_write v u role key g rv d)" by (simp add: acl_only_def contrib_write_def)
  then show ?thesis using materialize_acl_only wrote by simp
qed (simp add: acl_only_def)

lemma remove_contribution_acl:
  assumes "remove_contribution v u key revision d = Inr (oc, d')"
  shows "acl_only d d'"
  using assms
proof (cases rule: remove_contribution_cases)
  case (removed c)
  have "acl_only d (d\<lparr>contribs := tab_delete contrib_key (v, u, key) (contribs d)\<rparr>)" by (simp add: acl_only_def)
  then show ?thesis using materialize_acl_only removed by simp
qed (simp add: acl_only_def)

lemma remove_all_acl: "acl_only d (snd (remove_all_contributions v u d))"
proof -
  have "acl_only d (d\<lparr>contribs := filter (\<lambda>c. \<not> (c_vault c = v \<and> c_user c = u)) (contribs d)\<rparr>)"
    by (simp add: acl_only_def)
  then show ?thesis using materialize_acl_only by (simp add: remove_all_contributions_def Let_def case_prod_beta)
qed

lemma wanted_scope_cong:
  "users d' = users d \<Longrightarrow> vaults d' = vaults d \<Longrightarrow> access_role d' v u = access_role d v u \<Longrightarrow>
   wanted_scope v u d' = wanted_scope v u d"
  unfolding wanted_scope_def by (cases "vault_by_id d v"; cases "user_by_id d u") simp_all

lemma access_role_cong: "access d' = access d \<Longrightarrow> access_role d' v u = access_role d v u"
  by (simp add: access_role_def)

lemma projected_exceptD:
  "projected_except P d \<Longrightarrow> (v, u) \<notin> P \<Longrightarrow> s \<in> set SCOPES \<Longrightarrow>
   (group_name v s, user_role_name u) \<in> members d \<longleftrightarrow> wanted_scope v u d = Some s"
  unfolding projected_except_def by blast

lemma projected_mono: "projected_except P d \<Longrightarrow> P \<subseteq> Q \<Longrightarrow> projected_except Q d"
  unfolding projected_except_def by blast

text \<open>A change that moves the wanted scope of the pairs in \<open>Q\<close> only costs those pairs.\<close>

lemma projected_change:
  assumes "projected_except P d" and "members d' = members d"
    and "\<And>v u. (v, u) \<notin> Q \<Longrightarrow> wanted_scope v u d' = wanted_scope v u d"
  shows "projected_except (P \<union> Q) d'"
  using assms unfolding projected_except_def by simp

lemma projected_sync:
  assumes "projected_except P d" and "sync_vault_user v u d = Inr d'"
  shows "projected_except (P - {(v, u)}) d'"
  unfolding projected_except_def
proof (intro allI impI)
  fix v' u' s
  assume p: "(v', u') \<notin> P - {(v, u)}" and s: "s \<in> set SCOPES"
  note st = sync_vault_user_steps [OF assms(2)]
  note c = catalogD [OF st(1)]
  have w: "wanted_scope v' u' d' = wanted_scope v' u' d"
    by (rule wanted_scope_cong) (simp_all add: c access_role_cong [OF c(5)])
  show "(group_name v' s, user_role_name u') \<in> members d' \<longleftrightarrow> wanted_scope v' u' d' = Some s"
  proof (cases "(v', u') = (v, u)")
    case True
    then show ?thesis using st(2) [OF s] w by simp
  next
    case False
    then have "(group_name v' s, user_role_name u') \<notin> pair_edges v (user_role_name u)"
      by (auto simp: pair_edges_def)
    then have "(group_name v' s, user_role_name u') \<in> members d' \<longleftrightarrow>
        (group_name v' s, user_role_name u') \<in> members d"
      using st(3) by simp
    then show ?thesis using projected_exceptD [OF assms(1) _ s, of v' u'] False p w by simp
  qed
qed

lemma public_change:
  assumes "public_projected d" and "members d' = members d" and "vaults d' = vaults d"
  shows "public_projected d'"
  using assms by (simp add: public_projected_def)

lemma public_sync:
  assumes "public_projected d" and "sync_vault_user v u d = Inr d'"
  shows "public_projected d'"
proof -
  note st = sync_vault_user_steps [OF assms(2)]
  have "(g, AUTHENTICATED_ROLE) \<in> members d' \<longleftrightarrow> (g, AUTHENTICATED_ROLE) \<in> members d" for g
    using st(3) [of g AUTHENTICATED_ROLE] by (auto simp: pair_edges_def)
  then show ?thesis using assms(1) catalogD(2) [OF st(1)] by (simp add: public_projected_def)
qed

lemma access_ok_cong:
  "access d' = access d \<Longrightarrow> contribs d' = contribs d \<Longrightarrow> access_ok d' = access_ok d"
  by (simp add: access_ok_def access_role_def basis_roles_def pair_contribs_def)

lemmas sys_parts = sys_ok_def policy_ok_cong access_ok_cong contribs_fk_def

text \<open>The part of the invariant that does not speak of the PostgreSQL roles.\<close>

definition cat_ok :: "db \<Rightarrow> bool" where
  "cat_ok d \<longleftrightarrow> unique_by v_id (vaults d) \<and> unique_by v_name (vaults d) \<and> access_ok d \<and> policy_ok d \<and> contribs_fk d"

lemma sys_ok_iff: "sys_ok d \<longleftrightarrow> cat_ok d \<and> projected_except {} d \<and> public_projected d"
  by (auto simp: sys_ok_def cat_ok_def)

lemma cat_ok_cong:
  "vaults d' = vaults d \<Longrightarrow> access d' = access d \<Longrightarrow> contribs d' = contribs d \<Longrightarrow> policies d' = policies d \<Longrightarrow>
   grants d' = grants d \<Longrightarrow> tokens d' = tokens d \<Longrightarrow> cat_ok d' = cat_ok d"
  using access_ok_cong [of d' d] policy_ok_cong [of d' d] by (simp add: cat_ok_def contribs_fk_def)

lemma cat_ok_emit [simp]: "cat_ok (emit_event k v r a p d) = cat_ok d"
  by (rule cat_ok_cong) simp_all

lemma members_emit [simp]: "members (emit_event k v r a p d) = members d"
  by (simp add: members_def)

lemma projected_emit [simp]: "projected_except P (emit_event k v r a p d) = projected_except P d"
proof -
  have "wanted_scope v' u' (emit_event k v r a p d) = wanted_scope v' u' d" for v' u'
    by (rule wanted_scope_cong) (simp_all add: access_role_def)
  then show ?thesis by (simp add: projected_except_def)
qed

lemma public_emit [simp]: "public_projected (emit_event k v r a p d) = public_projected d"
  by (simp add: public_projected_def)

lemma cat_ok_catalog:
  assumes "catalog d' = catalog d"
  shows "cat_ok d' = cat_ok d"
  by (rule cat_ok_cong) (simp_all add: catalogD [OF assms])

lemma cat_ok_acl:
  assumes "cat_ok d" and "acl_only d d'" and "access_ok d'" and "c_vault ` set (contribs d') \<subseteq> v_id ` set (vaults d)"
  shows "cat_ok d'"
  using assms policy_ok_cong [of d' d] by (simp add: cat_ok_def contribs_fk_def acl_only_fields [OF assms(2)])

lemma apply_contribution_cat:
  assumes "cat_ok d" and "apply_contribution v (Some u) role key g revision d = Inr (oc, d')"
  shows "cat_ok d'"
proof (rule cat_ok_acl [OF assms(1) apply_contribution_acl [OF assms(2)]])
  show "access_ok d'" using apply_contribution_facts [OF _ assms(2)] assms(1) by (simp add: cat_ok_def)
  show "c_vault ` set (contribs d') \<subseteq> v_id ` set (vaults d)"
    using assms(2)
  proof (cases rule: apply_contribution_cases)
    case (wrote u rv)
    have "v \<in> v_id ` set (vaults d)" using wrote by (auto simp: contrib_fk_ok_def tab_get_None_iff)
    moreover have "contribs d' = contribs (contrib_write v u role key g rv d)" using wrote by simp
    ultimately show ?thesis
      using assms(1) by (auto simp: contrib_write_def cat_ok_def contribs_fk_def contrib_conflict_def
          contrib_key_def dest!: contrib_table.in_upsert)
  qed (use assms(1) in \<open>simp add: cat_ok_def contribs_fk_def\<close>)
qed

lemma remove_contribution_cat:
  assumes "cat_ok d" and "remove_contribution v u key revision d = Inr (oc, d')"
  shows "cat_ok d'"
proof (rule cat_ok_acl [OF assms(1) remove_contribution_acl [OF assms(2)]])
  show "access_ok d'" using remove_contribution_facts [OF _ assms(2)] assms(1) by (simp add: cat_ok_def)
  show "c_vault ` set (contribs d') \<subseteq> v_id ` set (vaults d)"
    using assms(2)
  proof (cases rule: remove_contribution_cases)
    case (removed c)
    have "contribs d' = tab_delete contrib_key (v, u, key) (contribs d)" using removed by simp
    then show ?thesis using assms(1) by (auto simp: cat_ok_def contribs_fk_def set_tab_delete)
  qed (use assms(1) in \<open>simp add: cat_ok_def contribs_fk_def\<close>)
qed

lemma remove_all_cat:
  assumes "cat_ok d"
  shows "cat_ok (snd (remove_all_contributions v u d))"
proof (rule cat_ok_acl [OF assms remove_all_acl])
  obtain oc d' where r: "remove_all_contributions v u d = (oc, d')" by fastforce
  show "access_ok (snd (remove_all_contributions v u d))"
    using remove_all_contributions_facts [OF _ r] assms r by (simp add: cat_ok_def)
  have "contribs (snd (remove_all_contributions v u d)) = filter (\<lambda>c. \<not> (c_vault c = v \<and> c_user c = u)) (contribs d)"
    by (simp add: remove_all_contributions_def Let_def case_prod_beta)
  then show "c_vault ` set (contribs (snd (remove_all_contributions v u d))) \<subseteq> v_id ` set (vaults d)"
    using assms by (auto simp: cat_ok_def contribs_fk_def)
qed

section \<open>Every transaction keeps the invariant\<close>

lemma sync_sys:
  assumes "cat_ok d" and "projected_except {(v, u)} d" and "public_projected d"
    and "sync_vault_user v u d = Inr d'"
  shows "sys_ok d'"
  using cat_ok_catalog [OF sync_vault_user_steps(1) [OF assms(4)]] projected_sync [OF assms(2,4)]
    public_sync [OF assms(3,4)] assms(1) by (simp add: sys_ok_iff)

lemma projected_acl:
  assumes "projected_except P d" and "acl_only d d'"
    and "\<And>v' u'. (v', u') \<noteq> (v, u) \<Longrightarrow> access_role d' v' u' = access_role d v' u'"
  shows "projected_except (insert (v, u) P) d'"
proof -
  note f = acl_only_fields [OF assms(2)]
  have "projected_except (P \<union> {(v, u)}) d'"
    by (rule projected_change [OF assms(1) f(8)]) (use assms(3) in \<open>auto intro!: wanted_scope_cong f\<close>)
  then show ?thesis by simp
qed

lemma public_acl: "public_projected d \<Longrightarrow> acl_only d d' \<Longrightarrow> public_projected d'"
  by (rule public_change) (simp_all add: acl_only_fields)

lemma grant_tx_Inr:
  assumes "grant_tx granter n username role user_id key revision d = Inr (reply, d')"
  obtains v granter_uid target oc d1 pl where "lock_administered granter n d = Inr (v, granter_uid)"
    "resolve_user_reference d username user_id = Inr target"
    "apply_contribution (v_id v) (Some (u_id target)) role key (Some granter_uid) revision d = Inr (oc, d1)"
    "sync_vault_user (v_id v) (u_id target)
       (emit_event ''access.grant'' (Some (v_id v)) (Some (vault_uri n)) (Some (uuid_str granter_uid)) pl d1) = Inr d'"
    "gr_effective_role reply = o_effective oc" "gr_applied reply = o_applied oc"
    "gr_user_id reply = uuid_str (u_id target)"
  using assms by (force simp: grant_tx_def result_iff)

lemma grant_tx_sys:
  assumes "sys_ok d" and "grant_tx granter n username role user_id key revision d = Inr (reply, d')"
  shows "sys_ok d'"
  using assms(2)
proof (rule grant_tx_Inr)
  fix v granter_uid target oc d1 pl
  assume a: "apply_contribution (v_id v) (Some (u_id target)) role key (Some granter_uid) revision d = Inr (oc, d1)"
    and s: "sync_vault_user (v_id v) (u_id target)
       (emit_event ''access.grant'' (Some (v_id v)) (Some (vault_uri n)) (Some (uuid_str granter_uid)) pl d1) = Inr d'"
  have i: "cat_ok d" "projected_except {} d" "public_projected d" using assms(1) by (simp_all add: sys_ok_iff)
  note f = apply_contribution_facts [OF _ a]
  have "projected_except {(v_id v, u_id target)} d1"
    by (rule projected_acl [OF i(2) apply_contribution_acl [OF a]]) (use f i(1) in \<open>auto simp: cat_ok_def\<close>)
  moreover have "cat_ok d1" by (rule apply_contribution_cat [OF i(1) a])
  moreover have "public_projected d1" by (rule public_acl [OF i(3) apply_contribution_acl [OF a]])
  ultimately show ?thesis using sync_sys [OF _ _ _ s] by simp
qed

lemma revoke_tx_Inr:
  assumes "revoke_tx revoker n username user_id key revision d = Inr (reply, d')"
  obtains v revoker_uid target oc d1 pl where "lock_administered revoker n d = Inr (v, revoker_uid)"
    "resolve_user_reference d username user_id = Inr target" "v_owner v \<noteq> Some (u_id target)"
    "(case key of None \<Rightarrow> Inr (remove_all_contributions (v_id v) (u_id target) d)
      | Some k \<Rightarrow> remove_contribution (v_id v) (u_id target) k revision d) = Inr (oc, d1)"
    "sync_vault_user (v_id v) (u_id target)
       (emit_event ''access.revoke'' (Some (v_id v)) (Some (vault_uri n)) (Some (uuid_str revoker_uid)) pl d1) = Inr d'"
    "rv_effective_role reply = o_effective oc" "rv_applied reply = o_applied oc"
    "rv_user_id reply = uuid_str (u_id target)"
  using assms by (force simp: revoke_tx_def result_iff Let_def split: if_splits)

text \<open>Both kinds of removal, seen from the invariant.\<close>

lemma removal_facts:
  assumes "cat_ok d" and "(case key of None \<Rightarrow> Inr (remove_all_contributions v u d)
      | Some k \<Rightarrow> remove_contribution v u k revision d) = Inr (oc, d1)"
  shows "acl_only d d1" and "cat_ok d1" and "(v', u') \<noteq> (v, u) \<Longrightarrow> access_role d1 v' u' = access_role d v' u'"
    and "o_effective oc = access_role d1 v u"
proof -
  have ok: "access_ok d" using assms(1) by (simp add: cat_ok_def)
  have "acl_only d d1 \<and> cat_ok d1 \<and> ((v', u') \<noteq> (v, u) \<longrightarrow> access_role d1 v' u' = access_role d v' u') \<and>
      o_effective oc = access_role d1 v u" for v' u'
  proof (cases key)
    case None
    then have r: "remove_all_contributions v u d = (oc, d1)" using assms(2) by simp
    then show ?thesis
      using remove_all_acl [of d v u] remove_all_cat [OF assms(1), of v u] remove_all_contributions_facts [OF ok r]
      by auto
  next
    case (Some k)
    then have r: "remove_contribution v u k revision d = Inr (oc, d1)" using assms(2) by simp
    then show ?thesis
      using remove_contribution_acl [OF r] remove_contribution_cat [OF assms(1) r] remove_contribution_facts [OF ok r]
      by auto
  qed
  then show "acl_only d d1" and "cat_ok d1" and "(v', u') \<noteq> (v, u) \<Longrightarrow> access_role d1 v' u' = access_role d v' u'"
    and "o_effective oc = access_role d1 v u" by blast+
qed

lemma revoke_tx_sys:
  assumes "sys_ok d" and "revoke_tx revoker n username user_id key revision d = Inr (reply, d')"
  shows "sys_ok d'"
  using assms(2)
proof (rule revoke_tx_Inr)
  fix v revoker_uid target oc d1 pl
  assume r: "(case key of None \<Rightarrow> Inr (remove_all_contributions (v_id v) (u_id target) d)
      | Some k \<Rightarrow> remove_contribution (v_id v) (u_id target) k revision d) = Inr (oc, d1)"
    and s: "sync_vault_user (v_id v) (u_id target)
       (emit_event ''access.revoke'' (Some (v_id v)) (Some (vault_uri n)) (Some (uuid_str revoker_uid)) pl d1) = Inr d'"
  have i: "cat_ok d" "projected_except {} d" "public_projected d" using assms(1) by (simp_all add: sys_ok_iff)
  note f = removal_facts [OF i(1) r]
  have "projected_except {(v_id v, u_id target)} d1" by (rule projected_acl [OF i(2) f(1)]) (rule f(3))
  moreover have "public_projected d1" by (rule public_acl [OF i(3) f(1)])
  ultimately show ?thesis using sync_sys [OF _ _ _ s] f(2) by simp
qed

text \<open>Updates of vault rows that keep the identity of each row.\<close>

lemma map_vaults_cat:
  assumes "cat_ok d" and "\<And>r. v_id (g r) = v_id r" and "\<And>r. v_name (g r) = v_name r"
  shows "cat_ok (d\<lparr>vaults := map g (vaults d)\<rparr>)"
proof -
  let ?d = "d\<lparr>vaults := map g (vaults d)\<rparr>"
  have "access_ok ?d = access_ok d" by (rule access_ok_cong) simp_all
  moreover have "policy_ok ?d = policy_ok d" by (rule policy_ok_cong) simp_all
  ultimately show ?thesis
    using assms by (simp add: cat_ok_def contribs_fk_def unique_by_map image_image)
qed

lemma map_vaults_members [simp]: "members (d\<lparr>vaults := vs\<rparr>) = members d"
  by (simp add: members_def)

lemma map_vaults_wanted:
  assumes "\<And>r. v_id (g r) = v_id r" and "\<And>r. v_id r = v \<Longrightarrow> v_owner (g r) = Some u \<longleftrightarrow> v_owner r = Some u"
  shows "wanted_scope v u (d\<lparr>vaults := map g (vaults d)\<rparr>) = wanted_scope v u d"
  using assms(2) by (auto simp: wanted_scope_def tab_get_map [where key = v_id, OF assms(1)] access_role_def
      split: option.split dest: tab_get_key)

lemma map_vaults_public:
  "public_projected d \<Longrightarrow> (\<And>r. v_id (g r) = v_id r) \<Longrightarrow> (\<And>r. v_public (g r) = v_public r) \<Longrightarrow>
   public_projected (d\<lparr>vaults := map g (vaults d)\<rparr>)"
  by (simp add: public_projected_def)

lemma map_vaults_sys:
  assumes "sys_ok d" and "\<And>r. v_id (g r) = v_id r" and "\<And>r. v_name (g r) = v_name r"
    and "\<And>r. v_owner (g r) = v_owner r" and "\<And>r. v_public (g r) = v_public r"
  shows "sys_ok (d\<lparr>vaults := map g (vaults d)\<rparr>)"
proof -
  let ?d = "d\<lparr>vaults := map g (vaults d)\<rparr>"
  have i: "cat_ok d" "projected_except {} d" "public_projected d" using assms(1) by (simp_all add: sys_ok_iff)
  have "wanted_scope v u ?d = wanted_scope v u d" for v u
    by (rule map_vaults_wanted) (simp_all add: assms)
  then have "projected_except {} ?d" using i(2) by (simp add: projected_except_def)
  moreover have "public_projected ?d" using i(3) assms by (simp add: public_projected_def)
  ultimately show ?thesis using map_vaults_cat [OF i(1) assms(2,3)] by (simp add: sys_ok_iff)
qed

lemma update_by_name_map:
  "update_vault_by_name n f d = d\<lparr>vaults := map (\<lambda>r. if v_name r = n then f r else r) (vaults d)\<rparr>"
  by (simp add: update_vault_by_name_def tab_update_def)

lemma update_by_id_map:
  "update_vault_by_id i f d = d\<lparr>vaults := map (\<lambda>r. if v_id r = i then f r else r) (vaults d)\<rparr>"
  by (simp add: update_vault_by_id_def tab_update_def)

lemma set_status_sys: "sys_ok d \<Longrightarrow> set_status n status d = Inr (reply, d') \<Longrightarrow> sys_ok d'"
  by (auto simp: set_status_def update_by_name_map intro: map_vaults_sys)

lemma transfer_tx_Inr:
  assumes "transfer_tx owner_id n username user_id info d = Inr (reply, d')"
  obtains v old_owner caller target d1 oc d2 pl d3 where "vault_by_name d n = Some v" "v_owner v = Some old_owner"
    "parse_uuid owner_id = Some caller"
    "resolve_user_reference d username user_id = Inr target"
    "v_owner v = Some caller \<or> va_source info \<in> {''system_admin'', ''write_policy_admin_bypass''}"
    "d1 = update_vault_by_id (v_id v) (\<lambda>r. r\<lparr>v_owner := Some (u_id target)\<rparr>) d"
    "apply_contribution (v_id v) (Some old_owner) ''admin'' ''direct'' (Some (u_id target)) None d1 = Inr (oc, d2)"
    "sync_vault_user (v_id v) (u_id target)
       (emit_event ''access.transfer_ownership'' (Some (v_id v)) (Some (vault_uri n)) (Some (uuid_str caller)) pl
          (snd (remove_all_contributions (v_id v) (u_id target) d2))) = Inr d3"
    "sync_vault_user (v_id v) old_owner d3 = Inr d'"
    "tr_new_owner_id reply = uuid_str (u_id target)"
proof -
  from assms obtain v caller target oc d2 pl d3 where
    a: "vault_by_name d n = Some v" "parse_uuid owner_id = Some caller"
    "resolve_user_reference d username user_id = Inr target"
    "v_owner v = Some caller \<or> va_source info \<in> {''system_admin'', ''write_policy_admin_bypass''}"
    and b: "apply_contribution (v_id v) (v_owner v) ''admin'' ''direct'' (Some (u_id target)) None
      (update_vault_by_id (v_id v) (\<lambda>r. r\<lparr>v_owner := Some (u_id target)\<rparr>) d) = Inr (oc, d2)"
    and c: "sync_vault_user (v_id v) (u_id target)
       (emit_event ''access.transfer_ownership'' (Some (v_id v)) (Some (vault_uri n)) (Some (uuid_str caller)) pl
          (snd (remove_all_contributions (v_id v) (u_id target) d2))) = Inr d3"
    and e: "(case v_owner v of None \<Rightarrow> Inl PyValueError | Some o1 \<Rightarrow> sync_vault_user (v_id v) o1 d3) = Inr d'"
    and r: "tr_new_owner_id reply = uuid_str (u_id target)"
    by (force simp: transfer_tx_def result_iff Let_def DIRECT_SOURCE_KEY_def case_prod_beta split: if_splits)
  from e obtain o1 where "v_owner v = Some o1" and "sync_vault_user (v_id v) o1 d3 = Inr d'"
    by (auto split: option.splits)
  with a b c r show thesis by (intro that [of v o1 caller target _ oc d2 pl d3]) simp_all
qed

lemma projected_two:
  "projected_except {p, q} d \<Longrightarrow> sync_vault_user v u d = Inr d' \<Longrightarrow> p = (v, u) \<Longrightarrow> projected_except {q} d'"
  using projected_sync [of "{p, q}" d v u d'] projected_mono [of "{p, q} - {(v, u)}" d' "{q}"] by auto

lemma transfer_tx_sys:
  assumes "sys_ok d" and "transfer_tx owner_id n username user_id info d = Inr (reply, d')"
  shows "sys_ok d'"
  using assms(2)
proof (rule transfer_tx_Inr)
  fix v :: vault_row and old_owner caller :: uuid and target :: user_row and d1 d2 d3 :: db and oc pl
  let ?v = "v_id v" and ?new = "u_id target"
  let ?d3 = "emit_event ''access.transfer_ownership'' (Some (v_id v)) (Some (vault_uri n)) (Some (uuid_str caller)) pl
          (snd (remove_all_contributions (v_id v) (u_id target) d2))"
  assume v: "vault_by_name d n = Some v" "v_owner v = Some old_owner"
    and d1: "d1 = update_vault_by_id ?v (\<lambda>r. r\<lparr>v_owner := Some ?new\<rparr>) d"
    and a: "apply_contribution ?v (Some old_owner) ''admin'' ''direct'' (Some ?new) None d1 = Inr (oc, d2)"
    and s: "sync_vault_user ?v ?new ?d3 = Inr d3" and s2: "sync_vault_user ?v old_owner d3 = Inr d'"
  have i: "cat_ok d" "projected_except {} d" "public_projected d" using assms(1) by (simp_all add: sys_ok_iff)
  have c1: "cat_ok d1" unfolding d1 update_by_id_map by (rule map_vaults_cat [OF i(1)]) simp_all
  have u: "unique_by v_id (vaults d)" using i(1) by (simp add: cat_ok_def)
  have v_in: "v \<in> set (vaults d)" using v(1) by (rule tab_get_Some [THEN conjunct1])
  have "projected_except ({} \<union> {(?v, ?new), (?v, old_owner)}) d1" unfolding d1 update_by_id_map
  proof (rule projected_change [OF i(2)])
    fix w x
    assume wx: "(w, x) \<notin> {(?v, ?new), (?v, old_owner)}"
    have row: "vault_by_id d w = Some r \<Longrightarrow> v_id r = ?v \<Longrightarrow> r = v \<and> w = ?v" for r
      using u v_in tab_get_key [of v_id w] tab_get_unique [OF u v_in] by (metis option.inject)
    show "wanted_scope w x (d\<lparr>vaults := map (\<lambda>r. if v_id r = ?v then r\<lparr>v_owner := Some ?new\<rparr> else r) (vaults d)\<rparr>)
        = wanted_scope w x d"
      using wx v(2) row
      by (auto simp: wanted_scope_def tab_get_map [where key = v_id] access_role_def split: option.split)
  qed simp
  then have p1: "projected_except {(?v, ?new), (?v, old_owner)} d1" by simp
  note acl = apply_contribution_acl [OF a]
  have c2: "cat_ok d2" by (rule apply_contribution_cat [OF c1 a])
  have ok1: "access_ok d1" using c1 by (simp add: cat_ok_def)
  have "projected_except (insert (?v, old_owner) {(?v, ?new), (?v, old_owner)}) d2"
    by (rule projected_acl [OF p1 acl]) (use apply_contribution_facts [OF ok1 a] in blast)
  then have p2: "projected_except {(?v, ?new), (?v, old_owner)} d2" by (simp add: insert_commute)
  obtain oc3 d2' where r: "remove_all_contributions ?v ?new d2 = (oc3, d2')" by fastforce
  have ok2: "access_ok d2" using c2 by (simp add: cat_ok_def)
  have acl2: "acl_only d2 d2'" using remove_all_acl [of d2 ?v ?new] r by simp
  have "projected_except (insert (?v, ?new) {(?v, ?new), (?v, old_owner)}) d2'"
    by (rule projected_acl [OF p2 acl2]) (use remove_all_contributions_facts [OF ok2 r] in blast)
  then have p3: "projected_except {(?v, ?new), (?v, old_owner)} ?d3" by (simp add: r)
  have c3: "cat_ok ?d3" using remove_all_cat [OF c2] by simp
  have "public_projected d1" unfolding d1 update_by_id_map by (rule map_vaults_public [OF i(3)]) simp_all
  then have pu: "public_projected ?d3" using public_acl [OF _ acl] public_acl [OF _ acl2] r by simp
  have "cat_ok d3" using cat_ok_catalog [OF sync_vault_user_steps(1) [OF s]] c3 by simp
  then show "sys_ok d'"
    by (rule sync_sys [OF _ projected_two [OF p3 s refl] public_sync [OF pu s] s2])
qed

text \<open>A change of the public level, with the projection that follows it.\<close>

lemma projected_public:
  assumes "projected_except P d" and "on_public_access_change_in_conn v level d = Inr d'"
  shows "projected_except P d'"
proof -
  note f = public_access_facts [OF assms(2)]
  then have c: "catalog d' = catalog d" by blast
  have "(group_name w s, user_role_name u) \<in> members d' \<longleftrightarrow> (group_name w s, user_role_name u) \<in> members d" for w s u
    using f by (auto simp: pair_edges_def)
  moreover have "wanted_scope w u d' = wanted_scope w u d" for w u
    by (rule wanted_scope_cong) (simp_all add: catalogD [OF c] access_role_cong [OF catalogD(5) [OF c]])
  ultimately show ?thesis using assms(1) by (simp add: projected_except_def)
qed

text \<open>The public projection of one vault is repaired, that of every other vault is kept.\<close>

lemma public_repair:
  assumes "\<forall>r\<in>set (vaults d). v_id r \<noteq> v \<longrightarrow> (\<forall>s\<in>set SCOPES.
      (group_name (v_id r) s, AUTHENTICATED_ROLE) \<in> members d \<longleftrightarrow> public_access_scope (v_public r) = Some s)"
    and "\<forall>r\<in>set (vaults d). v_id r = v \<longrightarrow> v_public r = level"
    and "on_public_access_change_in_conn v level d = Inr d'"
  shows "public_projected d'"
proof -
  note f = public_access_facts [OF assms(3)]
  then have c: "catalog d' = catalog d" by blast
  have "(group_name w s, AUTHENTICATED_ROLE) \<in> members d' \<longleftrightarrow> (group_name w s, AUTHENTICATED_ROLE) \<in> members d"
    if "w \<noteq> v" for w s using f that by (auto simp: pair_edges_def)
  then show ?thesis using assms(1,2) f unfolding public_projected_def catalogD(2) [OF c] by metis
qed

lemma public_update_sys:
  assumes "sys_ok d" and "\<And>r. v_id (g r) = v_id r" and "\<And>r. v_name (g r) = v_name r"
    and "\<And>r. v_owner (g r) = v_owner r" and "\<And>r. r \<in> set (vaults d) \<Longrightarrow> v_id r \<noteq> v \<Longrightarrow> v_public (g r) = v_public r"
    and "\<And>r. r \<in> set (vaults d) \<Longrightarrow> v_id r = v \<Longrightarrow> v_public (g r) = level"
    and "on_public_access_change_in_conn v level (d\<lparr>vaults := map g (vaults d)\<rparr>) = Inr d'"
  shows "sys_ok d'"
proof -
  let ?d = "d\<lparr>vaults := map g (vaults d)\<rparr>"
  have i: "cat_ok d" "projected_except {} d" "public_projected d" using assms(1) by (simp_all add: sys_ok_iff)
  have "wanted_scope w u ?d = wanted_scope w u d" for w u
    by (rule map_vaults_wanted) (simp_all add: assms(2,4))
  then have "projected_except {} ?d" using i(2) by (simp add: projected_except_def)
  then have "projected_except {} d'" by (rule projected_public [OF _ assms(7)])
  moreover have "public_projected d'"
    by (rule public_repair [OF _ _ assms(7)]) (use i(3) assms(2,5,6) in \<open>auto simp: public_projected_def\<close>)
  moreover have "cat_ok d'"
    using cat_ok_catalog [of d' ?d] public_access_facts [OF assms(7)] map_vaults_cat [OF i(1) assms(2,3)] by blast
  ultimately show ?thesis by (simp add: sys_ok_iff)
qed

lemma sys_ok_emit [simp]: "sys_ok (emit_event k v r a p d) = sys_ok d"
  by (simp add: sys_ok_iff)

lemma write_policy_guard_frame:
  "write_policy_guard rq uid v policy r action d = Inr (info, d') \<Longrightarrow>
   d' = d \<or> (\<exists>p. d' = emit_event ''vault.write_policy_admin_bypass'' (Some (v_id v)) None (Some (uuid_str uid)) p d)"
  by (auto simp: write_policy_guard_def Let_def split: option.splits if_splits)

lemma check_sys:
  assumes "sys_ok d" and "check_vault_access rq user_id n r allow_archived action d = Inr (info, rq', d')"
  shows "sys_ok d'" and "vaults d' = vaults d"
proof -
  from assms(2) have impl: "check_vault_access_impl rq user_id n r allow_archived action d = Inr (info, d')"
    by (simp add: check_vault_access_Inr)
  have "d' = d \<or> (\<exists>w u p. d' = emit_event ''vault.write_policy_admin_bypass'' w None u p d)"
    using impl by (auto simp: check_vault_access_impl_def result_iff split: option.splits if_splits
        dest: acl_check_frame dest!: write_policy_guard_frame)
  then show "sys_ok d'" and "vaults d' = vaults d" using assms(1) by auto
qed

lemma name_id_unique:
  assumes "sys_ok d" and "vault_by_name d n = Some v" and "r \<in> set (vaults d)"
  shows "v_name r = n \<longleftrightarrow> v_id r = v_id v"
proof -
  have u: "unique_by v_id (vaults d)" "unique_by v_name (vaults d)" using assms(1) by (simp_all add: sys_ok_def)
  have v: "v \<in> set (vaults d)" "v_name v = n" using tab_get_Some [OF assms(2)] by auto
  show ?thesis using unique_by_key_eq [OF u(1) assms(3) v(1)] unique_by_key_eq [OF u(2) assms(3) v(1)] v(2) by auto
qed

lemma set_public_tx_sys:
  assumes "sys_ok d" and "set_public_tx rq user_id n level d = Inr (reply, d')"
  shows "sys_ok d'"
proof -
  from assms(2) obtain info rq' d1 v d2 pl where
    c: "check_vault_access rq user_id n ''owner'' False None d = Inr (info, rq', d1)"
    and v: "vault_by_name d1 n = Some v"
    and p: "on_public_access_change_in_conn (v_id v) level
      (update_vault_by_id (v_id v) (\<lambda>r. r\<lparr>v_public := level\<rparr>) d1) = Inr d2"
    and d': "d' = emit_event ''vault.public_access'' (Some (v_id v)) (Some (vault_uri n)) (Some user_id) pl d2"
    by (auto simp: set_public_tx_def result_iff split: if_splits)
  have "sys_ok d2"
    by (rule public_update_sys [OF check_sys(1) [OF assms(1) c] _ _ _ _ _ p [unfolded update_by_id_map]]) simp_all
  then show ?thesis by (simp add: d')
qed

lemma update_metadata_tx_sys:
  assumes "sys_ok d" and "update_metadata_tx rq user_id n description public_access d = Inr (reply, d')"
  shows "sys_ok d'"
proof -
  let ?g = "\<lambda>r :: vault_row. (case public_access of Some p \<Rightarrow> (\<lambda>r. r\<lparr>v_public := p\<rparr>) | None \<Rightarrow> id)
             ((case description of Some t \<Rightarrow> (\<lambda>r. r\<lparr>v_description := Some t\<rparr>) | None \<Rightarrow> id) r)"
  from assms(2) obtain info rq' d1 where
    c: "check_vault_access rq user_id n ''owner'' False None d = Inr (info, rq', d1)"
    and r: "(case public_access of
          None \<Rightarrow> Inr (True, update_vault_by_name n ?g d1)
        | Some p \<Rightarrow>
            (case vault_by_name (update_vault_by_name n ?g d1) n of
               None \<Rightarrow> Inr (True, update_vault_by_name n ?g d1)
             | Some v \<Rightarrow> rbind (on_public_access_change_in_conn (v_id v) p (update_vault_by_name n ?g d1))
                 (\<lambda>d. Inr (True, d)))) = Inr (reply, d')"
    by (auto simp: update_metadata_tx_def result_iff Let_def)
  have ok: "sys_ok d1" by (rule check_sys(1) [OF assms(1) c])
  define g where "g = ?g"
  note r' = r [folded g_def]
  have keep: "v_id (g r) = v_id r" "v_name (g r) = v_name r" "v_owner (g r) = v_owner r" for r
    by (simp_all add: g_def split: option.split)
  have pub: "v_public (g r) = (case public_access of Some p \<Rightarrow> p | None \<Rightarrow> v_public r)" for r
    by (simp add: g_def split: option.split)
  define h :: "vault_row \<Rightarrow> vault_row" where "h r = (if v_name r = n then g r else r)" for r
  have hkeep: "v_id (h r) = v_id r" "v_name (h r) = v_name r" "v_owner (h r) = v_owner r" for r
    by (simp_all add: h_def keep)
  have upd: "update_vault_by_name n g d1 = d1\<lparr>vaults := map h (vaults d1)\<rparr>"
    by (simp add: update_by_name_map h_def [abs_def])
  show ?thesis
  proof (cases public_access)
    case None
    then have d': "d' = d1\<lparr>vaults := map h (vaults d1)\<rparr>" using r' upd by simp
    show ?thesis unfolding d' by (rule map_vaults_sys [OF ok hkeep]) (simp add: h_def pub None)
  next
    case (Some p)
    have get: "vault_by_name (update_vault_by_name n g d1) n = map_option h (vault_by_name d1 n)"
      by (simp add: upd tab_get_map [where key = v_name, OF hkeep(2)])
    show ?thesis
    proof (cases "vault_by_name d1 n")
      case None
      then have "map h (vaults d1) = vaults d1" by (auto simp: tab_get_None_iff h_def intro!: map_idI)
      then show ?thesis using r' get None Some upd ok by simp
    next
      case v: (Some v)
      then have "on_public_access_change_in_conn (v_id v) p (d1\<lparr>vaults := map h (vaults d1)\<rparr>) = Inr d'"
        using r' get Some hkeep upd by (auto simp: result_iff)
      then show ?thesis
      proof (rule public_update_sys [OF ok hkeep, rotated -1])
        show "v_public (h r) = v_public r" if "r \<in> set (vaults d1)" "v_id r \<noteq> v_id v" for r
          using that name_id_unique [OF ok v that(1)] by (simp add: h_def)
        show "v_public (h r) = p" if "r \<in> set (vaults d1)" "v_id r = v_id v" for r
          using that name_id_unique [OF ok v that(1)] by (simp add: h_def pub Some)
      qed
    qed
  qed
qed

lemma on_vault_create_facts:
  assumes "on_vault_create_in_conn v owner d = Inr d'"
  shows "catalog d' = catalog d"
    and "(g, user_role_name u) \<in> members d' \<longleftrightarrow>
      (g, user_role_name u) \<in> members d \<or> owner = Some u \<and> g = group_name v ''admin''"
    and "(g, AUTHENTICATED_ROLE) \<in> members d' \<longleftrightarrow> (g, AUTHENTICATED_ROLE) \<in> members d"
proof -
  let ?d = "create_role_if_missing (group_name v ''admin'') (create_role_if_missing (group_name v ''writer'')
      (create_role_if_missing (group_name v ''reader'') d))"
  from assms obtain d1 d2 where
    g1: "grant_membership (group_name v ''reader'') (group_name v ''writer'') ?d = Inr d1"
    and g2: "grant_membership (group_name v ''writer'') (group_name v ''admin'') d1 = Inr d2"
    and r: "(case owner of None \<Rightarrow> Inr d2
         | Some o1 \<Rightarrow> rbind (grant_membership (group_name v ''admin'') (user_role_name o1)
             (create_role_if_missing (user_role_name o1) d2)) (sync_user_scoped_tokens o1)) = Inr d'"
    unfolding on_vault_create_in_conn_def Let_def by (auto simp: result_iff)
  have m2: "members d2 = insert (group_name v ''writer'', group_name v ''admin'')
      (insert (group_name v ''reader'', group_name v ''writer'') (members d))" and c2: "catalog d2 = catalog d"
    using grant_membership_mem [OF g1] grant_membership_mem [OF g2] by auto
  have "catalog d' = catalog d \<and> ((\<forall>t. m \<noteq> token_role_name t) \<longrightarrow>
      ((x, m) \<in> members d' \<longleftrightarrow> (x, m) \<in> members d2 \<or> (\<exists>o1. owner = Some o1 \<and> m = user_role_name o1 \<and>
        x = group_name v ''admin'')))" for x m
  proof (cases owner)
    case None
    then show ?thesis using r c2 by simp
  next
    case (Some o1)
    with r obtain d3 where g3: "grant_membership (group_name v ''admin'') (user_role_name o1)
        (create_role_if_missing (user_role_name o1) d2) = Inr d3" and s: "sync_user_scoped_tokens o1 d3 = Inr d'"
      by (auto simp: result_iff)
    show ?thesis
      using grant_membership_mem [OF g3] sync_user_scoped_tokens_frame(1) [OF s]
        sync_user_scoped_tokens_frame(2) [OF s, of m x] c2 Some by auto
  qed
  then show "catalog d' = catalog d"
    and "(g, user_role_name u) \<in> members d' \<longleftrightarrow>
      (g, user_role_name u) \<in> members d \<or> owner = Some u \<and> g = group_name v ''admin''"
    and "(g, AUTHENTICATED_ROLE) \<in> members d' \<longleftrightarrow> (g, AUTHENTICATED_ROLE) \<in> members d"
    using m2 by auto
qed

lemma insert_vault_Inr:
  "insert_vault vid n desc owner p d = Inr d' \<Longrightarrow>
    vault_by_id d vid = None \<and> vault_by_name d n = None \<and> (\<forall>u. owner = Some u \<longrightarrow> user_by_id d u \<noteq> None) \<and>
    d' = d\<lparr>vaults := vaults d @ [\<lparr>v_id = vid, v_name = n, v_owner = owner, v_status = ''active'',
                   v_public = p, v_description = Some desc\<rparr>]\<rparr>"
  by (auto simp: insert_vault_def split: if_splits option.splits)

lemma no_access_to_missing_vault:
  assumes "cat_ok d" and "vault_by_id d v = None"
  shows "access_role d v u = None"
proof -
  have "pair_contribs d v u = []"
    using assms by (auto simp: cat_ok_def contribs_fk_def pair_contribs_def tab_get_None_iff filter_empty_conv)
  then show ?thesis using assms(1) by (simp add: cat_ok_def access_ok_def basis_roles_def strongest_in_def)
qed

lemma create_vault_Inr:
  assumes "create_vault vid n desc owner_id p ledger d = Inr (reply, d')"
  obtains owner d1 d2 d3 where "insert_vault vid n desc owner p d = Inr d1"
    "on_vault_create_in_conn vid owner d1 = Inr d2" "on_public_access_change_in_conn vid p d2 = Inr d3"
    "seed_vault_skill vid n owner ledger d3 = Inr d'"
  using assms by (force simp: create_vault_def result_iff validate_public_access_def split: if_splits)

lemma seed_vault_skill_Inr:
  assumes "seed_vault_skill vid n owner ledger d = Inr d'"
  obtains k v r a p where "d' = emit_event k v r a p d"
  using assms by (auto simp: seed_vault_skill_def result_iff Let_def)

lemma create_vault_sys:
  assumes "sys_ok d" and "create_vault vid n desc owner_id p ledger d = Inr (reply, dz)"
  shows "sys_ok dz"
  using assms(2)
proof (rule create_vault_Inr)
  fix owner d1 d2 d'
  assume ins: "insert_vault vid n desc owner p d = Inr d1"
    and oc: "on_vault_create_in_conn vid owner d1 = Inr d2"
    and op: "on_public_access_change_in_conn vid p d2 = Inr d'"
    and sd: "seed_vault_skill vid n owner ledger d' = Inr dz"
  have i: "cat_ok d" "projected_except {} d" "public_projected d" using assms(1) by (simp_all add: sys_ok_iff)
  note d1 = insert_vault_Inr [OF ins]
  note f = on_vault_create_facts [OF oc]
  let ?row = "\<lparr>v_id = vid, v_name = n, v_owner = owner, v_status = ''active'', v_public = p, v_description = Some desc\<rparr>"
  have vs: "vaults d1 = vaults d @ [?row]" and ms: "members d1 = members d" and us: "users d1 = users d"
    and ac: "access_role d1 v u = access_role d v u" for v u
    using d1 by (simp_all add: members_def access_role_def)
  have fresh: "vid \<notin> v_id ` set (vaults d)" "n \<notin> v_name ` set (vaults d)"
    using d1 by (auto simp: tab_get_None_iff)
  have "access_ok d1 = access_ok d" by (rule access_ok_cong) (use d1 in simp_all)
  moreover have "policy_ok d1 = policy_ok d" by (rule policy_ok_cong) (use d1 in simp_all)
  ultimately have "cat_ok d1"
    using i(1) fresh d1 by (auto simp: cat_ok_def contribs_fk_def vs unique_by_def)
  then have c2: "cat_ok d2" using cat_ok_catalog [OF f(1)] by simp
  have w: "wanted_scope v u d2 = (if v = vid then (if owner = Some u then Some ''admin'' else None)
      else wanted_scope v u d)" for v u
  proof (cases "v = vid")
    case True
    then show ?thesis
      using d1 no_access_to_missing_vault [OF i(1), of vid u] catalogD [OF f(1)] ac
      by (auto simp: wanted_scope_def vs us tab_get_append tab_get_Cons access_role_cong [OF catalogD(5) [OF f(1)]])
  next
    case False
    then have "vault_by_id d2 v = vault_by_id d v"
      by (simp add: catalogD [OF f(1)] vs tab_get_append tab_get_Cons tab_simps split: option.split)
    then show ?thesis
      using False by (cases "vault_by_id d v") (simp_all add: wanted_scope_def catalogD(1) [OF f(1)] us
          access_role_cong [OF catalogD(5) [OF f(1)]] ac)
  qed
  have "(group_name vid s, user_role_name u) \<notin> members d" if "s \<in> set SCOPES" for s u
    using projected_exceptD [OF i(2) _ that, of vid u] d1 by (simp add: wanted_scope_def)
  then have "projected_except {} d2"
    using projected_exceptD [OF i(2)] by (auto simp: projected_except_def w f(2) ms SCOPES_def)
  then have "projected_except {} d'" by (rule projected_public [OF _ op])
  moreover have "public_projected d'"
    by (rule public_repair [OF _ _ op])
      (use i(3) fresh in \<open>auto simp: catalogD(2) [OF f(1)] vs f(3) ms public_projected_def\<close>)
  moreover have "cat_ok d'" using cat_ok_catalog [of d' d2] public_access_facts [OF op] c2 by blast
  ultimately have "sys_ok d'" by (simp add: sys_ok_iff)
  then show ?thesis using seed_vault_skill_Inr [OF sd] by (metis sys_ok_emit)
qed

lemma policy_step_sys:
  assumes "sys_ok d" and "policy_step d d'"
  shows "sys_ok d'"
proof -
  have p: "policy_ok d" using assms(1) by (simp add: sys_ok_def)
  obtain actor n where ok: "policy_ok d'" and a: "audited actor n d d'"
    using policy_step_facts [OF assms(2) p] by blast
  note f = audited_fields [OF a]
  have m: "members d' = members d" by (simp add: members_def f(7))
  have "wanted_scope v u d' = wanted_scope v u d" for v u
    by (rule wanted_scope_cong) (simp_all add: f(1,2) access_role_cong [OF f(4)])
  then show ?thesis
    using assms(1) ok access_ok_cong [OF f(4,5)]
    by (simp add: sys_ok_def f(2,5) m contribs_fk_def projected_except_def public_projected_def)
qed

section \<open>Interleavings\<close>

text \<open>One committed transaction of any request, with any arguments.\<close>

inductive access_step :: "db \<Rightarrow> db \<Rightarrow> bool" where
  checked: "check_vault_access rq user_id n r allow_archived action d = Inr (info, rq', d') \<Longrightarrow> access_step d d'"
| granted: "grant_tx granter n username role user_id key revision d = Inr (reply, d') \<Longrightarrow> access_step d d'"
| revoked: "revoke_tx revoker n username user_id key revision d = Inr (reply2, d') \<Longrightarrow> access_step d d'"
| transferred: "transfer_tx owner_id n username user_id info d = Inr (reply3, d') \<Longrightarrow> access_step d d'"
| status_set: "set_status n status d = Inr (reply4, d') \<Longrightarrow> access_step d d'"
| metadata: "update_metadata_tx rq user_id n desc public d = Inr (reply5, d') \<Longrightarrow> access_step d d'"
| public_set: "set_public_tx rq user_id n level d = Inr (reply6, d') \<Longrightarrow> access_step d d'"
| created: "create_vault vid n description owner public ledger d = Inr (reply7, d') \<Longrightarrow> access_step d d'"
| managed: "policy_step d d' \<Longrightarrow> access_step d d'"

lemma access_step_sys: "access_step d d' \<Longrightarrow> sys_ok d \<Longrightarrow> sys_ok d'"
  by (induction rule: access_step.induct)
    (blast intro: check_sys grant_tx_sys revoke_tx_sys transfer_tx_sys set_status_sys update_metadata_tx_sys
      set_public_tx_sys create_vault_sys policy_step_sys)+

lemma access_steps_sys: "access_step\<^sup>*\<^sup>* d d' \<Longrightarrow> sys_ok d \<Longrightarrow> sys_ok d'"
  by (induction rule: rtranclp_induct) (blast intro: access_step_sys)+


section \<open>The two surfaces agree\<close>

lemma role_in_scopes:
  assumes "access_ok d" and "access_role d v u = Some r"
  shows "r \<in> set SCOPES"
proof -
  have "Some r \<in> basis_roles d v u"
    using assms strongest_in_mem [of "basis_roles d v u" r] by (simp add: access_ok_def)
  then show ?thesis
    using assms(1) by (auto simp: basis_roles_def pair_contribs_def access_ok_def CONTRIBUTION_ROLES_def SCOPES_def)
qed

lemma public_scope_level:
  "p \<in> set VALID_PUBLIC_ACCESS \<Longrightarrow>
   role_level (Some p) = (case public_access_scope p of None \<Rightarrow> 0 | Some s \<Rightarrow> role_level (Some s))"
  by (auto simp: VALID_PUBLIC_ACCESS_def public_access_scope_def role_level_def ROLE_HIERARCHY_def)

text \<open>What the SQL executor lets a user's role do: its own groups and the wildcard's, with the hierarchy.\<close>

definition sql_reaches :: "db \<Rightarrow> uuid \<Rightarrow> uuid \<Rightarrow> string \<Rightarrow> bool" where
  "sql_reaches d v u r \<longleftrightarrow>
     (\<exists>s\<in>set SCOPES. role_level (Some r) \<le> role_level (Some s) \<and>
        ((group_name v s, user_role_name u) \<in> members d \<or> (group_name v s, AUTHENTICATED_ROLE) \<in> members d))"


section \<open>Whole requests\<close>

lemma after_check_Inr:
  assumes "after_check rq user_id n r other tx d = (Inr reply, d')"
  obtains info rq' d1 where "check_vault_access rq user_id n r False None d = Inr (info, rq', d1)"
    "tx info (other d1) = Inr (reply, d')"
  using assms by (auto simp: after_check_def commit_def split: sum.splits prod.splits)

lemma lock_administered_Inr:
  "lock_administered caller n d = Inr (v, uid) \<longleftrightarrow>
     vault_by_name d n = Some v \<and> v_status v \<noteq> ''archived'' \<and> parse_uuid caller = Some uid \<and>
     (v_owner v = Some uid \<or> is_admin d uid \<or> 3 \<le> role_level (access_role d (v_id v) uid))"
  by (auto simp: lock_administered_def split: option.splits if_splits)

lemma resolve_user_Inr:
  assumes "resolve_user_reference d username user_id = Inr target"
  shows "\<exists>k. user_by_id d k = Some target \<or> (\<exists>n. user_by_name d n = Some target)"
  using assms by (auto simp: resolve_user_reference_def result_iff split: option.splits if_splits)

text \<open>
  C23: a grant, from the request to the roles, whatever other requests commit between its check and its
  transaction. If it succeeds, then in the catalog it was applied to the caller administered the open
  vault (a revoke that won the race defeats it); the target holds the effective role the reply names,
  at least the granted one if the write was applied; the target's PostgreSQL role is a member of
  exactly its group; one \<open>access.grant\<close> event is recorded; and nobody else's role moved.
\<close>

theorem grant_access_correct:
  assumes "grant_access rq granter n username role user_id key revision other d = (Inr reply, d')"
    and "sys_ok d" and "\<And>x. sys_ok x \<Longrightarrow> sys_ok (other x)"
  shows "\<exists>info rq' d1 v uid (target :: user_row) ev. check_vault_access rq granter n ''admin'' False None d = Inr (info, rq', d1) \<and>
    vault_by_name (other d1) n = Some v \<and> v_status v \<noteq> ''archived'' \<and> parse_uuid granter = Some uid \<and>
    (v_owner v = Some uid \<or> is_admin (other d1) uid \<or> 3 \<le> role_level (access_role (other d1) (v_id v) uid)) \<and>
    sys_ok d' \<and> gr_user_id reply = uuid_str (u_id target) \<and>
    gr_effective_role reply = access_role d' (v_id v) (u_id target) \<and>
    (gr_applied reply \<longrightarrow> role_level (Some role) \<le> role_level (access_role d' (v_id v) (u_id target))) \<and>
    (\<forall>s\<in>set SCOPES. (group_name (v_id v) s, user_role_name (u_id target)) \<in> members d' \<longleftrightarrow>
       wanted_scope (v_id v) (u_id target) d' = Some s) \<and>
    events d' = events (other d1) @ [ev] \<and> ev_kind ev = ''access.grant'' \<and>
    (\<forall>w x. (w, x) \<noteq> (v_id v, u_id target) \<longrightarrow> access_role d' w x = access_role (other d1) w x)"
proof -
  from assms(1) obtain k where "after_check rq granter n ''admin'' other
      (\<lambda>_. grant_tx granter n username role user_id k revision) d = (Inr reply, d')"
    by (auto simp: grant_access_def split: if_splits sum.splits)
  then obtain info rq' d1 where c: "check_vault_access rq granter n ''admin'' False None d = Inr (info, rq', d1)"
    and tx: "grant_tx granter n username role user_id k revision (other d1) = Inr (reply, d')"
    by (auto elim!: after_check_Inr)
  have ok: "sys_ok (other d1)" by (rule assms(3) [OF check_sys(1) [OF assms(2) c]])
  then have acc: "access_ok (other d1)" by (simp add: sys_ok_def)
  have ok': "sys_ok d'" by (rule grant_tx_sys [OF ok tx])
  from tx show ?thesis
  proof (rule grant_tx_Inr)
    fix v :: vault_row and uid :: uuid and target :: user_row and oc d2 pl
    let ?ev = "\<lparr>ev_kind = ''access.grant'', ev_vault = Some (v_id v), ev_uri = Some (vault_uri n),
      ev_actor = Some (uuid_str uid), ev_payload = pl\<rparr>"
    assume l: "lock_administered granter n (other d1) = Inr (v, uid)"
      and a: "apply_contribution (v_id v) (Some (u_id target)) role k (Some uid) revision (other d1) = Inr (oc, d2)"
      and s: "sync_vault_user (v_id v) (u_id target)
        (emit_event ''access.grant'' (Some (v_id v)) (Some (vault_uri n)) (Some (uuid_str uid)) pl d2) = Inr d'"
      and rep: "gr_effective_role reply = o_effective oc" "gr_applied reply = o_applied oc"
        "gr_user_id reply = uuid_str (u_id target)"
    note st = sync_vault_user_steps [OF s]
    note f = apply_contribution_facts [OF acc a]
    have ac: "access_role d' w x = access_role d2 w x" for w x
      using access_role_cong [OF catalogD(5) [OF st(1)], of w x] by (simp add: access_role_def)
    have ev: "events d' = events (other d1) @ [?ev]"
      using catalogD(9) [OF st(1)] acl_only_fields(6) [OF apply_contribution_acl [OF a]] by (simp add: emit_event_def)
    have "projected_except {} d'" using ok' by (simp add: sys_ok_def)
    then have "\<forall>s\<in>set SCOPES. (group_name (v_id v) s, user_role_name (u_id target)) \<in> members d' \<longleftrightarrow>
       wanted_scope (v_id v) (u_id target) d' = Some s" by (simp add: projected_except_def)
    then show ?thesis
      using c l ok' f rep ac ev
      by (intro exI [of _ info] exI [of _ rq'] exI [of _ d1] exI [of _ v] exI [of _ uid] exI [of _ target]
          exI [of _ ?ev]) (auto simp: lock_administered_Inr)
  qed
qed

text \<open>
  C17: an administrator's revoke (no source key) puts the person out of the vault. After it the target,
  who is not the owner, has no basis and no role left there, its PostgreSQL role is in none of the
  vault's groups, and one \<open>access.revoke\<close> event is recorded.
\<close>

theorem revoke_access_complete:
  assumes "revoke_access rq revoker n username user_id None revision other d = (Inr reply, d')"
    and "sys_ok d" and "\<And>x. sys_ok x \<Longrightarrow> sys_ok (other x)"
  shows "\<exists>info rq' d1 v (target :: user_row) ev. check_vault_access rq revoker n ''admin'' False None d = Inr (info, rq', d1) \<and>
    vault_by_name (other d1) n = Some v \<and> v_status v \<noteq> ''archived'' \<and> v_owner v \<noteq> Some (u_id target) \<and>
    sys_ok d' \<and> rv_user_id reply = uuid_str (u_id target) \<and> rv_effective_role reply = None \<and>
    access_role d' (v_id v) (u_id target) = None \<and> pair_contribs d' (v_id v) (u_id target) = [] \<and>
    (\<forall>s\<in>set SCOPES. (group_name (v_id v) s, user_role_name (u_id target)) \<notin> members d') \<and>
    events d' = events (other d1) @ [ev] \<and> ev_kind ev = ''access.revoke''"
proof -
  from assms(1) obtain info rq' d1 where
    c: "check_vault_access rq revoker n ''admin'' False None d = Inr (info, rq', d1)"
    and tx: "revoke_tx revoker n username user_id None revision (other d1) = Inr (reply, d')"
    by (auto simp: revoke_access_def commit_def split: sum.splits prod.splits)
  have ok: "sys_ok (other d1)" by (rule assms(3) [OF check_sys(1) [OF assms(2) c]])
  then have acc: "access_ok (other d1)" by (simp add: sys_ok_def)
  have ok': "sys_ok d'" by (rule revoke_tx_sys [OF ok tx])
  from tx show ?thesis
  proof (rule revoke_tx_Inr)
    fix v :: vault_row and uid :: uuid and target :: user_row and oc d2 pl
    let ?ev = "\<lparr>ev_kind = ''access.revoke'', ev_vault = Some (v_id v), ev_uri = Some (vault_uri n),
      ev_actor = Some (uuid_str uid), ev_payload = pl\<rparr>"
    assume l: "lock_administered revoker n (other d1) = Inr (v, uid)"
      and no: "v_owner v \<noteq> Some (u_id target)"
      and a: "(case None of None \<Rightarrow> Inr (remove_all_contributions (v_id v) (u_id target) (other d1))
        | Some k \<Rightarrow> remove_contribution (v_id v) (u_id target) k revision (other d1)) = Inr (oc, d2)"
      and s: "sync_vault_user (v_id v) (u_id target)
        (emit_event ''access.revoke'' (Some (v_id v)) (Some (vault_uri n)) (Some (uuid_str uid)) pl d2) = Inr d'"
      and rep: "rv_effective_role reply = o_effective oc" "rv_applied reply = o_applied oc"
        "rv_user_id reply = uuid_str (u_id target)"
    from a have r: "remove_all_contributions (v_id v) (u_id target) (other d1) = (oc, d2)" by simp
    note st = sync_vault_user_steps [OF s]
    note f = remove_all_contributions_facts [OF acc r]
    have acl: "acl_only (other d1) d2" using remove_all_acl [of "other d1" "v_id v" "u_id target"] r by simp
    have vs: "vaults d' = vaults (other d1)" using catalogD(2) [OF st(1)] acl_only_fields(2) [OF acl] by simp
    have role: "access_role d' (v_id v) (u_id target) = None"
      using access_role_cong [OF catalogD(5) [OF st(1)]] f by (simp add: access_role_def)
    have bases: "pair_contribs d' (v_id v) (u_id target) = []"
      using f catalogD(6) [OF st(1)] by (simp add: pair_contribs_def)
    have ev: "events d' = events (other d1) @ [?ev]"
      using catalogD(9) [OF st(1)] acl_only_fields(6) [OF acl] by (simp add: emit_event_def)
    have vn: "vault_by_name (other d1) n = Some v" using l by (simp add: lock_administered_Inr)
    have u: "unique_by v_id (vaults (other d1))" using ok by (simp add: sys_ok_def)
    have "vault_by_id (other d1) (v_id v) = Some v" using tab_get_unique [OF u] tab_get_Some [OF vn] by blast
    then have "wanted_scope (v_id v) (u_id target) d' = None" using no role by (simp add: wanted_scope_def vs)
    moreover have "projected_except {} d'" using ok' by (simp add: sys_ok_def)
    ultimately have "\<forall>s\<in>set SCOPES. (group_name (v_id v) s, user_role_name (u_id target)) \<notin> members d'"
      by (simp add: projected_except_def)
    then show ?thesis
      using c l ok' f rep role bases ev no
      by (intro exI [of _ info] exI [of _ rq'] exI [of _ d1] exI [of _ v] exI [of _ target] exI [of _ ?ev])
        (auto simp: lock_administered_Inr)
  qed
qed

lemma resolve_user_exists:
  assumes "resolve_user_reference d username user_id = Inr target"
  shows "user_by_id d (u_id target) \<noteq> None"
proof -
  from resolve_user_Inr [OF assms] have "target \<in> set (users d)" by (auto dest: tab_get_Some)
  then show ?thesis by (auto simp: tab_get_None_iff)
qed

text \<open>
  C24: an ownership transfer is complete. Afterwards the vault has the new owner, who holds no member
  role beside the ownership; the old owner, if another person, holds at least the admin role; and the
  PostgreSQL roles of both are in the vault's admin group.
\<close>

theorem transfer_ownership_complete:
  assumes "transfer_ownership rq owner_id n username user_id other d = (Inr reply, d')"
    and "sys_ok d" and "\<And>x. sys_ok x \<Longrightarrow> sys_ok (other x)"
  shows "\<exists>info rq' d1 v old (target :: user_row).
    check_vault_access rq owner_id n ''owner'' False None d = Inr (info, rq', d1) \<and>
    vault_by_name (other d1) n = Some v \<and> v_owner v = Some old \<and> sys_ok d' \<and>
    tr_new_owner_id reply = uuid_str (u_id target) \<and>
    vault_by_id d' (v_id v) = Some (v\<lparr>v_owner := Some (u_id target)\<rparr>) \<and>
    access_role d' (v_id v) (u_id target) = None \<and>
    (old \<noteq> u_id target \<longrightarrow> 3 \<le> role_level (access_role d' (v_id v) old)) \<and>
    (group_name (v_id v) ''admin'', user_role_name (u_id target)) \<in> members d' \<and>
    (group_name (v_id v) ''admin'', user_role_name old) \<in> members d'"
proof -
  from assms(1) obtain info rq' d1 where
    c: "check_vault_access rq owner_id n ''owner'' False None d = Inr (info, rq', d1)"
    and tx: "transfer_tx owner_id n username user_id info (other d1) = Inr (reply, d')"
    unfolding transfer_ownership_def by (rule after_check_Inr)
  let ?o = "other d1"
  have ok: "sys_ok ?o" by (rule assms(3) [OF check_sys(1) [OF assms(2) c]])
  have ok': "sys_ok d'" by (rule transfer_tx_sys [OF ok tx])
  from tx show ?thesis
  proof (rule transfer_tx_Inr)
    fix v :: vault_row and old caller :: uuid and target :: user_row and d2 d3 d4 :: db and oc pl
    let ?v = "v_id v" and ?new = "u_id target"
    assume vn: "vault_by_name ?o n = Some v" and own: "v_owner v = Some old"
      and ru: "resolve_user_reference ?o username user_id = Inr target"
      and d2: "d2 = update_vault_by_id ?v (\<lambda>r. r\<lparr>v_owner := Some ?new\<rparr>) ?o"
      and a: "apply_contribution ?v (Some old) ''admin'' ''direct'' (Some ?new) None d2 = Inr (oc, d3)"
      and s: "sync_vault_user ?v ?new (emit_event ''access.transfer_ownership'' (Some ?v) (Some (vault_uri n))
          (Some (uuid_str caller)) pl (snd (remove_all_contributions ?v ?new d3))) = Inr d4"
      and s2: "sync_vault_user ?v old d4 = Inr d'" and rep: "tr_new_owner_id reply = uuid_str ?new"
    have c2: "cat_ok d2" unfolding d2 update_by_id_map
      by (rule map_vaults_cat) (use ok in \<open>simp_all add: sys_ok_iff\<close>)
    have ok2: "access_ok d2" using c2 by (simp add: cat_ok_def)
    have ok3: "access_ok d3" using apply_contribution_cat [OF c2 a] by (simp add: cat_ok_def)
    note f = apply_contribution_facts [OF ok2 a]
    note acl = apply_contribution_acl [OF a]
    obtain oc4 d3' where r: "remove_all_contributions ?v ?new d3 = (oc4, d3')" by fastforce
    note g = remove_all_contributions_facts [OF ok3 r]
    have acl2: "acl_only d3 d3'" using remove_all_acl [of d3 ?v ?new] r by simp
    note st = sync_vault_user_steps(1) [OF s] and st2 = sync_vault_user_steps(1) [OF s2]
    have vs: "vaults d' = vaults d2" and us: "users d' = users ?o"
      using catalogD(1,2) [OF st] catalogD(1,2) [OF st2] acl_only_fields(1,2) [OF acl] acl_only_fields(1,2) [OF acl2]
      by (simp_all add: r d2 update_by_id_map)
    have ac: "access_role d' w x = access_role d3' w x" for w x
      using catalogD(5) [OF st] catalogD(5) [OF st2] by (simp add: access_role_def r)
    have u: "unique_by v_id (vaults ?o)" using ok by (simp add: sys_ok_def)
    have "vault_by_id ?o ?v = Some v" using tab_get_unique [OF u] tab_get_Some [OF vn] by blast
    then have vi: "vault_by_id d' ?v = Some (v\<lparr>v_owner := Some ?new\<rparr>)"
      by (simp add: vs d2 update_by_id_map tab_get_map [where key = v_id])
    have ap: "o_applied oc" using a by (cases rule: apply_contribution_cases) auto
    have none: "access_role d' ?v ?new = None" using g ac by simp
    have adm: "3 \<le> role_level (access_role d' ?v old)" if "old \<noteq> ?new"
      using that f ap g ac by simp
    have fk: "user_by_id d' old \<noteq> None"
      using a
    proof (cases rule: apply_contribution_cases)
      case (wrote u rv)
      then show ?thesis by (simp add: contrib_fk_ok_def us d2 update_by_id_map)
    qed (use ap in simp)
    have p: "projected_except {} d'" using ok' by (simp add: sys_ok_def)
    have sc: "''admin'' \<in> set SCOPES" by (simp add: SCOPES_def)
    have "wanted_scope ?v ?new d' = Some ''admin''"
      using vi resolve_user_exists [OF ru] by (simp add: wanted_scope_def us)
    then have m1: "(group_name ?v ''admin'', user_role_name ?new) \<in> members d'"
      using projected_exceptD [OF p _ sc] by simp
    have m2: "(group_name ?v ''admin'', user_role_name old) \<in> members d'"
    proof (cases "old = ?new")
      case False
      obtain q where q: "access_role d' ?v old = Some q" using adm [OF False] by (cases "access_role d' ?v old") auto
      have "q \<in> set SCOPES" by (rule role_in_scopes [OF _ q]) (use ok' in \<open>simp add: sys_ok_def\<close>)
      then have "q = ''admin''" using adm [OF False] q by (auto simp: SCOPES_def)
      then have "wanted_scope ?v old d' = Some ''admin''" using vi fk q False by (simp add: wanted_scope_def)
      then show ?thesis using projected_exceptD [OF p _ sc] by simp
    qed (use m1 in simp)
    show ?thesis
      using c vn own ok' rep vi none adm m1 m2
      by (intro exI [of _ info] exI [of _ rq'] exI [of _ d1] exI [of _ v] exI [of _ old] exI [of _ target]) simp
  qed
qed

section \<open>Witnesses\<close>

text \<open>The example catalog with its memberships projected: alice owns \<open>eng\<close>, bob writes it.\<close>

definition own_edge :: "string \<Rightarrow> string \<Rightarrow> membership" where
  "own_edge g m = \<lparr>e_group = g, e_member = m, e_grantor = ''akb'', e_admin = False, e_inherit = True, e_set = True\<rparr>"

definition example_sys :: db where
  "example_sys = example_db\<lparr>
     pg_roles := [AUTHENTICATED_ROLE, user_role_name 1, user_role_name 2, user_role_name 3, user_role_name 4,
                  group_name 10 ''reader'', group_name 10 ''writer'', group_name 10 ''admin''],
     pg_edges := [own_edge (group_name 10 ''admin'') (user_role_name 1),
                  own_edge (group_name 10 ''writer'') (user_role_name 2)]\<rparr>"

definition no_scope :: request_ctx where
  "no_scope = \<lparr>rq_scope = None, rq_token = None, rq_authorized = None, rq_authorized_id = None\<rparr>"

lemma example_sys_members:
  "members example_sys = {(group_name 10 ''admin'', user_role_name 1), (group_name 10 ''writer'', user_role_name 2)}"
  by (simp add: members_def example_sys_def own_edge_def)

lemma example_sys_role: "access_role example_sys v u = (if v = 10 \<and> u = 2 then Some ''writer'' else None)"
  by (auto simp: access_role_def example_sys_def example_db_def tab_get_def access_key_def)

lemma example_sys_wanted:
  "wanted_scope v u example_sys =
    (if v = 10 \<and> u = 1 then Some ''admin'' else if v = 10 \<and> u = 2 then Some ''writer'' else None)"
  unfolding wanted_scope_def example_sys_role
  by (auto simp: example_sys_def example_db_def tab_get_def)

lemma example_sys_ok: "sys_ok example_sys"
proof -
  have "access_ok example_sys = access_ok example_db" by (rule access_ok_cong) (simp_all add: example_sys_def)
  then have "access_ok example_sys" by (simp add: example_access_ok)
  moreover have "policy_ok example_sys = policy_ok example_db"
    by (rule policy_ok_cong) (simp_all add: example_sys_def)
  then have "policy_ok example_sys" by (simp add: example_policy_ok)
  moreover have "projected_except {} example_sys"
    by (auto simp: projected_except_def example_sys_members example_sys_wanted)
  moreover have "public_projected example_sys"
    by (auto simp: public_projected_def example_sys_members) (auto simp: example_sys_def example_db_def
        public_access_scope_def)
  moreover have "contribs_fk example_sys" "unique_by v_id (vaults example_sys)" "unique_by v_name (vaults example_sys)"
    by (simp_all add: contribs_fk_def example_sys_def example_db_def unique_by_def)
  ultimately show ?thesis by (simp add: sys_ok_def)
qed

lemma example_check_owner:
  "r \<in> set ROLES \<Longrightarrow> \<exists>info. check_vault_access no_scope (uuid_str 1) ''eng'' r False None example_sys =
     Inr (info, no_scope\<lparr>rq_authorized := Some ''eng'', rq_authorized_id := Some (uuid_str (va_vault info))\<rparr>, example_sys)"
  by (simp add: check_vault_access_def check_vault_access_impl_def check_vault_scope_def acl_check_def
        example_sys_def example_db_def tab_get_Cons get_policy_def tab_get_def is_mirror_def is_admin_def
        MUTATING_ROLES_def no_scope_def)



lemmas eval_catalog = example_sys_def example_db_def tab_get_def access_role_def access_key_def contrib_key_def
  is_admin_def tab_upsert_def tab_conflict_def tab_delete_def access_conflict_def contrib_conflict_def
  pair_contribs_def materialize_def effective_role_def ROLE_HIERARCHY_def role_level_def

lemma example_revoke:
  "\<exists>reply d'. revoke_tx (uuid_str 1) ''eng'' (Some ''bob'') None None None example_sys = Inr (reply, d')"
proof -
  have l: "lock_administered (uuid_str 1) ''eng'' example_sys = Inr (hd (vaults example_sys), 1)"
    by (simp add: lock_administered_def eval_catalog)
  have u: "resolve_user_reference example_sys (Some ''bob'') None = Inr (hd (tl (users example_sys)))"
    by (simp add: resolve_user_reference_def eval_catalog)
  have ids: "v_id (hd (vaults example_sys)) = 10" "u_id (hd (tl (users example_sys))) = 2"
    "v_owner (hd (vaults example_sys)) = Some 1"
    by (simp_all add: example_sys_def example_db_def)
  have "snd (remove_all_contributions 10 2 example_sys) = example_sys\<lparr>contribs := [], access := []\<rparr>"
    by (simp add: remove_all_contributions_def current_effective_role_def Let_def case_prod_beta eval_catalog)
  moreover have "\<exists>d'. sync_vault_user 10 2 (emit_event k v r a p (example_sys\<lparr>contribs := [], access := []\<rparr>)) = Inr d'"
    for k v r a p
    by (rule sync_succeeds) (auto simp: own_memberships_def own_edge_def emit_event_def wanted_scope_def SCOPES_def
        locked_live_scoped_tokens_def eval_catalog)
  ultimately show ?thesis
    by (simp add: revoke_tx_def l u ids Let_def case_prod_beta result_iff del: fold_res.simps)
qed

lemma example_admin_check:
  "\<exists>info rq'. check_vault_access no_scope (uuid_str 1) ''eng'' r False None example_sys = Inr (info, rq', example_sys)"
  if "List.member ROLES r"
  using example_check_owner [of r] that by auto

theorem revoke_access_complete_witness:
  "\<exists>reply d'. revoke_access no_scope (uuid_str 1) ''eng'' (Some ''bob'') None None None id example_sys = (Inr reply, d') \<and>
    sys_ok d' \<and> rv_effective_role reply = None"
proof -
  obtain info rq' where c: "check_vault_access no_scope (uuid_str 1) ''eng'' ''admin'' False None example_sys =
      Inr (info, rq', example_sys)"
    using example_admin_check [of "''admin''"] by (auto simp: ROLES_def)
  obtain reply d' where tx: "revoke_tx (uuid_str 1) ''eng'' (Some ''bob'') None None None example_sys = Inr (reply, d')"
    using example_revoke by blast
  have r: "revoke_access no_scope (uuid_str 1) ''eng'' (Some ''bob'') None None None id example_sys = (Inr reply, d')"
    by (simp add: revoke_access_def c tx commit_def)
  have "sys_ok (id x)" if "sys_ok x" for x using that by simp
  from revoke_access_complete [OF r example_sys_ok this] show ?thesis using r by blast
qed

lemma example_apply_direct:
  "\<exists>oc d1. apply_contribution 10 (Some 2) ''reader'' ''rule:9'' (Some 1) (Some 1) example_sys = Inr (oc, d1) \<and>
     access_role d1 10 2 = Some ''writer'' \<and> pg_edges d1 = pg_edges example_sys \<and> pg_roles d1 = pg_roles example_sys \<and>
     users d1 = users example_sys \<and> vaults d1 = vaults example_sys \<and> tokens d1 = tokens example_sys \<and>
     pg_user d1 = pg_user example_sys"
proof -
  have "is_ok (apply_contribution 10 (Some 2) ''reader'' ''rule:9'' (Some 1) (Some 1) example_sys)"
    by (simp add: apply_contribution_def CONTRIBUTION_ROLES_def validate_source_key_def SOURCE_KEY_MAX_def
        is_space_def contrib_fk_ok_def fits_bigint_def case_prod_beta Let_def)
      (simp add: example_sys_def example_db_def tab_get_def contrib_key_def split: prod.split)
  then obtain oc d1 where a: "apply_contribution 10 (Some 2) ''reader'' ''rule:9'' (Some 1) (Some 1) example_sys =
      Inr (oc, d1)" by (auto simp: is_ok_iff)
  then have "access_role d1 10 2 = Some ''writer'' \<and> pg_edges d1 = pg_edges example_sys \<and>
     pg_roles d1 = pg_roles example_sys \<and>
     users d1 = users example_sys \<and> vaults d1 = vaults example_sys \<and> tokens d1 = tokens example_sys \<and>
     pg_user d1 = pg_user example_sys"
    by (auto simp: apply_contribution_def CONTRIBUTION_ROLES_def validate_source_key_def SOURCE_KEY_MAX_def
        is_space_def contrib_fk_ok_def fits_bigint_def case_prod_beta Let_def eval_catalog)
  then show ?thesis using a by blast
qed

theorem grant_access_correct_witness:
  "\<exists>reply d'. grant_access no_scope (uuid_str 1) ''eng'' (Some ''bob'') ''reader'' None ''rule:9'' (Some 1) id example_sys =
      (Inr reply, d') \<and> sys_ok d' \<and> gr_user_id reply = uuid_str 2"
proof -
  obtain info rq' where c: "check_vault_access no_scope (uuid_str 1) ''eng'' ''admin'' False None example_sys =
      Inr (info, rq', example_sys)"
    using example_admin_check [of "''admin''"] by (auto simp: ROLES_def)
  obtain oc d1 where a: "apply_contribution 10 (Some 2) ''reader'' ''rule:9'' (Some 1) (Some 1) example_sys = Inr (oc, d1)"
    and f: "access_role d1 10 2 = Some ''writer''" "pg_edges d1 = pg_edges example_sys"
      "pg_roles d1 = pg_roles example_sys" "users d1 = users example_sys" "vaults d1 = vaults example_sys"
      "tokens d1 = tokens example_sys" "pg_user d1 = pg_user example_sys"
    using example_apply_direct by blast
  have "\<exists>d'. sync_vault_user 10 2 (emit_event k v r x p d1) = Inr d'" for k v r x p
  proof (rule sync_succeeds)
    show "own_memberships (emit_event k v r x p d1) (user_role_name 2)"
      by (auto simp: own_memberships_def f emit_event_def) (auto simp: example_sys_def example_db_def own_edge_def)
    have "access_role (emit_event k v r x p d1) 10 2 = Some ''writer''"
      using f(1) by (simp add: access_role_def)
    then have "wanted_scope 10 2 (emit_event k v r x p d1) = Some ''writer''"
      by (simp add: wanted_scope_def f) (simp add: f example_sys_def example_db_def tab_get_def)
    then show "wanted_scope 10 2 (emit_event k v r x p d1) \<in> insert None (Some ` set SCOPES)"
      by (simp add: SCOPES_def)
    show "group_name 10 s \<in> set (pg_roles (emit_event k v r x p d1))" if "s \<in> set SCOPES" for s
      using that by (auto simp: f emit_event_def example_sys_def SCOPES_def)
    show "locked_live_scoped_tokens (Some 2) None (emit_event k v r x p d1) = []"
      by (simp add: locked_live_scoped_tokens_def f) (simp add: example_sys_def example_db_def)
  qed
  moreover have l: "lock_administered (uuid_str 1) ''eng'' example_sys = Inr (hd (vaults example_sys), 1)"
    by (simp add: lock_administered_def eval_catalog)
  moreover have u: "resolve_user_reference example_sys (Some ''bob'') None = Inr (hd (tl (users example_sys)))"
    by (simp add: resolve_user_reference_def eval_catalog)
  moreover have ids: "v_id (hd (vaults example_sys)) = 10" "u_id (hd (tl (users example_sys))) = 2"
    by (simp_all add: example_sys_def example_db_def)
  ultimately obtain reply d' where
    "grant_tx (uuid_str 1) ''eng'' (Some ''bob'') ''reader'' None ''rule:9'' (Some 1) example_sys = Inr (reply, d')"
    and "gr_user_id reply = uuid_str 2"
    by (fastforce simp: grant_tx_def a result_iff)
  moreover have "validate_source_key ''rule:9'' = Inr ''rule:9''"
    by (simp add: validate_source_key_def SOURCE_KEY_MAX_def is_space_def)
  ultimately have g: "grant_access no_scope (uuid_str 1) ''eng'' (Some ''bob'') ''reader'' None ''rule:9'' (Some 1) id
      example_sys = (Inr reply, d')"
    by (simp add: grant_access_def after_check_def c commit_def ROLE_HIERARCHY_def)
  have "sys_ok (id x)" if "sys_ok x" for x using that by simp
  from grant_access_correct [OF g example_sys_ok this] show ?thesis using g \<open>gr_user_id reply = uuid_str 2\<close> by blast
qed


lemma example_transfer:
  "\<exists>reply d'. transfer_tx (uuid_str 1) ''eng'' (Some ''bob'') None info example_sys = Inr (reply, d')"
proof -
  let ?v = "hd (vaults example_sys)" and ?bob = "hd (tl (users example_sys))"
  let ?d1 = "update_vault_by_id 10 (\<lambda>r. r\<lparr>v_owner := Some 2\<rparr>) example_sys"
  have ids: "v_id ?v = 10" "u_id ?bob = 2" "v_owner ?v = Some 1"
    by (simp_all add: example_sys_def example_db_def)
  have vn: "vault_by_name example_sys ''eng'' = Some ?v" by (simp add: eval_catalog)
  have u: "resolve_user_reference example_sys (Some ''bob'') None = Inr ?bob"
    by (simp add: resolve_user_reference_def eval_catalog)
  have "is_ok (apply_contribution 10 (Some 1) ''admin'' DIRECT_SOURCE_KEY (Some 2) None ?d1)"
    by (simp add: apply_contribution_def CONTRIBUTION_ROLES_def validate_source_key_def SOURCE_KEY_MAX_def
        is_space_def contrib_fk_ok_def fits_bigint_def case_prod_beta Let_def DIRECT_SOURCE_KEY_def)
      (simp add: example_sys_def example_db_def tab_get_def contrib_key_def update_vault_by_id_def tab_update_def
        split: prod.split)
  then obtain oc d2 where a: "apply_contribution 10 (Some 1) ''admin'' DIRECT_SOURCE_KEY (Some 2) None ?d1 = Inr (oc, d2)"
    by (auto simp: is_ok_iff)
  obtain oc3 d3 where r: "remove_all_contributions 10 2 d2 = (oc3, d3)" by (cases "remove_all_contributions 10 2 d2")
  have "acl_only ?d1 d2" by (rule apply_contribution_acl [OF a])
  moreover have "acl_only d2 d3" using remove_all_acl [of d2 10 2] r by simp
  ultimately have f: "users d3 = users example_sys" "vaults d3 = vaults ?d1" "tokens d3 = tokens example_sys"
      "pg_edges d3 = pg_edges example_sys" "pg_roles d3 = pg_roles example_sys" "pg_user d3 = pg_user example_sys"
    by (simp_all add: acl_only_fields update_vault_by_id_def)
  have "access_role d2 10 1 = Some ''admin''"
    using a by (auto simp: apply_contribution_def CONTRIBUTION_ROLES_def validate_source_key_def SOURCE_KEY_MAX_def
        is_space_def contrib_fk_ok_def fits_bigint_def case_prod_beta Let_def DIRECT_SOURCE_KEY_def
        update_vault_by_id_def tab_update_def eval_catalog)
  moreover have "access_ok ?d1"
    using example_sys_ok access_ok_cong [of ?d1 example_sys] by (simp add: sys_ok_def update_vault_by_id_def)
  then have "access_ok d2" using apply_contribution_facts [OF _ a] by blast
  ultimately have ac: "access_role d3 10 1 = Some ''admin''"
    using remove_all_contributions_facts [OF _ r] by simp
  have v3: "vault_by_id d3 10 = Some (?v\<lparr>v_owner := Some 2\<rparr>)"
    by (simp add: f update_vault_by_id_def tab_update_def eval_catalog)
  have us: "user_by_id d3 1 \<noteq> None" "user_by_id d3 2 \<noteq> None" by (simp_all add: f eval_catalog)
  have own: "own_memberships d3 m" for m
    by (simp add: own_memberships_def f) (simp add: example_sys_def example_db_def own_edge_def)
  have gs: "group_name 10 s \<in> set (pg_roles d3)" if "s \<in> set SCOPES" for s
    using that by (auto simp: f example_sys_def SCOPES_def)
  have tk: "locked_live_scoped_tokens (Some 1) None d3 = []" "locked_live_scoped_tokens (Some 2) None d3 = []"
    by (simp_all add: locked_live_scoped_tokens_def f) (simp_all add: example_sys_def example_db_def)
  have "\<exists>d5. rbind (sync_vault_user 10 2 (emit_event k v w x p d3)) (sync_vault_user 10 1) = Inr d5" for k v w x p
  proof -
    let ?e = "emit_event k v w x p d3"
    have e: "users ?e = users d3" "vaults ?e = vaults d3" "tokens ?e = tokens d3" "pg_edges ?e = pg_edges d3"
      "pg_user ?e = pg_user d3" "pg_roles ?e = pg_roles d3" "access ?e = access d3"
      by (simp_all add: emit_event_def)
    have own': "own_memberships ?e m" for m using own by (simp add: own_memberships_def e)
    have tk': "locked_live_scoped_tokens (Some u) None ?e = []" if "u \<in> {1, 2}" for u
      using tk that token_live_cong [of ?e d3] by (auto simp: locked_live_scoped_tokens_def e emit_event_def)
    obtain d4 where s2: "sync_vault_user 10 2 ?e = Inr d4"
      using sync_succeeds [of ?e 2 10] own' tk' gs us v3 by (force simp: wanted_scope_def e SCOPES_def)
    note st = sync_vault_user_steps [OF s2]
    have k: "own_memberships d4 m \<and> set (pg_roles d3) \<subseteq> set (pg_roles d4)" for m
      using sync_keeps_own [OF s2 _ own'] tk' by (simp add: e)
    have c: "catalog d4 = catalog ?e" using st by simp
    have "access_role d4 10 1 = Some ''admin''"
      using ac catalogD(5) [OF c] by (simp add: access_role_def e)
    then have "wanted_scope 10 1 d4 = Some ''admin''"
      using v3 us catalogD(1,2) [OF c] by (simp add: wanted_scope_def e)
    moreover have "locked_live_scoped_tokens (Some 1) None d4 = []"
      using tk' [of 1] catalogD(4) [OF c] token_live_cong [OF catalogD(1,10) [OF c]]
      by (simp add: locked_live_scoped_tokens_def)
    ultimately obtain d5 where "sync_vault_user 10 1 d4 = Inr d5"
      using sync_succeeds [of d4 1 10] k gs by (force simp: SCOPES_def)
    then show ?thesis using s2 by simp
  qed
  moreover have "parse_uuid (uuid_str 1) = Some 1" by simp
  ultimately show ?thesis
    unfolding transfer_tx_def using vn u ids a r by (simp add: Let_def case_prod_beta result_iff)
qed

theorem transfer_ownership_complete_witness:
  "\<exists>reply d'. transfer_ownership no_scope (uuid_str 1) ''eng'' (Some ''bob'') None id example_sys = (Inr reply, d') \<and>
    sys_ok d'"
proof -
  obtain info rq' where c: "check_vault_access no_scope (uuid_str 1) ''eng'' ''owner'' False None example_sys =
      Inr (info, rq', example_sys)"
    using example_admin_check [of "''owner''"] by (auto simp: ROLES_def)
  obtain reply d' where tx: "transfer_tx (uuid_str 1) ''eng'' (Some ''bob'') None info example_sys = Inr (reply, d')"
    using example_transfer by blast
  have r: "transfer_ownership no_scope (uuid_str 1) ''eng'' (Some ''bob'') None id example_sys = (Inr reply, d')"
    by (simp add: transfer_ownership_def after_check_def c tx commit_def)
  have "sys_ok (id x)" if "sys_ok x" for x using that by simp
  from transfer_ownership_complete [OF r example_sys_ok this] show ?thesis using r by blast
qed

end
