(* ===== verification/RoleHooks.thy ===== *)
theory RoleHooks
  imports AccessSystem
begin

text \<open>
  The best-effort lifecycle hooks of \<^verbatim>\<open>backend/app/services/role_sync.py\<close>: each opens its own guarded
  transaction after the caller has committed, re-reads the catalog there, and turns a failure into a
  counter that \<open>/health\<close> shows. A hook can therefore run arbitrarily late, after other requests have
  changed the catalog again. The theory shows that no delay, repetition or failure of a hook can undo
  newer authority.
\<close>

section \<open>Hook metrics\<close>

record hook_metrics =
  hm_failures :: "(string \<times> nat) list"
  hm_reconcile_errors :: nat
  hm_reconcile_at :: "string option"

definition record_failure :: "string \<Rightarrow> hook_metrics \<Rightarrow> hook_metrics" where
  "record_failure hook m =
     m\<lparr>hm_failures := (case map_of (hm_failures m) hook of
          None \<Rightarrow> hm_failures m @ [(hook, 1)]
        | Some _ \<Rightarrow> map (\<lambda>(h, n). (h, if h = hook then n + 1 else n)) (hm_failures m))\<rparr>"

definition total_failures :: "hook_metrics \<Rightarrow> nat" where
  "total_failures m = sum_list (map snd (hm_failures m))"

definition hook_failures :: "hook_metrics \<Rightarrow> string \<Rightarrow> nat" where
  "hook_failures m hook = (case map_of (hm_failures m) hook of None \<Rightarrow> 0 | Some n \<Rightarrow> n)"

text \<open>\<open>snapshot\<close>, the object \<open>/health\<close> reports.\<close>

definition metrics_snapshot :: "hook_metrics \<Rightarrow> json" where
  "metrics_snapshot m =
     JObj [(''hook_failures_total'', JInt (int (total_failures m))),
           (''hook_failures_by_name'', JObj (map (\<lambda>(h, n). (h, JInt (int n))) (hm_failures m))),
           (''last_reconcile_errors'', JInt (int (hm_reconcile_errors m))),
           (''last_reconcile_at'', (case hm_reconcile_at m of None \<Rightarrow> JNull | Some t \<Rightarrow> JStr t))]"

text \<open>The \<open>try\<close> around a hook's transaction: an exception rolls back and is counted.\<close>

definition best_effort :: "string \<Rightarrow> (db \<Rightarrow> db result) \<Rightarrow> hook_metrics \<times> db \<Rightarrow> hook_metrics \<times> db" where
  "best_effort hook tx s =
     (case s of (m, d) \<Rightarrow> (case tx d of Inr d' \<Rightarrow> (m, d') | Inl _ \<Rightarrow> (record_failure hook m, d)))"

section \<open>The hooks\<close>

definition on_user_create :: "uuid \<Rightarrow> hook_metrics \<times> db \<Rightarrow> hook_metrics \<times> db" where
  "on_user_create uid =
     best_effort ''on_user_create''
       (\<lambda>d. if user_by_id d uid = None then Inr d else on_user_create_in_conn uid d)"

definition user_role_projected_in_conn :: "uuid \<Rightarrow> db \<Rightarrow> bool" where
  "user_role_projected_in_conn uid d \<longleftrightarrow>
     has_direct_membership d AUTHENTICATED_ROLE (user_role_name uid) False
     \<and> membership_options_valid d AUTHENTICATED_ROLE (user_role_name uid)"

definition on_user_delete :: "uuid \<Rightarrow> hook_metrics \<times> db \<Rightarrow> hook_metrics \<times> db" where
  "on_user_delete uid =
     best_effort ''on_user_delete''
       (\<lambda>d. if user_by_id d uid = None then Inr (drop_role_if_present (user_role_name uid) d) else Inr d)"

definition token_create_tx :: "uuid \<Rightarrow> uuid \<Rightarrow> db \<Rightarrow> db result" where
  "token_create_tx tid uid d =
     (case locked_live_scoped_tokens (Some uid) (Some tid) d of
        [live] \<Rightarrow>
          (case from_db_json (t_scope live) of
             Inr (Some scope) \<Rightarrow>
               (let role = token_role_name tid;
                    d = create_role_if_missing role d;
                    accessible = fetch_user_accessible d (t_user live)
                in rbind (wanted_token_group_roles accessible scope) (\<lambda>wanted.
                   fold_res (\<lambda>g. grant_membership g role) wanted d))
           | _ \<Rightarrow> Inr d)
      | _ \<Rightarrow> Inr d)"

text \<open>The scope argument is not read: the stored one replaces it.\<close>

definition on_token_create :: "uuid \<Rightarrow> uuid \<Rightarrow> vault_scope \<Rightarrow> hook_metrics \<times> db \<Rightarrow> hook_metrics \<times> db" where
  "on_token_create tid uid scope = best_effort ''on_token_create'' (token_create_tx tid uid)"

definition revoke_token_role_strict :: "uuid \<Rightarrow> db \<Rightarrow> db result" where
  "revoke_token_role_strict tid d =
     Inr (if tab_get t_id tid (tokens d) = None then drop_role_if_present (token_role_name tid) d else d)"

definition on_token_revoke :: "uuid \<Rightarrow> hook_metrics \<times> db \<Rightarrow> hook_metrics \<times> db" where
  "on_token_revoke tid =
     best_effort ''on_token_revoke''
       (\<lambda>d. if tab_get t_id tid (tokens d) = None then Inr (drop_role_if_present (token_role_name tid) d) else Inr d)"

definition on_vault_create :: "uuid \<Rightarrow> uuid option \<Rightarrow> hook_metrics \<times> db \<Rightarrow> hook_metrics \<times> db" where
  "on_vault_create vid owner =
     best_effort ''on_vault_create''
       (\<lambda>d. case vault_by_id d vid of None \<Rightarrow> Inr d | Some v \<Rightarrow> on_vault_create_in_conn vid (v_owner v) d)"

definition on_vault_delete :: "uuid \<Rightarrow> hook_metrics \<times> db \<Rightarrow> hook_metrics \<times> db" where
  "on_vault_delete vid =
     best_effort ''on_vault_delete''
       (\<lambda>d. if vault_by_id d vid \<noteq> None then Inr d
             else fold_res (\<lambda>s d. rbind (vault_group_role_name vid s) (\<lambda>role. Inr (drop_role_if_present role d)))
                    [''admin'', ''writer'', ''reader''] d)"

definition on_grant :: "uuid \<Rightarrow> uuid \<Rightarrow> string \<Rightarrow> hook_metrics \<times> db \<Rightarrow> hook_metrics \<times> db" where
  "on_grant vid uid scope s =
     (if \<not> List.member SCOPES scope then (record_failure ''on_grant'' (fst s), snd s)
      else best_effort ''on_grant'' (sync_vault_user vid uid) s)"

definition on_revoke :: "uuid \<Rightarrow> uuid \<Rightarrow> hook_metrics \<times> db \<Rightarrow> hook_metrics \<times> db" where
  "on_revoke vid uid = best_effort ''on_revoke'' (sync_vault_user vid uid)"

text \<open>\<open>uids\<close> is an enumeration of the set of the two owners, less \<open>None\<close>.\<close>

definition on_ownership_transfer :: "uuid \<Rightarrow> uuid list \<Rightarrow> hook_metrics \<times> db \<Rightarrow> hook_metrics \<times> db" where
  "on_ownership_transfer vid uids = best_effort ''on_ownership_transfer'' (fold_res (sync_vault_user vid) uids)"

definition on_public_access_change :: "uuid \<Rightarrow> string \<Rightarrow> hook_metrics \<times> db \<Rightarrow> hook_metrics \<times> db" where
  "on_public_access_change vid level =
     best_effort ''on_public_access_change''
       (\<lambda>d. case vault_by_id d vid of None \<Rightarrow> Inr d | Some v \<Rightarrow> on_public_access_change_in_conn vid (v_public v) d)"

definition on_table_create :: "uuid \<Rightarrow> string \<Rightarrow> hook_metrics \<times> db \<Rightarrow> hook_metrics \<times> db" where
  "on_table_create vid tbl s =
     (if \<not> is_safe_pg_table_name tbl then (record_failure ''on_table_create'' (fst s), snd s)
      else best_effort ''on_table_create''
        (\<lambda>d. if (\<exists>v\<in>set (vaults d). v_id v = vid \<and>
                  (\<exists>(w, n)\<in>set (vault_tables d). w = vid \<and> pg_table_name (v_name v) n = tbl))
              then grant_table vid tbl d else Inr d) s)"

definition grant_table_in_conn :: "uuid \<Rightarrow> string \<Rightarrow> db \<Rightarrow> db result" where
  "grant_table_in_conn vid tbl d =
     (if \<not> is_safe_pg_table_name tbl then Inl PyValueError else grant_table vid tbl d)"

text \<open>One delivery of a hook, with whatever arguments its caller passed when it committed.\<close>

inductive hook_step :: "hook_metrics \<times> db \<Rightarrow> hook_metrics \<times> db \<Rightarrow> bool" where
  user_create: "hook_step s (on_user_create uid s)"
| user_delete: "hook_step s (on_user_delete uid s)"
| token_create: "hook_step s (on_token_create tid uid scope s)"
| token_revoke: "hook_step s (on_token_revoke tid s)"
| vault_create: "hook_step s (on_vault_create vid owner s)"
| vault_delete: "hook_step s (on_vault_delete vid s)"
| hook_grant: "hook_step s (on_grant vid uid role s)"
| hook_revoke: "hook_step s (on_revoke vid uid s)"
| ownership_transfer: "hook_step s (on_ownership_transfer vid uids s)"
| public_change: "hook_step s (on_public_access_change vid level s)"
| table_create: "hook_step s (on_table_create vid tbl s)"


section \<open>What a failure leaves\<close>

lemma sum_count_bump:
  "distinct (map fst xs) \<Longrightarrow> hook \<in> fst ` set xs \<Longrightarrow>
   sum_list (map snd (map (\<lambda>(h, n). (h, if h = hook then n + 1 else n)) xs)) = Suc (sum_list (map snd xs))"
proof (induction xs)
  case (Cons x xs)
  obtain h n where x: "x = (h, n)" by fastforce
  show ?case
  proof (cases "h = hook")
    case True
    with Cons.prems(1) x have "hook \<notin> fst ` set xs" by auto
    then have "map (\<lambda>(h, n). (h, if h = hook then n + 1 else n)) xs = xs"
      by (intro map_idI) (force split: prod.split)
    then show ?thesis using x True by simp
  next
    case False
    then show ?thesis using Cons x by auto
  qed
qed simp

text \<open>The dictionary has one entry per hook, and a failure counts once, for its own hook.\<close>

definition metrics_ok :: "hook_metrics \<Rightarrow> bool" where
  "metrics_ok m \<longleftrightarrow> distinct (map fst (hm_failures m))"

lemma map_of_bump:
  "map_of (map (\<lambda>(h, n). (h, if h = hook then n + 1 else n)) xs) k =
   map_option (\<lambda>n. if k = hook then n + 1 else n) (map_of xs k)"
  for xs :: "(string \<times> nat) list"
  by (induction xs) auto

lemma map_fst_bump: "map fst (map (\<lambda>(h, n). (h, g h n)) xs) = map fst xs"
  by (induction xs) auto

lemma record_failure_facts:
  assumes "metrics_ok m"
  shows "metrics_ok (record_failure hook m)" "total_failures (record_failure hook m) = Suc (total_failures m)"
    "hook_failures (record_failure hook m) h = hook_failures m h + (if h = hook then 1 else 0)"
proof -
  have "metrics_ok (record_failure hook m) \<and> total_failures (record_failure hook m) = Suc (total_failures m) \<and>
    hook_failures (record_failure hook m) h = hook_failures m h + (if h = hook then 1 else 0)"
  proof (cases "map_of (hm_failures m) hook")
    case None
    then have "hook \<notin> fst ` set (hm_failures m)" by (simp add: map_of_eq_None_iff)
    then show ?thesis
      using assms None
      by (auto simp: record_failure_def metrics_ok_def total_failures_def hook_failures_def map_add_def
          split: option.split)
  next
    case (Some n)
    then have "hook \<in> fst ` set (hm_failures m)" by (force dest: map_of_SomeD)
    with assms have "sum_list (map snd (map (\<lambda>(h, n). (h, if h = hook then n + 1 else n)) (hm_failures m))) =
        Suc (total_failures m)"
      by (simp add: metrics_ok_def total_failures_def sum_count_bump del: map_map)
    then show ?thesis
      using assms Some
      by (simp add: record_failure_def metrics_ok_def total_failures_def hook_failures_def map_fst_bump
          map_of_bump del: map_map split: option.split)
  qed
  then show "metrics_ok (record_failure hook m)" "total_failures (record_failure hook m) = Suc (total_failures m)"
    "hook_failures (record_failure hook m) h = hook_failures m h + (if h = hook then 1 else 0)" by blast+
qed

section \<open>A hook keeps the projection\<close>

text \<open>The owner of a vault is a user: the foreign key \<open>vaults.owner_id\<close>.\<close>

definition owners_fk :: "db \<Rightarrow> bool" where
  "owners_fk d \<longleftrightarrow> (\<forall>r\<in>set (vaults d). \<forall>u. v_owner r = Some u \<longrightarrow> user_by_id d u \<noteq> None)"

text \<open>
  A delivery is harmless: the catalog is as it was and still projected; either nothing was counted, or
  the transaction failed, changed nothing and was counted once.
\<close>

definition harmless :: "hook_metrics \<times> db \<Rightarrow> hook_metrics \<times> db \<Rightarrow> bool" where
  "harmless s s' \<longleftrightarrow> sys_ok (snd s') \<and> catalog (snd s') = catalog (snd s) \<and> metrics_ok (fst s') \<and>
     (fst s' = fst s \<or> (\<exists>h. s' = (record_failure h (fst s), snd s)))"

text \<open>
  What every hook's transaction promises: it never writes the catalog, and where the roles of users and
  of the wildcard are what the catalog says they still are afterwards.
\<close>

locale lifecycle_hook =
  fixes hook :: string and tx :: "db \<Rightarrow> db result"
  assumes keeps: "tx d = Inr d' \<Longrightarrow> sys_ok d \<Longrightarrow> owners_fk d \<Longrightarrow> sys_ok d'"
    and reads: "tx d = Inr d' \<Longrightarrow> catalog d' = catalog d"
begin

lemma delivered:
  assumes "sys_ok (snd s)" and "owners_fk (snd s)" and "metrics_ok (fst s)"
  shows "harmless s (best_effort hook tx s)"
proof (cases "tx (snd s)")
  case (Inl e)
  then have "best_effort hook tx s = (record_failure hook (fst s), snd s)"
    by (simp add: best_effort_def case_prod_beta)
  then show ?thesis using assms record_failure_facts(1) by (auto simp: harmless_def)
next
  case (Inr d')
  then have "best_effort hook tx s = (fst s, d')" by (simp add: best_effort_def case_prod_beta)
  then show ?thesis unfolding harmless_def using assms keeps [OF Inr assms(1,2)] reads [OF Inr] by simp
qed

end

definition same_projection :: "db \<Rightarrow> db \<Rightarrow> bool" where
  "same_projection d d' \<longleftrightarrow> catalog d' = catalog d \<and>
     (\<forall>v s u. (group_name v s, user_role_name u) \<in> members d' \<longleftrightarrow> (group_name v s, user_role_name u) \<in> members d) \<and>
     (\<forall>v s. (group_name v s, AUTHENTICATED_ROLE) \<in> members d' \<longleftrightarrow> (group_name v s, AUTHENTICATED_ROLE) \<in> members d)"

lemma wanted_scope_catalog:
  assumes c: "catalog d' = catalog d"
  shows "wanted_scope v u d' = wanted_scope v u d"
  by (rule wanted_scope_cong [OF catalogD(1) [OF c] catalogD(2) [OF c] access_role_cong [OF catalogD(5) [OF c]]])

lemma same_projection_sys:
  assumes "same_projection d d'" and "sys_ok d"
  shows "sys_ok d'"
proof -
  have c: "catalog d' = catalog d" using assms(1) by (simp add: same_projection_def)
  show ?thesis
    using assms wanted_scope_catalog [OF c]
    by (simp add: sys_ok_iff cat_ok_catalog [OF c] projected_except_def public_projected_def same_projection_def
        catalogD(2) [OF c])
qed

lemma drop_role_members:
  "members (drop_role_if_present r d) = {(g, m) \<in> members d. g \<noteq> r \<and> m \<noteq> r}"
  "catalog (drop_role_if_present r d) = catalog d"
  by (auto simp: drop_role_if_present_def members_def catalog_def)

text \<open>Dropping a role that no live user, and no existing vault, needs.\<close>

lemma drop_user_role_sys:
  assumes "sys_ok d" and "user_by_id d u = None"
  shows "sys_ok (drop_role_if_present (user_role_name u) d)"
proof -
  let ?d = "drop_role_if_present (user_role_name u) d"
  note c = drop_role_members(2) [of "user_role_name u" d]
  have i: "cat_ok d" "projected_except {} d" "public_projected d" using assms(1) by (simp_all add: sys_ok_iff)
  have none: "wanted_scope v u d = None" for v using assms(2) by (auto simp: wanted_scope_def split: option.split)
  have "(group_name v s, user_role_name w) \<in> members ?d \<longleftrightarrow> wanted_scope v w ?d = Some s" if "s \<in> set SCOPES" for v w s
    using projected_exceptD [OF i(2) _ that, of v w] none wanted_scope_catalog [OF c]
    by (cases "w = u") (simp_all add: drop_role_members(1))
  then have "projected_except {} ?d" by (simp add: projected_except_def)
  moreover have "public_projected ?d"
    using i(3) by (simp add: public_projected_def drop_role_members(1) catalogD(2) [OF c])
  moreover have "cat_ok ?d" using i(1) cat_ok_catalog [OF c] by simp
  ultimately show ?thesis by (simp add: sys_ok_iff)
qed

lemma drop_group_role_sys:
  assumes "sys_ok d" and "vault_by_id d v = None"
  shows "sys_ok (drop_role_if_present (group_name v s) d)"
proof -
  let ?d = "drop_role_if_present (group_name v s) d"
  note c = drop_role_members(2) [of "group_name v s" d]
  have i: "cat_ok d" "projected_except {} d" "public_projected d" using assms(1) by (simp_all add: sys_ok_iff)
  have none: "wanted_scope v u d = None" for u using assms(2) by (simp add: wanted_scope_def)
  have "(group_name w t, user_role_name u) \<in> members ?d \<longleftrightarrow> wanted_scope w u ?d = Some t" if "t \<in> set SCOPES" for w u t
    using projected_exceptD [OF i(2) _ that, of w u] none wanted_scope_catalog [OF c]
    by (cases "w = v") (simp_all add: drop_role_members(1))
  then have "projected_except {} ?d" by (simp add: projected_except_def)
  moreover have "v_id r \<noteq> v" if "r \<in> set (vaults d)" for r using assms(2) that by (auto simp: tab_get_None_iff)
  then have "public_projected ?d"
    using i(3) by (simp add: public_projected_def drop_role_members(1) catalogD(2) [OF c])
  moreover have "cat_ok ?d" using i(1) cat_ok_catalog [OF c] by simp
  ultimately show ?thesis by (simp add: sys_ok_iff)
qed

lemma drop_token_role: "same_projection d (drop_role_if_present (token_role_name t) d)"
  by (simp add: same_projection_def drop_role_members)


section \<open>Each hook keeps the promise\<close>

lemma user_create_projection:
  assumes "on_user_create_in_conn u d = Inr d'"
  shows "same_projection d d'"
  using grant_membership_mem [OF assms [unfolded on_user_create_in_conn_def Let_def]]
  by (auto simp: same_projection_def)

lemma token_create_projection:
  assumes "token_create_tx t u d = Inr d'"
  shows "same_projection d d'"
proof (cases "d' = d")
  case False
  with assms obtain ws where
    "fold_res (\<lambda>g. grant_membership g (token_role_name t)) ws (create_role_if_missing (token_role_name t) d) = Inr d'"
    by (auto simp: token_create_tx_def Let_def result_iff split: list.splits sum.splits option.splits)
  from pg.grant_all [OF this] show ?thesis by (auto simp: same_projection_def)
qed (simp add: same_projection_def)

lemma vault_create_projection:
  assumes "vault_by_id d v = Some r" and "on_vault_create_in_conn v (v_owner r) d = Inr d'"
    and "sys_ok d" and "owners_fk d"
  shows "same_projection d d'"
proof -
  note f = on_vault_create_facts [OF assms(2)]
  have r: "r \<in> set (vaults d)" using tab_get_Some [OF assms(1)] by simp
  have p: "projected_except {} d" using assms(3) by (simp add: sys_ok_iff)
  have "(group_name v ''admin'', user_role_name u) \<in> members d" if "v_owner r = Some u" for u
  proof -
    have "user_by_id d u \<noteq> None" using assms(4) r that by (auto simp: owners_fk_def)
    then have "wanted_scope v u d = Some ''admin''" using assms(1) that by (simp add: wanted_scope_def)
    then show ?thesis using projected_exceptD [OF p, of v u "''admin''"] by (simp add: SCOPES_def)
  qed
  then show ?thesis by (auto simp: same_projection_def f)
qed

lemma vault_delete_sys:
  assumes "fold_res (\<lambda>s d. rbind (vault_group_role_name v s) (\<lambda>role. Inr (drop_role_if_present role d))) ss d = Inr d'"
    and "vault_by_id d v = None" and "sys_ok d"
  shows "sys_ok d' \<and> catalog d' = catalog d"
proof -
  have "sys_ok d' \<and> catalog d' = catalog d \<and> vault_by_id d' v = None"
  proof (rule fold_res_invariant [OF assms(1)])
    fix s x x'
    assume i: "sys_ok x \<and> catalog x = catalog d \<and> vault_by_id x v = None"
      and "rbind (vault_group_role_name v s) (\<lambda>role. Inr (drop_role_if_present role x)) = Inr x'"
    then have x': "x' = drop_role_if_present (group_name v s) x"
      by (auto simp: vault_group_role_name_def result_iff split: if_splits)
    show "sys_ok x' \<and> catalog x' = catalog d \<and> vault_by_id x' v = None"
      using i drop_group_role_sys [of x v s] drop_role_members(2) [of "group_name v s" x]
        catalogD(2) [OF drop_role_members(2) [of "group_name v s" x]] by (simp add: x')
  qed (use assms in simp)
  then show ?thesis by simp
qed

lemma sync_consistent:
  assumes "sync_vault_user v u d = Inr d'" and "sys_ok d"
  shows "sys_ok d' \<and> catalog d' = catalog d"
proof -
  have i: "cat_ok d" "projected_except {} d" "public_projected d" using assms(2) by (simp_all add: sys_ok_iff)
  have "projected_except {(v, u)} d" by (rule projected_mono [OF i(2)]) simp
  then show ?thesis using sync_sys [OF i(1) _ i(3) assms(1)] sync_vault_user_steps(1) [OF assms(1)] by simp
qed

lemma sync_all_consistent:
  assumes "fold_res (sync_vault_user v) us d = Inr d'" and "sys_ok d"
  shows "sys_ok d' \<and> catalog d' = catalog d"
proof (rule fold_res_invariant [OF assms(1)])
  fix u x x'
  assume i: "sys_ok x \<and> catalog x = catalog d" and "sync_vault_user v u x = Inr x'"
  then show "sys_ok x' \<and> catalog x' = catalog d" using sync_consistent [of v u x x'] by simp
qed (use assms(2) in simp)

lemma public_resync:
  assumes "vault_by_id d v = Some r" and "on_public_access_change_in_conn v (v_public r) d = Inr d'" and "sys_ok d"
  shows "sys_ok d' \<and> catalog d' = catalog d"
proof -
  have i: "cat_ok d" "projected_except {} d" "public_projected d" using assms(3) by (simp_all add: sys_ok_iff)
  have u: "unique_by v_id (vaults d)" using i(1) by (simp add: cat_ok_def)
  have c: "catalog d' = catalog d" using public_access_facts [OF assms(2)] by blast
  have "v_public x = v_public r" if "x \<in> set (vaults d)" "v_id x = v" for x
    using tab_get_unique [OF u that(1)] that(2) assms(1) by simp
  then have "public_projected d'"
    by (intro public_repair [OF _ _ assms(2)]) (use i(3) in \<open>auto simp: public_projected_def\<close>)
  then show ?thesis
    using projected_public [OF i(2) assms(2)] i(1) cat_ok_catalog [OF c] c by (simp add: sys_ok_iff)
qed

lemma grant_table_projection:
  "grant_table v t d = Inr d' \<Longrightarrow> same_projection d d'"
  by (auto simp: grant_table_def pg_grant_table_def same_projection_def members_def catalog_def result_iff
      split: if_splits)

lemma lifecycle_hookI:
  "(\<And>d d'. tx d = Inr d' \<Longrightarrow> sys_ok d \<Longrightarrow> owners_fk d \<Longrightarrow> sys_ok d') \<Longrightarrow>
   (\<And>d d'. tx d = Inr d' \<Longrightarrow> catalog d' = catalog d) \<Longrightarrow> lifecycle_hook tx"
  by unfold_locales

lemma projection_hookI: "(\<And>d d'. tx d = Inr d' \<Longrightarrow> same_projection d d') \<Longrightarrow> lifecycle_hook tx"
  by (rule lifecycle_hookI) (blast intro: same_projection_sys, simp add: same_projection_def)

lemma same_projection_refl [simp]: "same_projection d d"
  by (simp add: same_projection_def)

interpretation user_create: lifecycle_hook "''on_user_create''"
  "\<lambda>d. if user_by_id d u = None then Inr d else on_user_create_in_conn u d" for u
  by (rule projection_hookI) (auto split: if_splits intro: user_create_projection)

interpretation user_delete: lifecycle_hook "''on_user_delete''"
  "\<lambda>d. if user_by_id d u = None then Inr (drop_role_if_present (user_role_name u) d) else Inr d" for u
  by (rule lifecycle_hookI) (auto split: if_splits intro: drop_user_role_sys simp: drop_role_members(2))

interpretation token_create: lifecycle_hook "''on_token_create''" "token_create_tx t u" for t u
  by (rule projection_hookI) (rule token_create_projection)

interpretation token_revoke: lifecycle_hook "''on_token_revoke''"
  "\<lambda>d. if tab_get t_id t (tokens d) = None then Inr (drop_role_if_present (token_role_name t) d) else Inr d" for t
  by (rule projection_hookI) (auto split: if_splits intro: drop_token_role)

interpretation vault_create: lifecycle_hook "''on_vault_create''"
  "\<lambda>d. case vault_by_id d v of None \<Rightarrow> Inr d | Some r \<Rightarrow> on_vault_create_in_conn v (v_owner r) d" for v
  by (rule lifecycle_hookI)
    (auto split: option.splits intro: same_projection_sys vault_create_projection dest: on_vault_create_facts(1))

interpretation vault_delete: lifecycle_hook "''on_vault_delete''"
  "\<lambda>d. if vault_by_id d v \<noteq> None then Inr d
       else fold_res (\<lambda>s d. rbind (vault_group_role_name v s) (\<lambda>role. Inr (drop_role_if_present role d)))
              [''admin'', ''writer'', ''reader''] d" for v
proof (rule lifecycle_hookI)
  fix d d'
  let ?f = "fold_res (\<lambda>s d. rbind (vault_group_role_name v s) (\<lambda>role. Inr (drop_role_if_present role d)))
              [''admin'', ''writer'', ''reader'']"
  assume t: "(if vault_by_id d v \<noteq> None then Inr d else ?f d) = Inr d'"
  show "catalog d' = catalog d"
    using t by (cases "vault_by_id d v")
      (auto simp: vault_group_role_name_def SCOPES_def drop_role_members(2))
  assume "sys_ok d"
  then show "sys_ok d'" using t vault_delete_sys by (cases "vault_by_id d v") (auto simp del: fold_res.simps)
qed

interpretation pair_sync: lifecycle_hook hook "sync_vault_user v u" for hook v u
  by (rule lifecycle_hookI) (use sync_consistent sync_vault_user_steps(1) in blast)+

lemma sync_all_catalog: "fold_res (sync_vault_user v) us d = Inr d' \<Longrightarrow> catalog d' = catalog d"
proof (rule fold_res_invariant [where P = "\<lambda>x. catalog x = catalog d"])
  fix u x x'
  assume "catalog x = catalog d" and "sync_vault_user v u x = Inr x'"
  then show "catalog x' = catalog d" using sync_vault_user_steps(1) [of v u x x'] by simp
qed auto

interpretation transfer: lifecycle_hook "''on_ownership_transfer''" "fold_res (sync_vault_user v) us" for v us
  by (rule lifecycle_hookI) (use sync_all_consistent sync_all_catalog in blast)+

interpretation public_change: lifecycle_hook "''on_public_access_change''"
  "\<lambda>d. case vault_by_id d v of None \<Rightarrow> Inr d | Some r \<Rightarrow> on_public_access_change_in_conn v (v_public r) d" for v
proof (rule lifecycle_hookI)
  fix d d'
  assume t: "(case vault_by_id d v of None \<Rightarrow> Inr d
    | Some r \<Rightarrow> on_public_access_change_in_conn v (v_public r) d) = Inr d'"
  show "catalog d' = catalog d" using t public_access_facts by (cases "vault_by_id d v") auto
  assume "sys_ok d"
  then show "sys_ok d'" using t public_resync by (cases "vault_by_id d v") auto
qed

interpretation table_create: lifecycle_hook "''on_table_create''"
  "\<lambda>d. if (\<exists>r\<in>set (vaults d). v_id r = v \<and>
            (\<exists>(w, n)\<in>set (vault_tables d). w = v \<and> pg_table_name (v_name r) n = tbl))
       then grant_table v tbl d else Inr d" for v tbl
  by (rule projection_hookI) (auto split: if_splits intro: grant_table_projection)

text \<open>What one delivery does, whatever the hook and its arguments.\<close>

lemma counted_harmless:
  "sys_ok (snd s) \<Longrightarrow> metrics_ok (fst s) \<Longrightarrow> harmless s (record_failure h (fst s), snd s)"
  using record_failure_facts(1) by (auto simp: harmless_def)

lemma hook_step_harmless:
  assumes "hook_step s s'" and "sys_ok (snd s)" and "owners_fk (snd s)" and "metrics_ok (fst s)"
  shows "harmless s s'"
  using assms(1)
proof cases
  case (user_create uid)
  show ?thesis unfolding user_create on_user_create_def by (rule user_create.delivered [OF assms(2-4)])
next
  case (user_delete uid)
  show ?thesis unfolding user_delete on_user_delete_def by (rule user_delete.delivered [OF assms(2-4)])
next
  case (token_create tid uid scope)
  show ?thesis unfolding token_create on_token_create_def by (rule token_create.delivered [OF assms(2-4)])
next
  case (token_revoke tid)
  show ?thesis unfolding token_revoke on_token_revoke_def by (rule token_revoke.delivered [OF assms(2-4)])
next
  case (vault_create vid owner)
  show ?thesis unfolding vault_create on_vault_create_def by (rule vault_create.delivered [OF assms(2-4)])
next
  case (vault_delete vid)
  show ?thesis unfolding vault_delete on_vault_delete_def by (rule vault_delete.delivered [OF assms(2-4)])
next
  case (hook_grant vid uid role)
  show ?thesis unfolding hook_grant on_grant_def
    using pair_sync.delivered [OF assms(2-4)] counted_harmless [OF assms(2,4)] by simp
next
  case (hook_revoke vid uid)
  show ?thesis unfolding hook_revoke on_revoke_def by (rule pair_sync.delivered [OF assms(2-4)])
next
  case (ownership_transfer vid uids)
  show ?thesis unfolding ownership_transfer on_ownership_transfer_def by (rule transfer.delivered [OF assms(2-4)])
next
  case (public_change vid level)
  show ?thesis unfolding public_change on_public_access_change_def by (rule public_change.delivered [OF assms(2-4)])
next
  case (table_create vid tbl)
  show ?thesis unfolding table_create on_table_create_def
    using table_create.delivered [OF assms(2-4)] counted_harmless [OF assms(2,4)] by simp
qed

section \<open>Hooks among requests\<close>

text \<open>The requests keep the foreign key as well.\<close>

definition owners_kept :: "db \<Rightarrow> db \<Rightarrow> bool" where
  "owners_kept d d' \<longleftrightarrow> users d' = users d \<and>
     (\<forall>r'\<in>set (vaults d'). \<forall>u. v_owner r' = Some u \<longrightarrow>
        user_by_id d u \<noteq> None \<or> (\<exists>r\<in>set (vaults d). v_owner r = Some u))"

lemma owners_keptD: "owners_kept d d' \<Longrightarrow> owners_fk d \<Longrightarrow> owners_fk d'"
  unfolding owners_kept_def owners_fk_def by metis

lemma owners_kept_same: "users d' = users d \<Longrightarrow> vaults d' = vaults d \<Longrightarrow> owners_kept d d'"
  by (auto simp: owners_kept_def)

lemma owners_kept_map:
  "users d' = users d \<Longrightarrow> vaults d' = map h (vaults d) \<Longrightarrow> (\<And>r. v_owner (h r) = v_owner r) \<Longrightarrow> owners_kept d d'"
  by (auto simp: owners_kept_def)

lemma check_users:
  assumes "check_vault_access rq user_id n r allow_archived action d = Inr (info, rq', d')"
  shows "users d' = users d" "vaults d' = vaults d"
proof -
  from assms have impl: "check_vault_access_impl rq user_id n r allow_archived action d = Inr (info, d')"
    by (simp add: check_vault_access_Inr)
  have "d' = d \<or> (\<exists>w u p. d' = emit_event ''vault.write_policy_admin_bypass'' w None u p d)"
    using impl by (auto simp: check_vault_access_impl_def result_iff split: option.splits if_splits
        dest: acl_check_frame dest!: write_policy_guard_frame)
  then show "users d' = users d" "vaults d' = vaults d" by auto
qed

lemma metadata_owners:
  assumes "update_metadata_tx rq user_id n description public_access d = Inr (reply, d')"
  shows "owners_kept d d'"
proof -
  let ?g = "\<lambda>r :: vault_row. (case public_access of Some p \<Rightarrow> (\<lambda>r. r\<lparr>v_public := p\<rparr>) | None \<Rightarrow> id)
             ((case description of Some t \<Rightarrow> (\<lambda>r. r\<lparr>v_description := Some t\<rparr>) | None \<Rightarrow> id) r)"
  from assms obtain info rq' d1 where
    c: "check_vault_access rq user_id n ''owner'' False None d = Inr (info, rq', d1)"
    and r: "(case public_access of
          None \<Rightarrow> Inr (True, update_vault_by_name n ?g d1)
        | Some p \<Rightarrow>
            (case vault_by_name (update_vault_by_name n ?g d1) n of
               None \<Rightarrow> Inr (True, update_vault_by_name n ?g d1)
             | Some v \<Rightarrow> rbind (on_public_access_change_in_conn (v_id v) p (update_vault_by_name n ?g d1))
                 (\<lambda>d. Inr (True, d)))) = Inr (reply, d')"
    by (auto simp: update_metadata_tx_def result_iff Let_def)
  define g where "g = ?g"
  have r: "catalog d' = catalog (update_vault_by_name n g d1)"
    using r [folded g_def] public_access_facts by (auto simp: result_iff split: option.splits)
  note cu = check_users [OF c]
  show ?thesis
    by (rule owners_kept_map [of d' d "\<lambda>r. if v_name r = n then g r else r"])
      (simp_all add: catalogD(1,2) [OF r] update_by_name_map cu g_def split: option.split)
qed

lemma access_step_owners:
  assumes "access_step d d'" and "sys_ok d"
  shows "owners_kept d d'"
  using assms(1)
proof cases
  case (checked rq user_id n r allow_archived action info rq')
  show ?thesis by (rule owners_kept_same) (use check_users [OF checked] in simp_all)
next
  case (granted granter n username role user_id key revision reply)
  then show ?thesis
  proof (rule grant_tx_Inr)
    fix v uid target oc d1 pl
    assume a: "apply_contribution (v_id v) (Some (u_id target)) role key (Some uid) revision d = Inr (oc, d1)"
      and s: "sync_vault_user (v_id v) (u_id target)
       (emit_event ''access.grant'' (Some (v_id v)) (Some (vault_uri n)) (Some (uuid_str uid)) pl d1) = Inr d'"
    note c = catalogD(1,2) [OF sync_vault_user_steps(1) [OF s]] and f = acl_only_fields [OF apply_contribution_acl [OF a]]
    show ?thesis by (rule owners_kept_same) (simp_all add: c f)
  qed
next
  case (revoked revoker n username user_id key revision reply)
  then show ?thesis
  proof (rule revoke_tx_Inr)
    fix v uid target oc d1 pl
    assume a: "(case key of None \<Rightarrow> Inr (remove_all_contributions (v_id v) (u_id target) d)
      | Some k \<Rightarrow> remove_contribution (v_id v) (u_id target) k revision d) = Inr (oc, d1)"
      and s: "sync_vault_user (v_id v) (u_id target)
       (emit_event ''access.revoke'' (Some (v_id v)) (Some (vault_uri n)) (Some (uuid_str uid)) pl d1) = Inr d'"
    have "acl_only d d1"
      using a remove_all_acl [of d "v_id v" "u_id target"] by (auto split: option.splits dest: remove_contribution_acl)
    note c = catalogD(1,2) [OF sync_vault_user_steps(1) [OF s]] and f = acl_only_fields [OF this]
    show ?thesis by (rule owners_kept_same) (simp_all add: c f)
  qed
next
  case (status_set n status reply)
  show ?thesis
    by (rule owners_kept_map [of _ _ "\<lambda>r. if v_name r = n then r\<lparr>v_status := status\<rparr> else r"])
      (use status_set in \<open>auto simp: set_status_def update_by_name_map\<close>)
next
  case (metadata rq user_id n desc public reply)
  then show ?thesis by (rule metadata_owners)
next
  case (public_set rq user_id n level reply)
  then obtain info rq' d1 v d2 pl where
    c: "check_vault_access rq user_id n ''owner'' False None d = Inr (info, rq', d1)"
    and v: "vault_by_name d1 n = Some v"
    and p: "on_public_access_change_in_conn (v_id v) level
      (update_vault_by_id (v_id v) (\<lambda>r. r\<lparr>v_public := level\<rparr>) d1) = Inr d2"
    and d': "d' = emit_event ''vault.public_access'' (Some (v_id v)) (Some (vault_uri n)) (Some user_id) pl d2"
    by (auto simp: set_public_tx_def result_iff split: if_splits)
  from public_access_facts [OF p] have k: "catalog d2 = catalog (update_vault_by_id (v_id v) (\<lambda>r. r\<lparr>v_public := level\<rparr>) d1)"
    by blast
  show ?thesis
    by (rule owners_kept_map [of _ _ "\<lambda>r. if v_id r = v_id v then r\<lparr>v_public := level\<rparr> else r"])
      (simp_all add: d' catalogD(1,2) [OF k] update_by_id_map check_users [OF c])
next
  case managed
  have "policy_ok d" using assms(2) by (simp add: sys_ok_def)
  then obtain actor n where "audited actor n d d'" using policy_step_facts [OF managed] by blast
  then show ?thesis by (intro owners_kept_same) (simp_all add: audited_fields)
next
  case (transferred owner_id n username user_id info reply)
  then show ?thesis
  proof (rule transfer_tx_Inr)
    fix v :: vault_row and old_owner caller :: uuid and target :: user_row and d1 d2 d3 :: db and oc pl
    assume u: "resolve_user_reference d username user_id = Inr target"
      and d1: "d1 = update_vault_by_id (v_id v) (\<lambda>r. r\<lparr>v_owner := Some (u_id target)\<rparr>) d"
      and a: "apply_contribution (v_id v) (Some old_owner) ''admin'' ''direct'' (Some (u_id target)) None d1 = Inr (oc, d2)"
      and s1: "sync_vault_user (v_id v) (u_id target)
       (emit_event ''access.transfer_ownership'' (Some (v_id v)) (Some (vault_uri n)) (Some (uuid_str caller)) pl
          (snd (remove_all_contributions (v_id v) (u_id target) d2))) = Inr d3"
      and s2: "sync_vault_user (v_id v) old_owner d3 = Inr d'"
    note c2 = catalogD(1,2) [OF sync_vault_user_steps(1) [OF s2]]
    note c1 = catalogD(1,2) [OF sync_vault_user_steps(1) [OF s1]]
    note f = acl_only_fields(1,2) [OF apply_contribution_acl [OF a]]
    have "users d' = users d \<and> vaults d' = map (\<lambda>r. if v_id r = v_id v then r\<lparr>v_owner := Some (u_id target)\<rparr> else r) (vaults d)"
      by (simp add: c1 c2 acl_only_fields(1,2) [OF remove_all_acl] f d1 update_by_id_map)
    then show ?thesis using resolve_user_exists [OF u] by (auto simp: owners_kept_def split: if_splits)
  qed
next
  case (created vid n description owner public ledger reply)
  then show ?thesis
  proof (rule create_vault_Inr)
    fix ow d1 d2 d3
    assume ins: "insert_vault vid n description ow public d = Inr d1"
      and oc: "on_vault_create_in_conn vid ow d1 = Inr d2"
      and op: "on_public_access_change_in_conn vid public d2 = Inr d3"
      and sd: "seed_vault_skill vid n ow ledger d3 = Inr d'"
    obtain k v r a p where e: "d' = emit_event k v r a p d3" using seed_vault_skill_Inr [OF sd] by blast
    have "catalog d3 = catalog d2" using public_access_facts [OF op] by blast
    note c = catalogD(1,2) [OF this] catalogD(1,2) [OF on_vault_create_facts(1) [OF oc]]
    show ?thesis using insert_vault_Inr [OF ins] by (auto simp: owners_kept_def e c)
  qed
qed

text \<open>One committed request, or one delivery of a hook, however late.\<close>

inductive system_step :: "hook_metrics \<times> db \<Rightarrow> hook_metrics \<times> db \<Rightarrow> bool" where
  request: "access_step d d' \<Longrightarrow> system_step (m, d) (m, d')"
| delivery: "hook_step s s' \<Longrightarrow> system_step s s'"

inductive_cases system_stepE: "system_step s s'"

definition system_ok :: "hook_metrics \<times> db \<Rightarrow> bool" where
  "system_ok s \<longleftrightarrow> sys_ok (snd s) \<and> owners_fk (snd s) \<and> metrics_ok (fst s)"

lemma system_step_ok:
  assumes "system_step s s'" and "system_ok s"
  shows "system_ok s'"
  using assms(1)
proof (rule system_stepE)
  fix d d' m
  assume s: "s = (m, d)" "s' = (m, d')" and a: "access_step d d'"
  have "sys_ok d" and "owners_fk d" using assms(2) by (simp_all add: system_ok_def s)
  then show ?thesis
    using assms(2) access_step_sys [OF a] owners_keptD [OF access_step_owners [OF a]] by (simp add: system_ok_def s)
next
  assume "hook_step s s'"
  then have h: "harmless s s'" using assms(2) hook_step_harmless by (simp add: system_ok_def)
  then have "catalog (snd s') = catalog (snd s)" by (simp add: harmless_def)
  then have "owners_fk (snd s') = owners_fk (snd s)" by (simp add: owners_fk_def catalogD(1,2) [OF \<open>catalog (snd s') = catalog (snd s)\<close>])
  then show ?thesis using assms(2) h by (simp add: system_ok_def harmless_def)
qed

lemma system_steps_ok: "system_step\<^sup>*\<^sup>* s s' \<Longrightarrow> system_ok s \<Longrightarrow> system_ok s'"
  by (induction rule: rtranclp_induct) (blast intro: system_step_ok)+

lemma projected_members:
  assumes "sys_ok d" and "sys_ok d'" and "catalog d' = catalog d" and "s \<in> set SCOPES"
  shows "(group_name v s, user_role_name u) \<in> members d' \<longleftrightarrow> (group_name v s, user_role_name u) \<in> members d"
proof -
  have "projected_except {} d" and "projected_except {} d'" using assms(1,2) by (simp_all add: sys_ok_iff)
  then show ?thesis
    using projected_exceptD [of "{}" d v u s] projected_exceptD [of "{}" d' v u s] assms(3,4)
      wanted_scope_catalog [OF assms(3), of v u] by simp
qed



lemma dropped_role:
  "r \<notin> set (pg_roles (drop_role_if_present r d))"
  "(g, m) \<in> members (drop_role_if_present r d) \<longleftrightarrow> (g, m) \<in> members d \<and> g \<noteq> r \<and> m \<noteq> r"
  "(q, t, p) \<in> set (pg_privs (drop_role_if_present r d)) \<longleftrightarrow> (q, t, p) \<in> set (pg_privs d) \<and> q \<noteq> r"
  by (auto simp: drop_role_if_present_def members_def)

text \<open>
  the revocation of a token is complete and exact. Once its row is gone, the strict variant succeeds,
  and so does the hook: the token's role no longer exists, is a member of nothing and holds no
  privilege, and every other role keeps what it had. While the row exists neither touches anything, so
  a late delivery cannot take away a live token's reach.
\<close>

theorem token_revocation_exact:
  "(\<exists>d'. revoke_token_role_strict t d = Inr d' \<and> on_token_revoke t (m, d) = (m, d') \<and>
     (if tab_get t_id t (tokens d) = None
      then token_role_name t \<notin> set (pg_roles d') \<and>
        (\<forall>g. (g, token_role_name t) \<notin> members d') \<and> (\<forall>tb p. (token_role_name t, tb, p) \<notin> set (pg_privs d')) \<and>
        members d' = {(g, x) \<in> members d. g \<noteq> token_role_name t \<and> x \<noteq> token_role_name t} \<and>
        set (pg_privs d') = {(q, tb, p) \<in> set (pg_privs d). q \<noteq> token_role_name t} \<and> catalog d' = catalog d
      else d' = d))"
proof (cases "tab_get t_id t (tokens d)")
  case None
  have "members (drop_role_if_present (token_role_name t) d) = {(g, x) \<in> members d. g \<noteq> token_role_name t \<and> x \<noteq> token_role_name t}"
    by (auto simp: dropped_role(2))
  moreover have "set (pg_privs (drop_role_if_present (token_role_name t) d)) = {(q, tb, p) \<in> set (pg_privs d). q \<noteq> token_role_name t}"
    by (auto simp: dropped_role(3))
  ultimately show ?thesis
    by (simp add: revoke_token_role_strict_def on_token_revoke_def best_effort_def None dropped_role(1) drop_role_members(2))
qed (simp add: revoke_token_role_strict_def on_token_revoke_def best_effort_def)

end
