(* ===== verification/WriteLane.thy ===== *)
theory WriteLane
  imports Prelude
begin

text \<open>
  Admission control of the committing writes: \<^verbatim>\<open>backend/app/services/write_lane.py\<close>. A write queues for its
  vault's gate, then for one of the global slots, and only then takes a database connection and a thread
  of the commit executor. Vault-lifecycle calls have no gate and take a slot of their own.

  The coroutines interleave at their awaits only, so the program is a step relation over a list of
  tasks, each with a program counter. \<open>asyncio.Lock\<close> and \<open>asyncio.Semaphore\<close> are first-in first-out
  queues with a holder and a counter. The environment may time an admission out, cancel a task at an
  await (\<open>cancels\<close> is the number of cancellations it will still deliver, any finite number), and decides
  how each write ends. A lane body makes at most \<open>k\<close> calls of \<open>run_git_write\<close>.
\<close>

section \<open>State\<close>

datatype outcome = Finished | Failed | Busy | Cancelled

datatype pc =
    LaneStart string nat
  | GateWait string nat
  | SlotWait string nat
  | InLane string nat
  | LaneGit string nat bool
  | FreeStart bool
  | FreeWait bool bool
  | FreeGit bool bool bool
  | Done outcome

text \<open>
  \<open>LaneGit v k c\<close> and \<open>FreeGit mc p c\<close> are in \<open>_dispatch_to_pool\<close>, where \<open>c\<close> says that a cancellation was
  absorbed; \<open>FreeWait mc p\<close> waits for the slot of a call with \<open>must_complete = mc\<close>, where \<open>p\<close> is the
  \<open>pending_cancel\<close> of \<open>run_git_write\<close>. \<open>ran\<close> lists the tasks whose call was carried out by the executor and
  \<open>admitted\<close> those whose lane body was entered.
\<close>

record lane =
  pcs :: "pc list"
  gate_holder :: "string \<Rightarrow> nat option"
  gate_queue :: "string \<Rightarrow> nat list"
  slots_free :: nat
  slot_queue :: "nat list"
  waiters :: nat
  lifecycle_waiters :: nat
  cancels :: nat
  ran :: "nat list"
  admitted :: "nat list"

definition set_pc :: "nat \<Rightarrow> pc \<Rightarrow> lane \<Rightarrow> lane" where
  "set_pc i p s = s\<lparr>pcs := (pcs s)[i := p]\<rparr>"

definition capacity :: "nat \<Rightarrow> nat" where
  "capacity write_lane_concurrency = max 1 write_lane_concurrency"

definition lane_init :: "nat \<Rightarrow> nat \<Rightarrow> pc list \<Rightarrow> lane" where
  "lane_init concurrency budget ps =
     \<lparr>pcs = ps, gate_holder = (\<lambda>_. None), gate_queue = (\<lambda>_. []), slots_free = capacity concurrency,
      slot_queue = [], waiters = 0, lifecycle_waiters = 0, cancels = budget, ran = [], admitted = []\<rparr>"

section \<open>The steps of \<open>write_lane\<close>\<close>

text \<open>Entry: the backstop, then the queue of the vault's gate.\<close>

definition lane_enter :: "nat \<Rightarrow> nat \<Rightarrow> string \<Rightarrow> nat \<Rightarrow> lane \<Rightarrow> lane" where
  "lane_enter max_waiters i v k s =
     (if max_waiters \<le> waiters s then set_pc i (Done Busy) s
      else (set_pc i (GateWait v k) s)\<lparr>waiters := waiters s + 1,
             gate_queue := (gate_queue s)(v := gate_queue s v @ [i])\<rparr>)"

definition gate_acquired :: "nat \<Rightarrow> string \<Rightarrow> nat \<Rightarrow> lane \<Rightarrow> lane" where
  "gate_acquired i v k s =
     (set_pc i (SlotWait v k) s)\<lparr>gate_holder := (gate_holder s)(v := Some i),
       gate_queue := (gate_queue s)(v := tl (gate_queue s v)), slot_queue := slot_queue s @ [i]\<rparr>"

definition slot_acquired :: "nat \<Rightarrow> string \<Rightarrow> nat \<Rightarrow> lane \<Rightarrow> lane" where
  "slot_acquired i v k s =
     (set_pc i (InLane v k) s)\<lparr>slots_free := slots_free s - 1, slot_queue := tl (slot_queue s),
       waiters := waiters s - 1, admitted := admitted s @ [i]\<rparr>"

text \<open>The wait ends without admission: out of the queue, then the \<open>finally\<close> clauses.\<close>

definition gate_abandoned :: "nat \<Rightarrow> string \<Rightarrow> outcome \<Rightarrow> lane \<Rightarrow> lane" where
  "gate_abandoned i v oc s =
     (set_pc i (Done oc) s)\<lparr>gate_queue := (gate_queue s)(v := removeAll i (gate_queue s v)),
       waiters := waiters s - 1\<rparr>"

definition slot_abandoned :: "nat \<Rightarrow> string \<Rightarrow> outcome \<Rightarrow> lane \<Rightarrow> lane" where
  "slot_abandoned i v oc s =
     (set_pc i (Done oc) s)\<lparr>gate_holder := (gate_holder s)(v := None),
       slot_queue := removeAll i (slot_queue s), waiters := waiters s - 1\<rparr>"

definition lane_leave :: "nat \<Rightarrow> string \<Rightarrow> outcome \<Rightarrow> lane \<Rightarrow> lane" where
  "lane_leave i v oc s =
     (set_pc i (Done oc) s)\<lparr>slots_free := slots_free s + 1, gate_holder := (gate_holder s)(v := None)\<rparr>"

section \<open>The steps of \<open>run_git_write\<close>\<close>

definition free_enter :: "nat \<Rightarrow> bool \<Rightarrow> lane \<Rightarrow> lane" where
  "free_enter i mc s =
     (set_pc i (FreeWait mc False) s)\<lparr>slot_queue := slot_queue s @ [i],
       lifecycle_waiters := lifecycle_waiters s + 1\<rparr>"

text \<open>A cancelled wait leaves the queue; with \<open>must_complete\<close> the loop queues again.\<close>

definition free_cancelled :: "nat \<Rightarrow> bool \<Rightarrow> lane \<Rightarrow> lane" where
  "free_cancelled i mc s =
     (if mc then (set_pc i (FreeWait mc True) s)\<lparr>slot_queue := removeAll i (slot_queue s) @ [i]\<rparr>
      else (set_pc i (Done Cancelled) s)\<lparr>slot_queue := removeAll i (slot_queue s),
             lifecycle_waiters := lifecycle_waiters s - 1\<rparr>)"

definition free_acquired :: "nat \<Rightarrow> bool \<Rightarrow> bool \<Rightarrow> lane \<Rightarrow> lane" where
  "free_acquired i mc p s =
     (set_pc i (FreeGit mc p False) s)\<lparr>slots_free := slots_free s - 1, slot_queue := tl (slot_queue s),
       lifecycle_waiters := lifecycle_waiters s - 1\<rparr>"

text \<open>
  The thread is done: an absorbed cancellation wins over its outcome; a cancellation that came during
  the wait for the slot is delivered only when the call succeeded.
\<close>

definition git_outcome :: "bool \<Rightarrow> bool \<Rightarrow> bool \<Rightarrow> outcome" where
  "git_outcome pending absorbed ok =
     (if absorbed then Cancelled else if \<not> ok then Failed else if pending then Cancelled else Finished)"

definition free_done :: "nat \<Rightarrow> bool \<Rightarrow> bool \<Rightarrow> bool \<Rightarrow> lane \<Rightarrow> lane" where
  "free_done i p c ok s =
     (set_pc i (Done (git_outcome p c ok)) s)\<lparr>slots_free := slots_free s + 1, ran := ran s @ [i]\<rparr>"

section \<open>Compensations\<close>

text \<open>
  \<open>run_compensation\<close> parks its caller on an inner task: what happens while it is parked is a list of events,
  and \<open>None\<close> says that the caller is still parked when the list ends. A cancellation of the caller is
  absorbed and delivered at the end, where it wins over the task's own outcome.
\<close>

datatype comp_event = OuterCancel | TaskDone bool | TaskCancelled

fun run_compensation :: "comp_event list \<Rightarrow> bool \<Rightarrow> outcome option" where
  "run_compensation [] absorbed = None"
| "run_compensation (OuterCancel # es) absorbed = run_compensation es True"
| "run_compensation (TaskDone ok # es) absorbed =
     Some (if absorbed then Cancelled else if ok then Finished else Failed)"
| "run_compensation (TaskCancelled # es) absorbed = Some Cancelled"

lemma run_compensation_parked: "run_compensation es absorbed = None \<longleftrightarrow> set es \<subseteq> {OuterCancel}"
  by (induction es absorbed rule: run_compensation.induct) auto

section \<open>The step relation\<close>

inductive lane_step :: "nat \<Rightarrow> lane \<Rightarrow> lane \<Rightarrow> bool" for max_waiters :: nat where
  enter: "i < length (pcs s) \<Longrightarrow> pcs s ! i = LaneStart v k \<Longrightarrow> lane_step max_waiters s (lane_enter max_waiters i v k s)"
| gate: "i < length (pcs s) \<Longrightarrow> pcs s ! i = GateWait v k \<Longrightarrow> gate_holder s v = None \<Longrightarrow>
    gate_queue s v = i # q \<Longrightarrow> lane_step max_waiters s (gate_acquired i v k s)"
| slot: "i < length (pcs s) \<Longrightarrow> pcs s ! i = SlotWait v k \<Longrightarrow> 0 < slots_free s \<Longrightarrow> slot_queue s = i # q \<Longrightarrow>
    lane_step max_waiters s (slot_acquired i v k s)"
| gate_timeout: "i < length (pcs s) \<Longrightarrow> pcs s ! i = GateWait v k \<Longrightarrow> lane_step max_waiters s (gate_abandoned i v Busy s)"
| slot_timeout: "i < length (pcs s) \<Longrightarrow> pcs s ! i = SlotWait v k \<Longrightarrow> lane_step max_waiters s (slot_abandoned i v Busy s)"
| gate_cancel: "i < length (pcs s) \<Longrightarrow> pcs s ! i = GateWait v k \<Longrightarrow> cancels s = Suc c \<Longrightarrow>
    lane_step max_waiters s ((gate_abandoned i v Cancelled s)\<lparr>cancels := c\<rparr>)"
| slot_cancel: "i < length (pcs s) \<Longrightarrow> pcs s ! i = SlotWait v k \<Longrightarrow> cancels s = Suc c \<Longrightarrow>
    lane_step max_waiters s ((slot_abandoned i v Cancelled s)\<lparr>cancels := c\<rparr>)"
| git: "i < length (pcs s) \<Longrightarrow> pcs s ! i = InLane v (Suc k) \<Longrightarrow> lane_step max_waiters s (set_pc i (LaneGit v k False) s)"
| git_cancel: "i < length (pcs s) \<Longrightarrow> pcs s ! i = LaneGit v k False \<Longrightarrow> cancels s = Suc c \<Longrightarrow>
    lane_step max_waiters s ((set_pc i (LaneGit v k True) s)\<lparr>cancels := c\<rparr>)"
| git_done: "i < length (pcs s) \<Longrightarrow> pcs s ! i = LaneGit v k c \<Longrightarrow>
    lane_step max_waiters s ((set_pc i (InLane v k) s)\<lparr>ran := ran s @ [i]\<rparr>)"
| leave: "i < length (pcs s) \<Longrightarrow> pcs s ! i = InLane v k \<Longrightarrow> oc \<noteq> Busy \<Longrightarrow> lane_step max_waiters s (lane_leave i v oc s)"
| free: "i < length (pcs s) \<Longrightarrow> pcs s ! i = FreeStart mc \<Longrightarrow> lane_step max_waiters s (free_enter i mc s)"
| free_cancel: "i < length (pcs s) \<Longrightarrow> pcs s ! i = FreeWait mc p \<Longrightarrow> cancels s = Suc c \<Longrightarrow>
    lane_step max_waiters s ((free_cancelled i mc s)\<lparr>cancels := c\<rparr>)"
| free_slot: "i < length (pcs s) \<Longrightarrow> pcs s ! i = FreeWait mc p \<Longrightarrow> 0 < slots_free s \<Longrightarrow> slot_queue s = i # q \<Longrightarrow>
    lane_step max_waiters s (free_acquired i mc p s)"
| free_git_cancel: "i < length (pcs s) \<Longrightarrow> pcs s ! i = FreeGit mc p False \<Longrightarrow> cancels s = Suc c \<Longrightarrow>
    lane_step max_waiters s ((set_pc i (FreeGit mc p True) s)\<lparr>cancels := c\<rparr>)"
| free_git_done: "i < length (pcs s) \<Longrightarrow> pcs s ! i = FreeGit mc p c \<Longrightarrow> lane_step max_waiters s (free_done i p c ok s)"

inductive_cases lane_stepE: "lane_step max_waiters s s'"

section \<open>Counting tasks\<close>

definition count_pcs :: "(pc \<Rightarrow> bool) \<Rightarrow> lane \<Rightarrow> nat" where
  "count_pcs P s = length (filter P (pcs s))"

lemma count_update:
  "i < length xs \<Longrightarrow>
   length (filter P (xs[i := x])) + (if P (xs ! i) then 1 else 0) = length (filter P xs) + (if P x then 1 else 0)"
proof (induction xs arbitrary: i)
  case (Cons y ys)
  then show ?case by (cases i) (auto split: if_splits)
qed simp

lemma count_set_pc:
  assumes "i < length (pcs s)"
  shows "count_pcs P (set_pc i x s) =
    (if P x then if P (pcs s ! i) then count_pcs P s else Suc (count_pcs P s)
     else if P (pcs s ! i) then count_pcs P s - 1 else count_pcs P s)"
  using count_update [OF assms, of P x] by (auto simp: count_pcs_def set_pc_def)

lemma count_pos: "i < length (pcs s) \<Longrightarrow> P (pcs s ! i) \<Longrightarrow> 0 < count_pcs P s"
  unfolding count_pcs_def using nth_mem [of i "pcs s"] by (auto simp: filter_empty_conv)

fun holds_gate :: "string \<Rightarrow> pc \<Rightarrow> bool" where
  "holds_gate w (SlotWait v k) = (v = w)"
| "holds_gate w (InLane v k) = (v = w)"
| "holds_gate w (LaneGit v k c) = (v = w)"
| "holds_gate w _ = False"

fun waits_gate :: "string \<Rightarrow> pc \<Rightarrow> bool" where
  "waits_gate w (GateWait v k) = (v = w)"
| "waits_gate w _ = False"

fun holds_slot :: "pc \<Rightarrow> bool" where
  "holds_slot (InLane v k) = True"
| "holds_slot (LaneGit v k c) = True"
| "holds_slot (FreeGit mc p c) = True"
| "holds_slot _ = False"

fun waits_slot :: "pc \<Rightarrow> bool" where
  "waits_slot (SlotWait v k) = True"
| "waits_slot (FreeWait mc p) = True"
| "waits_slot _ = False"

fun in_admission :: "pc \<Rightarrow> bool" where
  "in_admission (GateWait v k) = True"
| "in_admission (SlotWait v k) = True"
| "in_admission _ = False"

fun in_free_wait :: "pc \<Rightarrow> bool" where
  "in_free_wait (FreeWait mc p) = True"
| "in_free_wait _ = False"

text \<open>A task whose call is on a thread of the commit executor.\<close>

fun on_executor :: "pc \<Rightarrow> bool" where
  "on_executor (LaneGit v k c) = True"
| "on_executor (FreeGit mc p c) = True"
| "on_executor _ = False"

fun in_critical :: "string \<Rightarrow> pc \<Rightarrow> bool" where
  "in_critical w (InLane v k) = (v = w)"
| "in_critical w (LaneGit v k c) = (v = w)"
| "in_critical w _ = False"

definition tasks :: "(pc \<Rightarrow> bool) \<Rightarrow> lane \<Rightarrow> nat set" where
  "tasks P s = {i. i < length (pcs s) \<and> P (pcs s ! i)}"

lemma tasks_set_pc:
  assumes "i < length (pcs s)"
  shows "tasks P (set_pc i x s) =
    (if P x then if P (pcs s ! i) then tasks P s else insert i (tasks P s)
     else if P (pcs s ! i) then tasks P s - {i} else tasks P s)"
  using assms by (auto simp: tasks_def set_pc_def nth_list_update)

lemma tasks_member: "i < length (pcs s) \<Longrightarrow> i \<in> tasks P s \<longleftrightarrow> P (pcs s ! i)"
  by (simp add: tasks_def)

lemma tasks_fields [simp]:
  "tasks P (s\<lparr>gate_holder := a\<rparr>) = tasks P s" "tasks P (s\<lparr>gate_queue := b\<rparr>) = tasks P s"
  "tasks P (s\<lparr>slots_free := c\<rparr>) = tasks P s" "tasks P (s\<lparr>slot_queue := d\<rparr>) = tasks P s"
  "tasks P (s\<lparr>waiters := c\<rparr>) = tasks P s" "tasks P (s\<lparr>lifecycle_waiters := c\<rparr>) = tasks P s"
  "tasks P (s\<lparr>cancels := c\<rparr>) = tasks P s" "tasks P (s\<lparr>ran := d\<rparr>) = tasks P s" "tasks P (s\<lparr>admitted := d\<rparr>) = tasks P s"
  by (simp_all add: tasks_def)

lemma count_fields [simp]:
  "count_pcs P (s\<lparr>gate_holder := a\<rparr>) = count_pcs P s" "count_pcs P (s\<lparr>gate_queue := b\<rparr>) = count_pcs P s"
  "count_pcs P (s\<lparr>slots_free := c\<rparr>) = count_pcs P s" "count_pcs P (s\<lparr>slot_queue := d\<rparr>) = count_pcs P s"
  "count_pcs P (s\<lparr>waiters := c\<rparr>) = count_pcs P s" "count_pcs P (s\<lparr>lifecycle_waiters := c\<rparr>) = count_pcs P s"
  "count_pcs P (s\<lparr>cancels := c\<rparr>) = count_pcs P s" "count_pcs P (s\<lparr>ran := d\<rparr>) = count_pcs P s"
  "count_pcs P (s\<lparr>admitted := d\<rparr>) = count_pcs P s"
  by (simp_all add: count_pcs_def)

lemma set_pc_fields [simp]:
  "gate_holder (set_pc i x s) = gate_holder s" "gate_queue (set_pc i x s) = gate_queue s"
  "slots_free (set_pc i x s) = slots_free s" "slot_queue (set_pc i x s) = slot_queue s"
  "waiters (set_pc i x s) = waiters s" "lifecycle_waiters (set_pc i x s) = lifecycle_waiters s"
  "cancels (set_pc i x s) = cancels s" "ran (set_pc i x s) = ran s" "admitted (set_pc i x s) = admitted s"
  by (simp_all add: set_pc_def)

section \<open>The invariant\<close>

text \<open>
  Every resource is accounted for: the holder of a gate is the one task past it, the queues hold exactly
  the waiting tasks, the free and the held slots add up to the capacity, and the counters count.
\<close>

definition gate_ok :: "string \<Rightarrow> lane \<Rightarrow> bool" where
  "gate_ok v s \<longleftrightarrow> tasks (holds_gate v) s = set_option (gate_holder s v) \<and>
     set (gate_queue s v) = tasks (waits_gate v) s \<and> distinct (gate_queue s v)"

definition gates_ok :: "lane \<Rightarrow> bool" where
  "gates_ok s \<longleftrightarrow> (\<forall>v. gate_ok v s)"

definition slots_ok :: "nat \<Rightarrow> lane \<Rightarrow> bool" where
  "slots_ok cap s \<longleftrightarrow> slots_free s + count_pcs holds_slot s = cap \<and>
     set (slot_queue s) = tasks waits_slot s \<and> distinct (slot_queue s)"

definition counters_ok :: "nat \<Rightarrow> lane \<Rightarrow> bool" where
  "counters_ok max_waiters s \<longleftrightarrow> waiters s = count_pcs in_admission s \<and> waiters s \<le> max_waiters \<and>
     lifecycle_waiters s = count_pcs in_free_wait s"

definition lane_ok :: "nat \<Rightarrow> nat \<Rightarrow> lane \<Rightarrow> bool" where
  "lane_ok cap max_waiters s \<longleftrightarrow> gates_ok s \<and> slots_ok cap s \<and> counters_ok max_waiters s"

text \<open>What one step does to the program counters.\<close>

lemmas step_defs = lane_enter_def gate_acquired_def slot_acquired_def gate_abandoned_def slot_abandoned_def
  lane_leave_def free_enter_def free_cancelled_def free_acquired_def free_done_def

text \<open>The gates of one vault, and how a step may change them.\<close>

lemma gate_held:
  assumes "gate_ok v s" and "i < length (pcs s)" and "holds_gate v (pcs s ! i)"
  shows "gate_holder s v = Some i" "tasks (holds_gate v) s = {i}"
proof -
  have "i \<in> set_option (gate_holder s v)" using assms by (auto simp: gate_ok_def tasks_member)
  then show "gate_holder s v = Some i" by (cases "gate_holder s v") auto
  then show "tasks (holds_gate v) s = {i}" using assms(1) by (simp add: gate_ok_def)
qed

lemma gate_same:
  assumes "gate_ok w s" and "i < length (pcs s)"
    and "holds_gate w x = holds_gate w (pcs s ! i)" "waits_gate w x = waits_gate w (pcs s ! i)"
    and "gate_holder s' w = gate_holder s w" and "gate_queue s' w = gate_queue s w"
    and "\<And>P. tasks P s' = tasks P (set_pc i x s)"
  shows "gate_ok w s'"
proof -
  have "tasks (holds_gate w) s' = tasks (holds_gate w) s" "tasks (waits_gate w) s' = tasks (waits_gate w) s"
    using assms(2-4,7) by (auto simp: tasks_set_pc tasks_member insert_absorb)
  then show ?thesis using assms(1,5,6) by (simp add: gate_ok_def)
qed

lemma gate_step:
  assumes "lane_step mw s s'" and "gate_ok w s"
  shows "gate_ok w s'"
  using assms(1)
proof cases
  case (enter i v k)
  show ?thesis
  proof (cases "mw \<le> waiters s")
    case True
    then show ?thesis using enter by (intro gate_same [OF assms(2) enter(2)]) (auto simp: step_defs)
  next
    case False
    then show ?thesis
      using enter assms(2) by (cases "v = w") (auto simp: step_defs gate_ok_def tasks_set_pc tasks_member)
  qed
next
  case (gate i v k q)
  then show ?thesis
    using assms(2) by (cases "v = w") (auto simp: step_defs gate_ok_def tasks_set_pc tasks_member)
next
  case (slot i v k q)
  then show ?thesis by (intro gate_same [OF assms(2) slot(2)]) (auto simp: step_defs)
next
  case (gate_timeout i v k)
  then show ?thesis
    using assms(2) by (cases "v = w") (auto simp: step_defs gate_ok_def tasks_set_pc tasks_member distinct_removeAll)
next
  case (slot_timeout i v k)
  then show ?thesis
    using assms(2) gate_held [OF assms(2) slot_timeout(2)]
    by (cases "v = w") (auto simp: step_defs gate_ok_def tasks_set_pc tasks_member)
next
  case (gate_cancel i v k c)
  then show ?thesis
    using assms(2) by (cases "v = w") (auto simp: step_defs gate_ok_def tasks_set_pc tasks_member distinct_removeAll)
next
  case (slot_cancel i v k c)
  then show ?thesis
    using assms(2) gate_held [OF assms(2) slot_cancel(2)]
    by (cases "v = w") (auto simp: step_defs gate_ok_def tasks_set_pc tasks_member)
next
  case (git i v k)
  then show ?thesis by (intro gate_same [OF assms(2) git(2)]) auto
next
  case (git_cancel i v k c)
  then show ?thesis by (intro gate_same [OF assms(2) git_cancel(2)]) auto
next
  case (git_done i v k c)
  then show ?thesis by (intro gate_same [OF assms(2) git_done(2)]) auto
next
  case (leave i v k oc)
  then show ?thesis
    using assms(2) gate_held [OF assms(2) leave(2)]
    by (cases "v = w") (auto simp: step_defs gate_ok_def tasks_set_pc tasks_member)
next
  case (free i mc)
  then show ?thesis by (intro gate_same [OF assms(2) free(2)]) (auto simp: step_defs)
next
  case (free_cancel i mc p c)
  then show ?thesis
    by (intro gate_same [OF assms(2) free_cancel(2), where x = "if mc then FreeWait mc True else Done Cancelled"])
      (auto simp: step_defs)
next
  case (free_slot i mc p q)
  then show ?thesis by (intro gate_same [OF assms(2) free_slot(2)]) (auto simp: step_defs)
next
  case (free_git_cancel i mc p c)
  then show ?thesis by (intro gate_same [OF assms(2) free_git_cancel(2)]) auto
next
  case (free_git_done i mc p c ok)
  then show ?thesis by (intro gate_same [OF assms(2) free_git_done(2)]) (auto simp: step_defs)
qed

lemma gates_step: "lane_step mw s s' \<Longrightarrow> gates_ok s \<Longrightarrow> gates_ok s'"
  unfolding gates_ok_def by (blast intro: gate_step)

lemma slots_step:
  assumes "lane_step mw s s'" and "slots_ok cap s"
  shows "slots_ok cap s'"
  using assms(1)
proof cases
  case (leave i v k oc)
  then show ?thesis
    using assms(2) count_pos [of i s holds_slot] by (auto simp: step_defs slots_ok_def tasks_set_pc count_set_pc)
next
  case (free_git_done i mc p c ok)
  then show ?thesis
    using assms(2) count_pos [of i s holds_slot] by (auto simp: step_defs slots_ok_def tasks_set_pc count_set_pc)
next
  case (free i mc)
  then show ?thesis
    using assms(2) by (auto simp: step_defs slots_ok_def tasks_set_pc count_set_pc tasks_member)
next
  case (gate i v k q)
  then show ?thesis
    using assms(2) by (auto simp: step_defs slots_ok_def tasks_set_pc count_set_pc tasks_member)
next
  case (free_cancel i mc p c)
  then have "i \<in> tasks waits_slot s" by (simp add: tasks_member)
  then show ?thesis
    using assms(2) free_cancel by (auto simp: step_defs slots_ok_def tasks_set_pc count_set_pc distinct_removeAll)
qed (use assms(2) in \<open>auto simp: step_defs slots_ok_def tasks_set_pc count_set_pc distinct_removeAll tasks_member\<close>)

lemma counters_step:
  assumes "lane_step mw s s'" and "counters_ok mw s"
  shows "counters_ok mw s'"
  using assms(1)
  by cases (use assms(2) in \<open>auto simp: step_defs counters_ok_def count_set_pc\<close>)

lemma lane_step_ok: "lane_step mw s s' \<Longrightarrow> lane_ok cap mw s \<Longrightarrow> lane_ok cap mw s'"
  unfolding lane_ok_def by (blast intro: gates_step slots_step counters_step)

lemma lane_steps_ok: "(lane_step mw)\<^sup>*\<^sup>* s s' \<Longrightarrow> lane_ok cap mw s \<Longrightarrow> lane_ok cap mw s'"
  by (induction rule: rtranclp_induct) (blast intro: lane_step_ok)+

text \<open>Nothing is held or queued at the start.\<close>

definition fresh_pc :: "pc \<Rightarrow> bool" where
  "fresh_pc p \<longleftrightarrow> (case p of LaneStart v k \<Rightarrow> True | FreeStart mc \<Rightarrow> True | _ \<Rightarrow> False)"

lemma fresh_none:
  "fresh_pc p \<Longrightarrow> \<not> holds_gate v p \<and> \<not> waits_gate v p \<and> \<not> holds_slot p \<and> \<not> waits_slot p \<and> \<not> in_admission p \<and> \<not> in_free_wait p"
  by (cases p) (auto simp: fresh_pc_def)

lemma lane_init_ok:
  assumes "list_all fresh_pc ps"
  shows "lane_ok (capacity concurrency) mw (lane_init concurrency budget ps)"
proof -
  have none: "tasks P (lane_init concurrency budget ps) = {}" "count_pcs P (lane_init concurrency budget ps) = 0"
    if "\<And>p. fresh_pc p \<Longrightarrow> \<not> P p" for P
    using assms that by (auto simp: tasks_def count_pcs_def lane_init_def list_all_length filter_empty_conv in_set_conv_nth)
  show ?thesis
    using fresh_none by (simp add: lane_ok_def gates_ok_def gate_ok_def slots_ok_def counters_ok_def none)
      (simp add: lane_init_def)
qed

section \<open>Progress\<close>

fun pc_weight :: "pc \<Rightarrow> nat" where
  "pc_weight (LaneStart v k) = 4 + 2 * k"
| "pc_weight (GateWait v k) = 3 + 2 * k"
| "pc_weight (SlotWait v k) = 2 + 2 * k"
| "pc_weight (InLane v k) = 1 + 2 * k"
| "pc_weight (LaneGit v k c) = 2 + 2 * k"
| "pc_weight (FreeStart mc) = 3"
| "pc_weight (FreeWait mc p) = 2"
| "pc_weight (FreeGit mc p c) = 1"
| "pc_weight (Done oc) = 0"

definition lane_weight :: "lane \<Rightarrow> nat" where
  "lane_weight s = sum_list (map pc_weight (pcs s)) + cancels s"

lemma weight_set_pc:
  "i < length (pcs s) \<Longrightarrow> sum_list (map pc_weight (pcs (set_pc i x s))) + pc_weight (pcs s ! i) =
     sum_list (map pc_weight (pcs s)) + pc_weight x"
proof -
  have "i < length xs \<Longrightarrow> sum_list (map pc_weight (xs[i := x])) + pc_weight (xs ! i) =
     sum_list (map pc_weight xs) + pc_weight x" for xs
  proof (induction xs arbitrary: i)
    case (Cons y ys)
    then show ?case by (cases i) auto
  qed simp
  then show "i < length (pcs s) \<Longrightarrow> ?thesis" by (simp add: set_pc_def)
qed

text \<open>Every step, the environment's included, moves one task and brings it closer to its end.\<close>

lemma step_local:
  assumes "lane_step mw s s'"
  shows "\<exists>i x. i < length (pcs s) \<and> pcs s' = (pcs s)[i := x] \<and>
    pc_weight x + cancels s' < pc_weight (pcs s ! i) + cancels s"
  using assms
proof cases
  case (enter i v k)
  then show ?thesis
    by (intro exI [of _ i] exI [of _ "if mw \<le> waiters s then Done Busy else GateWait v k"]) (simp add: step_defs set_pc_def)
next
  case (gate i v k q)
  then show ?thesis
    by (intro exI [of _ i] exI [of _ "SlotWait v k"]) (simp add: step_defs set_pc_def)
next
  case (slot i v k q)
  then show ?thesis
    by (intro exI [of _ i] exI [of _ "InLane v k"]) (simp add: step_defs set_pc_def)
next
  case (gate_timeout i v k)
  then show ?thesis
    by (intro exI [of _ i] exI [of _ "Done Busy"]) (simp add: step_defs set_pc_def)
next
  case (slot_timeout i v k)
  then show ?thesis
    by (intro exI [of _ i] exI [of _ "Done Busy"]) (simp add: step_defs set_pc_def)
next
  case (gate_cancel i v k c)
  then show ?thesis
    by (intro exI [of _ i] exI [of _ "Done Cancelled"]) (simp add: step_defs set_pc_def)
next
  case (slot_cancel i v k c)
  then show ?thesis
    by (intro exI [of _ i] exI [of _ "Done Cancelled"]) (simp add: step_defs set_pc_def)
next
  case (git i v k)
  then show ?thesis
    by (intro exI [of _ i] exI [of _ "LaneGit v k False"]) (simp add: step_defs set_pc_def)
next
  case (git_cancel i v k c)
  then show ?thesis
    by (intro exI [of _ i] exI [of _ "LaneGit v k True"]) (simp add: step_defs set_pc_def)
next
  case (git_done i v k c)
  then show ?thesis
    by (intro exI [of _ i] exI [of _ "InLane v k"]) (simp add: step_defs set_pc_def)
next
  case (leave i v k oc)
  then show ?thesis
    by (intro exI [of _ i] exI [of _ "Done oc"]) (simp add: step_defs set_pc_def)
next
  case (free i mc)
  then show ?thesis
    by (intro exI [of _ i] exI [of _ "FreeWait mc False"]) (simp add: step_defs set_pc_def)
next
  case (free_cancel i mc p c)
  then show ?thesis
    by (intro exI [of _ i] exI [of _ "if mc then FreeWait mc True else Done Cancelled"]) (simp add: step_defs set_pc_def)
next
  case (free_slot i mc p q)
  then show ?thesis
    by (intro exI [of _ i] exI [of _ "FreeGit mc p False"]) (simp add: step_defs set_pc_def)
next
  case (free_git_cancel i mc p c)
  then show ?thesis
    by (intro exI [of _ i] exI [of _ "FreeGit mc p True"]) (simp add: step_defs set_pc_def)
next
  case (free_git_done i mc p c ok)
  then show ?thesis
    by (intro exI [of _ i] exI [of _ "Done (git_outcome p c ok)"]) (simp add: step_defs set_pc_def)
qed

lemma step_weight:
  assumes "lane_step mw s s'"
  shows "lane_weight s' < lane_weight s"
proof -
  obtain i x where "i < length (pcs s)" "pcs s' = (pcs s)[i := x]"
    "pc_weight x + cancels s' < pc_weight (pcs s ! i) + cancels s"
    using step_local [OF assms] by blast
  then show ?thesis using weight_set_pc [of i s x] by (simp add: lane_weight_def set_pc_def)
qed

lemma steps_bounded: "(lane_step mw ^^ n) s s' \<Longrightarrow> n + lane_weight s' \<le> lane_weight s"
proof (induction n arbitrary: s')
  case (Suc n)
  then obtain t where "(lane_step mw ^^ n) s t" and "lane_step mw t s'" by auto
  then show ?case using Suc.IH step_weight by fastforce
qed simp

fun is_done :: "pc \<Rightarrow> bool" where
  "is_done (Done oc) = True"
| "is_done _ = False"

fun is_waiting :: "pc \<Rightarrow> bool" where
  "is_waiting (GateWait v k) = True"
| "is_waiting (SlotWait v k) = True"
| "is_waiting (FreeWait mc p) = True"
| "is_waiting _ = False"

text \<open>A step of the program itself: nobody who waits is timed out or cancelled.\<close>

definition works :: "nat \<Rightarrow> lane \<Rightarrow> lane \<Rightarrow> bool" where
  "works mw s s' \<longleftrightarrow> lane_step mw s s' \<and> cancels s' = cancels s \<and>
     (\<forall>i<length (pcs s). is_waiting (pcs s ! i) \<longrightarrow> \<not> is_done (pcs s' ! i))"

lemma waiting_not_done: "is_waiting p \<Longrightarrow> \<not> is_done p"
  by (cases p) simp_all

lemma worksI:
  assumes "lane_step mw s s'" and "cancels s' = cancels s" and "pcs s' = (pcs s)[i := x]" and "i < length (pcs s)"
    and "\<not> is_waiting (pcs s ! i) \<or> \<not> is_done x"
  shows "works mw s s'"
  using assms waiting_not_done unfolding works_def by (auto simp: nth_list_update)

lemma works_busy:
  assumes "i < length (pcs s)" and "\<not> is_done (pcs s ! i)" and "\<not> is_waiting (pcs s ! i)"
  shows "\<exists>s'. works mw s s'"
proof (cases "pcs s ! i")
  case (LaneStart v k)
  show ?thesis
    by (rule exI, rule worksI [OF lane_step.enter [OF assms(1) LaneStart], where i = i and x = "if mw \<le> waiters s then Done Busy else GateWait v k"])
      (use LaneStart assms(1) in \<open>simp_all add: lane_enter_def set_pc_def\<close>)
next
  case (InLane v k)
  show ?thesis
    by (rule exI, rule worksI [OF lane_step.leave [OF assms(1) InLane, of Finished], where i = i and x = "Done Finished"])
      (use InLane assms(1) in \<open>simp_all add: lane_leave_def set_pc_def\<close>)
next
  case (LaneGit v k c)
  show ?thesis
    by (rule exI, rule worksI [OF lane_step.git_done [OF assms(1) LaneGit], where i = i and x = "InLane v k"])
      (use LaneGit assms(1) in \<open>simp_all add: set_pc_def\<close>)
next
  case (FreeStart mc)
  show ?thesis
    by (rule exI, rule worksI [OF lane_step.free [OF assms(1) FreeStart], where i = i and x = "FreeWait mc False"])
      (use FreeStart assms(1) in \<open>simp_all add: free_enter_def set_pc_def\<close>)
next
  case (FreeGit mc p c)
  show ?thesis
    by (rule exI, rule worksI [OF lane_step.free_git_done [OF assms(1) FreeGit, of _ True], where i = i and x = "Done (git_outcome p c True)"])
      (use FreeGit assms(1) in \<open>simp_all add: free_done_def set_pc_def\<close>)
qed (use assms in simp_all)

lemma lane_progress:
  assumes "lane_ok cap mw s" and "0 < cap" and "i < length (pcs s)" and "\<not> is_done (pcs s ! i)"
  shows "\<exists>s'. works mw s s'"
proof (cases "\<exists>j<length (pcs s). \<not> is_done (pcs s ! j) \<and> \<not> is_waiting (pcs s ! j)")
  case True
  then show ?thesis using works_busy by blast
next
  case False
  have idle: "is_done (pcs s ! j) \<or> is_waiting (pcs s ! j)" if "j < length (pcs s)" for j using False that by blast
  have "\<not> holds_slot (pcs s ! j)" if "j < length (pcs s)" for j
    using idle [OF that] by (cases "pcs s ! j") simp_all
  then have "count_pcs holds_slot s = 0" by (auto simp: count_pcs_def filter_empty_conv in_set_conv_nth)
  then have free: "0 < slots_free s" using assms(1,2) by (simp add: lane_ok_def slots_ok_def)
  show ?thesis
  proof (cases "slot_queue s")
    case (Cons j q)
    then have "j \<in> tasks waits_slot s" using assms(1) by (auto simp: lane_ok_def slots_ok_def)
    then have j: "j < length (pcs s)" "waits_slot (pcs s ! j)" by (auto simp: tasks_def)
    show ?thesis
    proof (cases "pcs s ! j")
      case (SlotWait v k)
      show ?thesis
        by (rule exI, rule worksI [OF lane_step.slot [OF j(1) SlotWait free Cons], where i = j and x = "InLane v k"])
          (simp_all add: slot_acquired_def set_pc_def j)
    next
      case (FreeWait mc p)
      show ?thesis
        by (rule exI, rule worksI [OF lane_step.free_slot [OF j(1) FreeWait free Cons], where i = j and x = "FreeGit mc p False"])
          (simp_all add: free_acquired_def set_pc_def j)
    qed (use j in simp_all)
  next
    case Nil
    then have noslot: "\<not> waits_slot (pcs s ! j)" if "j < length (pcs s)" for j
      using assms(1) that by (auto simp: lane_ok_def slots_ok_def tasks_def)
    obtain v k where i: "pcs s ! i = GateWait v k"
      using idle [OF assms(3)] assms(4) noslot [OF assms(3)] by (cases "pcs s ! i") simp_all
    have g: "gate_ok v s" using assms(1) by (simp add: lane_ok_def gates_ok_def)
    then have "i \<in> set (gate_queue s v)" using assms(3) i by (simp add: gate_ok_def tasks_member)
    then obtain j q where q: "gate_queue s v = j # q" by (cases "gate_queue s v") auto
    then have "j \<in> tasks (waits_gate v) s" using g by (auto simp: gate_ok_def)
    then obtain k' where j: "j < length (pcs s)" "pcs s ! j = GateWait v k'"
      by (cases "pcs s ! j") (auto simp: tasks_def)
    have "h \<notin> tasks (holds_gate v) s" for h
      using idle [of h] noslot [of h] by (cases "pcs s ! h") (auto simp: tasks_def)
    then have "gate_holder s v = None" using g by (cases "gate_holder s v") (auto simp: gate_ok_def)
    then show ?thesis
      by (intro exI, rule worksI [OF lane_step.gate [OF j _ q], where i = j and x = "SlotWait v k'"])
        (simp_all add: gate_acquired_def set_pc_def j)
  qed
qed

section \<open>What the lane guarantees\<close>

definition lane_reaches :: "nat \<Rightarrow> nat \<Rightarrow> nat \<Rightarrow> pc list \<Rightarrow> lane \<Rightarrow> bool" where
  "lane_reaches concurrency mw budget ps s \<longleftrightarrow>
     list_all fresh_pc ps \<and> (lane_step mw)\<^sup>*\<^sup>* (lane_init concurrency budget ps) s"

lemma lane_reaches_ok: "lane_reaches concurrency mw budget ps s \<Longrightarrow> lane_ok (capacity concurrency) mw s"
  unfolding lane_reaches_def by (blast intro: lane_steps_ok lane_init_ok)

lemma capacity_pos: "0 < capacity n"
  by (simp add: capacity_def)

lemma count_mono: "(\<And>p. P p \<Longrightarrow> Q p) \<Longrightarrow> count_pcs P s \<le> count_pcs Q s"
proof -
  assume "\<And>p. P p \<Longrightarrow> Q p"
  then have "filter P xs = filter P (filter Q xs)" for xs by (induction xs) auto
  then show ?thesis by (metis count_pcs_def length_filter_le)
qed

text \<open>
  C38: admission control holds in every interleaving. At any moment at most one write of a vault is in its
  critical section, the tasks that hold a slot (lane bodies and lifecycle calls together) are at most
  \<open>write_lane_concurrency\<close>, so the calls on the executor never exceed its workers and its own queue stays
  empty, and at most \<open>write_lane_max_waiters\<close> writes wait for admission.
\<close>

theorem lane_exclusion:
  assumes "lane_reaches concurrency mw budget ps s"
  shows "(i < length (pcs s) \<and> j < length (pcs s) \<and> in_critical v (pcs s ! i) \<and> in_critical v (pcs s ! j) \<longrightarrow> i = j) \<and>
    count_pcs holds_slot s \<le> max 1 concurrency \<and> count_pcs on_executor s \<le> max 1 concurrency \<and>
    waiters s \<le> mw \<and> waiters s = count_pcs in_admission s"
proof (intro conjI impI)
  have ok: "lane_ok (capacity concurrency) mw s" using assms by (rule lane_reaches_ok)
  then show w: "waiters s \<le> mw" "waiters s = count_pcs in_admission s"
    and c: "count_pcs holds_slot s \<le> max 1 concurrency"
    by (auto simp: lane_ok_def counters_ok_def slots_ok_def capacity_def)
  have "count_pcs on_executor s \<le> count_pcs holds_slot s"
    by (rule count_mono) (metis holds_slot.simps(2,3) on_executor.elims(2))
  then show "count_pcs on_executor s \<le> max 1 concurrency" using c by simp
  assume ij: "i < length (pcs s) \<and> j < length (pcs s) \<and> in_critical v (pcs s ! i) \<and> in_critical v (pcs s ! j)"
  have g: "gate_ok v s" using ok by (simp add: lane_ok_def gates_ok_def)
  have h: "in_critical v p \<Longrightarrow> holds_gate v p" for p by (cases p) simp_all
  have "gate_holder s v = Some i" "gate_holder s v = Some j" using ij h gate_held(1) [OF g] by blast+
  then show "i = j" by simp
qed

definition example_tasks :: "pc list" where
  "example_tasks = [LaneStart ''eng'' 1, LaneStart ''eng'' 1, FreeStart True]"

theorem lane_exclusion_witness:
  "count_pcs holds_slot (lane_init 1 3 example_tasks) \<le> 1 \<and>
   waiters (lane_enter 8 0 ''eng'' 1 (lane_init 1 3 example_tasks)) \<le> 8"
proof -
  let ?s = "lane_init 1 3 example_tasks"
  have f: "list_all fresh_pc example_tasks" by (simp add: example_tasks_def fresh_pc_def)
  have "lane_step 8 ?s (lane_enter 8 0 ''eng'' 1 ?s)"
    by (rule lane_step.enter) (simp_all add: lane_init_def example_tasks_def)
  then have "lane_reaches 1 8 3 example_tasks ?s"
    and "lane_reaches 1 8 3 example_tasks (lane_enter 8 0 ''eng'' 1 ?s)"
    using f by (auto simp: lane_reaches_def)
  then have "count_pcs holds_slot ?s \<le> max 1 1" and "waiters (lane_enter 8 0 ''eng'' 1 ?s) \<le> 8"
    using lane_exclusion [where i = 0 and j = 0 and v = "[]"] by blast+
  then show ?thesis by simp
qed

text \<open>
  C37: the lane always drains. From any reachable state, whatever the environment does, only finitely many
  steps are left (at most the state's weight); as long as a task is unfinished the program itself has a
  step, which makes nobody time out: no deadlock; and when no step is left every task has ended, every
  slot is back, every gate is free, every queue is empty and the counters are zero: nothing leaks,
  whatever timeouts and cancellations there were.
\<close>

theorem lane_drains:
  assumes "lane_reaches concurrency mw budget ps s"
  shows "((lane_step mw ^^ n) s s' \<longrightarrow> n \<le> lane_weight s) \<and>
    ((\<exists>i<length (pcs s). \<not> is_done (pcs s ! i)) \<longrightarrow> (\<exists>t. works mw s t)) \<and>
    ((\<nexists>t. lane_step mw s t) \<longrightarrow>
      list_all is_done (pcs s) \<and> slots_free s = max 1 concurrency \<and> (\<forall>v. gate_holder s v = None \<and> gate_queue s v = []) \<and>
      slot_queue s = [] \<and> waiters s = 0 \<and> lifecycle_waiters s = 0)"
proof (intro conjI impI)
  have ok: "lane_ok (capacity concurrency) mw s" using assms by (rule lane_reaches_ok)
  show "n \<le> lane_weight s" if "(lane_step mw ^^ n) s s'" using steps_bounded [OF that] by simp
  show "\<exists>t. works mw s t" if "\<exists>i<length (pcs s). \<not> is_done (pcs s ! i)"
    using that lane_progress [OF ok capacity_pos] by blast
  assume stuck: "\<nexists>t. lane_step mw s t"
  have fin: "is_done (pcs s ! i)" if "i < length (pcs s)" for i
    using lane_progress [OF ok capacity_pos that] stuck by (auto simp: works_def)
  then show "list_all is_done (pcs s)" by (simp add: list_all_length)
  have none: "tasks P s = {}" "count_pcs P s = 0" if "\<And>oc. \<not> P (Done oc)" for P
  proof -
    have "\<not> P p" if "is_done p" for p using \<open>\<And>oc. \<not> P (Done oc)\<close> that by (cases p) simp_all
    then show "tasks P s = {}" "count_pcs P s = 0"
      using fin by (auto simp: tasks_def count_pcs_def filter_empty_conv in_set_conv_nth)
  qed
  have "gate_ok v s" for v using ok by (simp add: lane_ok_def gates_ok_def)
  then have g: "set_option (gate_holder s v) = {}" "gate_queue s v = []" for v by (simp_all add: gate_ok_def none)
  have "gate_holder s v = None" for v using g(1) [of v] by (cases "gate_holder s v") simp_all
  then show "\<forall>v. gate_holder s v = None \<and> gate_queue s v = []" using g(2) by simp
  show "slots_free s = max 1 concurrency" "slot_queue s = []" "waiters s = 0" "lifecycle_waiters s = 0"
    using ok by (simp_all add: lane_ok_def slots_ok_def counters_ok_def none capacity_def)
qed

theorem lane_drains_witness:
  "\<exists>t. works 8 (lane_init 1 3 example_tasks) t"
proof -
  have f: "lane_reaches 1 8 3 example_tasks (lane_init 1 3 example_tasks)"
    by (simp add: lane_reaches_def example_tasks_def fresh_pc_def)
  have "0 < length (pcs (lane_init 1 3 example_tasks)) \<and> \<not> is_done (pcs (lane_init 1 3 example_tasks) ! 0)"
    by (simp add: lane_init_def example_tasks_def)
  moreover have "(\<exists>i<length (pcs (lane_init 1 3 example_tasks)). \<not> is_done (pcs (lane_init 1 3 example_tasks) ! i)) \<longrightarrow>
      (\<exists>t. works 8 (lane_init 1 3 example_tasks) t)"
    using lane_drains [OF f, of 0 "lane_init 1 3 example_tasks"] by blast
  ultimately show ?thesis by blast
qed

section \<open>Outcomes\<close>

text \<open>A task that has not passed admission, or was turned away.\<close>

fun outside :: "pc \<Rightarrow> bool" where
  "outside (LaneStart v k) = True"
| "outside (GateWait v k) = True"
| "outside (SlotWait v k) = True"
| "outside (FreeStart mc) = True"
| "outside (FreeWait mc p) = True"
| "outside (Done oc) = (oc = Busy)"
| "outside _ = False"

definition untouched :: "lane \<Rightarrow> bool" where
  "untouched s \<longleftrightarrow> (\<forall>i<length (pcs s). outside (pcs s ! i) \<longrightarrow> i \<notin> set (admitted s) \<and> i \<notin> set (ran s))"

lemma untouchedD: "untouched s \<Longrightarrow> i < length (pcs s) \<Longrightarrow> outside (pcs s ! i) \<Longrightarrow> i \<notin> set (admitted s) \<and> i \<notin> set (ran s)"
  by (simp add: untouched_def)

lemma git_outcome_not_busy [simp]: "git_outcome p c ok \<noteq> Busy"
  by (simp add: git_outcome_def)

lemma untouched_step:
  assumes "lane_step mw s s'" and "untouched s"
  shows "untouched s'"
  using assms(1)
  by cases (use untouchedD [OF assms(2)] in \<open>auto simp: untouched_def step_defs set_pc_def nth_list_update\<close>)

lemma lane_reaches_untouched:
  assumes "lane_reaches concurrency mw budget ps s"
  shows "untouched s"
proof -
  have "(lane_step mw)\<^sup>*\<^sup>* (lane_init concurrency budget ps) s" using assms by (simp add: lane_reaches_def)
  moreover have "untouched (lane_init concurrency budget ps)" by (simp add: untouched_def lane_init_def)
  ultimately show ?thesis by (induction rule: rtranclp_induct) (blast intro: untouched_step)+
qed

text \<open>
  C39: a refused write has done nothing. A task that ends with \<open>WriteBusyError\<close> (the backstop or the queue
  deadline) never entered its lane body, held no slot and had no call on the executor, so retrying it is
  safe.
\<close>

theorem busy_write_did_nothing:
  assumes "lane_reaches concurrency mw budget ps s" and "i < length (pcs s)" and "pcs s ! i = Done Busy"
  shows "i \<notin> set (admitted s) \<and> i \<notin> set (ran s) \<and> (\<forall>v. gate_holder s v \<noteq> Some i \<and> i \<notin> set (gate_queue s v)) \<and>
    i \<notin> set (slot_queue s)"
proof -
  have ok: "lane_ok (capacity concurrency) mw s" using assms(1) by (rule lane_reaches_ok)
  have g: "gate_ok v s" for v using ok by (simp add: lane_ok_def gates_ok_def)
  have no: "i \<notin> tasks P s" if "\<not> P (Done Busy)" for P using assms(3) that by (simp add: tasks_def)
  have "gate_holder s v \<noteq> Some i \<and> i \<notin> set (gate_queue s v)" for v
    using g [of v] no [of "holds_gate v"] no [of "waits_gate v"] by (auto simp: gate_ok_def)
  moreover have "i \<notin> set (slot_queue s)" using ok no [of waits_slot] by (simp add: lane_ok_def slots_ok_def)
  ultimately show ?thesis
    using untouchedD [OF lane_reaches_untouched [OF assms(1)] assms(2)] assms(3) by simp
qed

theorem busy_write_did_nothing_witness:
  "0 \<notin> set (ran (lane_enter 0 0 ''eng'' 1 (lane_init 1 3 example_tasks)))"
proof -
  let ?s = "lane_init 1 3 example_tasks"
  have "lane_step 0 ?s (lane_enter 0 0 ''eng'' 1 ?s)"
    by (rule lane_step.enter) (simp_all add: lane_init_def example_tasks_def)
  then have "lane_reaches 1 0 3 example_tasks (lane_enter 0 0 ''eng'' 1 ?s)"
    by (auto simp: lane_reaches_def example_tasks_def fresh_pc_def)
  from busy_write_did_nothing [OF this, of 0] show ?thesis
    by (simp add: lane_enter_def set_pc_def lane_init_def example_tasks_def)
qed

text \<open>The life of a call with \<open>must_complete\<close>.\<close>

definition compensating :: "nat \<Rightarrow> lane \<Rightarrow> bool" where
  "compensating i s \<longleftrightarrow> i < length (pcs s) \<and>
     (case pcs s ! i of
        FreeStart mc \<Rightarrow> mc
      | FreeWait mc p \<Rightarrow> mc
      | FreeGit mc p c \<Rightarrow> mc
      | Done oc \<Rightarrow> i \<in> set (ran s)
      | _ \<Rightarrow> False)"

lemma compensating_step:
  assumes "lane_step mw s s'" and "compensating i s"
  shows "compensating i s'"
  using assms(1)
  by cases (use assms(2) in \<open>auto simp: compensating_def step_defs set_pc_def nth_list_update split: pc.splits if_splits\<close>)

lemma compensating_steps: "(lane_step mw)\<^sup>*\<^sup>* s s' \<Longrightarrow> compensating i s \<Longrightarrow> compensating i s'"
  by (induction rule: rtranclp_induct) (blast intro: compensating_step)+

text \<open>
  C40: a compensation is never lost. A call of \<open>run_git_write\<close> with \<open>must_complete\<close> can only end after its
  function ran on the executor, however often it was cancelled while it waited for a slot or while the
  thread was running; and when the lane has drained it has run. A caller of \<open>run_compensation\<close> stays
  parked until the inner task itself has ended, whatever cancellations arrive.
\<close>

theorem compensation_completes:
  assumes "lane_reaches concurrency mw budget ps s" and "i < length ps" and "ps ! i = FreeStart True"
  shows "(is_done (pcs s ! i) \<longrightarrow> i \<in> set (ran s)) \<and> ((\<nexists>t. lane_step mw s t) \<longrightarrow> i \<in> set (ran s)) \<and>
    (run_compensation es absorbed = None \<longleftrightarrow> set es \<subseteq> {OuterCancel})"
proof -
  have "compensating i (lane_init concurrency budget ps)"
    using assms(2,3) by (simp add: compensating_def lane_init_def)
  then have c: "compensating i s" using assms(1) compensating_steps by (auto simp: lane_reaches_def)
  have d: "i \<in> set (ran s)" if "is_done (pcs s ! i)" using c that by (cases "pcs s ! i") (auto simp: compensating_def)
  have ok: "lane_ok (capacity concurrency) mw s" using assms(1) by (rule lane_reaches_ok)
  have "is_done (pcs s ! i)" if "\<nexists>t. lane_step mw s t"
    using lane_progress [OF ok capacity_pos, of i] that c by (auto simp: works_def compensating_def)
  with d run_compensation_parked show ?thesis by blast
qed

theorem compensation_completes_witness:
  "is_done (pcs (lane_init 1 3 example_tasks) ! 2) \<longleftrightarrow> 2 \<in> set (ran (lane_init 1 3 example_tasks))"
proof -
  have "lane_reaches 1 8 3 example_tasks (lane_init 1 3 example_tasks)"
    by (simp add: lane_reaches_def example_tasks_def fresh_pc_def)
  from compensation_completes [OF this, of 2] show ?thesis
    by (auto simp: example_tasks_def lane_init_def)
qed

end
