(* ===== verification/BodyStore.thy ===== *)
theory BodyStore
  imports Catalog Digest
begin

text \<open>
  The two text-body stores of the native ledger (\<^verbatim>\<open>m1_reference_payload_store.py\<close> and
  \<^verbatim>\<open>m1_pg_body_store.py\<close> under \<^verbatim>\<open>backend/app/services\<close>) and the choice between them
  (\<^verbatim>\<open>native_payload_verification.py\<close>). Both keep verified UTF-8 bodies in the content-addressed table
  \<^verbatim>\<open>m1_reference_payloads\<close>; each refuses the rows of the other's placement. The locale states what a
  store promises, and both stores interpret it.
\<close>

section \<open>Rows and payloads\<close>

datatype text_payload = PyStr string | PyBytes "nat list" | PyOther

record body_row =
  pb_id :: uuid
  pb_ns :: uuid
  pb_profile :: string
  pb_digest :: string
  pb_size :: nat
  pb_encoding :: string
  pb_placement :: string
  pb_verification :: string
  pb_bytes :: "nat list"

record prepared =
  pp_id :: uuid
  pp_ns :: uuid
  pp_profile :: string
  pp_digest :: string
  pp_size :: nat
  pp_encoding :: string
  pp_placement :: string
  pp_verification :: string

definition REF_PLACEMENT :: string where
  "REF_PLACEMENT = ''m1-reference-payload-v1''"

definition PG_PLACEMENT :: string where
  "PG_PLACEMENT = ''pg-bodystore-v1''"

definition VERIFICATION_PROFILE :: string where
  "VERIFICATION_PROFILE = ''sha256-size-utf8-v1''"

definition MAX_TEXT_BYTES :: nat where
  "MAX_TEXT_BYTES = 10 * 1024 * 1024"

definition prepared_of :: "body_row \<Rightarrow> prepared" where
  "prepared_of r =
     \<lparr>pp_id = pb_id r, pp_ns = pb_ns r, pp_profile = pb_profile r, pp_digest = pb_digest r,
      pp_size = pb_size r, pp_encoding = pb_encoding r, pp_placement = pb_placement r,
      pp_verification = pb_verification r\<rparr>"

definition expected_matches :: "'a option \<Rightarrow> 'a \<Rightarrow> bool" where
  "expected_matches expected observed = (case expected of None \<Rightarrow> True | Some e \<Rightarrow> e = observed)"

section \<open>The reference store\<close>

definition ref_verified_bytes ::
  "text_payload \<Rightarrow> string option \<Rightarrow> nat option \<Rightarrow> (nat list \<times> string) result" where
  "ref_verified_bytes payload expected_digest expected_size =
     rbind (case payload of
              PyStr s \<Rightarrow> if MAX_TEXT_BYTES < length (utf8_bytes s) then Inl (Validation ''10 MiB limit'')
                         else Inr (utf8_bytes s)
            | PyBytes b \<Rightarrow> Inr b
            | PyOther \<Rightarrow> Inl (Validation ''str or bytes'')) (\<lambda>canonical.
     rbind (require (length canonical \<le> MAX_TEXT_BYTES) (Validation ''10 MiB limit'')) (\<lambda>_.
     rbind (require (utf8_decode canonical \<noteq> None) (Validation ''UTF-8'')) (\<lambda>_.
     rbind (require (\<not> List.member canonical 0) (Validation ''NUL'')) (\<lambda>_.
     let observed_digest = sha256_bytes canonical in
     rbind (require (expected_matches expected_digest observed_digest) (Validation ''expected digest'')) (\<lambda>_.
     rbind (require (expected_matches expected_size (length canonical)) (Validation ''expected size'')) (\<lambda>_.
     Inr (canonical, observed_digest)))))))"

definition ref_verify_row :: "body_row \<Rightarrow> nat list option \<Rightarrow> nat list result" where
  "ref_verify_row row expected =
     (let canonical = pb_bytes row in
      rbind (require (expected_matches expected canonical) (PyRuntimeError ''bytes changed'')) (\<lambda>_.
      rbind (require (length canonical = pb_size row) (PyRuntimeError ''size mismatch'')) (\<lambda>_.
      rbind (require (sha256_bytes canonical = pb_digest row) (PyRuntimeError ''digest mismatch'')) (\<lambda>_.
      rbind (require (pb_encoding row = ''utf-8'') (PyRuntimeError ''encoding mismatch'')) (\<lambda>_.
      rbind (require (utf8_decode canonical \<noteq> None) (PyRuntimeError ''not UTF-8'')) (\<lambda>_.
      rbind (require (\<not> List.member canonical 0) (PyRuntimeError ''NUL'')) (\<lambda>_.
      rbind (require (pb_placement row = REF_PLACEMENT) (PyRuntimeError ''placement mismatch'')) (\<lambda>_.
      rbind (require (pb_verification row = VERIFICATION_PROFILE) (PyRuntimeError ''profile mismatch'')) (\<lambda>_.
      Inr canonical)))))))))"

text \<open>
  \<open>INSERT .. ON CONFLICT DO NOTHING RETURNING\<close> on the payload table, with the id PostgreSQL draws: no row
  on a conflict with either unique key, an error when the namespace is not a vault.
\<close>

definition insert_body :: "db \<Rightarrow> body_row \<Rightarrow> body_row list \<Rightarrow> (body_row option \<times> body_row list) result" where
  "insert_body d row rows =
     (if list_ex (\<lambda>r. pb_id r = pb_id row \<or>
           (pb_ns r, pb_digest r, pb_size r, pb_placement r) =
           (pb_ns row, pb_digest row, pb_size row, pb_placement row)) rows
      then Inr (None, rows)
      else if vault_by_id d (pb_ns row) = None then Inl (DbIntegrity ''m1_reference_payloads_namespace'')
      else Inr (Some row, rows @ [row]))"

definition select_body :: "uuid \<Rightarrow> string \<Rightarrow> nat \<Rightarrow> string \<Rightarrow> body_row list \<Rightarrow> body_row option" where
  "select_body ns digest nbytes placement rows =
     find (\<lambda>r. pb_ns r = ns \<and> pb_digest r = digest \<and> pb_size r = nbytes \<and> pb_placement r = placement
               \<and> pb_verification r = VERIFICATION_PROFILE) rows"

definition new_body :: "uuid \<Rightarrow> uuid \<Rightarrow> nat list \<Rightarrow> string \<Rightarrow> string \<Rightarrow> body_row" where
  "new_body pid ns canonical digest placement =
     \<lparr>pb_id = pid, pb_ns = ns, pb_profile = ''text'', pb_digest = digest, pb_size = length canonical,
      pb_encoding = ''utf-8'', pb_placement = placement, pb_verification = VERIFICATION_PROFILE,
      pb_bytes = canonical\<rparr>"

definition ref_prepare_text ::
  "db \<Rightarrow> uuid \<Rightarrow> uuid \<Rightarrow> text_payload \<Rightarrow> string option \<Rightarrow> nat option \<Rightarrow> body_row list
   \<Rightarrow> (prepared \<times> body_row list) result" where
  "ref_prepare_text d pid ns payload expected_digest expected_size rows =
     rbind (ref_verified_bytes payload expected_digest expected_size) (\<lambda>(canonical, digest).
     rbind (insert_body d (new_body pid ns canonical digest REF_PLACEMENT) rows) (\<lambda>(inserted, rows).
     rbind (of_option (PyRuntimeError ''payload disappeared'')
              (case inserted of Some r \<Rightarrow> Some r
               | None \<Rightarrow> select_body ns digest (length canonical) REF_PLACEMENT rows)) (\<lambda>row.
     rbind (ref_verify_row row (Some canonical)) (\<lambda>_.
     Inr (prepared_of row, rows)))))"

definition ref_open_verified :: "uuid \<Rightarrow> body_row list \<Rightarrow> nat list result" where
  "ref_open_verified pid rows =
     rbind (of_option (PyRuntimeError ''payload is missing'') (tab_get pb_id pid rows)) (\<lambda>row.
     ref_verify_row row None)"

section \<open>The PostgreSQL body store\<close>

definition pg_verified_bytes ::
  "text_payload \<Rightarrow> string option \<Rightarrow> nat option \<Rightarrow> (nat list \<times> string) result" where
  "pg_verified_bytes payload expected_digest expected_size =
     rbind (case payload of
              PyStr s \<Rightarrow> if MAX_TEXT_BYTES < length s then Inl (Validation ''10 MiB limit'')
                         else Inr (utf8_bytes s)
            | PyBytes b \<Rightarrow> Inr b
            | PyOther \<Rightarrow> Inl (Validation ''str or bytes'')) (\<lambda>canonical.
     rbind (require (length canonical \<le> MAX_TEXT_BYTES) (Validation ''10 MiB limit'')) (\<lambda>_.
     rbind (require (utf8_decode canonical \<noteq> None) (Validation ''UTF-8'')) (\<lambda>_.
     let digest = sha256_bytes canonical in
     rbind (require (expected_matches expected_digest digest) (Validation ''expected digest'')) (\<lambda>_.
     rbind (require (expected_matches expected_size (length canonical)) (Validation ''expected size'')) (\<lambda>_.
     Inr (canonical, digest))))))"

definition pg_verify_row :: "body_row \<Rightarrow> nat list option \<Rightarrow> nat list result" where
  "pg_verify_row row expected =
     (let canonical = pb_bytes row in
      rbind (require (expected_matches expected canonical) (PyRuntimeError ''bytes changed'')) (\<lambda>_.
      rbind (require (length canonical = pb_size row) (PyRuntimeError ''size mismatch'')) (\<lambda>_.
      rbind (require (sha256_bytes canonical = pb_digest row) (PyRuntimeError ''digest mismatch'')) (\<lambda>_.
      rbind (require (pb_encoding row = ''utf-8'') (PyRuntimeError ''encoding mismatch'')) (\<lambda>_.
      rbind (require (utf8_decode canonical \<noteq> None) (PyRuntimeError ''not UTF-8'')) (\<lambda>_.
      rbind (require (pb_placement row = PG_PLACEMENT) (PyRuntimeError ''placement mismatch'')) (\<lambda>_.
      rbind (require (pb_verification row = VERIFICATION_PROFILE) (PyRuntimeError ''profile mismatch'')) (\<lambda>_.
      Inr canonical))))))))"

definition pg_prepare_verified_in_conn ::
  "db \<Rightarrow> uuid \<Rightarrow> uuid \<Rightarrow> nat list \<Rightarrow> string \<Rightarrow> body_row list \<Rightarrow> (prepared \<times> body_row list) result" where
  "pg_prepare_verified_in_conn d pid ns canonical digest rows =
     rbind (insert_body d (new_body pid ns canonical digest PG_PLACEMENT) rows) (\<lambda>(inserted, rows).
     rbind (of_option (PyRuntimeError ''body disappeared'')
              (case inserted of Some r \<Rightarrow> Some r
               | None \<Rightarrow> select_body ns digest (length canonical) PG_PLACEMENT rows)) (\<lambda>row.
     rbind (pg_verify_row row (Some canonical)) (\<lambda>_.
     Inr (prepared_of row, rows))))"

definition pg_prepare_text ::
  "db \<Rightarrow> uuid \<Rightarrow> uuid \<Rightarrow> text_payload \<Rightarrow> string option \<Rightarrow> nat option \<Rightarrow> body_row list
   \<Rightarrow> (prepared \<times> body_row list) result" where
  "pg_prepare_text d pid ns payload expected_digest expected_size rows =
     rbind (pg_verified_bytes payload expected_digest expected_size) (\<lambda>(canonical, digest).
     pg_prepare_verified_in_conn d pid ns canonical digest rows)"

definition pg_prepare_text_in_conn ::
  "bool \<Rightarrow> db \<Rightarrow> uuid \<Rightarrow> uuid \<Rightarrow> text_payload \<Rightarrow> string option \<Rightarrow> nat option \<Rightarrow> body_row list
   \<Rightarrow> (prepared \<times> body_row list) result" where
  "pg_prepare_text_in_conn in_transaction d pid ns payload expected_digest expected_size rows =
     rbind (require in_transaction (Validation ''active transaction'')) (\<lambda>_.
     rbind (pg_verified_bytes payload expected_digest expected_size) (\<lambda>(canonical, digest).
     pg_prepare_verified_in_conn d pid ns canonical digest rows))"

definition pg_open_verified :: "uuid \<Rightarrow> body_row list \<Rightarrow> nat list result" where
  "pg_open_verified pid rows =
     rbind (of_option (PyRuntimeError ''body is missing'')
              (find (\<lambda>r. pb_id r = pid \<and> pb_placement r = PG_PLACEMENT) rows)) (\<lambda>row.
     pg_verify_row row None)"

text \<open>The facts handed out only after the bytes were verified.\<close>

record verified_body =
  vb_id :: uuid
  vb_ns :: uuid
  vb_digest :: string
  vb_size :: nat
  vb_bytes :: "nat list"
  vb_placement :: string
  vb_verification :: string

definition receipt_from_row :: "body_row \<Rightarrow> verified_body result" where
  "receipt_from_row row =
     rbind (pg_verify_row row None) (\<lambda>canonical.
     Inr \<lparr>vb_id = pb_id row, vb_ns = pb_ns row, vb_digest = pb_digest row, vb_size = pb_size row,
          vb_bytes = canonical, vb_placement = pb_placement row, vb_verification = pb_verification row\<rparr>)"

definition open_verified_receipt :: "uuid \<Rightarrow> body_row list \<Rightarrow> verified_body result" where
  "open_verified_receipt pid rows =
     rbind (of_option (PyRuntimeError ''body is missing'')
              (find (\<lambda>r. pb_id r = pid \<and> pb_placement r = PG_PLACEMENT) rows)) receipt_from_row"

text \<open>The footprint of one placement in a namespace, and of each placement the namespace uses.\<close>

definition namespace_residue :: "uuid \<Rightarrow> body_row list \<Rightarrow> nat \<times> nat \<times> nat" where
  "namespace_residue ns rows =
     (let mine = filter (\<lambda>r. pb_ns r = ns \<and> pb_placement r = PG_PLACEMENT) rows
      in (length mine, sum_list (map pb_size mine), length (remdups (map pb_digest mine))))"

record placement_totals =
  pt_placement :: string
  pt_bodies :: nat
  pt_bytes :: nat
  pt_digests :: nat

definition namespace_placement_totals :: "uuid \<Rightarrow> body_row list \<Rightarrow> placement_totals list" where
  "namespace_placement_totals ns rows =
     (let mine = filter (\<lambda>r. pb_ns r = ns) rows
      in map (\<lambda>p. let rs = filter (\<lambda>r. pb_placement r = p) mine
                  in \<lparr>pt_placement = p, pt_bodies = length rs, pt_bytes = sum_list (map pb_size rs),
                      pt_digests = length (remdups (map pb_digest rs))\<rparr>)
           (sort (remdups (map pb_placement mine))))"

section \<open>Placement dispatch\<close>

datatype body_store = RefStore | PgStore

definition store_placement :: "body_store \<Rightarrow> string" where
  "store_placement s = (case s of RefStore \<Rightarrow> REF_PLACEMENT | PgStore \<Rightarrow> PG_PLACEMENT)"

definition prepare_text ::
  "body_store \<Rightarrow> db \<Rightarrow> uuid \<Rightarrow> uuid \<Rightarrow> text_payload \<Rightarrow> string option \<Rightarrow> nat option \<Rightarrow> body_row list
   \<Rightarrow> (prepared \<times> body_row list) result" where
  "prepare_text s = (case s of RefStore \<Rightarrow> ref_prepare_text | PgStore \<Rightarrow> pg_prepare_text)"

definition open_verified :: "body_store \<Rightarrow> uuid \<Rightarrow> body_row list \<Rightarrow> nat list result" where
  "open_verified s = (case s of RefStore \<Rightarrow> ref_open_verified | PgStore \<Rightarrow> pg_open_verified)"

definition verify_row :: "body_store \<Rightarrow> body_row \<Rightarrow> nat list option \<Rightarrow> nat list result" where
  "verify_row s = (case s of RefStore \<Rightarrow> ref_verify_row | PgStore \<Rightarrow> pg_verify_row)"

definition verify_native_head_body :: "body_row \<Rightarrow> nat list result" where
  "verify_native_head_body head =
     (if pb_placement head = REF_PLACEMENT then ref_verify_row head None
      else if pb_placement head = PG_PLACEMENT then pg_verify_row head None
      else Inl (PyRuntimeError ''unsupported placement''))"

definition payload_store_for_placement :: "string \<Rightarrow> body_store result" where
  "payload_store_for_placement selected =
     (if selected = PG_PLACEMENT then Inr PgStore
      else if selected = REF_PLACEMENT then Inr RefStore
      else Inl (PyRuntimeError ''unsupported placement''))"

section \<open>What a store promises\<close>

definition body_key :: "body_row \<Rightarrow> uuid \<times> string \<times> nat \<times> string" where
  "body_key r = (pb_ns r, pb_digest r, pb_size r, pb_placement r)"

definition body_ok :: "body_row \<Rightarrow> bool" where
  "body_ok r \<longleftrightarrow> pb_profile r = ''text'' \<and> pb_digest r = sha256_bytes (pb_bytes r)
     \<and> pb_size r = length (pb_bytes r) \<and> pb_encoding r = ''utf-8'' \<and> utf8_decode (pb_bytes r) \<noteq> None
     \<and> pb_verification r = VERIFICATION_PROFILE
     \<and> (pb_placement r = REF_PLACEMENT \<and> 0 \<notin> set (pb_bytes r) \<or> pb_placement r = PG_PLACEMENT)"

definition bodies_ok :: "body_row list \<Rightarrow> bool" where
  "bodies_ok rows \<longleftrightarrow> unique_by pb_id rows \<and> unique_by body_key rows \<and> list_all body_ok rows"

text \<open>The bytes a payload stands for, whatever the store.\<close>

definition payload_bytes :: "text_payload \<Rightarrow> nat list" where
  "payload_bytes p = (case p of PyStr s \<Rightarrow> utf8_bytes s | PyBytes b \<Rightarrow> b | PyOther \<Rightarrow> [])"

lemma placements_differ [simp]: "REF_PLACEMENT \<noteq> PG_PLACEMENT" "PG_PLACEMENT \<noteq> REF_PLACEMENT"
  by (simp_all add: REF_PLACEMENT_def PG_PLACEMENT_def)

lemma expected_matches_simps [simp]:
  "expected_matches None x" "expected_matches (Some e) x \<longleftrightarrow> e = x"
  by (simp_all add: expected_matches_def)

lemma insert_body_cases:
  assumes "insert_body d row rows = Inr (ins, rows')"
  shows "ins = Some row \<and> rows' = rows @ [row] \<and> pb_id row \<notin> pb_id ` set rows
           \<and> body_key row \<notin> body_key ` set rows \<and> vault_by_id d (pb_ns row) \<noteq> None
         \<or> ins = None \<and> rows' = rows"
  using assms by (auto simp: insert_body_def list_ex_iff body_key_def split: if_splits)

lemma bodies_ok_insert:
  assumes "bodies_ok rows" and "insert_body d row rows = Inr (ins, rows')" and "body_ok row"
  shows "bodies_ok rows'"
  using insert_body_cases [OF assms(2)] assms(1, 3) by (auto simp: bodies_ok_def unique_by_def)

lemma select_body_Some:
  assumes "bodies_ok rows" and "select_body ns digest n placement rows = Some r"
  shows "r \<in> set rows" and "pb_ns r = ns" and "pb_digest r = digest" and "pb_size r = n"
    and "pb_placement r = placement"
  using assms(2) by (auto simp: select_body_def dest!: find_Some_in)

locale text_store =
  fixes placement :: string and gone :: string
    and verified :: "text_payload \<Rightarrow> string option \<Rightarrow> nat option \<Rightarrow> (nat list \<times> string) result"
    and verify :: "body_row \<Rightarrow> nat list option \<Rightarrow> nat list result"
    and prepare :: "db \<Rightarrow> uuid \<Rightarrow> uuid \<Rightarrow> text_payload \<Rightarrow> string option \<Rightarrow> nat option \<Rightarrow> body_row list
                    \<Rightarrow> (prepared \<times> body_row list) result"
    and open_body :: "uuid \<Rightarrow> body_row list \<Rightarrow> nat list result"
  assumes verified_ok: "verified p ed es = Inr (c, g) \<Longrightarrow>
      c = payload_bytes p \<and> g = sha256_bytes c \<and> (\<forall>pid ns. body_ok (new_body pid ns c g placement))"
    and verify_ok: "body_ok r \<Longrightarrow> pb_placement r = placement \<Longrightarrow> verify r None = Inr (pb_bytes r)"
    and verify_bytes: "verify r (Some c) = Inr x \<Longrightarrow> pb_bytes r = c"
    and prepare_step: "prepare d pid ns p ed es rows =
      rbind (verified p ed es) (\<lambda>(c, g).
      rbind (insert_body d (new_body pid ns c g placement) rows) (\<lambda>(ins, rows).
      rbind (of_option (PyRuntimeError gone)
               (case ins of Some r \<Rightarrow> Some r | None \<Rightarrow> select_body ns g (length c) placement rows)) (\<lambda>row.
      rbind (verify row (Some c)) (\<lambda>_. Inr (prepared_of row, rows)))))"
    and open_step: "bodies_ok rows \<Longrightarrow> r \<in> set rows \<Longrightarrow> pb_placement r = placement \<Longrightarrow>
      open_body (pb_id r) rows = verify r None"
begin

text \<open>A prepared payload names a stored row with exactly the bytes of the payload; older rows stay.\<close>

lemma prepare_row:
  assumes "prepare d pid ns p ed es rows = Inr (pp, rows')" and "bodies_ok rows"
  obtains r where "r \<in> set rows'" and "pp = prepared_of r" and "pb_ns r = ns"
    and "pb_bytes r = payload_bytes p" and "pb_placement r = placement"
    and "bodies_ok rows'" and "\<exists>new. rows' = rows @ new"
proof -
  from assms(1) obtain c g ins row x where v: "verified p ed es = Inr (c, g)"
    and ins: "insert_body d (new_body pid ns c g placement) rows = Inr (ins, rows')"
    and row: "(case ins of Some r \<Rightarrow> Some r | None \<Rightarrow> select_body ns g (length c) placement rows') = Some row"
    and ver: "verify row (Some c) = Inr x" and pp: "pp = prepared_of row"
    unfolding prepare_step by (auto simp: result_iff)
  have c: "c = payload_bytes p" and new_ok: "body_ok (new_body pid ns c g placement)"
    using verified_ok [OF v] by auto
  have ok': "bodies_ok rows'" using bodies_ok_insert [OF assms(2) ins new_ok] .
  have "row \<in> set rows' \<and> pb_ns row = ns \<and> pb_placement row = placement"
    using insert_body_cases [OF ins] row select_body_Some [OF assms(2)]
    by (auto simp: new_body_def)
  moreover have "\<exists>new. rows' = rows @ new" using insert_body_cases [OF ins] by auto
  ultimately show thesis using that [of row] verify_bytes [OF ver] c pp ok' by simp
qed

lemma open_prepared:
  assumes "bodies_ok rows" and "r \<in> set rows" and "pb_placement r = placement"
  shows "open_body (pb_id r) rows = Inr (pb_bytes r)"
proof -
  have "body_ok r" using assms(1, 2) by (auto simp: bodies_ok_def list_all_iff)
  then show ?thesis using open_step [OF assms] verify_ok [OF _ assms(3)] by simp
qed

text \<open>What is prepared can be opened, now and after any number of later payloads.\<close>

lemma prepare_open:
  assumes "prepare d pid ns p ed es rows = Inr (pp, rows')" and "bodies_ok rows"
  shows "open_body (pp_id pp) rows' = Inr (payload_bytes p)"
  using assms by (elim prepare_row) (auto simp: prepared_of_def open_prepared)

lemma open_later:
  assumes "bodies_ok rows" and "bodies_ok (rows @ new)" and "r \<in> set rows" and "pb_placement r = placement"
  shows "open_body (pb_id r) (rows @ new) = open_body (pb_id r) rows"
  using open_prepared assms by simp

text \<open>Equal bodies of a namespace share one row: a second preparation adds nothing.\<close>

lemma prepare_again:
  assumes "prepare d pid ns p ed es rows = Inr (pp, rows')" and "bodies_ok rows"
    and "prepare d' pid' ns p ed' es' rows' = Inr (pp', rows'')"
  shows "pp' = pp \<and> rows'' = rows'"
proof -
  from assms(1, 2) obtain r where r: "r \<in> set rows'" "pp = prepared_of r" "pb_ns r = ns"
    "pb_bytes r = payload_bytes p" "pb_placement r = placement" and ok': "bodies_ok rows'"
    by (rule prepare_row)
  then have dg: "pb_digest r = sha256_bytes (payload_bytes p)" "pb_size r = length (payload_bytes p)"
    by (auto simp: bodies_ok_def list_all_iff body_ok_def)
  from assms(3) obtain c g ins where v: "verified p ed' es' = Inr (c, g)"
    and ins: "insert_body d' (new_body pid' ns c g placement) rows' = Inr (ins, rows'')"
    and cont: "rbind (of_option (PyRuntimeError gone)
       (case ins of Some r \<Rightarrow> Some r | None \<Rightarrow> select_body ns g (length c) placement rows'')) (\<lambda>row.
       rbind (verify row (Some c)) (\<lambda>_. Inr (prepared_of row, rows''))) = Inr (pp', rows'')"
    unfolding prepare_step by (auto simp: result_iff)
  have c: "c = payload_bytes p" "g = sha256_bytes c" using verified_ok [OF v] by auto
  have "body_key (new_body pid' ns c g placement) = body_key r"
    using r dg c by (simp add: body_key_def new_body_def)
  then have none: "ins = None" "rows'' = rows'"
    using insert_body_cases [OF ins] r(1) by auto
  have "select_body ns g (length c) placement rows' = Some r'" if "r' \<in> set rows'" "body_key r' = body_key r" for r'
  proof -
    have "select_body ns g (length c) placement rows' \<noteq> None"
      using that ok' r(3-5) dg c
      by (auto simp: select_body_def body_key_def bodies_ok_def list_all_iff body_ok_def find_None_iff)
    then obtain y where y: "select_body ns g (length c) placement rows' = Some y" by blast
    have "body_key y = body_key r'"
      using select_body_Some [OF ok' y] that(2) r dg c by (simp add: body_key_def)
    then show ?thesis
      using y select_body_Some(1) [OF ok' y] that(1) ok' unique_by_key_eq
      by (metis bodies_ok_def)
  qed
  then have "select_body ns g (length c) placement rows' = Some r" using r(1) by blast
  with cont none show ?thesis using r(2) by (auto simp: result_iff)
qed

end

interpretation ref_store: text_store REF_PLACEMENT "''payload disappeared''" ref_verified_bytes ref_verify_row
    ref_prepare_text ref_open_verified
proof (unfold_locales, goal_cases)
  case (1 p ed es c g)
  then show ?case
    by (auto simp: ref_verified_bytes_def result_iff Let_def payload_bytes_def body_ok_def new_body_def
        split: text_payload.splits if_splits)
next
  case (2 r)
  then show ?case by (auto simp: ref_verify_row_def body_ok_def Let_def)
next
  case (3 r c x)
  then show ?case by (auto simp: ref_verify_row_def result_iff Let_def)
next
  case (4 d pid ns p ed es rows)
  show ?case by (simp add: ref_prepare_text_def)
next
  case (5 rows r)
  then show ?case by (simp add: ref_open_verified_def bodies_ok_def tab_get_unique)
qed

lemma pg_open_find:
  assumes "bodies_ok rows" and "r \<in> set rows" and "pb_placement r = PG_PLACEMENT"
  shows "find (\<lambda>x. pb_id x = pb_id r \<and> pb_placement x = PG_PLACEMENT) rows = Some r"
proof (cases "find (\<lambda>x. pb_id x = pb_id r \<and> pb_placement x = PG_PLACEMENT) rows")
  case None
  then show ?thesis using assms(2, 3) by (auto simp: find_None_iff)
next
  case (Some x)
  then have "x \<in> set rows \<and> pb_id x = pb_id r" by (auto dest: find_Some_in)
  then show ?thesis using Some assms(1, 2) unique_by_key_eq [of pb_id rows x r] by (simp add: bodies_ok_def)
qed

interpretation pg_store: text_store PG_PLACEMENT "''body disappeared''" pg_verified_bytes pg_verify_row
    pg_prepare_text pg_open_verified
proof (unfold_locales, goal_cases)
  case (1 p ed es c g)
  then show ?case
    by (auto simp: pg_verified_bytes_def result_iff Let_def payload_bytes_def body_ok_def new_body_def
        split: text_payload.splits if_splits)
next
  case (2 r)
  then show ?case by (auto simp: pg_verify_row_def body_ok_def Let_def)
next
  case (3 r c x)
  then show ?case by (auto simp: pg_verify_row_def result_iff Let_def)
next
  case (4 d pid ns p ed es rows)
  show ?case by (simp add: pg_prepare_text_def pg_prepare_verified_in_conn_def)
next
  case (5 rows r)
  then show ?case by (simp add: pg_open_verified_def pg_open_find)
qed

text \<open>Both stores at once: what the ledger uses.\<close>

lemma prepare_text_row:
  assumes "prepare_text st d pid ns p ed es rows = Inr (pp, rows')" and "bodies_ok rows"
  obtains r where "r \<in> set rows'" and "pp = prepared_of r" and "pb_ns r = ns"
    and "pb_bytes r = payload_bytes p" and "pb_placement r = store_placement st"
    and "bodies_ok rows'" and "\<exists>new. rows' = rows @ new"
  using assms by (cases st) (auto simp: prepare_text_def store_placement_def
      elim: ref_store.prepare_row pg_store.prepare_row)

lemma pg_prepare_in_conn_row:
  assumes "pg_prepare_text_in_conn b d pid ns p ed es rows = Inr (pp, rows')"
  shows "b" and "pg_prepare_text d pid ns p ed es rows = Inr (pp, rows')"
  using assms by (auto simp: pg_prepare_text_in_conn_def pg_prepare_text_def result_iff)

text \<open>A stored body opens through the store its placement names, and only through that one.\<close>

lemma open_by_placement:
  assumes "bodies_ok rows" and "r \<in> set rows"
  obtains st where "payload_store_for_placement (pb_placement r) = Inr st"
    and "store_placement st = pb_placement r" and "open_verified st (pb_id r) rows = Inr (pb_bytes r)"
    and "verify_row st r None = Inr (pb_bytes r)"
proof -
  have ok: "body_ok r" using assms by (auto simp: bodies_ok_def list_all_iff)
  then consider "pb_placement r = REF_PLACEMENT" | "pb_placement r = PG_PLACEMENT"
    by (auto simp: body_ok_def)
  then show thesis
  proof cases
    case 1
    then show ?thesis using that [of RefStore] ref_store.open_prepared [OF assms 1] ref_store.verify_ok [OF ok 1]
      by (simp add: payload_store_for_placement_def open_verified_def store_placement_def verify_row_def)
  next
    case 2
    then show ?thesis using that [of PgStore] pg_store.open_prepared [OF assms 2] pg_store.verify_ok [OF ok 2]
      by (simp add: payload_store_for_placement_def open_verified_def store_placement_def verify_row_def)
  qed
qed

lemma verify_native_head_body_ok: "body_ok r \<Longrightarrow> verify_native_head_body r = Inr (pb_bytes r)"
  using ref_store.verify_ok [of r] pg_store.verify_ok [of r]
  by (auto simp: verify_native_head_body_def body_ok_def)

end
