(* ===== verification/Ledger.thy ===== *)
theory Ledger
  imports BodyStore Uri
begin

text \<open>
  The native Resource/Revision ledger: the tables of migration 048 (with 057 and 107) and the statements of
  \<^verbatim>\<open>backend/app/repositories/native_revision_repo.py\<close> on them. A statement that a constraint of the
  schema rejects is an error; the deferred foreign keys are checked at commit, so they are part of the
  ledger's invariant instead, which every publication is shown to restore.

  Times are numbers. The columns the delivery worker fills on an invalidation intent are left out.
\<close>

section \<open>Tables\<close>

record resource_row =
  nr_id :: uuid
  nr_ns :: uuid
  nr_surface :: string
  nr_profile :: string
  nr_path :: string
  nr_lifecycle :: string
  nr_head :: "string option"
  nr_created :: nat
  nr_updated :: nat

record manifest_row =
  nm_id :: uuid
  nm_ns :: uuid
  nm_resource :: uuid
  nm_profile :: string
  nm_digest :: string
  nm_size :: nat
  nm_encoding :: string
  nm_placement :: string
  nm_locator :: uuid
  nm_verification :: string
  nm_created :: nat

record revision_row =
  nv_id :: string
  nv_ns :: uuid
  nv_resource :: uuid
  nv_parent :: "string option"
  nv_action :: string
  nv_path :: string
  nv_from :: "string option"
  nv_to :: "string option"
  nv_manifest :: "uuid option"
  nv_mutation :: uuid
  nv_fingerprint :: string
  nv_message :: "string option"
  nv_subject :: "string option"
  nv_summary :: "string option"
  nv_actor :: string
  nv_at :: nat
  nv_activity :: uuid
  nv_intent :: uuid

record activity_row =
  na_id :: uuid
  na_ns :: uuid
  na_resource :: uuid
  na_revision :: string
  na_action :: string
  na_actor :: string
  na_subject :: "string option"
  na_summary :: "string option"
  na_from :: "string option"
  na_to :: "string option"
  na_at :: nat

record intent_row =
  ni_id :: uuid
  ni_ns :: uuid
  ni_resource :: uuid
  ni_revision :: string
  ni_reason :: string
  ni_delivery :: "string option"
  ni_at :: nat

record alias_row =
  al_id :: uuid
  al_ns :: uuid
  al_surface :: string
  al_path :: string
  al_resource :: uuid
  al_created_by :: string
  al_retired_by :: "string option"
  al_created :: nat
  al_retired :: "nat option"

text \<open>
  The attachment tables: the columns of \<^verbatim>\<open>vault_files\<close> a claim reads and writes, the live references
  of native documents (rows of \<^verbatim>\<open>document_asset_refs\<close> whose \<open>native_document_id\<close> is set) and the
  retained manifests of past revisions.
\<close>

record file_row =
  vf_id :: uuid
  vf_vault :: uuid
  vf_kind :: string
  vf_state :: string
  vf_verified :: "nat option"
  vf_claimed :: "nat option"
  vf_updated :: nat

record live_ref =
  dr_document :: uuid
  dr_vault :: uuid
  dr_asset :: uuid

record revision_ref =
  rr_vault :: uuid
  rr_path :: string
  rr_commit :: string
  rr_asset :: uuid
  rr_until :: nat

record ledger =
  l_cat :: db
  l_bodies :: "body_row list"
  l_resources :: "resource_row list"
  l_manifests :: "manifest_row list"
  l_revisions :: "revision_row list"
  l_activity :: "activity_row list"
  l_intents :: "intent_row list"
  l_aliases :: "alias_row list"
  l_files :: "file_row list"
  l_live_refs :: "live_ref list"
  l_revision_refs :: "revision_ref list"

section \<open>Lookups\<close>

definition find_mutation :: "uuid \<Rightarrow> uuid \<Rightarrow> ledger \<Rightarrow> revision_row option" where
  "find_mutation ns mid L = find (\<lambda>r. nv_ns r = ns \<and> nv_mutation r = mid) (l_revisions L)"

definition find_live_path :: "uuid \<Rightarrow> string \<Rightarrow> ledger \<Rightarrow> resource_row option" where
  "find_live_path ns path L =
     find (\<lambda>r. nr_ns r = ns \<and> nr_path r = path \<and> nr_lifecycle r = ''live'') (l_resources L)"

definition find_live_alias :: "uuid \<Rightarrow> string \<Rightarrow> ledger \<Rightarrow> alias_row option" where
  "find_live_alias ns old_path L =
     find (\<lambda>a. al_ns a = ns \<and> al_path a = old_path \<and> al_retired_by a = None) (l_aliases L)"

definition lock_resource :: "uuid \<Rightarrow> ledger \<Rightarrow> resource_row option" where
  "lock_resource rid L = tab_get nr_id rid (l_resources L)"

text \<open>The \<open>EXISTS\<close> of the path query, and its \<open>ORDER BY (current_path = $3) DESC LIMIT 1\<close>.\<close>

definition has_live_alias :: "string \<Rightarrow> ledger \<Rightarrow> resource_row \<Rightarrow> bool" where
  "has_live_alias path L r =
     list_ex (\<lambda>a. al_ns a = nr_ns r \<and> al_surface a = nr_surface r \<and> al_resource a = nr_id r
                  \<and> al_path a = path \<and> al_retired_by a = None) (l_aliases L)"

definition path_candidate :: "uuid \<Rightarrow> string \<Rightarrow> string \<Rightarrow> ledger \<Rightarrow> resource_row option" where
  "path_candidate ns surface reference L =
     (let live = filter (\<lambda>r. nr_ns r = ns \<and> nr_surface r = surface \<and> nr_lifecycle r = ''live'') (l_resources L)
      in case find (\<lambda>r. nr_path r = reference) live of
           Some r \<Rightarrow> Some r
         | None \<Rightarrow> find (\<lambda>r. nr_path r \<noteq> reference \<and> has_live_alias reference L r) live)"

definition resolve_live_reference :: "uuid \<Rightarrow> string \<Rightarrow> string \<Rightarrow> ledger \<Rightarrow> resource_row option result" where
  "resolve_live_reference ns surface reference L =
     (let identity_candidate =
            (case parse_uuid reference of None \<Rightarrow> None
             | Some rid \<Rightarrow> find (\<lambda>r. nr_ns r = ns \<and> nr_surface r = surface \<and> nr_id r = rid
                                      \<and> nr_lifecycle r = ''live'') (l_resources L));
          path_cand = path_candidate ns surface reference L
      in case (identity_candidate, path_cand) of
           (Some i, Some p) \<Rightarrow> if nr_id i \<noteq> nr_id p then Inl (Conflict ''ambiguous reference'') else Inr (Some i)
         | (Some i, None) \<Rightarrow> Inr (Some i)
         | (None, p) \<Rightarrow> Inr p)"

section \<open>Inserts and updates\<close>

definition blank :: "string \<Rightarrow> bool" where
  "blank s \<longleftrightarrow> strip_by (\<lambda>c. c = CHR '' '') s = ''''"

definition hex_chars :: "string \<Rightarrow> bool" where
  "hex_chars s = list_all (\<lambda>c. c \<in> set ''0123456789abcdef'') s"

definition insert_resource ::
  "uuid \<Rightarrow> uuid \<Rightarrow> string \<Rightarrow> string \<Rightarrow> string \<Rightarrow> nat \<Rightarrow> ledger \<Rightarrow> ledger result" where
  "insert_resource rid ns surface profile path at L =
     (if surface \<notin> {''document'', ''file''} \<or> blank path
      then Inl (DbIntegrity ''native_resources_check'')
      else if tab_get nr_id rid (l_resources L) \<noteq> None then Inl (DbIntegrity ''native_resources_pkey'')
      else if find_live_path ns path L \<noteq> None then Inl (DbIntegrity ''uq_native_resources_live_path'')
      else if vault_by_id (l_cat L) ns = None then Inl (DbIntegrity ''native_resources_namespace'')
      else Inr (L\<lparr>l_resources := l_resources L @
             [\<lparr>nr_id = rid, nr_ns = ns, nr_surface = surface, nr_profile = profile, nr_path = path,
               nr_lifecycle = ''live'', nr_head = None, nr_created = at, nr_updated = at\<rparr>]\<rparr>))"

definition resource_in :: "uuid \<Rightarrow> uuid \<Rightarrow> ledger \<Rightarrow> bool" where
  "resource_in ns rid L = (case lock_resource rid L of None \<Rightarrow> False | Some r \<Rightarrow> nr_ns r = ns)"

definition add_manifest :: "manifest_row \<Rightarrow> ledger \<Rightarrow> ledger result" where
  "add_manifest m L =
     (if length (nm_digest m) \<noteq> 64 \<or> \<not> hex_chars (nm_digest m)
      then Inl (DbIntegrity ''native_payload_manifests_check'')
      else if tab_get nm_id (nm_id m) (l_manifests L) \<noteq> None then Inl (DbIntegrity ''native_payload_manifests_pkey'')
      else if \<not> resource_in (nm_ns m) (nm_resource m) L
      then Inl (DbIntegrity ''native_payload_manifests_resource_fkey'')
      else Inr (L\<lparr>l_manifests := l_manifests L @ [m]\<rparr>))"

definition insert_manifest :: "uuid \<Rightarrow> uuid \<Rightarrow> uuid \<Rightarrow> prepared \<Rightarrow> nat \<Rightarrow> ledger \<Rightarrow> ledger result" where
  "insert_manifest mid ns rid payload at =
     add_manifest \<lparr>nm_id = mid, nm_ns = ns, nm_resource = rid, nm_profile = pp_profile payload,
       nm_digest = pp_digest payload, nm_size = pp_size payload, nm_encoding = pp_encoding payload,
       nm_placement = pp_placement payload, nm_locator = pp_id payload,
       nm_verification = pp_verification payload, nm_created = at\<rparr>"

definition copy_manifest :: "uuid \<Rightarrow> uuid \<Rightarrow> uuid \<Rightarrow> nat \<Rightarrow> ledger \<Rightarrow> ledger result" where
  "copy_manifest source mid rid at L =
     rbind (of_option (PyRuntimeError ''payload manifest is missing'') (tab_get nm_id source (l_manifests L)))
       (\<lambda>m. add_manifest (m\<lparr>nm_id := mid, nm_resource := rid, nm_created := at\<rparr>) L)"

text \<open>The \<open>CHECK\<close> constraints of the revision table.\<close>

definition action_shape :: "revision_row \<Rightarrow> bool" where
  "action_shape r \<longleftrightarrow>
     nv_action r = ''create'' \<and> nv_parent r = None \<and> nv_manifest r \<noteq> None \<and> nv_from r = None
       \<and> nv_to r = Some (nv_path r)
   \<or> nv_action r = ''replace'' \<and> nv_parent r \<noteq> None \<and> nv_manifest r \<noteq> None \<and> nv_from r = None \<and> nv_to r = None
   \<or> nv_action r = ''move'' \<and> nv_parent r \<noteq> None \<and> nv_manifest r \<noteq> None \<and> nv_from r \<noteq> None
       \<and> nv_to r = Some (nv_path r) \<and> nv_from r \<noteq> nv_to r
   \<or> nv_action r = ''delete'' \<and> nv_parent r \<noteq> None \<and> nv_manifest r = None \<and> nv_from r = None \<and> nv_to r = None"

definition revision_check :: "revision_row \<Rightarrow> bool" where
  "revision_check r \<longleftrightarrow> length (nv_id r) = 40 \<and> hex_chars (nv_id r)
     \<and> \<not> blank (nv_path r)
     \<and> length (nv_fingerprint r) = 64 \<and> hex_chars (nv_fingerprint r) \<and> action_shape r"

definition insert_revision :: "revision_row \<Rightarrow> ledger \<Rightarrow> ledger result" where
  "insert_revision r L =
     (if \<not> revision_check r then Inl (DbIntegrity ''native_revisions_check'')
      else if list_ex (\<lambda>x. nv_id x = nv_id r) (l_revisions L) then Inl (Conflict ''revision id collision'')
      else if list_ex (\<lambda>x. nv_ns x = nv_ns r \<and> nv_mutation x = nv_mutation r) (l_revisions L)
      then Inl (DbIntegrity ''native_revisions_namespace_mutation_key'')
      else if list_ex (\<lambda>x. nv_activity x = nv_activity r) (l_revisions L)
      then Inl (DbIntegrity ''native_revisions_activity_key'')
      else if list_ex (\<lambda>x. nv_intent x = nv_intent r) (l_revisions L)
      then Inl (DbIntegrity ''native_revisions_intent_key'')
      else if nv_manifest r \<noteq> None \<and> list_ex (\<lambda>x. nv_manifest x = nv_manifest r) (l_revisions L)
      then Inl (DbIntegrity ''native_revisions_manifest_key'')
      else if \<not> resource_in (nv_ns r) (nv_resource r) L then Inl (DbIntegrity ''native_revisions_resource_fkey'')
      else Inr (L\<lparr>l_revisions := l_revisions L @ [r]\<rparr>))"

text \<open>
  \<open>set_head\<close>, with the unique index on live paths and the trigger of migration 107, which drops the live
  image references of a document that stops being live.
\<close>

definition set_head :: "uuid \<Rightarrow> string \<Rightarrow> string \<Rightarrow> string \<Rightarrow> nat \<Rightarrow> ledger \<Rightarrow> ledger result" where
  "set_head rid revision path lifecycle at L =
     (case lock_resource rid L of
        None \<Rightarrow> Inr L
      | Some r \<Rightarrow>
          if blank path then Inl (DbIntegrity ''native_resources_check'')
          else if lifecycle = ''live'' \<and>
             list_ex (\<lambda>x. nr_id x \<noteq> rid \<and> nr_ns x = nr_ns r \<and> nr_path x = path \<and> nr_lifecycle x = ''live'')
               (l_resources L)
          then Inl (DbIntegrity ''uq_native_resources_live_path'')
          else Inr (L\<lparr>l_resources := tab_update nr_id rid
                       (\<lambda>r. r\<lparr>nr_head := Some revision, nr_path := path, nr_lifecycle := lifecycle,
                               nr_updated := at\<rparr>) (l_resources L),
                     l_live_refs :=
                       (if nr_surface r = ''document'' \<and> lifecycle \<noteq> ''live''
                        then filter (\<lambda>x. \<not> (dr_vault x = nr_ns r \<and> dr_document x = rid)) (l_live_refs L)
                        else l_live_refs L)\<rparr>))"

definition insert_activity :: "activity_row \<Rightarrow> ledger \<Rightarrow> ledger result" where
  "insert_activity a L =
     (if list_ex (\<lambda>x. na_id x = na_id a \<or> na_revision x = na_revision a) (l_activity L)
      then Inl (DbIntegrity ''native_revision_activity_key'')
      else Inr (L\<lparr>l_activity := l_activity L @ [a]\<rparr>))"

definition insert_invalidation_intent :: "intent_row \<Rightarrow> ledger \<Rightarrow> ledger result" where
  "insert_invalidation_intent i L =
     (if list_ex (\<lambda>x. ni_id x = ni_id i \<or> ni_revision x = ni_revision i) (l_intents L)
      then Inl (DbIntegrity ''native_invalidation_intents_key'')
      else Inr (L\<lparr>l_intents := l_intents L @ [i]\<rparr>))"

definition insert_path_alias ::
  "uuid \<Rightarrow> uuid \<Rightarrow> string \<Rightarrow> string \<Rightarrow> uuid \<Rightarrow> string \<Rightarrow> nat \<Rightarrow> ledger \<Rightarrow> ledger result" where
  "insert_path_alias aid ns surface old_path rid created_by at L =
     (if blank old_path then Inl (DbIntegrity ''native_resource_path_aliases_check'')
      else if list_ex (\<lambda>a. al_id a = aid) (l_aliases L) then Inl (DbIntegrity ''native_resource_path_aliases_pkey'')
      else if find_live_alias ns old_path L \<noteq> None then Inl (DbIntegrity ''uq_native_resource_path_aliases_live'')
      else if \<not> list_ex (\<lambda>r. nr_ns r = ns \<and> nr_surface r = surface \<and> nr_id r = rid) (l_resources L)
      then Inl (DbIntegrity ''native_resource_path_aliases_resource_fkey'')
      else Inr (L\<lparr>l_aliases := l_aliases L @
             [\<lparr>al_id = aid, al_ns = ns, al_surface = surface, al_path = old_path, al_resource = rid,
               al_created_by = created_by, al_retired_by = None, al_created = at, al_retired = None\<rparr>]\<rparr>))"

definition retire :: "(alias_row \<Rightarrow> bool) \<Rightarrow> string \<Rightarrow> nat \<Rightarrow> ledger \<Rightarrow> ledger" where
  "retire P by at L =
     L\<lparr>l_aliases := map (\<lambda>a. if P a \<and> al_retired_by a = None
                             then a\<lparr>al_retired_by := Some by, al_retired := Some at\<rparr> else a) (l_aliases L)\<rparr>"

definition retire_live_alias :: "uuid \<Rightarrow> string \<Rightarrow> string \<Rightarrow> nat \<Rightarrow> ledger \<Rightarrow> ledger" where
  "retire_live_alias ns old_path = retire (\<lambda>a. al_ns a = ns \<and> al_path a = old_path)"

definition retire_resource_aliases :: "uuid \<Rightarrow> string \<Rightarrow> uuid \<Rightarrow> string \<Rightarrow> nat \<Rightarrow> ledger \<Rightarrow> ledger" where
  "retire_resource_aliases ns surface rid =
     retire (\<lambda>a. al_ns a = ns \<and> al_surface a = surface \<and> al_resource a = rid)"

section \<open>Reads\<close>

text \<open>A revision joined to its resource and, by a left join, to its payload manifest.\<close>

record joined_row =
  jr_resource :: resource_row
  jr_revision :: revision_row
  jr_manifest :: "manifest_row option"

definition manifest_of :: "revision_row \<Rightarrow> ledger \<Rightarrow> manifest_row option" where
  "manifest_of v L = (case nv_manifest v of None \<Rightarrow> None | Some m \<Rightarrow> tab_get nm_id m (l_manifests L))"

definition join_head :: "ledger \<Rightarrow> resource_row \<Rightarrow> joined_row option" where
  "join_head L r =
     map_option (\<lambda>v. \<lparr>jr_resource = r, jr_revision = v, jr_manifest = manifest_of v L\<rparr>)
       (find (\<lambda>v. nv_resource v = nr_id r \<and> nr_head r = Some (nv_id v)) (l_revisions L))"

definition get_current_row :: "uuid \<Rightarrow> string \<Rightarrow> string \<Rightarrow> ledger \<Rightarrow> joined_row option" where
  "get_current_row ns surface path L =
     (case find (\<lambda>r. nr_ns r = ns \<and> nr_surface r = surface \<and> nr_path r = path \<and> nr_lifecycle r = ''live'')
             (l_resources L) of
        None \<Rightarrow> None
      | Some r \<Rightarrow> join_head L r)"

definition get_resource_head :: "uuid \<Rightarrow> ledger \<Rightarrow> joined_row option" where
  "get_resource_head rid L = (case lock_resource rid L of None \<Rightarrow> None | Some r \<Rightarrow> join_head L r)"

text \<open>
  A full id is matched exactly and 7 to 39 hex digits as a prefix (there is no \<open>LIKE\<close> metacharacter among
  them); two matches on one resource are ambiguous.
\<close>

definition selects :: "string \<Rightarrow> string \<Rightarrow> bool" where
  "selects selector rev_id =
     (if length selector = 40 \<and> hex_chars selector then rev_id = selector
      else if 7 \<le> length selector \<and> length selector < 40 \<and> hex_chars selector then starts_with rev_id selector
      else False)"

definition get_revision_row :: "uuid \<Rightarrow> string \<Rightarrow> ledger \<Rightarrow> joined_row option result" where
  "get_revision_row rid selector L =
     (case lock_resource rid L of
        None \<Rightarrow> Inr None
      | Some r \<Rightarrow>
          (case filter (\<lambda>v. nv_resource v = rid \<and> selects selector (nv_id v)) (l_revisions L) of
             [] \<Rightarrow> Inr None
           | [v] \<Rightarrow> Inr (Some \<lparr>jr_resource = r, jr_revision = v, jr_manifest = manifest_of v L\<rparr>)
           | _ \<Rightarrow> Inl (Conflict ''ambiguous revision selector'')))"

text \<open>
  The recursive query of \<open>list_history\<close>: the head at distance 0, then parents while the next distance is
  below the limit (so a limit below 1 still returns the head).
\<close>

fun ancestors :: "nat \<Rightarrow> revision_row list \<Rightarrow> uuid \<Rightarrow> string option \<Rightarrow> revision_row list" where
  "ancestors 0 revs rid parent = []"
| "ancestors (Suc n) revs rid parent =
     (case parent of
        None \<Rightarrow> []
      | Some p \<Rightarrow>
          (case find (\<lambda>v. nv_resource v = rid \<and> nv_id v = p) revs of
             None \<Rightarrow> []
           | Some v \<Rightarrow> v # ancestors n revs rid (nv_parent v)))"

definition list_history_rows :: "uuid \<Rightarrow> int \<Rightarrow> ledger \<Rightarrow> revision_row list" where
  "list_history_rows rid limit L =
     (case lock_resource rid L of
        None \<Rightarrow> []
      | Some r \<Rightarrow> ancestors (Suc (nat (limit - 1))) (l_revisions L) rid (nr_head r))"

text \<open>
  \<open>list_activity\<close>: the events of a namespace and surface, newest first; a path filter takes the events
  whose path before, at or after the revision is the path or lies below it (\<open>LIKE $4 || '/%'\<close>).
\<close>

definition like_below :: "string \<Rightarrow> string \<Rightarrow> bool" where
  "like_below path p = like_match (path @ ''/%'') p"

definition activity_on_path :: "string \<Rightarrow> activity_row \<Rightarrow> revision_row \<Rightarrow> bool" where
  "activity_on_path path a r =
     list_ex (\<lambda>p. p = path \<or> like_below path p)
       (nv_path r # [p. Some p \<leftarrow> [na_from a, na_to a]])"

definition list_activity ::
  "uuid \<Rightarrow> string \<Rightarrow> nat \<Rightarrow> nat option \<Rightarrow> string option \<Rightarrow> ledger \<Rightarrow> (activity_row \<times> string) list" where
  "list_activity ns surface limit since path L =
     take limit (rev (sort_key (\<lambda>(a, p). (na_at a, na_revision a))
       [(a, nv_path r).
          a \<leftarrow> l_activity L, na_ns a = ns, (case since of None \<Rightarrow> True | Some t \<Rightarrow> t \<le> na_at a),
          r \<leftarrow> l_revisions L, nv_id r = na_revision a,
          (case path of None \<Rightarrow> True | Some p \<Rightarrow> activity_on_path p a r),
          rs \<leftarrow> l_resources L, nr_ns rs = ns, nr_id rs = na_resource a, nr_surface rs = surface]))"

definition get_activity_for_revision ::
  "uuid \<Rightarrow> string \<Rightarrow> uuid \<Rightarrow> string \<Rightarrow> ledger \<Rightarrow> (activity_row \<times> string) option" where
  "get_activity_for_revision ns surface rid rev_id L =
     (case [(a, nv_path r).
          a \<leftarrow> l_activity L, na_ns a = ns, na_resource a = rid, na_revision a = rev_id,
          r \<leftarrow> l_revisions L, nv_ns r = ns, nv_resource r = rid, nv_id r = rev_id,
          rs \<leftarrow> l_resources L, nr_ns rs = ns, nr_id rs = rid, nr_surface rs = surface] of
        [] \<Rightarrow> None | x # _ \<Rightarrow> Some x)"

text \<open>
  The recent documents of a user: the live heads of the vaults the user may see, newest first. The
  subscriptions (user, resource, vault) of \<open>watching\<close> are rows of a table the ledger does not have.
\<close>

record recent_head =
  rh_resource :: uuid
  rh_path :: string
  rh_revision :: string
  rh_updated :: nat
  rh_vault :: string
  rh_manifest :: manifest_row
  rh_bytes :: "nat list"

definition recent_visible :: "uuid option \<Rightarrow> string option \<Rightarrow> bool \<Rightarrow> db \<Rightarrow> vault_row \<Rightarrow> bool" where
  "recent_visible user vault watching d v \<longleftrightarrow>
     vault \<noteq> None \<and> \<not> watching
     \<or> user \<noteq> None \<and> v_owner v = user
     \<or> list_ex (\<lambda>a. a_vault a = v_id v \<and> user = Some (a_user a)) (access d)
     \<or> v_public v \<in> {''reader'', ''writer''}"

definition list_recent_document_heads ::
  "uuid option \<Rightarrow> string option \<Rightarrow> nat \<Rightarrow> bool \<Rightarrow> (nat \<times> uuid) option \<Rightarrow> (uuid \<times> uuid \<times> uuid) list \<Rightarrow> ledger
   \<Rightarrow> recent_head list" where
  "list_recent_document_heads user vault limit watching before subscriptions L =
     take limit (rev (sort_key (\<lambda>h. (rh_updated h, rh_resource h))
       [\<lparr>rh_resource = nr_id rs, rh_path = nr_path rs, rh_revision = nv_id rv, rh_updated = nr_updated rs,
         rh_vault = v_name v, rh_manifest = pm, rh_bytes = pb_bytes b\<rparr>.
          rs \<leftarrow> l_resources L, nr_surface rs = ''document'', nr_lifecycle rs = ''live'',
          v \<leftarrow> vaults (l_cat L), v_id v = nr_ns rs, expected_matches vault (v_name v),
          recent_visible user vault watching (l_cat L) v,
          (case before of None \<Rightarrow> True
           | Some (t, i) \<Rightarrow> nr_updated rs < t \<or> nr_updated rs = t \<and> nr_id rs < i),
          watching \<longrightarrow> list_ex (\<lambda>(u, r, w). user = Some u \<and> r = nr_id rs \<and> w = v_id v) subscriptions,
          rv \<leftarrow> l_revisions L, nv_resource rv = nr_id rs, nr_head rs = Some (nv_id rv),
          pm \<leftarrow> l_manifests L, nv_manifest rv = Some (nm_id pm),
          b \<leftarrow> l_bodies L, pb_id b = nm_locator pm]))"

text \<open>
  What a caller who named no vault gets belongs to a vault the caller owns, was granted or that is public.
\<close>

lemma recent_heads_visible:
  assumes "h \<in> set (list_recent_document_heads user None limit watching before subs L)"
  shows "\<exists>v\<in>set (vaults (l_cat L)). \<exists>rs\<in>set (l_resources L). v_id v = nr_ns rs \<and> nr_id rs = rh_resource h
     \<and> (user \<noteq> None \<and> v_owner v = user
        \<or> (\<exists>a\<in>set (access (l_cat L)). a_vault a = v_id v \<and> user = Some (a_user a))
        \<or> v_public v \<in> {''reader'', ''writer''})"
  using in_set_takeD [OF assms [unfolded list_recent_document_heads_def]]
  by (auto simp: recent_visible_def list_ex_iff split: if_splits; metis)

end
