(* ===== verification/LedgerAssets.thy ===== *)
theory LedgerAssets
  imports Ledger
begin

text \<open>
  The image references of documents inside a ledger transaction:
  \<^verbatim>\<open>backend/app/services/native_document_assets.py\<close> and the statements of
  \<^verbatim>\<open>backend/app/repositories/vault_files_repo.py\<close> it runs. Which image ids a Markdown body holds is
  decided by the front-matter and CommonMark libraries, so \<open>parse_images\<close> is an argument; it may raise.
  A set of ids is a list whose order does not matter.
\<close>

section \<open>Statements\<close>

definition confirmed_attachment :: "file_row \<Rightarrow> bool" where
  "confirmed_attachment f \<longleftrightarrow>
     vf_kind f = ''attachment'' \<and> vf_state f = ''confirmed'' \<and> vf_verified f \<noteq> None"

definition claim_attachment_references ::
  "uuid \<Rightarrow> uuid list \<Rightarrow> bool \<Rightarrow> nat \<Rightarrow> ledger \<Rightarrow> uuid list \<times> ledger" where
  "claim_attachment_references vault file_ids strict now L =
     (if file_ids = [] then ([], L)
      else let found = map vf_id (filter (\<lambda>f. vf_vault f = vault \<and> vf_id f \<in> set file_ids
                                              \<and> confirmed_attachment f) (l_files L))
           in if strict \<and> set found \<noteq> set file_ids then (found, L)
              else (found,
                    if found = [] then L
                    else L\<lparr>l_files := map (\<lambda>f. if vf_vault f = vault \<and> vf_id f \<in> set found
                           then f\<lparr>vf_claimed := (case vf_claimed f of None \<Rightarrow> Some now | c \<Rightarrow> c),
                                  vf_updated := now\<rparr> else f) (l_files L)\<rparr>))"

definition claim_document_asset_ids ::
  "uuid \<Rightarrow> uuid list \<Rightarrow> bool \<Rightarrow> nat \<Rightarrow> ledger \<Rightarrow> (uuid list \<times> ledger) result" where
  "claim_document_asset_ids vault asset_ids strict now L =
     (let (found, L) = claim_attachment_references vault asset_ids strict now L
      in if strict \<and> set found \<noteq> set asset_ids then Inl (Validation ''unavailable image'')
         else Inr (found, L))"

definition revision_ref_key :: "revision_ref \<Rightarrow> uuid \<times> string \<times> string \<times> uuid" where
  "revision_ref_key r = (rr_vault r, rr_path r, rr_commit r, rr_asset r)"

definition file_in :: "uuid \<Rightarrow> ledger \<Rightarrow> uuid \<Rightarrow> bool" where
  "file_in vault L asset = list_ex (\<lambda>f. vf_id f = asset \<and> vf_vault f = vault) (l_files L)"

text \<open>\<open>INSERT .. ON CONFLICT DO UPDATE SET retain_until = GREATEST(..)\<close>, one row per asset.\<close>

definition keep_longest :: "revision_ref \<Rightarrow> revision_ref \<Rightarrow> revision_ref" where
  "keep_longest new old = old\<lparr>rr_until := max (rr_until old) (rr_until new)\<rparr>"

definition upsert_revision_refs ::
  "uuid \<Rightarrow> string \<Rightarrow> string \<Rightarrow> uuid list \<Rightarrow> nat \<Rightarrow> ledger \<Rightarrow> ledger result" where
  "upsert_revision_refs vault path commit assets until L =
     (if \<not> list_all (file_in vault L) assets then Inl (DbIntegrity ''document_asset_revision_refs_asset_fk'')
      else Inr (L\<lparr>l_revision_refs := foldl (\<lambda>rows a. tab_upsert revision_ref_key keep_longest
             \<lparr>rr_vault = vault, rr_path = path, rr_commit = commit, rr_asset = a, rr_until = until\<rparr> rows)
             (l_revision_refs L) assets\<rparr>))"

definition retain_document_asset_ids ::
  "uuid \<Rightarrow> string \<Rightarrow> string \<Rightarrow> uuid list \<Rightarrow> nat \<Rightarrow> ledger \<Rightarrow> ledger result" where
  "retain_document_asset_ids vault path commit assets until L =
     (if assets = [] then Inr L else upsert_revision_refs vault path commit assets until L)"

text \<open>The native arm: the owner is a document resource of the vault.\<close>

definition sync_document_asset_references ::
  "uuid \<Rightarrow> uuid \<Rightarrow> string \<Rightarrow> string \<Rightarrow> uuid list \<Rightarrow> nat \<Rightarrow> string option \<Rightarrow> string option \<Rightarrow> ledger
   \<Rightarrow> ledger result" where
  "sync_document_asset_references vault document path commit assets until previous_commit previous_path L =
     rbind (case previous_commit of
              None \<Rightarrow> Inr L
            | Some c \<Rightarrow>
                if c = '''' then Inr L
                else upsert_revision_refs vault (case previous_path of None \<Rightarrow> path | Some p \<Rightarrow> if p = '''' then path else p) c
                       (map dr_asset (filter (\<lambda>r. dr_document r = document \<and> dr_vault r = vault) (l_live_refs L)))
                       until L) (\<lambda>L.
     let kept = filter (\<lambda>r. \<not> (dr_document r = document \<and> dr_vault r = vault \<and> dr_asset r \<notin> set assets))
                  (l_live_refs L)
     in if assets = [] then Inr (L\<lparr>l_live_refs := kept\<rparr>)
        else if \<not> (list_ex (\<lambda>r. nr_id r = document \<and> nr_ns r = vault \<and> nr_surface r = ''document'') (l_resources L)
                   \<and> list_all (file_in vault L) assets)
        then Inl (DbIntegrity ''document_asset_refs_fk'')
        else upsert_revision_refs vault path commit assets until
               (L\<lparr>l_live_refs := foldl (\<lambda>rows a.
                    if list_ex (\<lambda>r. dr_document r = document \<and> dr_asset r = a) rows then rows
                    else rows @ [\<lparr>dr_document = document, dr_vault = vault, dr_asset = a\<rparr>]) kept assets\<rparr>))"

section \<open>The projection\<close>

definition image_ids :: "(nat list \<Rightarrow> uuid list result) \<Rightarrow> text_payload \<Rightarrow> uuid list result" where
  "image_ids parse_images payload = parse_images (payload_bytes payload)"

definition locked_head_image_ids :: "(nat list \<Rightarrow> uuid list result) \<Rightarrow> uuid \<Rightarrow> ledger \<Rightarrow> uuid list result" where
  "locked_head_image_ids parse_images rid L =
     (case get_resource_head rid L of
        None \<Rightarrow> Inl (PyRuntimeError ''head has no payload'')
      | Some head \<Rightarrow>
          (case jr_manifest head of
             None \<Rightarrow> Inl (PyRuntimeError ''head has no payload'')
           | Some m \<Rightarrow>
               rbind (of_option (PyRuntimeError ''document payload is missing'')
                        (tab_get pb_id (nm_locator m) (l_bodies L))) (\<lambda>payload.
               rbind (verify_native_head_body payload) (\<lambda>canonical.
               rbind (require (pb_ns payload = nr_ns (jr_resource head) \<and> pb_digest payload = nm_digest m
                               \<and> pb_size payload = nm_size m \<and> pb_encoding payload = nm_encoding m
                               \<and> pb_placement payload = nm_placement m
                               \<and> pb_verification payload = nm_verification m
                               \<and> sha256_bytes canonical = nm_digest m)
                        (PyRuntimeError ''payload does not match its head'')) (\<lambda>_.
               parse_images canonical)))))"

text \<open>\<open>previous\<close> is the previous image set and revision, with the path that revision had.\<close>

definition publish_assets ::
  "uuid \<Rightarrow> uuid \<Rightarrow> string \<Rightarrow> string \<Rightarrow> uuid list \<Rightarrow> uuid list \<Rightarrow> string option \<Rightarrow> string option \<Rightarrow> bool
   \<Rightarrow> nat \<Rightarrow> nat \<Rightarrow> ledger \<Rightarrow> ledger result" where
  "publish_assets ns rid path revision asset_ids previous_ids previous_revision previous_path allow_unavailable
     now until L =
     rbind (claim_document_asset_ids ns (asset_ids @ filter (\<lambda>a. a \<notin> set asset_ids) previous_ids) False now L)
       (\<lambda>(found, L).
     let required = (if allow_unavailable then [] else filter (\<lambda>a. a \<notin> set previous_ids) asset_ids) in
     rbind (require (set required \<subseteq> set found) (Validation ''unavailable image'')) (\<lambda>_.
     rbind (case previous_revision of
              None \<Rightarrow> Inr L
            | Some c \<Rightarrow> retain_document_asset_ids ns (case previous_path of None \<Rightarrow> path | Some p \<Rightarrow> if p = '''' then path else p)
                          c (filter (\<lambda>a. a \<in> set previous_ids) found) until L) (\<lambda>L.
     sync_document_asset_references ns rid path revision (filter (\<lambda>a. a \<in> set asset_ids) found) until None None L)))"

definition retain_for_delete ::
  "uuid \<Rightarrow> string \<Rightarrow> string \<Rightarrow> uuid list \<Rightarrow> nat \<Rightarrow> nat \<Rightarrow> ledger \<Rightarrow> ledger result" where
  "retain_for_delete ns path revision asset_ids now until L =
     rbind (claim_document_asset_ids ns asset_ids False now L) (\<lambda>(found, L).
     retain_document_asset_ids ns path revision found until L)"

section \<open>The projection touches its own tables only\<close>

definition same_ledger :: "ledger \<Rightarrow> ledger \<Rightarrow> bool" where
  "same_ledger L L' \<longleftrightarrow>
     l_cat L' = l_cat L \<and> l_bodies L' = l_bodies L \<and> l_resources L' = l_resources L
     \<and> l_manifests L' = l_manifests L \<and> l_revisions L' = l_revisions L \<and> l_activity L' = l_activity L
     \<and> l_intents L' = l_intents L \<and> l_aliases L' = l_aliases L"

lemma same_ledger_trans: "same_ledger L L' \<Longrightarrow> same_ledger L' L'' \<Longrightarrow> same_ledger L L''"
  by (simp add: same_ledger_def)

lemma same_ledger_refl [simp]: "same_ledger L L"
  by (simp add: same_ledger_def)

lemma claim_same: "claim_document_asset_ids v ids s now L = Inr (found, L') \<Longrightarrow> same_ledger L L'"
  by (auto simp: claim_document_asset_ids_def claim_attachment_references_def Let_def same_ledger_def
      split: if_splits)

lemma upsert_refs_same: "upsert_revision_refs v p c a u L = Inr L' \<Longrightarrow> same_ledger L L'"
  by (auto simp: upsert_revision_refs_def same_ledger_def split: if_splits)

lemma retain_same: "retain_document_asset_ids v p c a u L = Inr L' \<Longrightarrow> same_ledger L L'"
  by (auto simp: retain_document_asset_ids_def dest: upsert_refs_same split: if_splits)

lemma sync_refs_same:
  "sync_document_asset_references v d p c a u pc pp L = Inr L' \<Longrightarrow> same_ledger L L'"
  by (fastforce simp: sync_document_asset_references_def result_iff Let_def same_ledger_def
      dest!: upsert_refs_same split: option.splits if_splits)

lemma publish_assets_same:
  assumes "publish_assets ns rid path rev_id ids prev pr pp allow now until L = Inr L'"
  shows "same_ledger L L'"
  using assms by (auto simp: publish_assets_def result_iff Let_def split: option.splits
      dest!: claim_same retain_same sync_refs_same intro: same_ledger_trans) (meson same_ledger_trans)+

lemma retain_for_delete_same:
  assumes "retain_for_delete ns path rev_id ids now until L = Inr L'"
  shows "same_ledger L L'"
  using assms by (auto simp: retain_for_delete_def result_iff dest!: claim_same retain_same
      intro: same_ledger_trans)

end
