(* ===== verification/LedgerService.thy ===== *)
theory LedgerService
  imports LedgerAssets
begin

text \<open>
  The publication of one mutation as one transaction:
  \<^verbatim>\<open>backend/app/services/native_revision_service.py\<close>. A \<open>_publish_\<close> function is the transaction it runs,
  on the ledger \<open>L\<close> it finds once it holds its locks. What it read before, while it could still be waiting,
  is a separate argument: \<open>pre\<close> is the ledger in which it drew the revision id, \<open>seen\<close> the one in which it
  first resolved the reference. Random and clock values are the record \<open>fresh\<close>.

  The public operations store the body first, in a transaction of its own, so they return the ledger in
  every case: a refused publication leaves the prepared body behind. The fail points are a test hook that
  production leaves unset and are not modelled; the \<open>isinstance\<close> checks of UUID arguments are types here.
\<close>

section \<open>Requests, results and random values\<close>

record request =
  rq_ns :: uuid
  rq_surface :: string
  rq_path :: string
  rq_actor :: string
  rq_mutation :: uuid
  rq_message :: "string option"
  rq_subject :: "string option"
  rq_summary :: "string option"

record fresh =
  fr_tokens :: "string list"
  fr_body :: uuid
  fr_resource :: uuid
  fr_manifest :: uuid
  fr_activity :: uuid
  fr_intent :: uuid
  fr_alias :: uuid
  fr_now :: nat
  fr_until :: nat

record mutation_result =
  mr_resource :: uuid
  mr_revision :: string
  mr_parent :: "string option"
  mr_action :: string
  mr_path :: string
  mr_manifest :: "uuid option"
  mr_at :: nat
  mr_replay :: bool

definition from_row :: "revision_row \<Rightarrow> bool \<Rightarrow> mutation_result" where
  "from_row v replay =
     \<lparr>mr_resource = nv_resource v, mr_revision = nv_id v, mr_parent = nv_parent v, mr_action = nv_action v,
      mr_path = nv_path v, mr_manifest = nv_manifest v, mr_at = nv_at v, mr_replay = replay\<rparr>"

section \<open>Validation\<close>

definition validate_common :: "request \<Rightarrow> unit result" where
  "validate_common rq =
     rbind (require (rq_surface rq \<in> {''document'', ''file''}) (Validation ''surface'')) (\<lambda>_.
     rbind (require (py_strip (rq_path rq) \<noteq> '''') (Validation ''path'')) (\<lambda>_.
     require (py_strip (rq_actor rq) \<noteq> '''') (Validation ''actor'')))"

definition validate_expected_revision :: "string option \<Rightarrow> unit result" where
  "validate_expected_revision expected =
     (case expected of None \<Rightarrow> Inr ()
      | Some e \<Rightarrow> require (length e = 40 \<and> hex_chars e) (Validation ''expected revision''))"

definition validate_revision_selector :: "string \<Rightarrow> unit result" where
  "validate_revision_selector selector =
     require (7 \<le> length selector \<and> length selector \<le> 40 \<and> hex_chars selector) (Validation ''revision selector'')"

section \<open>Request fingerprints\<close>

text \<open>
  \<open>json.dumps(.., ensure_ascii=False, separators=(",", ":"), sort_keys=True)\<close> of the objects the
  fingerprints use.
\<close>

definition json_char :: "char \<Rightarrow> string" where
  "json_char c =
     (let n = of_char c :: nat in
      if c = CHR 0x22 then [CHR 0x5C, CHR 0x22]
      else if c = CHR 0x5C then [CHR 0x5C, CHR 0x5C]
      else if n = 10 then [CHR 0x5C, CHR ''n'']
      else if n = 13 then [CHR 0x5C, CHR ''r'']
      else if n = 9 then [CHR 0x5C, CHR ''t'']
      else if n = 12 then [CHR 0x5C, CHR ''f'']
      else if n = 8 then [CHR 0x5C, CHR ''b'']
      else if n < 32 then [CHR 0x5C, CHR ''u''] @ hex_fixed 4 n
      else [c])"

definition json_string :: "string \<Rightarrow> string" where
  "json_string s = CHR 0x22 # concat (map json_char s) @ [CHR 0x22]"

fun json_dumps :: "json \<Rightarrow> string" where
  "json_dumps JNull = ''null''"
| "json_dumps (JBool b) = (if b then ''true'' else ''false'')"
| "json_dumps (JInt i) = int_str i"
| "json_dumps (JStr s) = json_string s"
| "json_dumps (JArr xs) = ''['' @ py_join '','' (map json_dumps xs) @ '']''"
| "json_dumps (JObj kvs) =
     ''{'' @ py_join '','' (map snd (sort_key fst (map (\<lambda>kv. (fst kv, json_string (fst kv) @ '':'' @ json_dumps (snd kv))) kvs)))
     @ ''}''"

definition opt_uuid :: "uuid option \<Rightarrow> json" where
  "opt_uuid u = json_opt_str (map_option uuid_str u)"

definition fingerprint ::
  "string \<Rightarrow> request \<Rightarrow> prepared \<Rightarrow> string option \<Rightarrow> uuid option \<Rightarrow> uuid option \<Rightarrow> bool \<Rightarrow> string" where
  "fingerprint action rq payload expected_revision requested_resource expected_resource allow_unavailable =
     sha256_hex (json_dumps (JObj (
       [(''action'', JStr action), (''namespace_id'', JStr (uuid_str (rq_ns rq))),
        (''surface'', JStr (rq_surface rq)), (''path'', JStr (rq_path rq)),
        (''payload_digest'', JStr (pp_digest payload)), (''payload_size'', JInt (int (pp_size payload))),
        (''expected_revision_id'', json_opt_str expected_revision), (''actor'', JStr (rq_actor rq)),
        (''message'', json_opt_str (rq_message rq)), (''subject'', json_opt_str (rq_subject rq)),
        (''summary'', json_opt_str (rq_summary rq)),
        (''requested_resource_id'', opt_uuid requested_resource),
        (''expected_resource_id'', opt_uuid expected_resource)]
       @ (if allow_unavailable then [(''allow_unavailable_asset_refs'', JBool True)] else []))))"

definition lifecycle_fingerprint ::
  "string \<Rightarrow> request \<Rightarrow> string option \<Rightarrow> string option \<Rightarrow> uuid option \<Rightarrow> bool \<Rightarrow> string" where
  "lifecycle_fingerprint action rq path_to expected_revision expected_resource retain_assets =
     sha256_hex (json_dumps (JObj (
       [(''action'', JStr action), (''namespace_id'', JStr (uuid_str (rq_ns rq))),
        (''surface'', JStr (rq_surface rq)), (''path'', JStr (rq_path rq)), (''path_to'', json_opt_str path_to),
        (''expected_revision_id'', json_opt_str expected_revision), (''actor'', JStr (rq_actor rq)),
        (''message'', json_opt_str (rq_message rq)), (''subject'', json_opt_str (rq_subject rq)),
        (''summary'', json_opt_str (rq_summary rq)),
        (''expected_resource_id'', opt_uuid expected_resource)]
       @ (if retain_assets then [] else [(''retain_document_assets'', JBool False)]))))"

section \<open>Steps the publications share\<close>

text \<open>The three draws of \<open>_allocate_revision_id\<close>.\<close>

definition allocate_revision_id :: "string list \<Rightarrow> ledger \<Rightarrow> string result" where
  "allocate_revision_id draws L =
     of_option (Conflict ''unable to allocate a revision id'')
       (find (\<lambda>t. \<not> list_ex (\<lambda>r. nv_id r = t) (l_revisions L)) (take 3 draws))"

definition emit_document_change ::
  "string \<Rightarrow> string \<Rightarrow> uuid \<Rightarrow> uuid \<Rightarrow> string \<Rightarrow> string \<Rightarrow> string option \<Rightarrow> string \<Rightarrow> string option
   \<Rightarrow> string option \<Rightarrow> string option \<Rightarrow> ledger \<Rightarrow> ledger" where
  "emit_document_change kind surface ns rid path revision parent actor old_path previous_status status L =
     (if surface \<noteq> ''document'' then L
      else let vault = map_option v_name (vault_by_id (l_cat L) ns);
               name = (case vault of None \<Rightarrow> ''None'' | Some n \<Rightarrow> n);
               payload =
                 [(''vault'', json_opt_str vault), (''path'', JStr path),
                  (''collection'', JStr (fst (rsplit_slash path))), (''resource_id'', JStr (uuid_str rid)),
                  (''revision_id'', JStr revision), (''commit_hash'', JStr revision),
                  (''previous_commit'', json_opt_str parent)]
                 @ (case old_path of None \<Rightarrow> []
                    | Some p \<Rightarrow> [(''old_path'', JStr p), (''old_uri'', JStr (doc_uri name p)),
                                 (''old_collection'', JStr (fst (rsplit_slash p)))])
                 @ (if kind = ''document.update''
                    then [(''previous_status'', json_opt_str previous_status), (''status'', json_opt_str status)]
                    else [])
           in L\<lparr>l_cat := emit_event kind (Some ns) (Some (doc_uri name path)) (Some actor) payload (l_cat L)\<rparr>)"

definition lock_live_reference ::
  "uuid \<Rightarrow> string \<Rightarrow> string \<Rightarrow> uuid option \<Rightarrow> ledger \<Rightarrow> ledger \<Rightarrow> resource_row result" where
  "lock_live_reference ns surface reference expected_resource seen L =
     rbind (resolve_live_reference ns surface reference seen) (\<lambda>resolved.
     rbind (of_option (NotFound ''Native Resource'') resolved) (\<lambda>resolved.
     rbind (require (expected_matches expected_resource (nr_id resolved))
              (Conflict ''reference resolves to another resource'')) (\<lambda>_.
     rbind (of_option (NotFound ''Native Resource'') (lock_resource (nr_id resolved) L)) (\<lambda>resource.
     rbind (require (nr_lifecycle resource = ''live'') (NotFound ''Native Resource'')) (\<lambda>_.
     rbind (resolve_live_reference ns surface reference L) (\<lambda>confirmed.
     rbind (of_option (NotFound ''Native Resource'') confirmed) (\<lambda>confirmed.
     rbind (require (nr_id confirmed = nr_id resource)
              (Conflict ''reference changed while mutation waited'')) (\<lambda>_.
     Inr resource))))))))"

text \<open>The \<open>except asyncpg.UniqueViolationError\<close> clause of a publication.\<close>

definition unique_violation :: "string list \<Rightarrow> api_error \<Rightarrow> 'a result \<Rightarrow> 'a result" where
  "unique_violation names err r =
     (case r of Inl (DbIntegrity n) \<Rightarrow> if n \<in> set names then Inl err else r | _ \<Rightarrow> r)"

text \<open>The idempotency check every publication starts with, under the lock of the mutation id.\<close>

definition replay_or ::
  "uuid \<Rightarrow> uuid \<Rightarrow> string \<Rightarrow> ledger \<Rightarrow> (mutation_result \<times> ledger) result \<Rightarrow> (mutation_result \<times> ledger) result" where
  "replay_or ns mutation fp L fresh_mutation =
     (case find_mutation ns mutation L of
        Some prior \<Rightarrow>
          if nv_fingerprint prior \<noteq> fp then Inl (Conflict ''idempotency key reused'')
          else Inr (from_row prior True, L)
      | None \<Rightarrow> fresh_mutation)"

definition new_revision ::
  "request \<Rightarrow> fresh \<Rightarrow> string \<Rightarrow> uuid \<Rightarrow> string option \<Rightarrow> string \<Rightarrow> string \<Rightarrow> string option \<Rightarrow> string option
   \<Rightarrow> uuid option \<Rightarrow> string \<Rightarrow> revision_row" where
  "new_revision rq fr rev_id rid parent action path path_from path_to manifest fp =
     \<lparr>nv_id = rev_id, nv_ns = rq_ns rq, nv_resource = rid, nv_parent = parent, nv_action = action,
      nv_path = path, nv_from = path_from, nv_to = path_to, nv_manifest = manifest,
      nv_mutation = rq_mutation rq, nv_fingerprint = fp, nv_message = rq_message rq,
      nv_subject = rq_subject rq, nv_summary = rq_summary rq, nv_actor = rq_actor rq, nv_at = fr_now fr,
      nv_activity = fr_activity fr, nv_intent = fr_intent fr\<rparr>"

text \<open>Every call of \<open>insert_activity\<close> and \<open>insert_invalidation_intent\<close> passes the facts of the revision.\<close>

definition activity_of :: "revision_row \<Rightarrow> activity_row" where
  "activity_of v =
     \<lparr>na_id = nv_activity v, na_ns = nv_ns v, na_resource = nv_resource v, na_revision = nv_id v,
      na_action = nv_action v, na_actor = nv_actor v, na_subject = nv_subject v, na_summary = nv_summary v,
      na_from = nv_from v, na_to = nv_to v, na_at = nv_at v\<rparr>"

definition intent_of :: "revision_row \<Rightarrow> intent_row" where
  "intent_of v =
     \<lparr>ni_id = nv_intent v, ni_ns = nv_ns v, ni_resource = nv_resource v, ni_revision = nv_id v,
      ni_reason = nv_action v, ni_delivery = None, ni_at = nv_at v\<rparr>"

section \<open>Publications\<close>

definition publish_create ::
  "request \<Rightarrow> prepared \<Rightarrow> string \<Rightarrow> uuid option \<Rightarrow> uuid list \<Rightarrow> bool \<Rightarrow> fresh \<Rightarrow> ledger \<Rightarrow> ledger
   \<Rightarrow> (mutation_result \<times> ledger) result" where
  "publish_create rq payload fp requested_resource asset_ids allow_unavailable fr pre L =
     (let ns = rq_ns rq; path = rq_path rq; surface = rq_surface rq; now = fr_now fr;
          rid = (case requested_resource of Some r \<Rightarrow> r | None \<Rightarrow> fr_resource fr)
      in rbind (allocate_revision_id (fr_tokens fr) pre) (\<lambda>rev_id.
         unique_violation [''uq_native_resources_live_path''] (Conflict ''path exists'') (
         replay_or ns (rq_mutation rq) fp L (
         rbind (require (find_live_path ns path L = None) (Conflict ''path exists'')) (\<lambda>_.
         let reused_alias = find_live_alias ns path L;
             v = new_revision rq fr rev_id rid None ''create'' path None (Some path) (Some (fr_manifest fr)) fp
         in
         rbind (insert_resource rid ns surface ''text'' path now L) (\<lambda>L.
         rbind (insert_manifest (fr_manifest fr) ns rid payload now L) (\<lambda>L.
         rbind (insert_revision v L) (\<lambda>L.
         rbind (set_head rid rev_id path ''live'' now L) (\<lambda>L.
         rbind (if surface = ''document''
                then publish_assets ns rid path rev_id asset_ids [] None None allow_unavailable now (fr_until fr) L
                else Inr L) (\<lambda>L.
         let L = (if reused_alias \<noteq> None then retire_live_alias ns path rev_id now L else L) in
         rbind (insert_activity (activity_of v) L) (\<lambda>L.
         let L = emit_document_change ''document.put'' surface ns rid path rev_id None (rq_actor rq)
                   None None None L in
         rbind (insert_invalidation_intent (intent_of v) L) (\<lambda>L.
         Inr (from_row v False, L)))))))))))))"

definition publish_replace ::
  "(nat list \<Rightarrow> uuid list result) \<Rightarrow> request \<Rightarrow> prepared \<Rightarrow> string \<Rightarrow> string option \<Rightarrow> uuid option \<Rightarrow> uuid list
   \<Rightarrow> string option \<Rightarrow> string option \<Rightarrow> fresh \<Rightarrow> ledger \<Rightarrow> ledger \<Rightarrow> ledger
   \<Rightarrow> (mutation_result \<times> ledger) result" where
  "publish_replace parse_images rq payload fp expected_revision expected_resource asset_ids previous_status status
     fr pre seen L =
     (let ns = rq_ns rq; surface = rq_surface rq; now = fr_now fr
      in rbind (allocate_revision_id (fr_tokens fr) pre) (\<lambda>rev_id.
         replay_or ns (rq_mutation rq) fp L (
         rbind (lock_live_reference ns surface (rq_path rq) expected_resource seen L) (\<lambda>resource.
         let rid = nr_id resource; current_path = nr_path resource; parent = nr_head resource;
             v = new_revision rq fr rev_id rid parent ''replace'' current_path None None (Some (fr_manifest fr)) fp
         in
         rbind (require (expected_revision = None \<or> expected_revision = parent) (Conflict ''revision conflict'')) (\<lambda>_.
         rbind (if surface = ''document'' then locked_head_image_ids parse_images rid L else Inr []) (\<lambda>previous_ids.
         rbind (insert_manifest (fr_manifest fr) ns rid payload now L) (\<lambda>L.
         rbind (insert_revision v L) (\<lambda>L.
         rbind (set_head rid rev_id current_path ''live'' now L) (\<lambda>L.
         rbind (if surface = ''document''
                then publish_assets ns rid current_path rev_id asset_ids previous_ids parent None False now (fr_until fr) L
                else Inr L) (\<lambda>L.
         rbind (insert_activity (activity_of v) L) (\<lambda>L.
         let L = emit_document_change ''document.update'' surface ns rid current_path rev_id parent (rq_actor rq)
                   None previous_status status L in
         rbind (insert_invalidation_intent (intent_of v) L) (\<lambda>L.
         Inr (from_row v False, L)))))))))))))"

definition publish_restore ::
  "request \<Rightarrow> prepared \<Rightarrow> string \<Rightarrow> string \<Rightarrow> uuid \<Rightarrow> uuid list \<Rightarrow> fresh \<Rightarrow> ledger \<Rightarrow> ledger
   \<Rightarrow> (mutation_result \<times> ledger) result" where
  "publish_restore rq payload fp expected_revision rid asset_ids fr pre L =
     (let ns = rq_ns rq; path = rq_path rq; surface = rq_surface rq; now = fr_now fr
      in rbind (allocate_revision_id (fr_tokens fr) pre) (\<lambda>rev_id.
         unique_violation [''uq_native_resources_live_path''] (Conflict ''path exists'') (
         replay_or ns (rq_mutation rq) fp L (
         rbind (of_option (NotFound ''Native Resource'') (lock_resource rid L)) (\<lambda>resource.
         rbind (require (nr_ns resource = ns \<and> nr_surface resource = surface) (NotFound ''Native Resource'')) (\<lambda>_.
         rbind (require (nr_lifecycle resource = ''deleted'') (Conflict ''not deleted'')) (\<lambda>_.
         rbind (require (nr_path resource = path) (Conflict ''restore path'')) (\<lambda>_.
         let parent = nr_head resource in
         rbind (require (parent = Some expected_revision) (Conflict ''revision conflict'')) (\<lambda>_.
         rbind (require (find_live_path ns path L = None) (Conflict ''path exists'')) (\<lambda>_.
         let reused_alias = find_live_alias ns path L;
             v = new_revision rq fr rev_id rid parent ''replace'' path None None (Some (fr_manifest fr)) fp
         in
         rbind (insert_manifest (fr_manifest fr) ns rid payload now L) (\<lambda>L.
         rbind (insert_revision v L) (\<lambda>L.
         rbind (set_head rid rev_id path ''live'' now L) (\<lambda>L.
         rbind (if surface = ''document''
                then publish_assets ns rid path rev_id asset_ids [] None None False now (fr_until fr) L
                else Inr L) (\<lambda>L.
         let L = (if reused_alias \<noteq> None then retire_live_alias ns path rev_id now L else L) in
         rbind (insert_activity (activity_of v) L) (\<lambda>L.
         let L = emit_document_change ''document.restore'' surface ns rid path rev_id parent (rq_actor rq)
                   None None None L in
         rbind (insert_invalidation_intent (intent_of v) L) (\<lambda>L.
         Inr (from_row v False, L)))))))))))))))))"

definition publish_move ::
  "(nat list \<Rightarrow> uuid list result) \<Rightarrow> request \<Rightarrow> string \<Rightarrow> string \<Rightarrow> string option \<Rightarrow> uuid option
   \<Rightarrow> fresh \<Rightarrow> ledger \<Rightarrow> ledger \<Rightarrow> ledger \<Rightarrow> (mutation_result \<times> ledger) result" where
  "publish_move parse_images rq path_to fp expected_revision expected_resource fr pre seen L =
     (let ns = rq_ns rq; surface = rq_surface rq; now = fr_now fr
      in rbind (allocate_revision_id (fr_tokens fr) pre) (\<lambda>rev_id.
         unique_violation [''uq_native_resources_live_path'', ''uq_native_resource_path_aliases_live'']
           (Conflict ''path exists'') (
         replay_or ns (rq_mutation rq) fp L (
         rbind (lock_live_reference ns surface (rq_path rq) expected_resource seen L) (\<lambda>resource.
         let rid = nr_id resource; old_path = nr_path resource; parent = nr_head resource in
         rbind (require (expected_revision = None \<or> expected_revision = parent) (Conflict ''revision conflict'')) (\<lambda>_.
         rbind (require (path_to \<noteq> old_path) (Validation ''no-op move'')) (\<lambda>_.
         rbind (require (case find_live_path ns path_to L of None \<Rightarrow> True | Some d \<Rightarrow> nr_id d = rid)
                  (Conflict ''path exists'')) (\<lambda>_.
         let destination_alias = find_live_alias ns path_to L in
         rbind (require (case destination_alias of None \<Rightarrow> True | Some a \<Rightarrow> al_resource a = rid)
                  (Conflict ''alias owns path'')) (\<lambda>_.
         rbind (of_option (PyRuntimeError ''head does not pin a manifest'')
                  (case get_resource_head rid L of None \<Rightarrow> None | Some h \<Rightarrow> jr_manifest h)) (\<lambda>source.
         rbind (if surface = ''document'' then locked_head_image_ids parse_images rid L else Inr []) (\<lambda>asset_ids.
         let v = new_revision rq fr rev_id rid parent ''move'' path_to (Some old_path) (Some path_to)
                   (Some (fr_manifest fr)) fp in
         rbind (copy_manifest (nm_id source) (fr_manifest fr) rid now L) (\<lambda>L.
         rbind (insert_revision v L) (\<lambda>L.
         rbind (set_head rid rev_id path_to ''live'' now L) (\<lambda>L.
         let L = (if destination_alias \<noteq> None then retire_live_alias ns path_to rev_id now L else L) in
         rbind (insert_path_alias (fr_alias fr) ns surface old_path rid rev_id now L) (\<lambda>L.
         rbind (if surface = ''document''
                then publish_assets ns rid path_to rev_id asset_ids asset_ids parent (Some old_path) False now (fr_until fr) L
                else Inr L) (\<lambda>L.
         rbind (insert_activity (activity_of v) L) (\<lambda>L.
         let L = emit_document_change ''document.move'' surface ns rid path_to rev_id parent (rq_actor rq)
                   (Some old_path) None None L in
         rbind (insert_invalidation_intent (intent_of v) L) (\<lambda>L.
         Inr (from_row v False, L)))))))))))))))))))"

definition publish_delete ::
  "(nat list \<Rightarrow> uuid list result) \<Rightarrow> request \<Rightarrow> string \<Rightarrow> string option \<Rightarrow> uuid option \<Rightarrow> bool
   \<Rightarrow> fresh \<Rightarrow> ledger \<Rightarrow> ledger \<Rightarrow> ledger \<Rightarrow> (mutation_result \<times> ledger) result" where
  "publish_delete parse_images rq fp expected_revision expected_resource retain_assets fr pre seen L =
     (let ns = rq_ns rq; surface = rq_surface rq; now = fr_now fr
      in rbind (allocate_revision_id (fr_tokens fr) pre) (\<lambda>rev_id.
         replay_or ns (rq_mutation rq) fp L (
         rbind (lock_live_reference ns surface (rq_path rq) expected_resource seen L) (\<lambda>resource.
         let rid = nr_id resource; current_path = nr_path resource; parent = nr_head resource;
             v = new_revision rq fr rev_id rid parent ''delete'' current_path None None None fp
         in
         rbind (require (expected_revision = None \<or> expected_revision = parent) (Conflict ''revision conflict'')) (\<lambda>_.
         rbind (insert_revision v L) (\<lambda>L.
         rbind (if surface = ''document'' \<and> retain_assets
                then rbind (locked_head_image_ids parse_images rid L) (\<lambda>asset_ids.
                     rbind (of_option (DbIntegrity ''commit_hash'') parent) (\<lambda>commit.
                     retain_for_delete ns current_path commit asset_ids now (fr_until fr) L))
                else Inr L) (\<lambda>L.
         rbind (set_head rid rev_id current_path ''deleted'' now L) (\<lambda>L.
         let L = retire_resource_aliases ns surface rid rev_id now L in
         rbind (insert_activity (activity_of v) L) (\<lambda>L.
         let L = emit_document_change ''document.delete'' surface ns rid current_path rev_id parent (rq_actor rq)
                   None None None L in
         rbind (insert_invalidation_intent (intent_of v) L) (\<lambda>L.
         Inr (from_row v False, L)))))))))))"

end
