(* ===== verification/LedgerInv.thy ===== *)
theory LedgerInv
  imports LedgerService
begin

text \<open>
  The invariant of the ledger and its preservation. A publication is characterised once and for all by
  \<open>published\<close>: one revision is appended, one resource row becomes its head, one activity row and one
  invalidation intent are written, and aliases change as the operation says.
\<close>

section \<open>What each statement does\<close>

lemma unique_violation_Inr [result_iff]: "unique_violation ns e r = Inr x \<longleftrightarrow> r = Inr x"
  by (auto simp: unique_violation_def split: sum.splits api_error.splits)

lemma insert_resource_Inr:
  "insert_resource rid ns s p path at L = Inr L' \<Longrightarrow>
     tab_get nr_id rid (l_resources L) = None \<and> find_live_path ns path L = None
     \<and> vault_by_id (l_cat L) ns \<noteq> None \<and> s \<in> {''document'', ''file''}
     \<and> L' = L\<lparr>l_resources := l_resources L @
           [\<lparr>nr_id = rid, nr_ns = ns, nr_surface = s, nr_profile = p, nr_path = path,
             nr_lifecycle = ''live'', nr_head = None, nr_created = at, nr_updated = at\<rparr>]\<rparr>"
  by (auto simp: insert_resource_def split: if_splits)

lemma add_manifest_Inr:
  "add_manifest m L = Inr L' \<Longrightarrow> tab_get nm_id (nm_id m) (l_manifests L) = None
     \<and> resource_in (nm_ns m) (nm_resource m) L \<and> L' = L\<lparr>l_manifests := l_manifests L @ [m]\<rparr>"
  by (auto simp: add_manifest_def split: if_splits)

definition revision_new :: "revision_row \<Rightarrow> ledger \<Rightarrow> bool" where
  "revision_new r L \<longleftrightarrow>
     revision_check r \<and> nv_id r \<notin> nv_id ` set (l_revisions L)
     \<and> (nv_ns r, nv_mutation r) \<notin> (\<lambda>x. (nv_ns x, nv_mutation x)) ` set (l_revisions L)
     \<and> nv_activity r \<notin> nv_activity ` set (l_revisions L) \<and> nv_intent r \<notin> nv_intent ` set (l_revisions L)
     \<and> (nv_manifest r \<noteq> None \<longrightarrow> nv_manifest r \<notin> nv_manifest ` set (l_revisions L))"

lemma insert_revision_Inr:
  "insert_revision r L = Inr L' \<Longrightarrow>
     revision_new r L \<and> resource_in (nv_ns r) (nv_resource r) L \<and> L' = L\<lparr>l_revisions := l_revisions L @ [r]\<rparr>"
  by (auto simp: insert_revision_def revision_new_def list_ex_iff image_iff split: if_splits)

lemma set_head_Inr:
  "set_head rid rev_id path lc at L = Inr L' \<Longrightarrow> lock_resource rid L = Some r \<Longrightarrow>
     \<exists>refs. L' = L\<lparr>l_resources := tab_update nr_id rid
                  (\<lambda>r. r\<lparr>nr_head := Some rev_id, nr_path := path, nr_lifecycle := lc, nr_updated := at\<rparr>)
                  (l_resources L), l_live_refs := refs\<rparr>"
  by (rule exI [of _ "l_live_refs L'"]) (auto simp: set_head_def split: if_splits)

lemma set_head_live:
  "set_head rid rev_id path ''live'' at L = Inr L' \<Longrightarrow> lock_resource rid L = Some r \<Longrightarrow>
   x \<in> set (l_resources L) \<Longrightarrow> nr_ns x = nr_ns r \<Longrightarrow> nr_path x = path \<Longrightarrow> nr_lifecycle x = ''live'' \<Longrightarrow>
   nr_id x = rid"
  by (auto simp: set_head_def list_ex_iff split: if_splits)

lemma insert_activity_Inr:
  "insert_activity a L = Inr L' \<Longrightarrow> L' = L\<lparr>l_activity := l_activity L @ [a]\<rparr>"
  by (auto simp: insert_activity_def split: if_splits)

lemma insert_intent_Inr:
  "insert_invalidation_intent i L = Inr L' \<Longrightarrow> L' = L\<lparr>l_intents := l_intents L @ [i]\<rparr>"
  by (auto simp: insert_invalidation_intent_def split: if_splits)

lemma insert_path_alias_Inr:
  "insert_path_alias aid ns s p rid by_rev at L = Inr L' \<Longrightarrow>
     aid \<notin> al_id ` set (l_aliases L) \<and> find_live_alias ns p L = None
     \<and> L' = L\<lparr>l_aliases := l_aliases L @
           [\<lparr>al_id = aid, al_ns = ns, al_surface = s, al_path = p, al_resource = rid,
             al_created_by = by_rev, al_retired_by = None, al_created = at, al_retired = None\<rparr>]\<rparr>"
  by (auto simp: insert_path_alias_def list_ex_iff image_iff split: if_splits)

lemma emit_document_change_ledger:
  "\<exists>ev. emit_document_change k s ns rid p rv par a o_p ps st L =
     L\<lparr>l_cat := (l_cat L)\<lparr>events := events (l_cat L) @ ev\<rparr>\<rparr> \<and> length ev = (if s = ''document'' then 1 else 0)"
proof (cases "s = ''document''")
  case True
  then show ?thesis
    by (auto simp: emit_document_change_def Let_def emit_event_def intro!: exI [of _ "[_]"])
next
  case False
  then show ?thesis by (simp add: emit_document_change_def)
qed

section \<open>The effect of a publication\<close>

definition put_resource :: "resource_row \<Rightarrow> resource_row list \<Rightarrow> resource_row list" where
  "put_resource row = tab_upsert nr_id (\<lambda>new old. new) row"

interpretation resource_table: unique_table nr_id "\<lambda>new old. new"
  by unfold_locales simp

interpretation revision_ref_table: unique_table revision_ref_key keep_longest
  by unfold_locales (simp add: keep_longest_def revision_ref_key_def)

record effect =
  ef_revision :: revision_row
  ef_row :: resource_row
  ef_manifests :: "manifest_row list"
  ef_aliases :: "alias_row list"

definition published :: "effect \<Rightarrow> ledger \<Rightarrow> ledger \<Rightarrow> bool" where
  "published e L L' \<longleftrightarrow>
     l_bodies L' = l_bodies L
     \<and> (\<exists>ev. l_cat L' = (l_cat L)\<lparr>events := events (l_cat L) @ ev\<rparr>
             \<and> length ev = (if nr_surface (ef_row e) = ''document'' then 1 else 0))
     \<and> l_resources L' = put_resource (ef_row e) (l_resources L)
     \<and> l_manifests L' = l_manifests L @ ef_manifests e
     \<and> l_revisions L' = l_revisions L @ [ef_revision e]
     \<and> l_activity L' = l_activity L @ [activity_of (ef_revision e)]
     \<and> l_intents L' = l_intents L @ [intent_of (ef_revision e)]
     \<and> l_aliases L' = ef_aliases e
     \<and> revision_new (ef_revision e) L"

text \<open>The rows a publication at head \<open>parent\<close> of \<open>resource\<close> writes.\<close>

definition head_row :: "resource_row \<Rightarrow> revision_row \<Rightarrow> string \<Rightarrow> resource_row" where
  "head_row r v lifecycle =
     r\<lparr>nr_head := Some (nv_id v), nr_path := nv_path v, nr_lifecycle := lifecycle, nr_updated := nv_at v\<rparr>"

definition manifest_for :: "prepared \<Rightarrow> revision_row \<Rightarrow> uuid \<Rightarrow> manifest_row" where
  "manifest_for payload v m =
     \<lparr>nm_id = m, nm_ns = nv_ns v, nm_resource = nv_resource v, nm_profile = pp_profile payload,
      nm_digest = pp_digest payload, nm_size = pp_size payload, nm_encoding = pp_encoding payload,
      nm_placement = pp_placement payload, nm_locator = pp_id payload,
      nm_verification = pp_verification payload, nm_created = nv_at v\<rparr>"

lemma tab_update_put:
  assumes "unique_by nr_id rows" and "tab_get nr_id rid rows = Some r" and "nr_id (f r) = rid"
  shows "tab_update nr_id rid f rows = put_resource (f r) rows"
proof -
  have "rid \<in> nr_id ` set rows" using assms(2) tab_get_Some by fastforce
  moreover have "x = r" if "x \<in> set rows" "nr_id x = rid" for x
    using that assms(1, 2) tab_get_unique by fastforce
  ultimately show ?thesis
    using assms(3) by (auto simp: put_resource_def tab_upsert_def tab_update_def tab_conflict_def)
qed

lemma put_resource_new:
  "nr_id row \<notin> nr_id ` set rows \<Longrightarrow> put_resource row rows = rows @ [row]"
  by (simp add: put_resource_def tab_upsert_def)

lemma tab_update_append_new:
  assumes "rid \<notin> nr_id ` set rows" and "nr_id r = rid" and "nr_id (f r) = rid"
  shows "tab_update nr_id rid f (rows @ [r]) = put_resource (f r) rows"
proof -
  have "map (\<lambda>r. if nr_id r = rid then f r else r) rows = rows"
    using assms(1) by (intro map_idI) auto
  then show ?thesis using assms by (simp add: put_resource_new tab_update_def)
qed


definition retired :: "(alias_row \<Rightarrow> bool) \<Rightarrow> string \<Rightarrow> nat \<Rightarrow> alias_row list \<Rightarrow> alias_row list" where
  "retired P by at as = map (\<lambda>a. if P a \<and> al_retired_by a = None
                             then a\<lparr>al_retired_by := Some by, al_retired := Some at\<rparr> else a) as"

lemma retire_retired: "retire P by at L = L\<lparr>l_aliases := retired P by at (l_aliases L)\<rparr>"
  by (simp add: retire_def retired_def)

lemma retired_none: "\<forall>a\<in>set as. P a \<longrightarrow> al_retired_by a \<noteq> None \<Longrightarrow> retired P by at as = as"
  unfolding retired_def by (intro map_idI) auto

lemma retired_ids: "al_id ` set (retired P by at as) = al_id ` set as"
proof -
  have "map al_id (retired P by at as) = map al_id as"
    by (induction as) (simp_all add: retired_def)
  then show ?thesis by (metis set_map)
qed

text \<open>Retiring the live alias of a path is the same whether or not there is one.\<close>

abbreviation retired_at :: "uuid \<Rightarrow> string \<Rightarrow> string \<Rightarrow> nat \<Rightarrow> alias_row list \<Rightarrow> alias_row list" where
  "retired_at ns path \<equiv> retired (\<lambda>a. al_ns a = ns \<and> al_path a = path)"

lemma retire_if_live:
  assumes "l_aliases L = l_aliases L0"
  shows "(if find_live_alias ns path L0 \<noteq> None then retire_live_alias ns path by at L else L) =
     L\<lparr>l_aliases := retired_at ns path by at (l_aliases L0)\<rparr>"
proof (cases "find_live_alias ns path L0")
  case None
  then have "retired_at ns path by at (l_aliases L0) = l_aliases L0"
    by (intro retired_none) (auto simp: find_live_alias_def find_None_iff)
  with None assms show ?thesis by simp
next
  case (Some a)
  then show ?thesis using assms by (simp add: retire_live_alias_def retire_retired)
qed

text \<open>The common tail: activity, event, intent.\<close>

definition committed :: "revision_row \<Rightarrow> bool \<Rightarrow> ledger \<Rightarrow> ledger \<Rightarrow> bool" where
  "committed v doc L L' \<longleftrightarrow>
     (\<exists>ev. L' = L\<lparr>l_activity := l_activity L @ [activity_of v], l_intents := l_intents L @ [intent_of v],
              l_cat := (l_cat L)\<lparr>events := events (l_cat L) @ ev\<rparr>\<rparr> \<and> length ev = (if doc then 1 else 0))"

lemma commit_tail:
  assumes "insert_activity (activity_of v) L = Inr L1"
    and "insert_invalidation_intent (intent_of v) (emit_document_change k s ns rid p rv par a o_p ps st L1) = Inr L'"
  shows "committed v (s = ''document'') L L'"
proof -
  obtain ev where ev: "emit_document_change k s ns rid p rv par a o_p ps st L1 =
      L1\<lparr>l_cat := (l_cat L1)\<lparr>events := events (l_cat L1) @ ev\<rparr>\<rparr>" "length ev = (if s = ''document'' then 1 else 0)"
    using emit_document_change_ledger by meson
  show ?thesis unfolding committed_def
    using insert_activity_Inr [OF assms(1)] insert_intent_Inr [OF assms(2)] ev
    by (intro exI [of _ ev]) simp
qed

text \<open>The asset step of a publication, run or not.\<close>

lemma asset_step_same:
  "(if c then publish_assets ns rid path rv ids prev pr pp allow now until L else Inr L) = Inr L' \<Longrightarrow>
   same_ledger L L'"
  by (auto dest: publish_assets_same split: if_splits)

lemma publish_create_effect:
  assumes "publish_create rq pp fp req ids allow fr pre L = Inr (m, L')"
    and "find_mutation (rq_ns rq) (rq_mutation rq) L = None"
  obtains rev_id rid v where "rid = (case req of Some r \<Rightarrow> r | None \<Rightarrow> fr_resource fr)"
    and "v = new_revision rq fr rev_id rid None ''create'' (rq_path rq) None (Some (rq_path rq))
               (Some (fr_manifest fr)) fp"
    and "m = from_row v False"
    and "find_live_path (rq_ns rq) (rq_path rq) L = None" and "rid \<notin> nr_id ` set (l_resources L)"
    and "rq_ns rq \<in> v_id ` set (vaults (l_cat L))" and "rq_surface rq \<in> {''document'', ''file''}"
    and "fr_manifest fr \<notin> nm_id ` set (l_manifests L)"
    and "published \<lparr>ef_revision = v,
           ef_row = \<lparr>nr_id = rid, nr_ns = rq_ns rq, nr_surface = rq_surface rq, nr_profile = ''text'',
             nr_path = rq_path rq, nr_lifecycle = ''live'', nr_head = Some rev_id, nr_created = fr_now fr,
             nr_updated = fr_now fr\<rparr>,
           ef_manifests = [manifest_for pp v (fr_manifest fr)],
           ef_aliases = retired_at (rq_ns rq) (rq_path rq) rev_id (fr_now fr) (l_aliases L)\<rparr> L L'"
proof -
  define rid where "rid = (case req of Some r \<Rightarrow> r | None \<Rightarrow> fr_resource fr)"
  define ns where "ns = rq_ns rq"
  define path where "path = rq_path rq"
  define now where "now = fr_now fr"
  from assms obtain rev_id v L1 L2 L3 L4 L5 L6 where
    v: "v = new_revision rq fr rev_id rid None ''create'' path None (Some path) (Some (fr_manifest fr)) fp"
    and free: "find_live_path ns path L = None"
    and 1: "insert_resource rid ns (rq_surface rq) ''text'' path now L = Inr L1"
    and 2: "insert_manifest (fr_manifest fr) ns rid pp now L1 = Inr L2"
    and 3: "insert_revision v L2 = Inr L3"
    and 4: "set_head rid rev_id path ''live'' now L3 = Inr L4"
    and 5: "(if rq_surface rq = ''document''
             then publish_assets ns rid path rev_id ids [] None None allow now (fr_until fr) L4 else Inr L4) = Inr L5"
    and 6: "insert_activity (activity_of v) (if find_live_alias ns path L \<noteq> None
              then retire_live_alias ns path rev_id now L5 else L5) = Inr L6"
    and 7: "insert_invalidation_intent (intent_of v) (emit_document_change ''document.put'' (rq_surface rq) ns rid path
               rev_id None (rq_actor rq) None None None L6) = Inr L'"
    and m: "m = from_row v False"
    unfolding publish_create_def replay_or_def Let_def rid_def [symmetric] ns_def [symmetric]
      path_def [symmetric] now_def [symmetric]
    by (auto simp: result_iff)
  note r1 = insert_resource_Inr [OF 1]
  note r2 = add_manifest_Inr [OF 2 [unfolded insert_manifest_def]]
  note r3 = insert_revision_Inr [OF 3]
  have fresh: "rid \<notin> nr_id ` set (l_resources L)" using r1 by (simp add: tab_get_None_iff)
  then have "lock_resource rid L3 = Some \<lparr>nr_id = rid, nr_ns = ns, nr_surface = rq_surface rq, nr_profile = ''text'',
      nr_path = path, nr_lifecycle = ''live'', nr_head = None, nr_created = now, nr_updated = now\<rparr>"
    using r1 r2 r3 by (simp add: lock_resource_def tab_get_append tab_get_Cons)
  from set_head_Inr [OF 4 this] obtain refs where r4: "L4 = L3\<lparr>l_resources := tab_update nr_id rid
      (\<lambda>r. r\<lparr>nr_head := Some rev_id, nr_path := path, nr_lifecycle := ''live'', nr_updated := now\<rparr>)
      (l_resources L3), l_live_refs := refs\<rparr>" by blast
  have r5: "same_ledger L4 L5" using asset_step_same [OF 5] .
  have al5: "l_aliases L5 = l_aliases L" using r1 r2 r3 r4 r5 by (simp add: same_ledger_def)
  have r7: "committed v (rq_surface rq = ''document'')
      (L5\<lparr>l_aliases := retired_at ns path rev_id now (l_aliases L)\<rparr>) L'"
    using commit_tail [OF 6 7] unfolding retire_if_live [OF al5] .
  have "published \<lparr>ef_revision = v, ef_row = \<lparr>nr_id = rid, nr_ns = ns, nr_surface = rq_surface rq,
      nr_profile = ''text'', nr_path = path, nr_lifecycle = ''live'', nr_head = Some rev_id, nr_created = now,
      nr_updated = now\<rparr>, ef_manifests = [manifest_for pp v (fr_manifest fr)],
      ef_aliases = retired_at ns path rev_id now (l_aliases L)\<rparr> L L'"
    using r1 r2 r3 r4 r5 r7 fresh tab_update_append_new [of rid "l_resources L"]
    by (auto simp: published_def committed_def same_ledger_def manifest_for_def revision_new_def v
        new_revision_def ns_def now_def)
  then show thesis
    using that [OF rid_def] v m free fresh r1 r2
    by (auto simp: ns_def path_def now_def tab_get_None_iff image_iff dest: tab_get_Some)
qed

section \<open>References\<close>

text \<open>The ways a reference names a live resource: its id, its path, or a live alias.\<close>

definition names :: "string \<Rightarrow> resource_row \<Rightarrow> ledger \<Rightarrow> bool" where
  "names reference r L \<longleftrightarrow>
     parse_uuid reference = Some (nr_id r) \<or> nr_path r = reference \<or> has_live_alias reference L r"

definition live_in :: "uuid \<Rightarrow> string \<Rightarrow> resource_row \<Rightarrow> ledger \<Rightarrow> bool" where
  "live_in ns surface r L \<longleftrightarrow>
     r \<in> set (l_resources L) \<and> nr_ns r = ns \<and> nr_surface r = surface \<and> nr_lifecycle r = ''live''"

lemma path_candidate_Some:
  "path_candidate ns s reference L = Some r \<Longrightarrow>
     live_in ns s r L \<and> (nr_path r = reference \<or> has_live_alias reference L r)"
  by (auto simp: path_candidate_def Let_def live_in_def split: option.splits dest!: find_Some_in)

lemma resolve_Some:
  "resolve_live_reference ns s reference L = Inr (Some r) \<Longrightarrow> live_in ns s r L \<and> names reference r L"
  by (auto simp: resolve_live_reference_def Let_def names_def live_in_def
      split: option.splits if_splits dest!: find_Some_in path_candidate_Some)

lemma lock_live_reference_Inr:
  assumes "lock_live_reference ns s reference er seen L = Inr r" and "unique_by nr_id (l_resources L)"
  shows "lock_resource (nr_id r) L = Some r" and "live_in ns s r L" and "names reference r L"
    and "resolve_live_reference ns s reference L = Inr (Some r)" and "expected_matches er (nr_id r)"
proof -
  from assms(1) obtain a c :: resource_row where a: "lock_resource (nr_id a) L = Some r" "expected_matches er (nr_id a)"
    and c: "resolve_live_reference ns s reference L = Inr (Some c)" "nr_id c = nr_id r"
    unfolding lock_live_reference_def by (auto simp: result_iff)
  have rr: "r \<in> set (l_resources L)" "nr_id r = nr_id a"
    using a(1) by (auto simp: lock_resource_def dest: tab_get_Some)
  have "c = r" using resolve_Some [OF c(1)] rr c(2) assms(2) unique_by_key_eq by (metis live_in_def)
  then show "lock_resource (nr_id r) L = Some r" "live_in ns s r L" "names reference r L"
    "resolve_live_reference ns s reference L = Inr (Some r)" "expected_matches er (nr_id r)"
    using a rr(2) c resolve_Some [OF c(1)] by simp_all
qed

lemma set_head_put:
  assumes "set_head rid rev_id path lc at L = Inr L'" and "lock_resource rid L = Some r"
    and "unique_by nr_id (l_resources L)"
  shows "\<exists>refs. L' = L\<lparr>l_resources := put_resource (r\<lparr>nr_head := Some rev_id, nr_path := path,
            nr_lifecycle := lc, nr_updated := at\<rparr>) (l_resources L), l_live_refs := refs\<rparr>"
proof -
  have g: "tab_get nr_id rid (l_resources L) = Some r" using assms(2) by (simp add: lock_resource_def)
  then have "nr_id (r\<lparr>nr_head := Some rev_id, nr_path := path, nr_lifecycle := lc, nr_updated := at\<rparr>) = rid"
    by (auto dest: tab_get_key)
  from tab_update_put [where f = "\<lambda>r. r\<lparr>nr_head := Some rev_id, nr_path := path, nr_lifecycle := lc, nr_updated := at\<rparr>",
      OF assms(3) g this]
  show ?thesis using set_head_Inr [OF assms(1, 2)] by simp
qed

lemma replace_effect:
  assumes "publish_replace parse rq pp fp ev er ids ps st fr pre seen L = Inr (m, L')"
    and "find_mutation (rq_ns rq) (rq_mutation rq) L = None" and "unique_by nr_id (l_resources L)"
  obtains rev_id r v where "lock_live_reference (rq_ns rq) (rq_surface rq) (rq_path rq) er seen L = Inr r"
    and "ev = None \<or> ev = nr_head r"
    and "v = new_revision rq fr rev_id (nr_id r) (nr_head r) ''replace'' (nr_path r) None None
               (Some (fr_manifest fr)) fp"
    and "m = from_row v False" and "fr_manifest fr \<notin> nm_id ` set (l_manifests L)"
    and "published \<lparr>ef_revision = v, ef_row = head_row r v ''live'',
           ef_manifests = [manifest_for pp v (fr_manifest fr)], ef_aliases = l_aliases L\<rparr> L L'"
proof -
  define ns where "ns = rq_ns rq"
  define now where "now = fr_now fr"
  from assms(1, 2) obtain rev_id r v prev L2 L3 L4 L5 L6 where
    v: "v = new_revision rq fr rev_id (nr_id r) (nr_head r) ''replace'' (nr_path r) None None (Some (fr_manifest fr)) fp"
    and r: "lock_live_reference ns (rq_surface rq) (rq_path rq) er seen L = Inr r"
    and ev: "ev = None \<or> ev = nr_head r"
    and 2: "insert_manifest (fr_manifest fr) ns (nr_id r) pp now L = Inr L2"
    and 3: "insert_revision v L2 = Inr L3"
    and 4: "set_head (nr_id r) rev_id (nr_path r) ''live'' now L3 = Inr L4"
    and 5: "(if rq_surface rq = ''document''
             then publish_assets ns (nr_id r) (nr_path r) rev_id ids prev (nr_head r) None False now (fr_until fr) L4
             else Inr L4) = Inr L5"
    and 6: "insert_activity (activity_of v) L5 = Inr L6"
    and 7: "insert_invalidation_intent (intent_of v) (emit_document_change ''document.update'' (rq_surface rq) ns (nr_id r)
               (nr_path r) rev_id (nr_head r) (rq_actor rq) None ps st L6) = Inr L'"
    and m: "m = from_row v False"
    unfolding publish_replace_def replay_or_def Let_def ns_def [symmetric] now_def [symmetric]
    by (auto simp: result_iff)
  note rr = lock_live_reference_Inr [OF r assms(3)]
  note r2 = add_manifest_Inr [OF 2 [unfolded insert_manifest_def]]
  note r3 = insert_revision_Inr [OF 3]
  have l3: "lock_resource (nr_id r) L3 = Some r" "unique_by nr_id (l_resources L3)"
    using rr(1) r2 r3 assms(3) by (simp_all add: lock_resource_def)
  from set_head_put [OF 4 l3] obtain refs where r4: "L4 = L3\<lparr>l_resources := put_resource
      (r\<lparr>nr_head := Some rev_id, nr_path := nr_path r, nr_lifecycle := ''live'', nr_updated := now\<rparr>)
      (l_resources L3), l_live_refs := refs\<rparr>" by blast
  have r5: "same_ledger L4 L5" using asset_step_same [OF 5] .
  note r7 = commit_tail [OF 6 7]
  have "published \<lparr>ef_revision = v, ef_row = head_row r v ''live'',
      ef_manifests = [manifest_for pp v (fr_manifest fr)], ef_aliases = l_aliases L\<rparr> L L'"
    using r2 r3 r4 r5 r7 rr(2)
    by (auto simp: published_def committed_def same_ledger_def manifest_for_def revision_new_def v
        new_revision_def ns_def now_def head_row_def live_in_def)
  then show thesis
    using that [of r v rev_id] r v ev m r2 by (simp add: ns_def tab_get_None_iff)
qed

lemma restore_effect:
  assumes "publish_restore rq pp fp ev rid ids fr pre L = Inr (m, L')"
    and "find_mutation (rq_ns rq) (rq_mutation rq) L = None" and "unique_by nr_id (l_resources L)"
  obtains rev_id r v where "lock_resource rid L = Some r" and "nr_ns r = rq_ns rq" and "nr_surface r = rq_surface rq"
    and "nr_lifecycle r = ''deleted''" and "nr_path r = rq_path rq" and "nr_head r = Some ev"
    and "find_live_path (rq_ns rq) (rq_path rq) L = None"
    and "v = new_revision rq fr rev_id rid (nr_head r) ''replace'' (nr_path r) None None (Some (fr_manifest fr)) fp"
    and "m = from_row v False" and "fr_manifest fr \<notin> nm_id ` set (l_manifests L)"
    and "published \<lparr>ef_revision = v, ef_row = head_row r v ''live'',
           ef_manifests = [manifest_for pp v (fr_manifest fr)],
           ef_aliases = retired_at (rq_ns rq) (rq_path rq) rev_id (fr_now fr) (l_aliases L)\<rparr> L L'"
proof -
  define ns where "ns = rq_ns rq"
  define path where "path = rq_path rq"
  define now where "now = fr_now fr"
  from assms(1, 2) obtain rev_id r v L2 L3 L4 L5 L6 where
    r: "lock_resource rid L = Some r" "nr_ns r = ns" "nr_surface r = rq_surface rq"
      "nr_lifecycle r = ''deleted''" "nr_path r = path" "nr_head r = Some ev"
    and free: "find_live_path ns path L = None"
    and v: "v = new_revision rq fr rev_id rid (nr_head r) ''replace'' path None None (Some (fr_manifest fr)) fp"
    and 2: "insert_manifest (fr_manifest fr) ns rid pp now L = Inr L2"
    and 3: "insert_revision v L2 = Inr L3"
    and 4: "set_head rid rev_id path ''live'' now L3 = Inr L4"
    and 5: "(if rq_surface rq = ''document''
             then publish_assets ns rid path rev_id ids [] None None False now (fr_until fr) L4 else Inr L4) = Inr L5"
    and 6: "insert_activity (activity_of v) (if find_live_alias ns path L \<noteq> None
              then retire_live_alias ns path rev_id now L5 else L5) = Inr L6"
    and 7: "insert_invalidation_intent (intent_of v) (emit_document_change ''document.restore'' (rq_surface rq) ns rid
               path rev_id (nr_head r) (rq_actor rq) None None None L6) = Inr L'"
    and m: "m = from_row v False"
    unfolding publish_restore_def replay_or_def Let_def ns_def [symmetric] path_def [symmetric] now_def [symmetric]
    by (auto simp: result_iff)
  note r2 = add_manifest_Inr [OF 2 [unfolded insert_manifest_def]]
  note r3 = insert_revision_Inr [OF 3]
  have l3: "lock_resource rid L3 = Some r" "unique_by nr_id (l_resources L3)"
    using r(1) r2 r3 assms(3) by (simp_all add: lock_resource_def)
  have rid: "nr_id r = rid" using r(1) by (auto simp: lock_resource_def dest: tab_get_key)
  from set_head_put [OF 4 l3] obtain refs where r4: "L4 = L3\<lparr>l_resources := put_resource
      (r\<lparr>nr_head := Some rev_id, nr_path := path, nr_lifecycle := ''live'', nr_updated := now\<rparr>)
      (l_resources L3), l_live_refs := refs\<rparr>" by blast
  have r5: "same_ledger L4 L5" using asset_step_same [OF 5] .
  have al5: "l_aliases L5 = l_aliases L" using r2 r3 r4 r5 by (simp add: same_ledger_def)
  have r7: "committed v (rq_surface rq = ''document'')
      (L5\<lparr>l_aliases := retired_at ns path rev_id now (l_aliases L)\<rparr>) L'"
    using commit_tail [OF 6 7] unfolding retire_if_live [OF al5] .
  have "published \<lparr>ef_revision = v, ef_row = head_row r v ''live'',
      ef_manifests = [manifest_for pp v (fr_manifest fr)],
      ef_aliases = retired_at ns path rev_id now (l_aliases L)\<rparr> L L'"
    using r2 r3 r4 r5 r7 r(3) rid
    by (auto simp: published_def committed_def same_ledger_def manifest_for_def revision_new_def v
        new_revision_def ns_def now_def head_row_def)
  then show thesis
    using that [of r v rev_id] r free v m r2 by (simp add: ns_def path_def now_def tab_get_None_iff)
qed

lemma move_effect:
  assumes "publish_move parse rq path_to fp ev er fr pre seen L = Inr (m, L')"
    and "find_mutation (rq_ns rq) (rq_mutation rq) L = None" and "unique_by nr_id (l_resources L)"
  obtains rev_id r v h source where "lock_live_reference (rq_ns rq) (rq_surface rq) (rq_path rq) er seen L = Inr r"
    and "ev = None \<or> ev = nr_head r" and "path_to \<noteq> nr_path r"
    and "\<And>d. find_live_path (rq_ns rq) path_to L = Some d \<Longrightarrow> nr_id d = nr_id r"
    and "\<And>a. find_live_alias (rq_ns rq) path_to L = Some a \<Longrightarrow> al_resource a = nr_id r"
    and "get_resource_head (nr_id r) L = Some h" and "jr_manifest h = Some source"
    and "v = new_revision rq fr rev_id (nr_id r) (nr_head r) ''move'' path_to (Some (nr_path r)) (Some path_to)
               (Some (fr_manifest fr)) fp"
    and "m = from_row v False" and "fr_manifest fr \<notin> nm_id ` set (l_manifests L)"
    and "fr_alias fr \<notin> al_id ` set (l_aliases L)"
    and "published \<lparr>ef_revision = v, ef_row = head_row r v ''live'',
           ef_manifests = [source\<lparr>nm_id := fr_manifest fr, nm_resource := nr_id r, nm_created := fr_now fr\<rparr>],
           ef_aliases = retired_at (rq_ns rq) path_to rev_id (fr_now fr) (l_aliases L) @
             [\<lparr>al_id = fr_alias fr, al_ns = rq_ns rq, al_surface = rq_surface rq, al_path = nr_path r,
               al_resource = nr_id r, al_created_by = rev_id, al_retired_by = None, al_created = fr_now fr,
               al_retired = None\<rparr>]\<rparr> L L'"
proof -
  define ns where "ns = rq_ns rq"
  define now where "now = fr_now fr"
  from assms(1, 2) obtain rev_id r v source ids L2 L3 L4 L5 L5' L6 where
    r: "lock_live_reference ns (rq_surface rq) (rq_path rq) er seen L = Inr r"
    and ev: "ev = None \<or> ev = nr_head r" and ne: "path_to \<noteq> nr_path r"
    and dest: "case find_live_path ns path_to L of None \<Rightarrow> True | Some d \<Rightarrow> nr_id d = nr_id r"
    and dali: "case find_live_alias ns path_to L of None \<Rightarrow> True | Some a \<Rightarrow> al_resource a = nr_id r"
    and src: "(case get_resource_head (nr_id r) L of None \<Rightarrow> None | Some h \<Rightarrow> jr_manifest h) = Some source"
    and v: "v = new_revision rq fr rev_id (nr_id r) (nr_head r) ''move'' path_to (Some (nr_path r)) (Some path_to)
               (Some (fr_manifest fr)) fp"
    and 2: "copy_manifest (nm_id source) (fr_manifest fr) (nr_id r) now L = Inr L2"
    and 3: "insert_revision v L2 = Inr L3"
    and 4: "set_head (nr_id r) rev_id path_to ''live'' now L3 = Inr L4"
    and 5: "insert_path_alias (fr_alias fr) ns (rq_surface rq) (nr_path r) (nr_id r) rev_id now
              (if find_live_alias ns path_to L \<noteq> None then retire_live_alias ns path_to rev_id now L4 else L4) = Inr L5"
    and assets: "(if rq_surface rq = ''document''
             then publish_assets ns (nr_id r) path_to rev_id ids ids (nr_head r) (Some (nr_path r)) False now (fr_until fr) L5
             else Inr L5) = Inr L5'"
    and 6: "insert_activity (activity_of v) L5' = Inr L6"
    and 7: "insert_invalidation_intent (intent_of v) (emit_document_change ''document.move'' (rq_surface rq) ns (nr_id r)
               path_to rev_id (nr_head r) (rq_actor rq) (Some (nr_path r)) None None L6) = Inr L'"
    and m: "m = from_row v False"
    unfolding publish_move_def replay_or_def Let_def ns_def [symmetric] now_def [symmetric]
    by (auto simp only: option.simps sum.inject simp_thms result_iff)
  note rr = lock_live_reference_Inr [OF r assms(3)]
  from src obtain h where h: "get_resource_head (nr_id r) L = Some h" "jr_manifest h = Some source"
    by (auto split: option.splits)
  from h obtain i where "tab_get nm_id i (l_manifests L) = Some source"
    by (auto simp: get_resource_head_def join_head_def manifest_of_def split: option.splits)
  then have "tab_get nm_id (nm_id source) (l_manifests L) = Some source" by (metis tab_get_key)
  then have r2: "tab_get nm_id (fr_manifest fr) (l_manifests L) = None"
      "L2 = L\<lparr>l_manifests := l_manifests L @ [source\<lparr>nm_id := fr_manifest fr, nm_resource := nr_id r, nm_created := now\<rparr>]\<rparr>"
    using 2 by (auto simp: copy_manifest_def dest!: add_manifest_Inr)
  note r3 = insert_revision_Inr [OF 3]
  have l3: "lock_resource (nr_id r) L3 = Some r" "unique_by nr_id (l_resources L3)"
    using rr(1) r2 r3 assms(3) by (simp_all add: lock_resource_def)
  from set_head_put [OF 4 l3] obtain refs where r4: "L4 = L3\<lparr>l_resources := put_resource
      (r\<lparr>nr_head := Some rev_id, nr_path := path_to, nr_lifecycle := ''live'', nr_updated := now\<rparr>)
      (l_resources L3), l_live_refs := refs\<rparr>" by blast
  have al4: "l_aliases L4 = l_aliases L" using r2 r3 r4 by simp
  note r5 = insert_path_alias_Inr [OF 5 [unfolded retire_if_live [OF al4]]]
  have r5': "same_ledger L5 L5'" using asset_step_same [OF assets] .
  note r7 = commit_tail [OF 6 7]
  have "published \<lparr>ef_revision = v, ef_row = head_row r v ''live'',
           ef_manifests = [source\<lparr>nm_id := fr_manifest fr, nm_resource := nr_id r, nm_created := now\<rparr>],
           ef_aliases = retired_at ns path_to rev_id now (l_aliases L) @
             [\<lparr>al_id = fr_alias fr, al_ns = ns, al_surface = rq_surface rq, al_path = nr_path r,
               al_resource = nr_id r, al_created_by = rev_id, al_retired_by = None, al_created = now,
               al_retired = None\<rparr>]\<rparr> L L'"
    using r2 r3 r4 r5 r5' r7 rr(2)
    by (auto simp: published_def committed_def same_ledger_def revision_new_def v
        new_revision_def ns_def now_def head_row_def live_in_def)
  note eff = this [unfolded ns_def now_def]
  have d1: "find_live_path (rq_ns rq) path_to L = Some d \<Longrightarrow> nr_id d = nr_id r"
    and d2: "find_live_alias (rq_ns rq) path_to L = Some a \<Longrightarrow> al_resource a = nr_id r" for d a
    using dest dali by (simp_all add: ns_def)
  have f1: "fr_manifest fr \<notin> nm_id ` set (l_manifests L)" using r2 by (simp add: tab_get_None_iff)
  have f2: "fr_alias fr \<notin> al_id ` set (l_aliases L)" using r5 by (simp add: retired_ids)
  show thesis
    by (rule that [OF r [unfolded ns_def] ev ne d1 d2 h v m f1 f2 eff])
qed

lemma delete_effect:
  assumes "publish_delete parse rq fp ev er keep fr pre seen L = Inr (m, L')"
    and "find_mutation (rq_ns rq) (rq_mutation rq) L = None" and "unique_by nr_id (l_resources L)"
  obtains rev_id r v where "lock_live_reference (rq_ns rq) (rq_surface rq) (rq_path rq) er seen L = Inr r"
    and "ev = None \<or> ev = nr_head r"
    and "v = new_revision rq fr rev_id (nr_id r) (nr_head r) ''delete'' (nr_path r) None None None fp"
    and "m = from_row v False"
    and "published \<lparr>ef_revision = v, ef_row = head_row r v ''deleted'', ef_manifests = [],
           ef_aliases = retired (\<lambda>a. al_ns a = rq_ns rq \<and> al_surface a = rq_surface rq \<and> al_resource a = nr_id r)
             rev_id (fr_now fr) (l_aliases L)\<rparr> L L'"
proof -
  define ns where "ns = rq_ns rq"
  define now where "now = fr_now fr"
  from assms(1, 2) obtain rev_id r v L2 L3 L4 L6 where
    v: "v = new_revision rq fr rev_id (nr_id r) (nr_head r) ''delete'' (nr_path r) None None None fp"
    and r: "lock_live_reference ns (rq_surface rq) (rq_path rq) er seen L = Inr r"
    and ev: "ev = None \<or> ev = nr_head r"
    and 2: "insert_revision v L = Inr L2"
    and 3: "(if rq_surface rq = ''document'' \<and> keep
                then rbind (locked_head_image_ids parse (nr_id r) L2) (\<lambda>asset_ids.
                     rbind (of_option (DbIntegrity ''commit_hash'') (nr_head r)) (\<lambda>commit.
                     retain_for_delete ns (nr_path r) commit asset_ids now (fr_until fr) L2))
                else Inr L2) = Inr L3"
    and 4: "set_head (nr_id r) rev_id (nr_path r) ''deleted'' now L3 = Inr L4"
    and 6: "insert_activity (activity_of v) (retire_resource_aliases ns (rq_surface rq) (nr_id r) rev_id now L4) = Inr L6"
    and 7: "insert_invalidation_intent (intent_of v) (emit_document_change ''document.delete'' (rq_surface rq) ns (nr_id r)
               (nr_path r) rev_id (nr_head r) (rq_actor rq) None None None L6) = Inr L'"
    and m: "m = from_row v False"
    unfolding publish_delete_def replay_or_def Let_def ns_def [symmetric] now_def [symmetric]
    by (auto simp only: option.simps sum.inject simp_thms result_iff)
  note rr = lock_live_reference_Inr [OF r assms(3)]
  note r2 = insert_revision_Inr [OF 2]
  have r3: "same_ledger L2 L3"
    using 3 by (auto simp: result_iff dest: retain_for_delete_same split: if_splits)
  have l3: "lock_resource (nr_id r) L3 = Some r" "unique_by nr_id (l_resources L3)"
    using rr(1) r2 r3 assms(3) by (simp_all add: lock_resource_def same_ledger_def)
  from set_head_put [OF 4 l3] obtain refs where r4: "L4 = L3\<lparr>l_resources := put_resource
      (r\<lparr>nr_head := Some rev_id, nr_path := nr_path r, nr_lifecycle := ''deleted'', nr_updated := now\<rparr>)
      (l_resources L3), l_live_refs := refs\<rparr>" by blast
  note r7 = commit_tail [OF 6 7]
  have "published \<lparr>ef_revision = v, ef_row = head_row r v ''deleted'', ef_manifests = [],
           ef_aliases = retired (\<lambda>a. al_ns a = ns \<and> al_surface a = rq_surface rq \<and> al_resource a = nr_id r)
             rev_id now (l_aliases L)\<rparr> L L'"
    using r2 r3 r4 r7 rr(2)
    by (auto simp: published_def committed_def same_ledger_def revision_new_def v retire_resource_aliases_def
        retire_retired new_revision_def ns_def now_def head_row_def live_in_def)
  then show thesis
    using that [of r v rev_id] r v ev m by (simp add: ns_def now_def)
qed

section \<open>The invariant\<close>

text \<open>
  The revisions of a resource, oldest first, form one chain from its creation to its head. Together with
  the keys and foreign keys of the schema, deferred ones included, this is \<open>facts_ok\<close>; \<open>names_ok\<close> says that
  a path names at most one live resource, as its path or as an alias.
\<close>

definition history_of :: "uuid \<Rightarrow> ledger \<Rightarrow> revision_row list" where
  "history_of rid L = filter (\<lambda>v. nv_resource v = rid) (l_revisions L)"

fun chained :: "string option \<Rightarrow> revision_row list \<Rightarrow> bool" where
  "chained p [] = True"
| "chained p (v # vs) = (nv_parent v = p \<and> chained (Some (nv_id v)) vs)"

definition lifecycle_after :: "revision_row \<Rightarrow> string" where
  "lifecycle_after v = (if nv_action v = ''delete'' then ''deleted'' else ''live'')"

definition resource_ok :: "ledger \<Rightarrow> resource_row \<Rightarrow> bool" where
  "resource_ok L r \<longleftrightarrow>
     (let h = history_of (nr_id r) L
      in h \<noteq> [] \<and> chained None h \<and> nr_head r = Some (nv_id (last h)) \<and> nr_path r = nv_path (last h)
         \<and> nr_lifecycle r = lifecycle_after (last h) \<and> (\<forall>v\<in>set h. nv_ns v = nr_ns r)
         \<and> nr_surface r \<in> {''document'', ''file''} \<and> nr_ns r \<in> v_id ` set (vaults (l_cat L)))"

definition body_of_manifest :: "body_row \<Rightarrow> manifest_row \<Rightarrow> bool" where
  "body_of_manifest b m \<longleftrightarrow>
     pb_id b = nm_locator m \<and> pb_ns b = nm_ns m \<and> pb_profile b = nm_profile m \<and> pb_digest b = nm_digest m
     \<and> pb_size b = nm_size m \<and> pb_encoding b = nm_encoding m \<and> pb_placement b = nm_placement m
     \<and> pb_verification b = nm_verification m"

definition manifest_ok :: "ledger \<Rightarrow> manifest_row \<Rightarrow> bool" where
  "manifest_ok L m \<longleftrightarrow> (\<exists>b\<in>set (l_bodies L). body_of_manifest b m)"

definition revision_ok :: "ledger \<Rightarrow> revision_row \<Rightarrow> bool" where
  "revision_ok L v \<longleftrightarrow> revision_check v \<and> nv_resource v \<in> nr_id ` set (l_resources L)
     \<and> (\<forall>i. nv_manifest v = Some i \<longrightarrow>
          (\<exists>m. tab_get nm_id i (l_manifests L) = Some m \<and> nm_resource m = nv_resource v \<and> nm_ns m = nv_ns v))"

definition facts_ok :: "ledger \<Rightarrow> bool" where
  "facts_ok L \<longleftrightarrow> bodies_ok (l_bodies L)
     \<and> unique_by nr_id (l_resources L) \<and> unique_by nm_id (l_manifests L) \<and> unique_by nv_id (l_revisions L)
     \<and> unique_by (\<lambda>v. (nv_ns v, nv_mutation v)) (l_revisions L) \<and> unique_by nv_activity (l_revisions L)
     \<and> unique_by nv_intent (l_revisions L)
     \<and> unique_by nv_manifest (filter (\<lambda>v. nv_manifest v \<noteq> None) (l_revisions L))
     \<and> l_activity L = map activity_of (l_revisions L) \<and> l_intents L = map intent_of (l_revisions L)
     \<and> (\<forall>r\<in>set (l_resources L). resource_ok L r) \<and> (\<forall>v\<in>set (l_revisions L). revision_ok L v)
     \<and> (\<forall>m\<in>set (l_manifests L). manifest_ok L m)"

definition live :: "ledger \<Rightarrow> resource_row set" where
  "live L = {r \<in> set (l_resources L). nr_lifecycle r = ''live''}"

definition live_aliases :: "ledger \<Rightarrow> alias_row list" where
  "live_aliases L = filter (\<lambda>a. al_retired_by a = None) (l_aliases L)"

definition alias_fk :: "ledger \<Rightarrow> alias_row \<Rightarrow> bool" where
  "alias_fk L a \<longleftrightarrow>
     (\<exists>r\<in>set (l_resources L). nr_id r = al_resource a \<and> nr_ns r = al_ns a \<and> nr_surface r = al_surface a)
     \<and> (\<exists>v\<in>set (l_revisions L). nv_id v = al_created_by a \<and> nv_ns v = al_ns a \<and> nv_resource v = al_resource a)
     \<and> (\<forall>i. al_retired_by a = Some i \<longrightarrow> (\<exists>v\<in>set (l_revisions L). nv_id v = i \<and> nv_ns v = al_ns a))
     \<and> (al_retired_by a = None \<longleftrightarrow> al_retired a = None)"

definition names_ok :: "ledger \<Rightarrow> bool" where
  "names_ok L \<longleftrightarrow>
     (\<forall>r\<in>live L. \<forall>s\<in>live L. nr_ns r = nr_ns s \<and> nr_path r = nr_path s \<longrightarrow> r = s)
     \<and> unique_by (\<lambda>a. (al_ns a, al_path a)) (live_aliases L)
     \<and> (\<forall>a\<in>set (live_aliases L). (\<exists>r\<in>live L. nr_id r = al_resource a)
          \<and> \<not> (\<exists>r\<in>live L. nr_ns r = al_ns a \<and> nr_path r = al_path a))
     \<and> (\<forall>a\<in>set (l_aliases L). alias_fk L a)"

definition ledger_ok :: "ledger \<Rightarrow> bool" where
  "ledger_ok L \<longleftrightarrow> facts_ok L \<and> names_ok L"

section \<open>Preservation\<close>

lemma set_put_resource:
  "unique_by nr_id rows \<Longrightarrow> set (put_resource row rows) = insert row {x \<in> set rows. nr_id x \<noteq> nr_id row}"
  by (auto simp: put_resource_def tab_upsert_def tab_conflict_def image_iff)

lemma unique_put_resource: "unique_by nr_id rows \<Longrightarrow> unique_by nr_id (put_resource row rows)"
  unfolding put_resource_def by (rule resource_table.unique_upsert)

lemma get_put_resource:
  "tab_get nr_id i (put_resource row rows) = (if i = nr_id row then Some row else tab_get nr_id i rows)"
  unfolding put_resource_def resource_table.get_upsert by (simp split: option.splits)

lemma chained_snoc:
  "chained p (vs @ [v]) \<longleftrightarrow> chained p vs \<and> nv_parent v = (if vs = [] then p else Some (nv_id (last vs)))"
  by (induction vs arbitrary: p) auto

lemma unique_by_snoc: "unique_by f (xs @ [x]) \<longleftrightarrow> unique_by f xs \<and> f x \<notin> f ` set xs"
  by (auto simp: unique_by_def)

lemma history_published:
  "published e L L' \<Longrightarrow> history_of i L' =
     history_of i L @ (if nv_resource (ef_revision e) = i then [ef_revision e] else [])"
  by (simp add: published_def history_of_def)

text \<open>What a publication must satisfy to keep the facts.\<close>

definition effect_ok :: "effect \<Rightarrow> ledger \<Rightarrow> bool" where
  "effect_ok e L \<longleftrightarrow>
     (let v = ef_revision e; row = ef_row e in
      nv_resource v = nr_id row \<and> nv_ns v = nr_ns row \<and> nr_head row = Some (nv_id v) \<and> nr_path row = nv_path v
      \<and> nr_lifecycle row = lifecycle_after v
      \<and> nr_surface row \<in> {''document'', ''file''} \<and> nr_ns row \<in> v_id ` set (vaults (l_cat L))
      \<and> (case lock_resource (nr_id row) L of
           None \<Rightarrow> nv_parent v = None
         | Some r \<Rightarrow> nv_parent v = nr_head r \<and> nr_ns r = nr_ns row \<and> nr_surface r = nr_surface row)
      \<and> (case nv_manifest v of
           None \<Rightarrow> ef_manifests e = []
         | Some i \<Rightarrow> \<exists>m. ef_manifests e = [m] \<and> nm_id m = i \<and> i \<notin> nm_id ` set (l_manifests L)
                       \<and> manifest_ok L m \<and> nm_resource m = nr_id row \<and> nm_ns m = nr_ns row))"

lemma no_resource_no_history:
  "facts_ok L \<Longrightarrow> lock_resource i L = None \<Longrightarrow> history_of i L = []"
  by (auto simp: facts_ok_def history_of_def filter_empty_conv lock_resource_def tab_get_None_iff revision_ok_def)

lemma resource_ok_published:
  assumes "facts_ok L" and "published e L L'" and "effect_ok e L" and "r \<in> set (l_resources L')"
  shows "resource_ok L' r"
proof (cases "nr_id r = nr_id (ef_row e)")
  case True
  have u: "unique_by nr_id (l_resources L)" using assms(1) by (simp add: facts_ok_def)
  have r: "r = ef_row e" using assms(2, 4) True set_put_resource [OF u] by (auto simp: published_def)
  let ?i = "nr_id (ef_row e)"
  have h: "history_of ?i L' = history_of ?i L @ [ef_revision e]"
    using history_published [OF assms(2)] assms(3) by (simp add: effect_ok_def Let_def)
  have cat: "vaults (l_cat L') = vaults (l_cat L)" using assms(2) by (auto simp: published_def)
  have "chained None (history_of ?i L @ [ef_revision e]) \<and> (\<forall>v\<in>set (history_of ?i L). nv_ns v = nr_ns (ef_row e))"
  proof (cases "lock_resource ?i L")
    case None
    then show ?thesis using no_resource_no_history [OF assms(1)] assms(3) by (simp add: effect_ok_def Let_def)
  next
    case (Some r0)
    then have "r0 \<in> set (l_resources L)" "nr_id r0 = ?i" by (auto simp: lock_resource_def dest: tab_get_Some)
    then have "resource_ok L r0" using assms(1) by (simp add: facts_ok_def)
    then show ?thesis using Some \<open>nr_id r0 = ?i\<close> assms(3)
      by (auto simp: resource_ok_def effect_ok_def Let_def chained_snoc)
  qed
  then show ?thesis using assms(3) by (auto simp: resource_ok_def Let_def r h effect_ok_def cat)
next
  case False
  have u: "unique_by nr_id (l_resources L)" using assms(1) by (simp add: facts_ok_def)
  have "r \<in> set (l_resources L)" using assms(2, 4) False set_put_resource [OF u] by (auto simp: published_def)
  then have "resource_ok L r" using assms(1) by (simp add: facts_ok_def)
  moreover have "history_of (nr_id r) L' = history_of (nr_id r) L"
    using history_published [OF assms(2)] assms(3) False by (simp add: effect_ok_def Let_def)
  moreover have "vaults (l_cat L') = vaults (l_cat L)" using assms(2) by (auto simp: published_def)
  ultimately show ?thesis by (simp add: resource_ok_def)
qed

lemma revision_ok_published:
  assumes "facts_ok L" and "published e L L'" and "effect_ok e L" and "v \<in> set (l_revisions L')"
  shows "revision_ok L' v"
proof -
  have u: "unique_by nr_id (l_resources L)" using assms(1) by (simp add: facts_ok_def)
  have res: "nr_id ` set (l_resources L') = insert (nr_id (ef_row e)) (nr_id ` set (l_resources L))"
    using assms(2) resource_table.keys_upsert by (simp add: published_def put_resource_def)
  have man: "l_manifests L' = l_manifests L @ ef_manifests e" using assms(2) by (simp add: published_def)
  show ?thesis
  proof (cases "v = ef_revision e")
    case True
    have "revision_check v" using assms(2) True by (simp add: published_def revision_new_def)
    moreover have "\<exists>m. tab_get nm_id i (l_manifests L') = Some m \<and> nm_resource m = nv_resource v \<and> nm_ns m = nv_ns v"
      if "nv_manifest v = Some i" for i
    proof -
      from that assms(3) True obtain m where "ef_manifests e = [m]" "nm_id m = i" "i \<notin> nm_id ` set (l_manifests L)"
        "nm_resource m = nv_resource v" "nm_ns m = nv_ns v"
        by (auto simp: effect_ok_def Let_def)
      then show ?thesis by (simp add: man tab_get_append tab_get_Cons tab_get_None_iff [THEN iffD2])
    qed
    ultimately show ?thesis using True assms(3) res by (simp add: revision_ok_def effect_ok_def Let_def)
  next
    case False
    then have "v \<in> set (l_revisions L)" using assms(2, 4) by (simp add: published_def)
    then have "revision_ok L v" using assms(1) by (simp add: facts_ok_def)
    then show ?thesis by (auto simp: revision_ok_def res man tab_get_append)
  qed
qed

lemma facts_published:
  assumes "facts_ok L" and "published e L L'" and "effect_ok e L"
  shows "facts_ok L'"
proof -
  let ?v = "ef_revision e"
  have new: "revision_new ?v L" and revs: "l_revisions L' = l_revisions L @ [?v]"
    and man: "l_manifests L' = l_manifests L @ ef_manifests e" and bod: "l_bodies L' = l_bodies L"
    and res: "l_resources L' = put_resource (ef_row e) (l_resources L)"
    using assms(2) by (simp_all add: published_def)
  have "unique_by nm_id (l_manifests L')"
    using assms(1, 3) man by (auto simp: facts_ok_def effect_ok_def Let_def unique_by_snoc split: option.splits)
  moreover have "\<forall>m\<in>set (l_manifests L'). manifest_ok L' m"
    using assms(1, 3) man bod
    by (auto simp: facts_ok_def effect_ok_def Let_def manifest_ok_def split: option.splits)
  moreover have "unique_by nv_manifest (filter (\<lambda>v. nv_manifest v \<noteq> None) (l_revisions L'))"
    using assms(1) new by (auto simp: facts_ok_def revs revision_new_def unique_by_snoc)
  moreover have "unique_by nr_id (l_resources L')"
    using assms(1) res unique_put_resource by (simp add: facts_ok_def)
  ultimately show ?thesis
    using assms(1, 2) new resource_ok_published [OF assms] revision_ok_published [OF assms]
    by (auto simp: facts_ok_def published_def revision_new_def unique_by_snoc)
qed

lemma live_published:
  assumes "published e L L'" and "unique_by nr_id (l_resources L)"
  shows "live L' = (if nr_lifecycle (ef_row e) = ''live'' then {ef_row e} else {})
                   \<union> {x \<in> live L. nr_id x \<noteq> nr_id (ef_row e)}"
  using assms(1) set_put_resource [OF assms(2)] by (auto simp: live_def published_def)

lemma live_aliases_retired:
  "filter (\<lambda>a. al_retired_by a = None) (retired P by at as) =
   filter (\<lambda>a. \<not> P a) (filter (\<lambda>a. al_retired_by a = None) as)"
  by (induction as) (simp_all add: retired_def)

lemma alias_fk_published:
  assumes "alias_fk L a" and "facts_ok L" and "published e L L'" and "effect_ok e L"
  shows "alias_fk L' a"
proof -
  have u: "unique_by nr_id (l_resources L)" using assms(2) by (simp add: facts_ok_def)
  from assms(1) obtain r where r: "r \<in> set (l_resources L)" "nr_id r = al_resource a" "nr_ns r = al_ns a"
    "nr_surface r = al_surface a" by (auto simp: alias_fk_def)
  have "\<exists>r\<in>set (l_resources L'). nr_id r = al_resource a \<and> nr_ns r = al_ns a \<and> nr_surface r = al_surface a"
  proof (cases "nr_id r = nr_id (ef_row e)")
    case True
    then have "lock_resource (nr_id (ef_row e)) L = Some r"
      using tab_get_unique [OF u r(1)] by (simp add: lock_resource_def)
    then show ?thesis using assms(3, 4) r True set_put_resource [OF u]
      by (auto simp: effect_ok_def Let_def published_def)
  next
    case False
    then show ?thesis using assms(3) r set_put_resource [OF u] by (auto simp: published_def)
  qed
  then show ?thesis using assms(1, 3) by (auto simp: alias_fk_def published_def)
qed

lemma retired_fk:
  assumes "a \<in> set (retired P (nv_id (ef_revision e)) at (l_aliases L))"
    and "\<forall>a\<in>set (l_aliases L). alias_fk L a" and "facts_ok L" and "published e L L'" and "effect_ok e L"
    and "\<And>a. P a \<Longrightarrow> al_ns a = nv_ns (ef_revision e)"
  shows "alias_fk L' a"
proof -
  from assms(1) obtain b where b: "b \<in> set (l_aliases L)" "a = b \<or> P b \<and>
      a = b\<lparr>al_retired_by := Some (nv_id (ef_revision e)), al_retired := Some at\<rparr>"
    by (auto simp: retired_def split: if_splits)
  have "alias_fk L' b" using alias_fk_published [OF _ assms(3-5)] assms(2) b(1) by simp
  moreover have "ef_revision e \<in> set (l_revisions L')" using assms(4) by (simp add: published_def)
  ultimately show ?thesis using b(2) assms(6) [of b] by (auto simp: alias_fk_def)
qed

lemma names_published:
  assumes "names_ok L" and "facts_ok L" and "published e L L'"
    and "nr_lifecycle (ef_row e) = ''live'' \<Longrightarrow>
      \<forall>x\<in>live L. nr_ns x = nr_ns (ef_row e) \<and> nr_path x = nr_path (ef_row e) \<longrightarrow> nr_id x = nr_id (ef_row e)"
    and "unique_by (\<lambda>a. (al_ns a, al_path a)) (live_aliases L')"
    and "\<And>a. a \<in> set (live_aliases L') \<Longrightarrow> a \<in> set (live_aliases L) \<or> al_resource a = nr_id (ef_row e)"
    and "\<And>a. a \<in> set (live_aliases L') \<Longrightarrow> al_resource a = nr_id (ef_row e) \<Longrightarrow> nr_lifecycle (ef_row e) = ''live''"
    and "\<And>a x. a \<in> set (live_aliases L') \<Longrightarrow> x \<in> live L' \<Longrightarrow> nr_ns x = al_ns a \<Longrightarrow> nr_path x \<noteq> al_path a"
    and "\<forall>a\<in>set (l_aliases L'). alias_fk L' a"
  shows "names_ok L'"
proof -
  have u: "unique_by nr_id (l_resources L)" using assms(2) by (simp add: facts_ok_def)
  note lv = live_published [OF assms(3) u]
  have old: "\<forall>r\<in>live L. \<forall>s\<in>live L. nr_ns r = nr_ns s \<and> nr_path r = nr_path s \<longrightarrow> r = s"
    using assms(1) by (simp add: names_ok_def)
  have "r = s" if "r \<in> live L'" "s \<in> live L'" "nr_ns r = nr_ns s" "nr_path r = nr_path s" for r s
    using that old assms(4) by (auto simp: lv split: if_splits)
  moreover have "\<exists>r\<in>live L'. nr_id r = al_resource a" if "a \<in> set (live_aliases L')" for a
  proof (cases "al_resource a = nr_id (ef_row e)")
    case True
    then show ?thesis using assms(7) [OF that] by (simp add: lv)
  next
    case False
    then have "a \<in> set (live_aliases L)" using assms(6) [OF that] by simp
    then obtain r where "r \<in> live L" "nr_id r = al_resource a" using assms(1) by (auto simp: names_ok_def)
    then show ?thesis using False by (auto simp: lv)
  qed
  ultimately show ?thesis using assms(5, 8, 9) unfolding names_ok_def by blast
qed

lemma find_live_path_None:
  "find_live_path ns path L = None \<longleftrightarrow> (\<forall>x\<in>live L. \<not> (nr_ns x = ns \<and> nr_path x = path))"
  by (auto simp: find_live_path_def find_None_iff live_def)

lemma find_live_path_Some:
  "find_live_path ns path L = Some r \<Longrightarrow> r \<in> live L \<and> nr_ns r = ns \<and> nr_path r = path"
  by (auto simp: find_live_path_def live_def dest: find_Some_in)

lemma live_unique:
  "facts_ok L \<Longrightarrow> x \<in> live L \<Longrightarrow> y \<in> live L \<Longrightarrow> nr_id x = nr_id y \<Longrightarrow> x = y"
  using unique_by_key_eq [of nr_id "l_resources L" x y] by (simp add: facts_ok_def live_def)

lemma names_apart:
  "names_ok L \<Longrightarrow> a \<in> set (live_aliases L) \<Longrightarrow> x \<in> live L \<Longrightarrow> nr_ns x = al_ns a \<Longrightarrow> nr_path x \<noteq> al_path a"
  by (auto simp: names_ok_def)

text \<open>A resource is published at a path no other live resource has; a live alias of that path is retired.\<close>

lemma names_take_path:
  assumes "names_ok L" and "facts_ok L" and "published e L L'" and "effect_ok e L"
    and "nr_lifecycle (ef_row e) = ''live''"
    and "find_live_path (nr_ns (ef_row e)) (nr_path (ef_row e)) L = None"
    and "\<And>r. lock_resource (nr_id (ef_row e)) L = Some r \<Longrightarrow> nr_lifecycle r \<noteq> ''live''"
    and "ef_aliases e = retired_at (nr_ns (ef_row e)) (nr_path (ef_row e)) (nv_id (ef_revision e)) at (l_aliases L)"
  shows "names_ok L'"
proof (rule names_published [OF assms(1-3)])
  have u: "unique_by nr_id (l_resources L)" using assms(2) by (simp add: facts_ok_def)
  have al: "l_aliases L' = ef_aliases e" using assms(3) by (simp add: published_def)
  have la: "live_aliases L' = filter (\<lambda>a. \<not> (al_ns a = nr_ns (ef_row e) \<and> al_path a = nr_path (ef_row e))) (live_aliases L)"
    by (simp only: live_aliases_def al assms(8) live_aliases_retired)
  show "\<forall>x\<in>live L. nr_ns x = nr_ns (ef_row e) \<and> nr_path x = nr_path (ef_row e) \<longrightarrow> nr_id x = nr_id (ef_row e)"
    using assms(6) by (auto simp: find_live_path_None)
  show "unique_by (\<lambda>a. (al_ns a, al_path a)) (live_aliases L')"
    using assms(1) by (simp add: la names_ok_def unique_by_filter)
  show "a \<in> set (live_aliases L) \<or> al_resource a = nr_id (ef_row e)" if "a \<in> set (live_aliases L')" for a
    using that by (simp add: la)
  show "nr_lifecycle (ef_row e) = ''live''" using assms(5) .
  show "nr_path x \<noteq> al_path a" if "a \<in> set (live_aliases L')" "x \<in> live L'" "nr_ns x = al_ns a" for a x
    using that assms(1) by (auto simp: la live_published [OF assms(3) u] names_ok_def split: if_splits)
  show "\<forall>a\<in>set (l_aliases L'). alias_fk L' a"
    using retired_fk [OF _ _ assms(2-4)] assms(1, 4) by (auto simp: al assms(8) names_ok_def effect_ok_def Let_def)
qed

text \<open>The other publications start from a live resource \<open>r\<close>.\<close>

lemma names_keep_path:
  assumes "names_ok L" and "facts_ok L" and "published e L L'" and "effect_ok e L"
    and "r \<in> live L" and "nr_id (ef_row e) = nr_id r" and "nr_ns (ef_row e) = nr_ns r"
    and "nr_path (ef_row e) = nr_path r" and "nr_lifecycle (ef_row e) = ''live''" and "ef_aliases e = l_aliases L"
  shows "names_ok L'"
proof (rule names_published [OF assms(1-3)])
  have u: "unique_by nr_id (l_resources L)" using assms(2) by (simp add: facts_ok_def)
  have al: "l_aliases L' = l_aliases L" using assms(3, 10) by (simp add: published_def)
  then have la: "live_aliases L' = live_aliases L" by (simp add: live_aliases_def)
  show "\<forall>x\<in>live L. nr_ns x = nr_ns (ef_row e) \<and> nr_path x = nr_path (ef_row e) \<longrightarrow> nr_id x = nr_id (ef_row e)"
    using assms(1, 5-8) by (auto simp: names_ok_def)
  show "unique_by (\<lambda>a. (al_ns a, al_path a)) (live_aliases L')" using assms(1) by (simp add: la names_ok_def)
  show "a \<in> set (live_aliases L) \<or> al_resource a = nr_id (ef_row e)" if "a \<in> set (live_aliases L')" for a
    using that by (simp add: la)
  show "nr_lifecycle (ef_row e) = ''live''" using assms(9) .
  show "nr_path x \<noteq> al_path a" if "a \<in> set (live_aliases L')" "x \<in> live L'" "nr_ns x = al_ns a" for a x
  proof -
    have "x = ef_row e \<or> x \<in> live L" using that(2) by (auto simp: live_published [OF assms(3) u] split: if_splits)
    then show ?thesis
      using names_apart [OF assms(1), of a] that(1, 3) assms(5, 7, 8) by (metis la)
  qed
  show "\<forall>a\<in>set (l_aliases L'). alias_fk L' a"
    using alias_fk_published [OF _ assms(2-4)] assms(1) by (simp add: al names_ok_def)
qed

lemma names_delete:
  assumes "names_ok L" and "facts_ok L" and "published e L L'" and "effect_ok e L"
    and "r \<in> live L" and "nr_id (ef_row e) = nr_id r" and "nr_ns (ef_row e) = nr_ns r"
    and "nr_lifecycle (ef_row e) \<noteq> ''live''"
    and "ef_aliases e = retired (\<lambda>a. al_ns a = nr_ns r \<and> al_surface a = nr_surface r \<and> al_resource a = nr_id r)
           (nv_id (ef_revision e)) at (l_aliases L)"
  shows "names_ok L'"
proof (rule names_published [OF assms(1-3)])
  have u: "unique_by nr_id (l_resources L)" using assms(2) by (simp add: facts_ok_def)
  have al: "l_aliases L' = ef_aliases e" using assms(3) by (simp add: published_def)
  have la: "live_aliases L' = filter (\<lambda>a. \<not> (al_ns a = nr_ns r \<and> al_surface a = nr_surface r \<and> al_resource a = nr_id r))
      (live_aliases L)"
    by (simp only: live_aliases_def al assms(9) live_aliases_retired)
  have own: "al_ns a = nr_ns r \<and> al_surface a = nr_surface r"
    if a: "a \<in> set (live_aliases L)" "al_resource a = nr_id r" for a
  proof -
    have "alias_fk L a" using a(1) assms(1) by (simp add: names_ok_def live_aliases_def)
    then obtain x where "x \<in> set (l_resources L)" "nr_id x = nr_id r" "nr_ns x = al_ns a" "nr_surface x = al_surface a"
      using a(2) by (auto simp: alias_fk_def)
    then show ?thesis using assms(5) unique_by_key_eq [OF u, of x r] by (auto simp: live_def)
  qed
  have no: "al_resource a \<noteq> nr_id r" if "a \<in> set (live_aliases L')" for a
    using that own [of a] by (auto simp: la)
  show "nr_lifecycle (ef_row e) = ''live'' \<Longrightarrow>
      \<forall>x\<in>live L. nr_ns x = nr_ns (ef_row e) \<and> nr_path x = nr_path (ef_row e) \<longrightarrow> nr_id x = nr_id (ef_row e)"
    using assms(8) by simp
  show "unique_by (\<lambda>a. (al_ns a, al_path a)) (live_aliases L')"
    using assms(1) by (simp add: la names_ok_def unique_by_filter)
  show "a \<in> set (live_aliases L) \<or> al_resource a = nr_id (ef_row e)" if "a \<in> set (live_aliases L')" for a
    using that by (simp add: la)
  show "nr_lifecycle (ef_row e) = ''live''"
    if "a \<in> set (live_aliases L')" "al_resource a = nr_id (ef_row e)" for a
    using that no assms(6) by simp
  show "nr_path x \<noteq> al_path a" if "a \<in> set (live_aliases L')" "x \<in> live L'" "nr_ns x = al_ns a" for a x
    using that assms(1, 8) by (auto simp: la live_published [OF assms(3) u] names_ok_def split: if_splits)
  show "\<forall>a\<in>set (l_aliases L'). alias_fk L' a"
    using retired_fk [OF _ _ assms(2-4)] assms(1, 4, 7) by (auto simp: al assms(9) names_ok_def effect_ok_def Let_def)
qed

lemma names_move:
  assumes "names_ok L" and "facts_ok L" and "published e L L'" and "effect_ok e L"
    and "r \<in> live L" and "nr_id (ef_row e) = nr_id r" and "nr_ns (ef_row e) = nr_ns r"
    and "nr_surface (ef_row e) = nr_surface r" and "nr_path (ef_row e) = path_to" and "path_to \<noteq> nr_path r"
    and "nr_lifecycle (ef_row e) = ''live''"
    and "\<And>d. find_live_path (nr_ns r) path_to L = Some d \<Longrightarrow> nr_id d = nr_id r"
    and "ef_aliases e = retired_at (nr_ns r) path_to (nv_id (ef_revision e)) at (l_aliases L) @ [na]"
    and "al_ns na = nr_ns r" and "al_surface na = nr_surface r" and "al_path na = nr_path r"
    and "al_resource na = nr_id r" and "al_created_by na = nv_id (ef_revision e)" and "al_retired_by na = None"
    and "al_retired na = None"
  shows "names_ok L'"
proof (rule names_published [OF assms(1-3)])
  have u: "unique_by nr_id (l_resources L)" using assms(2) by (simp add: facts_ok_def)
  have al: "l_aliases L' = ef_aliases e" using assms(3) by (simp add: published_def)
  have la: "live_aliases L' = filter (\<lambda>a. \<not> (al_ns a = nr_ns r \<and> al_path a = path_to)) (live_aliases L) @ [na]"
    by (simp add: live_aliases_def al assms(13, 19) live_aliases_retired)
  note lv = live_published [OF assms(3) u]
  have old: "\<forall>x\<in>live L. \<forall>y\<in>live L. nr_ns x = nr_ns y \<and> nr_path x = nr_path y \<longrightarrow> x = y"
    and apart: "\<forall>a\<in>set (live_aliases L). \<not> (\<exists>x\<in>live L. nr_ns x = al_ns a \<and> nr_path x = al_path a)"
    using assms(1) by (auto simp: names_ok_def)
  have free: "nr_id x = nr_id r" if "x \<in> live L" "nr_ns x = nr_ns r" "nr_path x = path_to" for x
  proof (cases "find_live_path (nr_ns r) path_to L")
    case None
    then show ?thesis using that by (auto simp: find_live_path_None)
  next
    case (Some d)
    have "d \<in> live L" "nr_ns d = nr_ns x" "nr_path d = nr_path x" using find_live_path_Some [OF Some] that by auto
    then have "d = x" using old that(1) by blast
    then show ?thesis using assms(12) [OF Some] by simp
  qed
  show "\<forall>x\<in>live L. nr_ns x = nr_ns (ef_row e) \<and> nr_path x = nr_path (ef_row e) \<longrightarrow> nr_id x = nr_id (ef_row e)"
    using free assms(6, 7, 9) by auto
  have "(nr_ns r, nr_path r) \<notin> (\<lambda>a. (al_ns a, al_path a)) ` set (live_aliases L)"
    using apart assms(5) by auto
  then show "unique_by (\<lambda>a. (al_ns a, al_path a)) (live_aliases L')"
    using assms(1) by (auto simp: la names_ok_def unique_by_snoc unique_by_filter assms(14, 16))
  show "a \<in> set (live_aliases L) \<or> al_resource a = nr_id (ef_row e)" if "a \<in> set (live_aliases L')" for a
    using that assms(6, 17) by (auto simp: la)
  show "nr_lifecycle (ef_row e) = ''live''" using assms(11) .
  show "nr_path x \<noteq> al_path a" if a: "a \<in> set (live_aliases L')" "x \<in> live L'" "nr_ns x = al_ns a" for a x
  proof -
    consider "a = na" | "a \<in> set (live_aliases L)" "\<not> (al_ns a = nr_ns r \<and> al_path a = path_to)"
      using a(1) by (auto simp: la)
    then show ?thesis
    proof cases
      case 1
      then show ?thesis using a(2, 3) old assms(5-7, 9, 10, 14, 16) by (auto simp: lv split: if_splits)
    next
      case 2
      then show ?thesis using a(2, 3) apart assms(7, 9) by (auto simp: lv split: if_splits)
    qed
  qed
  have "alias_fk L' a" if "a \<in> set (retired_at (nr_ns r) path_to (nv_id (ef_revision e)) at (l_aliases L))" for a
    using retired_fk [OF that _ assms(2-4)] assms(1, 4, 7) by (auto simp: names_ok_def effect_ok_def Let_def)
  moreover have "alias_fk L' na"
    using assms(3, 4, 6-8, 14-20) set_put_resource [OF u]
    by (auto simp: alias_fk_def published_def effect_ok_def Let_def)
  ultimately show "\<forall>a\<in>set (l_aliases L'). alias_fk L' a" by (auto simp: al assms(13))
qed

section \<open>Every publication keeps the invariant\<close>

definition stored :: "prepared \<Rightarrow> uuid \<Rightarrow> ledger \<Rightarrow> bool" where
  "stored pp ns L \<longleftrightarrow> (\<exists>b\<in>set (l_bodies L). pp = prepared_of b \<and> pb_ns b = ns)"

lemma manifest_for_ok: "stored pp (nv_ns v) L \<Longrightarrow> manifest_ok L (manifest_for pp v i)"
  by (auto simp: stored_def manifest_ok_def manifest_for_def body_of_manifest_def prepared_of_def)

lemma new_revision_sel [simp]:
  "nv_id (new_revision rq fr i rid p act path pf pt mf fp) = i"
  "nv_ns (new_revision rq fr i rid p act path pf pt mf fp) = rq_ns rq"
  "nv_resource (new_revision rq fr i rid p act path pf pt mf fp) = rid"
  "nv_parent (new_revision rq fr i rid p act path pf pt mf fp) = p"
  "nv_action (new_revision rq fr i rid p act path pf pt mf fp) = act"
  "nv_path (new_revision rq fr i rid p act path pf pt mf fp) = path"
  "nv_manifest (new_revision rq fr i rid p act path pf pt mf fp) = mf"
  "nv_mutation (new_revision rq fr i rid p act path pf pt mf fp) = rq_mutation rq"
  "nv_fingerprint (new_revision rq fr i rid p act path pf pt mf fp) = fp"
  "nv_at (new_revision rq fr i rid p act path pf pt mf fp) = fr_now fr"
  by (simp_all add: new_revision_def)

lemma head_row_sel [simp]:
  "nr_id (head_row r v lc) = nr_id r" "nr_ns (head_row r v lc) = nr_ns r"
  "nr_surface (head_row r v lc) = nr_surface r" "nr_path (head_row r v lc) = nv_path v"
  "nr_lifecycle (head_row r v lc) = lc" "nr_head (head_row r v lc) = Some (nv_id v)"
  by (simp_all add: head_row_def)

lemma manifest_for_sel [simp]:
  "nm_id (manifest_for pp v i) = i" "nm_resource (manifest_for pp v i) = nv_resource v"
  "nm_ns (manifest_for pp v i) = nv_ns v"
  by (simp_all add: manifest_for_def)

lemma ledger_ok_keys: "ledger_ok L \<Longrightarrow> unique_by nr_id (l_resources L)"
  by (simp add: ledger_ok_def facts_ok_def)

lemma resource_facts:
  "facts_ok L \<Longrightarrow> r \<in> set (l_resources L) \<Longrightarrow>
     nr_surface r \<in> {''document'', ''file''} \<and> nr_ns r \<in> v_id ` set (vaults (l_cat L))"
  by (auto simp: facts_ok_def resource_ok_def Let_def)

lemma create_ok:
  assumes "publish_create rq pp fp req ids allow fr pre L = Inr (m, L')"
    and "ledger_ok L" and "stored pp (rq_ns rq) L"
  shows "ledger_ok L'"
proof (cases "find_mutation (rq_ns rq) (rq_mutation rq) L")
  case None
  have ok: "facts_ok L" "names_ok L" using assms(2) by (simp_all add: ledger_ok_def)
  show ?thesis
  proof (rule publish_create_effect [OF assms(1) None], goal_cases)
    case (1 rev_id rid v)
    note v = 1(2) and free = 1(4, 5) and vault = 1(6, 7) and mf = 1(8)
    define e where "e = \<lparr>ef_revision = v,
           ef_row = \<lparr>nr_id = rid, nr_ns = rq_ns rq, nr_surface = rq_surface rq, nr_profile = ''text'',
             nr_path = rq_path rq, nr_lifecycle = ''live'', nr_head = Some rev_id, nr_created = fr_now fr,
             nr_updated = fr_now fr\<rparr>,
           ef_manifests = [manifest_for pp v (fr_manifest fr)],
           ef_aliases = retired_at (rq_ns rq) (rq_path rq) rev_id (fr_now fr) (l_aliases L)\<rparr>"
    note p = 1(9) [folded e_def]
    have nolock: "lock_resource rid L = None" using free(2) by (simp add: lock_resource_def tab_get_None_iff)
    have eff: "effect_ok e L"
      using v vault mf nolock manifest_for_ok [of pp v L] assms(3)
      by (simp add: effect_ok_def e_def lifecycle_after_def)
    then have "names_ok L'"
      by (intro names_take_path [OF ok(2, 1) p, where at = "fr_now fr"]) (simp_all add: e_def v free nolock)
    then show ?case using facts_published [OF ok(1) p eff] by (simp add: ledger_ok_def)
  qed
next
  case (Some prior)
  then have "L' = L"
    using assms(1) by (auto simp: publish_create_def replay_or_def Let_def result_iff split: if_splits)
  then show ?thesis using assms(2) by simp
qed

lemma replace_ok:
  assumes "publish_replace parse rq pp fp ev er ids ps st fr pre seen L = Inr (m, L')"
    and "ledger_ok L" and "stored pp (rq_ns rq) L"
  shows "ledger_ok L'"
proof (cases "find_mutation (rq_ns rq) (rq_mutation rq) L")
  case None
  have ok: "facts_ok L" "names_ok L" using assms(2) by (simp_all add: ledger_ok_def)
  show ?thesis
  proof (rule replace_effect [OF assms(1) None ledger_ok_keys [OF assms(2)]], goal_cases)
    case (1 rev_id r v)
    note v = 1(3) and mf = 1(5)
    note rr = lock_live_reference_Inr [OF 1(1) ledger_ok_keys [OF assms(2)]]
    define e where "e = \<lparr>ef_revision = v, ef_row = head_row r v ''live'',
           ef_manifests = [manifest_for pp v (fr_manifest fr)], ef_aliases = l_aliases L\<rparr>"
    note p = 1(6) [folded e_def]
    have eff: "effect_ok e L"
      using v mf rr manifest_for_ok [of pp v L] assms(3) resource_facts [OF ok(1), of r]
      by (simp add: effect_ok_def e_def lifecycle_after_def live_in_def)
    then have "names_ok L'"
      using rr(2) by (intro names_keep_path [OF ok(2, 1) p, of r]) (simp_all add: e_def v live_def live_in_def)
    then show ?case using facts_published [OF ok(1) p eff] by (simp add: ledger_ok_def)
  qed
next
  case (Some prior)
  then have "L' = L"
    using assms(1) by (auto simp: publish_replace_def replay_or_def Let_def result_iff split: if_splits)
  then show ?thesis using assms(2) by simp
qed

lemma restore_ok:
  assumes "publish_restore rq pp fp ev rid ids fr pre L = Inr (m, L')"
    and "ledger_ok L" and "stored pp (rq_ns rq) L"
  shows "ledger_ok L'"
proof (cases "find_mutation (rq_ns rq) (rq_mutation rq) L")
  case None
  have ok: "facts_ok L" "names_ok L" using assms(2) by (simp_all add: ledger_ok_def)
  show ?thesis
  proof (rule restore_effect [OF assms(1) None ledger_ok_keys [OF assms(2)]], goal_cases)
    case (1 rev_id r v)
    note r = 1(1-5) and free = 1(7) and v = 1(8) and mf = 1(10)
    define e where "e = \<lparr>ef_revision = v, ef_row = head_row r v ''live'',
           ef_manifests = [manifest_for pp v (fr_manifest fr)],
           ef_aliases = retired_at (rq_ns rq) (rq_path rq) rev_id (fr_now fr) (l_aliases L)\<rparr>"
    note p = 1(11) [folded e_def]
    have rin: "r \<in> set (l_resources L)" "nr_id r = rid" using r(1) by (auto simp: lock_resource_def dest: tab_get_Some)
    have eff: "effect_ok e L"
      using v mf r(1-3) rin manifest_for_ok [of pp v L] assms(3) resource_facts [OF ok(1) rin(1)]
      by (simp add: effect_ok_def e_def lifecycle_after_def)
    then have "names_ok L'"
      using r rin free
      by (intro names_take_path [OF ok(2, 1) p, where at = "fr_now fr"]) (simp_all add: e_def v)
    then show ?case using facts_published [OF ok(1) p eff] by (simp add: ledger_ok_def)
  qed
next
  case (Some prior)
  then have "L' = L"
    using assms(1) by (auto simp: publish_restore_def replay_or_def Let_def result_iff split: if_splits)
  then show ?thesis using assms(2) by simp
qed

text \<open>The manifest of a live head belongs to its resource.\<close>

lemma head_manifest:
  assumes "facts_ok L" and "get_resource_head rid L = Some h" and "jr_manifest h = Some x"
  shows "x \<in> set (l_manifests L)" and "nm_resource x = rid"
    and "\<And>r. lock_resource rid L = Some r \<Longrightarrow> nm_ns x = nr_ns r"
proof -
  from assms(2, 3) obtain r v where r: "lock_resource rid L = Some r"
    and v: "find (\<lambda>v. nv_resource v = nr_id r \<and> nr_head r = Some (nv_id v)) (l_revisions L) = Some v"
    and x: "manifest_of v L = Some x"
    by (auto simp: get_resource_head_def join_head_def split: option.splits)
  from r have r2: "r \<in> set (l_resources L)" "nr_id r = rid" by (auto simp: lock_resource_def dest: tab_get_Some)
  from v have v2: "v \<in> set (l_revisions L)" "nv_resource v = rid" using r2 by (auto dest: find_Some_in)
  from x obtain i where i: "nv_manifest v = Some i" "tab_get nm_id i (l_manifests L) = Some x"
    by (auto simp: manifest_of_def split: option.splits)
  have "revision_ok L v" using assms(1) v2 by (simp add: facts_ok_def)
  then have x2: "nm_resource x = rid" "nm_ns x = nv_ns v" using i v2 by (auto simp: revision_ok_def)
  have "resource_ok L r" using assms(1) r2 by (simp add: facts_ok_def)
  then have "nv_ns v = nr_ns r" using v2 r2 by (simp add: resource_ok_def Let_def history_of_def)
  then show "x \<in> set (l_manifests L)" "nm_resource x = rid" "\<And>r. lock_resource rid L = Some r \<Longrightarrow> nm_ns x = nr_ns r"
    using i(2) x2 r by (auto dest: tab_get_Some)
qed

lemma move_ok:
  assumes "publish_move parse rq path_to fp ev er fr pre seen L = Inr (m, L')" and "ledger_ok L"
  shows "ledger_ok L'"
proof (cases "find_mutation (rq_ns rq) (rq_mutation rq) L")
  case None
  have ok: "facts_ok L" "names_ok L" using assms(2) by (simp_all add: ledger_ok_def)
  show ?thesis
  proof (rule move_effect [OF assms(1) None ledger_ok_keys [OF assms(2)]], goal_cases)
    case (1 rev_id r v h source)
    note v = 1(8) and mf = 1(10) and ne = 1(3) and dest = 1(4)
    note rr = lock_live_reference_Inr [OF 1(1) ledger_ok_keys [OF assms(2)]]
    note hm = head_manifest [OF ok(1) 1(6, 7)]
    define copy where "copy = source\<lparr>nm_id := fr_manifest fr, nm_resource := nr_id r, nm_created := fr_now fr\<rparr>"
    define na where "na = \<lparr>al_id = fr_alias fr, al_ns = rq_ns rq, al_surface = rq_surface rq, al_path = nr_path r,
               al_resource = nr_id r, al_created_by = rev_id, al_retired_by = None, al_created = fr_now fr,
               al_retired = None\<rparr>"
    define e where "e = \<lparr>ef_revision = v, ef_row = head_row r v ''live'', ef_manifests = [copy],
           ef_aliases = retired_at (rq_ns rq) path_to rev_id (fr_now fr) (l_aliases L) @ [na]\<rparr>"
    note p = 1(12) [folded copy_def na_def, folded e_def]
    have "manifest_ok L source" using hm(1) ok(1) by (simp add: facts_ok_def)
    then have "manifest_ok L copy" by (simp add: manifest_ok_def copy_def body_of_manifest_def)
    moreover have "nm_ns copy = nr_ns r" "nm_id copy = fr_manifest fr" "nm_resource copy = nr_id r"
      using hm(3) [OF rr(1)] by (simp_all add: copy_def)
    ultimately have eff: "effect_ok e L"
      using v mf rr resource_facts [OF ok(1), of r]
      by (simp add: effect_ok_def e_def lifecycle_after_def live_in_def)
    have "names_ok L'"
      using rr(2) ne
      by (intro names_move [OF ok(2, 1) p eff, of r path_to "fr_now fr" na])
         (auto simp add: e_def v live_def live_in_def na_def dest: dest)
    then show ?case using facts_published [OF ok(1) p eff] by (simp add: ledger_ok_def)
  qed
next
  case (Some prior)
  then have "L' = L"
    using assms(1) by (auto simp: publish_move_def replay_or_def Let_def result_iff split: if_splits)
  then show ?thesis using assms(2) by simp
qed

lemma delete_ok:
  assumes "publish_delete parse rq fp ev er keep fr pre seen L = Inr (m, L')" and "ledger_ok L"
  shows "ledger_ok L'"
proof (cases "find_mutation (rq_ns rq) (rq_mutation rq) L")
  case None
  have ok: "facts_ok L" "names_ok L" using assms(2) by (simp_all add: ledger_ok_def)
  show ?thesis
  proof (rule delete_effect [OF assms(1) None ledger_ok_keys [OF assms(2)]], goal_cases)
    case (1 rev_id r v)
    note v = 1(3)
    note rr = lock_live_reference_Inr [OF 1(1) ledger_ok_keys [OF assms(2)]]
    define e where "e = \<lparr>ef_revision = v, ef_row = head_row r v ''deleted'', ef_manifests = [],
           ef_aliases = retired (\<lambda>a. al_ns a = rq_ns rq \<and> al_surface a = rq_surface rq \<and> al_resource a = nr_id r)
             rev_id (fr_now fr) (l_aliases L)\<rparr>"
    note p = 1(5) [folded e_def]
    have eff: "effect_ok e L"
      using v rr resource_facts [OF ok(1), of r]
      by (simp add: effect_ok_def e_def lifecycle_after_def live_in_def)
    then have "names_ok L'"
      using rr(2) by (intro names_delete [OF ok(2, 1) p, where r = r and at = "fr_now fr"])
        (simp_all add: e_def v live_def live_in_def)
    then show ?case using facts_published [OF ok(1) p eff] by (simp add: ledger_ok_def)
  qed
next
  case (Some prior)
  then have "L' = L"
    using assms(1) by (auto simp: publish_delete_def replay_or_def Let_def result_iff split: if_splits)
  then show ?thesis using assms(2) by simp
qed

end
