(* ===== verification/LedgerOps.thy ===== *)
theory LedgerOps
  imports LedgerInv
begin

text \<open>
  The public operations of \<^verbatim>\<open>NativeRevisionService\<close>: the text mutations around the publications, the
  verified reads, and the step relation of everything that can change a ledger.
\<close>

section \<open>Mutations\<close>

definition transaction :: "ledger \<Rightarrow> (mutation_result \<times> ledger) result \<Rightarrow> ledger \<times> mutation_result result" where
  "transaction L r = (case r of Inl e \<Rightarrow> (L, Inl e) | Inr (m, L') \<Rightarrow> (L', Inr m))"

text \<open>Storing the body first, in its own transaction; what follows runs on the ledger that holds it.\<close>

definition with_prepared ::
  "body_store \<Rightarrow> request \<Rightarrow> text_payload \<Rightarrow> string option \<Rightarrow> nat option \<Rightarrow> fresh \<Rightarrow> ledger
   \<Rightarrow> (prepared \<Rightarrow> ledger \<Rightarrow> (mutation_result \<times> ledger) result) \<Rightarrow> ledger \<times> mutation_result result" where
  "with_prepared st rq payload expected_digest expected_size fr L k =
     (case prepare_text st (l_cat L) (fr_body fr) (rq_ns rq) payload expected_digest expected_size (l_bodies L) of
        Inl e \<Rightarrow> (L, Inl e)
      | Inr (pp, bodies) \<Rightarrow> let L = L\<lparr>l_bodies := bodies\<rparr> in transaction L (k pp L))"

definition payload_images ::
  "(nat list \<Rightarrow> uuid list result) \<Rightarrow> request \<Rightarrow> text_payload \<Rightarrow> uuid list result" where
  "payload_images parse_images rq payload =
     (if rq_surface rq = ''document'' then image_ids parse_images payload else Inr [])"

definition create_text ::
  "body_store \<Rightarrow> (nat list \<Rightarrow> uuid list result) \<Rightarrow> request \<Rightarrow> text_payload \<Rightarrow> uuid option \<Rightarrow> string option
   \<Rightarrow> nat option \<Rightarrow> bool \<Rightarrow> fresh \<Rightarrow> ledger \<Rightarrow> ledger \<Rightarrow> ledger \<times> mutation_result result" where
  "create_text st parse_images rq payload resource expected_digest expected_size allow_unavailable fr pre L =
     (case validate_common rq of
        Inl e \<Rightarrow> (L, Inl e)
      | Inr _ \<Rightarrow> with_prepared st rq payload expected_digest expected_size fr L (\<lambda>pp L.
          rbind (payload_images parse_images rq payload) (\<lambda>ids.
          publish_create rq pp (fingerprint ''create'' rq pp None resource None allow_unavailable) resource ids
            allow_unavailable fr pre L)))"

text \<open>In a transaction of the caller: a failure rolls everything back, the body included.\<close>

definition create_text_in_conn ::
  "bool \<Rightarrow> body_store \<Rightarrow> (nat list \<Rightarrow> uuid list result) \<Rightarrow> request \<Rightarrow> text_payload \<Rightarrow> uuid option
   \<Rightarrow> string option \<Rightarrow> nat option \<Rightarrow> bool \<Rightarrow> fresh \<Rightarrow> ledger \<Rightarrow> (mutation_result \<times> ledger) result" where
  "create_text_in_conn in_transaction st parse_images rq payload resource expected_digest expected_size
     allow_unavailable fr L =
     rbind (require in_transaction (Validation ''active transaction'')) (\<lambda>_.
     rbind (require (st = PgStore) (PyRuntimeError ''transaction-aware payload store'')) (\<lambda>_.
     rbind (validate_common rq) (\<lambda>_.
     rbind (pg_prepare_text_in_conn in_transaction (l_cat L) (fr_body fr) (rq_ns rq) payload expected_digest
              expected_size (l_bodies L)) (\<lambda>(pp, bodies).
     let L = L\<lparr>l_bodies := bodies\<rparr> in
     rbind (payload_images parse_images rq payload) (\<lambda>ids.
     publish_create rq pp (fingerprint ''create'' rq pp None resource None allow_unavailable) resource ids
       allow_unavailable fr L L)))))"

definition replace_text ::
  "body_store \<Rightarrow> (nat list \<Rightarrow> uuid list result) \<Rightarrow> request \<Rightarrow> text_payload \<Rightarrow> string option \<Rightarrow> uuid option
   \<Rightarrow> string option \<Rightarrow> nat option \<Rightarrow> string option \<Rightarrow> string option \<Rightarrow> fresh \<Rightarrow> ledger \<Rightarrow> ledger \<Rightarrow> ledger
   \<Rightarrow> ledger \<times> mutation_result result" where
  "replace_text st parse_images rq payload expected_revision expected_resource expected_digest expected_size
     previous_status status fr pre seen L =
     (case rbind (validate_common rq) (\<lambda>_. validate_expected_revision expected_revision) of
        Inl e \<Rightarrow> (L, Inl e)
      | Inr _ \<Rightarrow> with_prepared st rq payload expected_digest expected_size fr L (\<lambda>pp L.
          rbind (payload_images parse_images rq payload) (\<lambda>ids.
          publish_replace parse_images rq pp
            (fingerprint ''replace'' rq pp expected_revision None expected_resource False)
            expected_revision expected_resource ids previous_status status fr pre seen L)))"

definition restore_text ::
  "body_store \<Rightarrow> (nat list \<Rightarrow> uuid list result) \<Rightarrow> request \<Rightarrow> text_payload \<Rightarrow> string \<Rightarrow> uuid
   \<Rightarrow> string option \<Rightarrow> nat option \<Rightarrow> fresh \<Rightarrow> ledger \<Rightarrow> ledger \<Rightarrow> ledger \<times> mutation_result result" where
  "restore_text st parse_images rq payload expected_revision resource expected_digest expected_size fr pre L =
     (case rbind (validate_common rq) (\<lambda>_. validate_expected_revision (Some expected_revision)) of
        Inl e \<Rightarrow> (L, Inl e)
      | Inr _ \<Rightarrow> with_prepared st rq payload expected_digest expected_size fr L (\<lambda>pp L.
          rbind (payload_images parse_images rq payload) (\<lambda>ids.
          publish_restore rq pp
            (fingerprint ''replace'' rq pp (Some expected_revision) None (Some resource) False)
            expected_revision resource ids fr pre L)))"

definition move_text ::
  "(nat list \<Rightarrow> uuid list result) \<Rightarrow> request \<Rightarrow> string \<Rightarrow> string option \<Rightarrow> uuid option
   \<Rightarrow> fresh \<Rightarrow> ledger \<Rightarrow> ledger \<Rightarrow> ledger \<Rightarrow> ledger \<times> mutation_result result" where
  "move_text parse_images rq path_to expected_revision expected_resource fr pre seen L =
     transaction L (
       rbind (validate_common rq) (\<lambda>_.
       rbind (require (py_strip path_to \<noteq> '''') (Validation ''destination path'')) (\<lambda>_.
       rbind (require (path_to \<noteq> rq_path rq) (Validation ''no-op move'')) (\<lambda>_.
       rbind (validate_expected_revision expected_revision) (\<lambda>_.
       publish_move parse_images rq path_to
         (lifecycle_fingerprint ''move'' rq (Some path_to) expected_revision expected_resource True)
         expected_revision expected_resource fr pre seen L)))))"

definition delete_resource ::
  "(nat list \<Rightarrow> uuid list result) \<Rightarrow> request \<Rightarrow> string option \<Rightarrow> uuid option \<Rightarrow> bool
   \<Rightarrow> fresh \<Rightarrow> ledger \<Rightarrow> ledger \<Rightarrow> ledger \<Rightarrow> ledger \<times> mutation_result result" where
  "delete_resource parse_images rq expected_revision expected_resource retain_assets fr pre seen L =
     transaction L (
       rbind (validate_common rq) (\<lambda>_.
       rbind (validate_expected_revision expected_revision) (\<lambda>_.
       publish_delete parse_images rq
         (lifecycle_fingerprint ''delete'' rq None expected_revision expected_resource retain_assets)
         expected_revision expected_resource retain_assets fr pre seen L)))"

section \<open>Verified reads\<close>

record snapshot =
  sn_resource :: uuid
  sn_revision :: string
  sn_parent :: "string option"
  sn_surface :: string
  sn_profile :: string
  sn_path :: string
  sn_action :: string
  sn_at :: nat
  sn_created :: nat
  sn_updated :: nat
  sn_manifest :: uuid
  sn_digest :: string
  sn_size :: nat
  sn_encoding :: string
  sn_placement :: string
  sn_verification :: string
  sn_bytes :: "nat list"
  sn_text :: "nat list"

text \<open>\<open>text\<close> is the list of code points; UTF-8 is the only encoding the schema admits.\<close>

definition verify_snapshot_payload :: "nat list \<Rightarrow> manifest_row \<Rightarrow> nat list result" where
  "verify_snapshot_payload bytes m =
     rbind (require (length bytes = nm_size m) (PyRuntimeError ''manifest byte size mismatch'')) (\<lambda>_.
     rbind (require (sha256_bytes bytes = nm_digest m) (PyRuntimeError ''manifest digest mismatch'')) (\<lambda>_.
     if nm_encoding m = ''utf-8'' then of_option (PyRuntimeError ''UnicodeDecodeError'') (utf8_decode bytes)
     else Inl (PyRuntimeError ''encoding'')))"

definition snapshot_of :: "joined_row \<Rightarrow> string \<Rightarrow> manifest_row \<Rightarrow> nat list \<Rightarrow> nat list \<Rightarrow> snapshot" where
  "snapshot_of row path m bytes text =
     (let r = jr_resource row; v = jr_revision row in
      \<lparr>sn_resource = nv_resource v, sn_revision = nv_id v, sn_parent = nv_parent v, sn_surface = nr_surface r,
       sn_profile = nr_profile r, sn_path = path, sn_action = nv_action v, sn_at = nv_at v,
       sn_created = nr_created r, sn_updated = nr_updated r, sn_manifest = nm_id m, sn_digest = nm_digest m,
       sn_size = nm_size m, sn_encoding = nm_encoding m, sn_placement = nm_placement m,
       sn_verification = nm_verification m, sn_bytes = bytes, sn_text = text\<rparr>)"

definition read_store :: "body_store \<Rightarrow> string \<Rightarrow> body_store result" where
  "read_store configured placement =
     (if store_placement configured = placement then Inr configured else payload_store_for_placement placement)"

definition snapshot_from_row :: "body_store \<Rightarrow> string \<Rightarrow> ledger \<Rightarrow> joined_row \<Rightarrow> snapshot result" where
  "snapshot_from_row st path L row =
     (case jr_manifest row of
        None \<Rightarrow> Inl (PyRuntimeError ''head does not pin a manifest'')
      | Some m \<Rightarrow>
          rbind (read_store st (nm_placement m)) (\<lambda>store.
          rbind (open_verified store (nm_locator m) (l_bodies L)) (\<lambda>bytes.
          rbind (verify_snapshot_payload bytes m) (\<lambda>text.
          Inr (snapshot_of row path m bytes text)))))"

definition get_current :: "body_store \<Rightarrow> uuid \<Rightarrow> string \<Rightarrow> string \<Rightarrow> ledger \<Rightarrow> snapshot result" where
  "get_current st ns surface path L =
     rbind (of_option (NotFound ''Native Resource'') (get_current_row ns surface path L)) (\<lambda>row.
     snapshot_from_row st (nr_path (jr_resource row)) L row)"

definition get_current_reference :: "body_store \<Rightarrow> uuid \<Rightarrow> string \<Rightarrow> string \<Rightarrow> ledger \<Rightarrow> snapshot result" where
  "get_current_reference st ns surface reference L =
     rbind (resolve_live_reference ns surface reference L) (\<lambda>resolved.
     rbind (of_option (NotFound ''Native Resource'') resolved) (\<lambda>resource.
     rbind (of_option (NotFound ''Native Resource'') (get_resource_head (nr_id resource) L)) (\<lambda>row.
     rbind (require (nr_lifecycle (jr_resource row) = ''live'') (NotFound ''Native Resource'')) (\<lambda>_.
     snapshot_from_row st (nr_path (jr_resource row)) L row))))"

definition get_current_resource :: "body_store \<Rightarrow> uuid \<Rightarrow> string \<Rightarrow> uuid \<Rightarrow> ledger \<Rightarrow> snapshot result" where
  "get_current_resource st ns surface rid L =
     rbind (of_option (NotFound ''Native Resource'') (get_resource_head rid L)) (\<lambda>row.
     rbind (require (nr_ns (jr_resource row) = ns \<and> nr_surface (jr_resource row) = surface
                     \<and> nr_lifecycle (jr_resource row) = ''live'') (NotFound ''Native Resource'')) (\<lambda>_.
     snapshot_from_row st (nr_path (jr_resource row)) L row))"

definition committed_snapshot ::
  "body_store \<Rightarrow> uuid \<Rightarrow> string \<Rightarrow> joined_row option \<Rightarrow> ledger \<Rightarrow> snapshot result" where
  "committed_snapshot st ns surface row L =
     rbind (of_option (NotFound ''Native Revision'') row) (\<lambda>row.
     rbind (require (nv_ns (jr_revision row) = ns \<and> nr_surface (jr_resource row) = surface)
              (NotFound ''Native Revision'')) (\<lambda>_.
     rbind (require (nv_manifest (jr_revision row) \<noteq> None) (NotFound ''Native Revision payload'')) (\<lambda>_.
     snapshot_from_row st (nv_path (jr_revision row)) L row)))"

definition get_revision ::
  "body_store \<Rightarrow> uuid \<Rightarrow> string \<Rightarrow> string \<Rightarrow> string \<Rightarrow> ledger \<Rightarrow> snapshot result" where
  "get_revision st ns surface reference selector L =
     rbind (validate_revision_selector selector) (\<lambda>_.
     rbind (resolve_live_reference ns surface reference L) (\<lambda>resolved.
     rbind (of_option (NotFound ''Native Resource'') resolved) (\<lambda>resource.
     rbind (get_revision_row (nr_id resource) selector L) (\<lambda>row.
     committed_snapshot st ns surface row L))))"

definition get_resource_revision ::
  "body_store \<Rightarrow> uuid \<Rightarrow> string \<Rightarrow> uuid \<Rightarrow> string \<Rightarrow> ledger \<Rightarrow> snapshot result" where
  "get_resource_revision st ns surface rid rev_id L =
     rbind (validate_expected_revision (Some rev_id)) (\<lambda>_.
     rbind (get_revision_row rid rev_id L) (\<lambda>row.
     committed_snapshot st ns surface row L))"

definition list_history ::
  "uuid \<Rightarrow> string \<Rightarrow> string \<Rightarrow> int \<Rightarrow> ledger \<Rightarrow> (resource_row \<times> revision_row list) result" where
  "list_history ns surface reference limit L =
     rbind (resolve_live_reference ns surface reference L) (\<lambda>resolved.
     rbind (of_option (NotFound ''Native Resource'') resolved) (\<lambda>resource.
     Inr (resource, list_history_rows (nr_id resource) limit L)))"

section \<open>Bulk reads\<close>

record head_filter =
  hf_path_like :: "string option"
  hf_max_slashes :: "nat option"
  hf_resource_ids :: "uuid list option"
  hf_paths :: "string list option"
  hf_excluded :: "string list"
  hf_before :: "(nat \<times> uuid) option"
  hf_limit :: "nat option"

definition head_selected :: "uuid \<Rightarrow> string \<Rightarrow> head_filter \<Rightarrow> resource_row \<Rightarrow> bool" where
  "head_selected ns surface f r \<longleftrightarrow>
     nr_ns r = ns \<and> nr_surface r = surface \<and> nr_lifecycle r = ''live''
     \<and> (case hf_resource_ids f of None \<Rightarrow> True | Some ids \<Rightarrow> nr_id r \<in> set ids)
     \<and> (case hf_path_like f of None \<Rightarrow> True | Some p \<Rightarrow> like_match p (nr_path r))
     \<and> (case hf_max_slashes f of None \<Rightarrow> True | Some n \<Rightarrow> length (filter (\<lambda>c. c = CHR ''/'') (nr_path r)) \<le> n)
     \<and> (case hf_paths f of None \<Rightarrow> True | Some ps \<Rightarrow> nr_path r \<in> set ps)
     \<and> nr_path r \<notin> set (hf_excluded f)
     \<and> (case hf_before f of None \<Rightarrow> True
        | Some (t, i) \<Rightarrow> nr_updated r < t \<or> nr_updated r = t \<and> nr_id r < i)"

definition selected_heads :: "uuid \<Rightarrow> string \<Rightarrow> head_filter \<Rightarrow> ledger \<Rightarrow> resource_row list" where
  "selected_heads ns surface f L =
     (let rows = rev (sort_key (\<lambda>r. (nr_updated r, nr_id r)) (filter (head_selected ns surface f) (l_resources L)))
      in case hf_limit f of None \<Rightarrow> rows | Some n \<Rightarrow> take n rows)"

text \<open>One row of the bulk query: the left joins to the head revision, its manifest and its stored body.\<close>

record head_row_joined =
  hj_resource :: resource_row
  hj_revision :: "revision_row option"
  hj_manifest :: "manifest_row option"
  hj_body :: "body_row option"

definition join_live_head :: "ledger \<Rightarrow> resource_row \<Rightarrow> head_row_joined" where
  "join_live_head L r =
     (let v = find (\<lambda>v. nv_resource v = nr_id r \<and> nr_head r = Some (nv_id v)) (l_revisions L);
          m = (case v of None \<Rightarrow> None | Some v \<Rightarrow> manifest_of v L);
          b = (case m of None \<Rightarrow> None | Some m \<Rightarrow> tab_get pb_id (nm_locator m) (l_bodies L))
      in \<lparr>hj_resource = r, hj_revision = v, hj_manifest = m, hj_body = b\<rparr>)"

definition list_live_heads_with_payloads ::
  "uuid \<Rightarrow> string \<Rightarrow> head_filter \<Rightarrow> ledger \<Rightarrow> head_row_joined list" where
  "list_live_heads_with_payloads ns surface f L = map (join_live_head L) (selected_heads ns surface f L)"

definition check_head_row :: "head_row_joined \<Rightarrow> revision_row result" where
  "check_head_row row =
     rbind (of_option (NotFound ''Native Revision'') (hj_revision row)) (\<lambda>v.
     rbind (require (nv_manifest v \<noteq> None) (NotFound ''Native Revision payload'')) (\<lambda>_. Inr v))"

definition head_store :: "body_store \<Rightarrow> head_row_joined \<Rightarrow> body_store result" where
  "head_store st row =
     (case hj_manifest row of None \<Rightarrow> Inl (PyRuntimeError ''unsupported placement'')
      | Some m \<Rightarrow> read_store st (nm_placement m))"

definition verify_head_row :: "head_row_joined \<times> body_store \<Rightarrow> snapshot result" where
  "verify_head_row rs =
     (case rs of (row, store) \<Rightarrow>
       (case (hj_revision row, hj_manifest row) of
          (Some v, Some m) \<Rightarrow>
            rbind (of_option (PyRuntimeError ''payload is missing'') (hj_body row)) (\<lambda>b.
            rbind (verify_row store b None) (\<lambda>bytes.
            rbind (verify_snapshot_payload bytes m) (\<lambda>text.
            Inr (snapshot_of \<lparr>jr_resource = hj_resource row, jr_revision = v, jr_manifest = Some m\<rparr>
                   (nv_path v) m bytes text))))
        | _ \<Rightarrow> Inl (PyRuntimeError ''head does not pin a manifest'')))"

definition list_live_head_snapshots ::
  "body_store \<Rightarrow> uuid \<Rightarrow> string \<Rightarrow> head_filter \<Rightarrow> ledger \<Rightarrow> snapshot list result" where
  "list_live_head_snapshots st ns surface f L =
     (let rows = list_live_heads_with_payloads ns surface f L in
      rbind (map_res check_head_row rows) (\<lambda>_.
      rbind (map_res (head_store st) rows) (\<lambda>stores.
      map_res verify_head_row (zip rows stores))))"

end
