(* ===== verification/LedgerExample.thy ===== *)
theory LedgerExample
  imports LedgerOps
begin

text \<open>
  A small ledger, built by the operations themselves, in which the hypotheses of the ledger's theorems hold.
  Digests and fingerprints stay symbolic: only their length and alphabet matter.
\<close>

definition empty_ledger :: "db \<Rightarrow> file_row list \<Rightarrow> ledger" where
  "empty_ledger d fs =
     \<lparr>l_cat = d, l_bodies = [], l_resources = [], l_manifests = [], l_revisions = [], l_activity = [],
      l_intents = [], l_aliases = [], l_files = fs, l_live_refs = [], l_revision_refs = []\<rparr>"


lemma hex_chars_sha256 [simp]: "hex_chars (sha256_bytes b)"
  using sha256_bytes_set [of b] by (auto simp: hex_chars_def list_all_iff simp del: list.set)

lemma fingerprint_shape [simp]:
  "length (fingerprint a rq pp ev r er al) = 64" "hex_chars (fingerprint a rq pp ev r er al)"
  "length (lifecycle_fingerprint a rq pt ev er ra) = 64" "hex_chars (lifecycle_fingerprint a rq pt ev er ra)"
  by (simp_all add: fingerprint_def lifecycle_fingerprint_def sha256_hex_def)

definition ex_request :: "uuid \<Rightarrow> string \<Rightarrow> request" where
  "ex_request key path = \<lparr>rq_ns = 10, rq_surface = ''document'', rq_path = path, rq_actor = ''alice'',
     rq_mutation = key, rq_message = None, rq_subject = None, rq_summary = None\<rparr>"

definition ex_token :: "char \<Rightarrow> string" where
  "ex_token c = replicate 40 c"

definition ex_fresh :: "uuid \<Rightarrow> char \<Rightarrow> fresh" where
  "ex_fresh n c = \<lparr>fr_tokens = [ex_token c], fr_body = n, fr_resource = n, fr_manifest = n,
     fr_activity = n, fr_intent = n, fr_alias = n, fr_now = 200, fr_until = 300\<rparr>"

definition ex_payload :: text_payload where
  "ex_payload = PyBytes [72, 105]"

definition ex_no_images :: "nat list \<Rightarrow> uuid list result" where
  "ex_no_images b = Inr []"

definition ex_empty :: ledger where
  "ex_empty = empty_ledger example_db []"

definition ex_body :: body_row where
  "ex_body = new_body 1 10 [72, 105] (sha256_bytes [72, 105]) PG_PLACEMENT"

definition ex_stored :: ledger where
  "ex_stored = ex_empty\<lparr>l_bodies := [ex_body]\<rparr>"

lemma ex_prepare:
  "prepare_text PgStore (l_cat ex_empty) 1 10 ex_payload None None (l_bodies ex_empty) = Inr (prepared_of ex_body, [ex_body])"
  by (simp add: prepare_text_def pg_prepare_text_def pg_verified_bytes_def ex_payload_def ex_empty_def
      empty_ledger_def MAX_TEXT_BYTES_def pg_prepare_verified_in_conn_def insert_body_def new_body_def ex_body_def
      tab_get_def example_db_def pg_verify_row_def Let_def)

definition ex_fp :: string where
  "ex_fp = fingerprint ''create'' (ex_request 5 ''notes/a.md'') (prepared_of ex_body) None None None False"

definition ex_move_fp :: string where
  "ex_move_fp = lifecycle_fingerprint ''move'' (ex_request 6 ''notes/a.md'') (Some ''notes/b.md'') None None True"

definition ex_rev1 :: revision_row where
  "ex_rev1 = new_revision (ex_request 5 ''notes/a.md'') (ex_fresh 1 CHR ''a'') (ex_token CHR ''a'') 1 None ''create''
     ''notes/a.md'' None (Some ''notes/a.md'') (Some 1) ex_fp"

definition ex_rev2 :: revision_row where
  "ex_rev2 = new_revision (ex_request 6 ''notes/a.md'') (ex_fresh 2 CHR ''b'') (ex_token CHR ''b'') 1
     (Some (ex_token CHR ''a'')) ''move'' ''notes/b.md'' (Some ''notes/a.md'') (Some ''notes/b.md'') (Some 2) ex_move_fp"

definition ex_row :: "string \<Rightarrow> string \<Rightarrow> resource_row" where
  "ex_row path head = \<lparr>nr_id = 1, nr_ns = 10, nr_surface = ''document'', nr_profile = ''text'', nr_path = path,
     nr_lifecycle = ''live'', nr_head = Some head, nr_created = 200, nr_updated = 200\<rparr>"

definition ex_manifest :: "uuid \<Rightarrow> manifest_row" where
  "ex_manifest i = \<lparr>nm_id = i, nm_ns = 10, nm_resource = 1, nm_profile = ''text'',
     nm_digest = sha256_bytes [72, 105], nm_size = 2, nm_encoding = ''utf-8'', nm_placement = PG_PLACEMENT,
     nm_locator = 1, nm_verification = VERIFICATION_PROFILE, nm_created = 200\<rparr>"

definition ex_created :: ledger where
  "ex_created = (emit_document_change ''document.put'' ''document'' 10 1 ''notes/a.md'' (ex_token CHR ''a'') None
       ''alice'' None None None ex_stored)
     \<lparr>l_resources := [ex_row ''notes/a.md'' (ex_token CHR ''a'')], l_manifests := [ex_manifest 1],
      l_revisions := [ex_rev1], l_activity := [activity_of ex_rev1], l_intents := [intent_of ex_rev1]\<rparr>"

definition ex_moved :: ledger where
  "ex_moved = (emit_document_change ''document.move'' ''document'' 10 1 ''notes/b.md'' (ex_token CHR ''b'')
       (Some (ex_token CHR ''a'')) ''alice'' (Some ''notes/a.md'') None None ex_created)
     \<lparr>l_resources := [ex_row ''notes/b.md'' (ex_token CHR ''b'')], l_manifests := [ex_manifest 1, ex_manifest 2],
      l_revisions := [ex_rev1, ex_rev2], l_activity := [activity_of ex_rev1, activity_of ex_rev2],
      l_intents := [intent_of ex_rev1, intent_of ex_rev2],
      l_aliases := [\<lparr>al_id = 2, al_ns = 10, al_surface = ''document'', al_path = ''notes/a.md'', al_resource = 1,
        al_created_by = ex_token CHR ''b'', al_retired_by = None, al_created = 200, al_retired = None\<rparr>]\<rparr>"

lemma ex_token_shape [simp]:
  "length (ex_token c) = 40" "hex_chars (ex_token CHR ''a'')" "hex_chars (ex_token CHR ''b'')"
  "hex_chars (ex_token CHR ''c'')" "ex_token c = ex_token d \<longleftrightarrow> c = d"
  by (simp_all add: ex_token_def hex_chars_def list_all_iff)

lemma ex_not_uuid [simp]: "parse_uuid ''notes/a.md'' = None" "parse_uuid ''notes/b.md'' = None"
  by code_simp+

lemmas ledger_eval = allocate_revision_id_def replay_or_def find_mutation_def
  find_live_path_def find_live_alias_def insert_resource_def tab_get_def blank_def strip_by_def rstrip_by_def
  insert_manifest_def copy_manifest_def add_manifest_def resource_in_def lock_resource_def prepared_of_def
  insert_revision_def revision_check_def action_shape_def new_revision_def set_head_def tab_update_def
  publish_assets_def claim_document_asset_ids_def claim_attachment_references_def
  sync_document_asset_references_def insert_activity_def activity_of_def emit_document_change_def emit_event_def
  insert_invalidation_intent_def intent_of_def from_row_def ex_request_def ex_fresh_def ex_empty_def
  empty_ledger_def example_db_def

lemma ex_create_eval:
  "publish_create (ex_request 5 ''notes/a.md'') (prepared_of ex_body) ex_fp None [] False
     (ex_fresh 1 CHR ''a'') ex_empty ex_stored = Inr (from_row ex_rev1 False, ex_created)"
  by (simp add: publish_create_def ledger_eval ex_stored_def ex_fp_def ex_body_def new_body_def Let_def ex_created_def
      ex_row_def ex_manifest_def ex_rev1_def unique_violation_def)

lemma ex_create_text_eval:
  "create_text PgStore ex_no_images (ex_request 5 ''notes/a.md'') ex_payload None None None False
     (ex_fresh 1 CHR ''a'') ex_empty ex_empty = (ex_created, Inr (from_row ex_rev1 False))"
proof -
  have "validate_common (ex_request 5 ''notes/a.md'') = Inr ()"
    by (simp add: validate_common_def ex_request_def py_strip_def strip_by_def rstrip_by_def is_space_def)
  moreover have "payload_images ex_no_images (ex_request 5 ''notes/a.md'') ex_payload = Inr []"
    by (simp add: payload_images_def image_ids_def ex_no_images_def)
  moreover have "fr_body (ex_fresh 1 CHR ''a'') = 1" "rq_ns (ex_request 5 ''notes/a.md'') = 10"
    by (simp_all add: ex_fresh_def ex_request_def)
  ultimately show ?thesis
    using ex_create_eval by (simp add: create_text_def with_prepared_def ex_prepare Let_def transaction_def
        ex_fp_def ex_stored_def)
qed

lemma ex_head_images: "locked_head_image_ids ex_no_images 1 ex_created = Inr []"
  by (simp add: locked_head_image_ids_def get_resource_head_def join_head_def manifest_of_def verify_native_head_body_def
      pg_verify_row_def ex_no_images_def ledger_eval ex_stored_def ex_body_def new_body_def Let_def ex_created_def
      ex_row_def ex_manifest_def ex_rev1_def)

lemma ex_lock: "lock_live_reference 10 ''document'' ''notes/a.md'' None ex_created ex_created =
    Inr (ex_row ''notes/a.md'' (ex_token CHR ''a''))"
  by (simp add: lock_live_reference_def resolve_live_reference_def path_candidate_def ledger_eval
      ex_stored_def Let_def ex_created_def ex_row_def)

lemma ex_move_eval:
  "publish_move ex_no_images (ex_request 6 ''notes/a.md'') ''notes/b.md'' ex_move_fp None None
     (ex_fresh 2 CHR ''b'') ex_created ex_created ex_created = Inr (from_row ex_rev2 False, ex_moved)"
proof -
  have h: "get_resource_head 1 ex_created = Some \<lparr>jr_resource = ex_row ''notes/a.md'' (ex_token CHR ''a''),
      jr_revision = ex_rev1, jr_manifest = Some (ex_manifest 1)\<rparr>"
    by (simp add: get_resource_head_def join_head_def manifest_of_def ledger_eval ex_created_def ex_row_def
        ex_manifest_def ex_rev1_def)
  have "rq_ns (ex_request 6 ''notes/a.md'') = 10" "rq_surface (ex_request 6 ''notes/a.md'') = ''document''"
    "rq_path (ex_request 6 ''notes/a.md'') = ''notes/a.md''"
    by (simp_all add: ex_request_def)
  then show ?thesis
    using ex_lock ex_head_images h
    by (simp add: publish_move_def ledger_eval ex_stored_def ex_fp_def ex_body_def new_body_def Let_def
      ex_created_def ex_moved_def ex_row_def ex_manifest_def ex_rev1_def ex_rev2_def ex_move_fp_def unique_violation_def
      retire_live_alias_def retire_def insert_path_alias_def retain_document_asset_ids_def upsert_revision_refs_def)
qed

end
