(* ===== verification/LedgerProps.thy ===== *)
theory LedgerProps
  imports LedgerExample
begin

text \<open>
  What the ledger guarantees: the invariant in every reachable state, exactly-once mutations, no lost
  updates, the head's lineage as the complete history, deterministic references, and bodies that read back
  as they were written for as long as the ledger lives.
\<close>

section \<open>One publication, whatever its kind\<close>

datatype command =
    Create prepared "uuid option" "uuid list" bool
  | Replace prepared "string option" "uuid option" "uuid list" "string option" "string option"
  | Restore prepared string uuid "uuid list"
  | Move string "string option" "uuid option"
  | Delete "string option" "uuid option" bool

definition publish ::
  "(nat list \<Rightarrow> uuid list result) \<Rightarrow> command \<Rightarrow> request \<Rightarrow> string \<Rightarrow> fresh \<Rightarrow> ledger \<Rightarrow> ledger \<Rightarrow> ledger
   \<Rightarrow> (mutation_result \<times> ledger) result" where
  "publish parse_images c rq fp fr pre seen L =
     (case c of
        Create pp res ids allow \<Rightarrow> publish_create rq pp fp res ids allow fr pre L
      | Replace pp ev er ids ps st \<Rightarrow> publish_replace parse_images rq pp fp ev er ids ps st fr pre seen L
      | Restore pp ev rid ids \<Rightarrow> publish_restore rq pp fp ev rid ids fr pre L
      | Move path_to ev er \<Rightarrow> publish_move parse_images rq path_to fp ev er fr pre seen L
      | Delete ev er keep \<Rightarrow> publish_delete parse_images rq fp ev er keep fr pre seen L)"

definition payload_stored :: "command \<Rightarrow> uuid \<Rightarrow> ledger \<Rightarrow> bool" where
  "payload_stored c ns L =
     (case c of Create pp _ _ _ \<Rightarrow> stored pp ns L | Replace pp _ _ _ _ _ \<Rightarrow> stored pp ns L
      | Restore pp _ _ _ \<Rightarrow> stored pp ns L | Move _ _ _ \<Rightarrow> True | Delete _ _ _ \<Rightarrow> True)"

definition expected_revision_of :: "command \<Rightarrow> string option" where
  "expected_revision_of c =
     (case c of Create _ _ _ _ \<Rightarrow> None | Replace _ ev _ _ _ _ \<Rightarrow> ev | Restore _ ev _ _ \<Rightarrow> Some ev
      | Move _ ev _ \<Rightarrow> ev | Delete ev _ _ \<Rightarrow> ev)"

text \<open>
  Everything that changes a ledger: a body is stored, a publication commits, and the rest of the database
  moves on (vaults appear, attachments come and go). Deleting a vault, which cascades, is not modelled.
\<close>

inductive ledger_step :: "ledger \<Rightarrow> ledger \<Rightarrow> bool" where
  stored_body: "prepare_text st (l_cat L) pid ns payload ed es (l_bodies L) = Inr (pp, bodies) \<Longrightarrow>
     ledger_step L (L\<lparr>l_bodies := bodies\<rparr>)"
| published_mutation: "publish parse_images c rq fp fr pre seen L = Inr (m, L') \<Longrightarrow>
     payload_stored c (rq_ns rq) L \<Longrightarrow> ledger_step L L'"
| other_tables: "v_id ` set (vaults (l_cat L)) \<subseteq> v_id ` set (vaults d) \<Longrightarrow>
     ledger_step L (L\<lparr>l_cat := d, l_files := fs, l_live_refs := ls, l_revision_refs := rs\<rparr>)"

abbreviation ledger_steps :: "ledger \<Rightarrow> ledger \<Rightarrow> bool" where
  "ledger_steps \<equiv> ledger_step\<^sup>*\<^sup>*"

inductive_cases ledger_stepE: "ledger_step L L'"

section \<open>The invariant\<close>

lemma publish_ok:
  "publish parse c rq fp fr pre seen L = Inr (m, L') \<Longrightarrow> ledger_ok L \<Longrightarrow> payload_stored c (rq_ns rq) L \<Longrightarrow>
   ledger_ok L'"
  by (cases c) (auto simp: publish_def payload_stored_def intro: create_ok replace_ok restore_ok move_ok delete_ok)

lemma facts_ok_more_bodies:
  assumes "facts_ok L" and "bodies_ok (l_bodies L @ new)"
  shows "facts_ok (L\<lparr>l_bodies := l_bodies L @ new\<rparr>)"
  using assms
  by (auto simp: facts_ok_def manifest_ok_def resource_ok_def history_of_def revision_ok_def Let_def)

lemma names_ok_bodies: "names_ok (L\<lparr>l_bodies := bs\<rparr>) = names_ok L"
  by (simp add: names_ok_def live_def live_aliases_def alias_fk_def)

lemma ledger_ok_other:
  assumes "ledger_ok L" and "v_id ` set (vaults (l_cat L)) \<subseteq> v_id ` set (vaults d)"
  shows "ledger_ok (L\<lparr>l_cat := d, l_files := fs, l_live_refs := ls, l_revision_refs := rs\<rparr>)"
proof -
  have "resource_ok (L\<lparr>l_cat := d, l_files := fs, l_live_refs := ls, l_revision_refs := rs\<rparr>) r"
    if "resource_ok L r" for r
    using that assms(2) by (auto simp: resource_ok_def Let_def history_of_def)
  then show ?thesis using assms(1)
    by (auto simp: ledger_ok_def facts_ok_def names_ok_def live_def live_aliases_def alias_fk_def manifest_ok_def
        revision_ok_def)
qed

lemma ledger_step_ok: "ledger_step L L' \<Longrightarrow> ledger_ok L \<Longrightarrow> ledger_ok L'"
proof (induction rule: ledger_step.induct)
  case (stored_body st L pid ns payload ed es pp bodies)
  then have "bodies_ok (l_bodies L)" by (simp add: ledger_ok_def facts_ok_def)
  from prepare_text_row [OF stored_body(1) this] obtain new where "bodies = l_bodies L @ new" "bodies_ok bodies" by blast
  then show ?case using stored_body(2) facts_ok_more_bodies by (simp add: ledger_ok_def names_ok_bodies)
next
  case (published_mutation parse_images c rq fp fr pre seen L m L')
  then show ?case by (blast intro: publish_ok)
next
  case (other_tables L d fs ls rs)
  then show ?case by (simp add: ledger_ok_other)
qed

lemma ledger_steps_ok: "ledger_steps L L' \<Longrightarrow> ledger_ok L \<Longrightarrow> ledger_ok L'"
  by (induction rule: rtranclp_induct) (auto intro: ledger_step_ok)

lemma empty_ledger_ok: "ledger_ok (empty_ledger d fs)"
  by (simp add: ledger_ok_def facts_ok_def names_ok_def empty_ledger_def bodies_ok_def unique_by_def live_def
      live_aliases_def)

text \<open>C4: Whatever bodies are stored, mutations published (with whatever stale reads before their locks) and
  other tables changed, in any order, the ledger keeps every key and foreign key of its schema, deferred ones
  included; the revisions of every resource form one chain from its creation to its head; every revision has
  exactly its own activity row and invalidation intent; and a path names at most one live resource.\<close>

theorem ledger_invariant: "ledger_steps (empty_ledger d fs) L \<Longrightarrow> ledger_ok L"
  by (rule ledger_steps_ok [OF _ empty_ledger_ok])

text \<open>The steps of the example ledger.\<close>

definition ex_create :: command where
  "ex_create = Create (prepared_of ex_body) None [] False"

definition ex_move :: command where
  "ex_move = Move ''notes/b.md'' None None"

lemma ex_publish:
  "publish ex_no_images ex_create (ex_request 5 ''notes/a.md'') ex_fp (ex_fresh 1 CHR ''a'') ex_empty ex_empty ex_stored
     = Inr (from_row ex_rev1 False, ex_created)"
  "publish ex_no_images ex_move (ex_request 6 ''notes/a.md'') ex_move_fp (ex_fresh 2 CHR ''b'') ex_created ex_created
     ex_created = Inr (from_row ex_rev2 False, ex_moved)"
  by (simp_all add: publish_def ex_create_def ex_move_def ex_create_eval ex_move_eval)

lemma ex_payload_stored [simp]: "payload_stored ex_create 10 ex_stored" "payload_stored ex_move ns L"
  by (simp_all add: payload_stored_def ex_create_def ex_move_def stored_def ex_stored_def ex_body_def new_body_def)

lemma ex_request_fields [simp]:
  "rq_ns (ex_request k p) = 10" "rq_mutation (ex_request k p) = k" "rq_surface (ex_request k p) = ''document''"
  by (simp_all add: ex_request_def)

lemma ex_steps: "ledger_step ex_empty ex_stored" "ledger_step ex_stored ex_created" "ledger_step ex_created ex_moved"
proof -
  show "ledger_step ex_empty ex_stored"
    using stored_body [OF ex_prepare] by (simp add: ex_stored_def)
  show "ledger_step ex_stored ex_created"
    by (rule published_mutation [OF ex_publish(1)]) simp
  show "ledger_step ex_created ex_moved"
    by (rule published_mutation [OF ex_publish(2)]) simp
qed

lemma ex_ok: "ledger_ok ex_empty" "ledger_ok ex_stored" "ledger_ok ex_created" "ledger_ok ex_moved"
proof -
  show e: "ledger_ok ex_empty" by (simp add: ex_empty_def empty_ledger_ok)
  show s: "ledger_ok ex_stored" by (rule ledger_step_ok [OF ex_steps(1) e])
  show c: "ledger_ok ex_created" by (rule ledger_step_ok [OF ex_steps(2) s])
  show "ledger_ok ex_moved" by (rule ledger_step_ok [OF ex_steps(3) c])
qed

lemma ledger_invariant_witness:
  "ledger_ok ex_moved \<and> length (l_revisions ex_moved) = 2"
proof -
  have "ledger_steps (empty_ledger example_db []) ex_moved"
    using ex_steps by (auto simp: ex_empty_def [symmetric] intro: converse_rtranclp_into_rtranclp)
  then have "ledger_ok ex_moved" by (rule ledger_invariant)
  then show ?thesis by (simp add: ex_moved_def)
qed

section \<open>Exactly once\<close>

lemma unique_violation_simps [simp]:
  "unique_violation ns e (Inr x) = Inr x" "unique_violation ns e (Inl (Conflict s)) = Inl (Conflict s)"
  by (simp_all add: unique_violation_def)

text \<open>A recorded mutation id answers before anything else is looked at.\<close>

lemma publish_prior:
  assumes "find_mutation (rq_ns rq) (rq_mutation rq) L = Some prior"
  shows "publish parse c rq fp fr pre seen L =
     rbind (allocate_revision_id (fr_tokens fr) pre) (\<lambda>_.
       if nv_fingerprint prior \<noteq> fp then Inl (Conflict ''idempotency key reused'')
       else Inr (from_row prior True, L))"
  using assms
  by (cases c) (simp_all add: publish_def publish_create_def publish_replace_def publish_restore_def
      publish_move_def publish_delete_def replay_or_def Let_def)

text \<open>A fresh mutation appends one revision that carries the request's key and fingerprint.\<close>

definition committed_as :: "mutation_result \<Rightarrow> effect \<Rightarrow> request \<Rightarrow> string \<Rightarrow> ledger \<Rightarrow> ledger \<Rightarrow> bool" where
  "committed_as m e rq fp L L' \<longleftrightarrow>
     published e L L' \<and> m = from_row (ef_revision e) False \<and> nv_ns (ef_revision e) = rq_ns rq
     \<and> nv_mutation (ef_revision e) = rq_mutation rq \<and> nv_fingerprint (ef_revision e) = fp
     \<and> nr_id (ef_row e) = nv_resource (ef_revision e)
     \<and> nr_ns (ef_row e) = rq_ns rq \<and> nr_surface (ef_row e) = rq_surface rq
     \<and> (case lock_resource (nv_resource (ef_revision e)) L of
          None \<Rightarrow> nv_parent (ef_revision e) = None
        | Some r \<Rightarrow> nv_parent (ef_revision e) = nr_head r \<and> nr_ns r = rq_ns rq \<and> nr_surface r = rq_surface rq)"

lemma publish_fresh:
  assumes "publish parse c rq fp fr pre seen L = Inr (m, L')" and "ledger_ok L"
    and "find_mutation (rq_ns rq) (rq_mutation rq) L = None"
  shows "\<exists>e. committed_as m e rq fp L L' \<and> (\<forall>x. expected_revision_of c = Some x \<longrightarrow> mr_parent m = Some x)"
proof (cases c)
  case (Create pp req ids allow)
  show ?thesis
  proof (rule publish_create_effect [OF assms(1) [unfolded Create publish_def command.case] assms(3)], goal_cases)
    case (1 rev_id rid v)
    then have "lock_resource rid L = None" by (simp add: lock_resource_def tab_get_None_iff)
    then show ?case using 1(2, 3) by (intro exI conjI [OF _ allI], unfold committed_as_def)
        (intro conjI, rule 1(9), simp_all add: Create expected_revision_of_def)
  qed
next
  case (Replace pp ev er ids ps st)
  show ?thesis
  proof (rule replace_effect [OF assms(1) [unfolded Replace publish_def command.case] assms(3)
        ledger_ok_keys [OF assms(2)]], goal_cases)
    case (1 rev_id r v)
    note rr = lock_live_reference_Inr [OF 1(1) ledger_ok_keys [OF assms(2)]]
    then show ?case using 1(2-4) by (intro exI conjI [OF _ allI], unfold committed_as_def)
        (intro conjI, rule 1(6), auto simp: Replace expected_revision_of_def live_in_def from_row_def)
  qed
next
  case (Restore pp ev rid ids)
  show ?thesis
  proof (rule restore_effect [OF assms(1) [unfolded Restore publish_def command.case] assms(3)
        ledger_ok_keys [OF assms(2)]], goal_cases)
    case (1 rev_id r v)
    then have "nr_id r = rid" by (auto simp: lock_resource_def dest: tab_get_key)
    then show ?case using 1(1-3, 6, 8, 9) by (intro exI conjI [OF _ allI], unfold committed_as_def)
        (intro conjI, rule 1(11), auto simp: Restore expected_revision_of_def from_row_def)
  qed
next
  case (Move path_to ev er)
  show ?thesis
  proof (rule move_effect [OF assms(1) [unfolded Move publish_def command.case] assms(3)
        ledger_ok_keys [OF assms(2)]], goal_cases)
    case (1 rev_id r v h source)
    note rr = lock_live_reference_Inr [OF 1(1) ledger_ok_keys [OF assms(2)]]
    then show ?case using 1(2, 8, 9) by (intro exI conjI [OF _ allI], unfold committed_as_def)
        (intro conjI, rule 1(12), auto simp: Move expected_revision_of_def live_in_def from_row_def)
  qed
next
  case (Delete ev er keep)
  show ?thesis
  proof (rule delete_effect [OF assms(1) [unfolded Delete publish_def command.case] assms(3)
        ledger_ok_keys [OF assms(2)]], goal_cases)
    case (1 rev_id r v)
    note rr = lock_live_reference_Inr [OF 1(1) ledger_ok_keys [OF assms(2)]]
    then show ?case using 1(2-4) by (intro exI conjI [OF _ allI], unfold committed_as_def)
        (intro conjI, rule 1(5), auto simp: Delete expected_revision_of_def live_in_def from_row_def)
  qed
qed

lemma publish_replayed:
  assumes "publish parse c rq fp fr pre seen L = Inr (m, L')"
    and "find_mutation (rq_ns rq) (rq_mutation rq) L = Some prior"
  shows "L' = L" and "nv_fingerprint prior = fp" and "m = from_row prior True"
  using assms(1) unfolding publish_prior [OF assms(2)] by (auto simp: result_iff split: if_splits)

section \<open>A ledger only grows\<close>

definition extends :: "ledger \<Rightarrow> ledger \<Rightarrow> bool" where
  "extends L L' \<longleftrightarrow>
     (\<exists>vs. l_revisions L' = l_revisions L @ vs) \<and> (\<exists>ms. l_manifests L' = l_manifests L @ ms)
     \<and> (\<exists>bs. l_bodies L' = l_bodies L @ bs)
     \<and> (\<forall>r\<in>set (l_resources L). \<exists>r'\<in>set (l_resources L'). nr_id r' = nr_id r \<and> nr_ns r' = nr_ns r
          \<and> nr_surface r' = nr_surface r)"

lemma extends_refl: "extends L L"
  by (auto simp: extends_def)

lemma extends_trans:
  assumes "extends L L'" and "extends L' L''"
  shows "extends L L''"
proof -
  have "\<exists>r''\<in>set (l_resources L''). nr_id r'' = nr_id r \<and> nr_ns r'' = nr_ns r \<and> nr_surface r'' = nr_surface r"
    if "r \<in> set (l_resources L)" for r
    using assms that unfolding extends_def by metis
  then show ?thesis using assms by (auto simp: extends_def)
qed

lemma published_extends:
  assumes "committed_as m e rq fp L L'" and "ledger_ok L"
  shows "extends L L'"
proof -
  have u: "unique_by nr_id (l_resources L)" by (rule ledger_ok_keys [OF assms(2)])
  have p: "published e L L'" using assms(1) by (simp add: committed_as_def)
  then have res: "set (l_resources L') = insert (ef_row e) {x \<in> set (l_resources L). nr_id x \<noteq> nr_id (ef_row e)}"
    using set_put_resource [OF u] by (simp add: published_def)
  have "\<exists>r'\<in>set (l_resources L'). nr_id r' = nr_id r \<and> nr_ns r' = nr_ns r \<and> nr_surface r' = nr_surface r"
    if r: "r \<in> set (l_resources L)" for r
  proof (cases "nr_id r = nr_id (ef_row e)")
    case True
    then have "lock_resource (nv_resource (ef_revision e)) L = Some r"
      using tab_get_unique [OF u r] assms(1) by (simp add: lock_resource_def committed_as_def)
    then show ?thesis using assms(1) True by (simp add: committed_as_def res)
  qed (use r res in auto)
  then show ?thesis using p by (auto simp: extends_def published_def)
qed

lemma publish_extends:
  assumes "publish parse c rq fp fr pre seen L = Inr (m, L')" and "ledger_ok L"
  shows "extends L L'"
proof (cases "find_mutation (rq_ns rq) (rq_mutation rq) L")
  case None
  then show ?thesis using publish_fresh [OF assms None] published_extends [OF _ assms(2)] by blast
next
  case (Some prior)
  then show ?thesis using publish_replayed(1) [OF assms(1) Some] by (simp add: extends_refl)
qed

lemma step_extends: "ledger_step L L' \<Longrightarrow> ledger_ok L \<Longrightarrow> extends L L'"
proof (induction rule: ledger_step.induct)
  case (stored_body st L pid ns payload ed es pp bodies)
  then have "bodies_ok (l_bodies L)" by (simp add: ledger_ok_def facts_ok_def)
  from prepare_text_row [OF stored_body(1) this] obtain new where "bodies = l_bodies L @ new" by blast
  then show ?case by (auto simp: extends_def)
next
  case (published_mutation parse_images c rq fp fr pre seen L m L')
  then show ?case by (blast intro: publish_extends)
next
  case (other_tables L d fs ls rs)
  then show ?case by (auto simp: extends_def)
qed

lemma steps_extends: "ledger_steps L L' \<Longrightarrow> ledger_ok L \<Longrightarrow> extends L L'"
proof (induction rule: rtranclp_induct)
  case (step L' L'')
  then show ?case using step_extends ledger_steps_ok extends_trans by blast
qed (rule extends_refl)

lemma find_append_Some: "find P xs = Some x \<Longrightarrow> find P (xs @ ys) = Some x"
  by (induction xs) auto

lemma find_append_None: "find P xs = None \<Longrightarrow> find P (xs @ ys) = find P ys"
  by (induction xs) auto

lemma find_mutation_extends:
  "extends L L' \<Longrightarrow> find_mutation ns mid L = Some v \<Longrightarrow> find_mutation ns mid L' = Some v"
  unfolding extends_def find_mutation_def by (auto simp: find_append_Some)

text \<open>A mutation that returned is on record, with the result it returned.\<close>

lemma publish_recorded:
  assumes "publish parse c rq fp fr pre seen L = Inr (m, L')" and "ledger_ok L"
  obtains v where "find_mutation (rq_ns rq) (rq_mutation rq) L' = Some v" and "nv_fingerprint v = fp"
    and "from_row v True = m\<lparr>mr_replay := True\<rparr>"
proof (cases "find_mutation (rq_ns rq) (rq_mutation rq) L")
  case None
  from publish_fresh [OF assms None] obtain e where e: "committed_as m e rq fp L L'" by blast
  have "find_mutation (rq_ns rq) (rq_mutation rq) L' = Some (ef_revision e)"
    using None e by (auto simp: find_mutation_def committed_as_def published_def find_append_None)
  then show thesis using that e by (auto simp: committed_as_def from_row_def)
next
  case (Some prior)
  then show thesis using that publish_replayed [OF assms(1) Some] by (auto simp: from_row_def)
qed

lemma replayed_fields:
  "from_row v True = m\<lparr>mr_replay := True\<rparr> \<Longrightarrow>
     nv_parent v = mr_parent m \<and> nv_resource v = mr_resource m \<and> nv_id v = mr_revision m
     \<and> nv_path v = mr_path m \<and> nv_manifest v = mr_manifest m \<and> nv_at v = mr_at m \<and> nv_action v = mr_action m"
  by (cases m) (simp add: from_row_def)

text \<open>C5: A mutation takes effect exactly once. After a mutation has returned, and whatever else the ledger has
  gone through since, every delivery of a mutation with the same key, by any operation and with any random
  values, changes nothing: it returns the first result marked as a replay when the request fingerprint is the
  same, and the conflict of a reused key when it is not.\<close>

theorem exactly_once:
  assumes "ledger_ok L" and "publish parse c rq fp fr pre seen L = Inr (m, L1)"
    and "payload_stored c (rq_ns rq) L" and "ledger_steps L1 L2"
    and "rq_ns rq' = rq_ns rq" and "rq_mutation rq' = rq_mutation rq"
    and "allocate_revision_id (fr_tokens fr') pre' = Inr i"
  shows "publish parse' c' rq' fp' fr' pre' seen' L2 =
     (if fp' = fp then Inr (m\<lparr>mr_replay := True\<rparr>, L2) else Inl (Conflict ''idempotency key reused''))"
proof -
  from publish_recorded [OF assms(2, 1)] obtain v where
    v: "find_mutation (rq_ns rq) (rq_mutation rq) L1 = Some v" "nv_fingerprint v = fp"
      "from_row v True = m\<lparr>mr_replay := True\<rparr>" .
  have "ledger_ok L1" using publish_ok assms(1-3) by blast
  then have "find_mutation (rq_ns rq') (rq_mutation rq') L2 = Some v"
    using find_mutation_extends [OF steps_extends [OF assms(4)] v(1)] assms(5, 6) by simp
  then show ?thesis using v(2, 3) assms(7) by (auto simp: publish_prior)
qed

lemma exactly_once_witness:
  "publish ex_no_images ex_create (ex_request 5 ''notes/a.md'') ex_fp (ex_fresh 3 CHR ''c'') ex_moved ex_moved ex_moved
     = Inr ((from_row ex_rev1 False)\<lparr>mr_replay := True\<rparr>, ex_moved)
   \<and> publish ex_no_images ex_move (ex_request 5 ''notes/b.md'') ''another'' (ex_fresh 3 CHR ''c'') ex_moved ex_moved ex_moved
     = Inl (Conflict ''idempotency key reused'')"
proof -
  have steps: "ledger_steps ex_created ex_moved" using ex_steps(3) by (rule r_into_rtranclp)
  have stored: "payload_stored ex_create (rq_ns (ex_request 5 ''notes/a.md'')) ex_stored" by simp
  have free: "allocate_revision_id (fr_tokens (ex_fresh 3 CHR ''c'')) ex_moved = Inr (ex_token CHR ''c'')"
    by (simp add: allocate_revision_id_def ex_fresh_def ex_moved_def ex_rev1_def ex_rev2_def new_revision_def)
  have "length ex_fp = 64" by (simp add: ex_fp_def)
  moreover have "length ''another'' \<noteq> 64" by simp
  ultimately have other: "''another'' \<noteq> ex_fp" by metis
  note once = exactly_once [OF ex_ok(2) ex_publish(1) stored steps _ _ free]
  show ?thesis using once [of "ex_request 5 ''notes/a.md''"] once [of "ex_request 5 ''notes/b.md''" ] other by simp
qed

section \<open>No lost updates\<close>

lemma chained_parent:
  "chained p vs \<Longrightarrow> v \<in> set vs \<Longrightarrow> nv_parent v = p \<or> nv_parent v \<in> Some ` nv_id ` set vs"
  by (induction vs arbitrary: p) auto

lemma history_chained:
  assumes "facts_ok L" and "v \<in> set (l_revisions L)"
  shows "chained None (history_of (nv_resource v) L)"
proof -
  from assms obtain r where "r \<in> set (l_resources L)" "nr_id r = nv_resource v"
    by (auto simp: facts_ok_def revision_ok_def)
  then show ?thesis using assms(1) by (auto simp: facts_ok_def resource_ok_def Let_def)
qed

lemma chained_inj:
  "chained p vs \<Longrightarrow> distinct (map nv_id vs) \<Longrightarrow> p \<notin> Some ` nv_id ` set vs \<Longrightarrow>
   v \<in> set vs \<Longrightarrow> w \<in> set vs \<Longrightarrow> nv_parent v = nv_parent w \<Longrightarrow> v = w"
proof (induction vs arbitrary: p)
  case (Cons x vs)
  have par: "nv_parent y \<noteq> p" if "y \<in> set vs" for y
  proof
    assume "nv_parent y = p"
    then have "p = Some (nv_id x) \<or> p \<in> Some ` nv_id ` set vs"
      using chained_parent [of "Some (nv_id x)" vs y] Cons.prems(1) that by simp
    then show False using Cons.prems(3) by auto
  qed
  show ?case
  proof (cases "v = x \<or> w = x")
    case True
    then show ?thesis using par [of v] par [of w] Cons.prems by auto
  next
    case False
    then show ?thesis using Cons.IH [of "Some (nv_id x)"] Cons.prems by auto
  qed
qed simp

lemma unique_history: "facts_ok L \<Longrightarrow> distinct (map nv_id (history_of rid L))"
  by (simp add: facts_ok_def history_of_def unique_by_def distinct_map_filter)

text \<open>A revision has at most one child.\<close>

lemma one_child:
  assumes "facts_ok L" and "v \<in> set (l_revisions L)" and "w \<in> set (l_revisions L)"
    and "nv_parent v = Some p" and "nv_parent w = Some p"
  shows "v = w"
proof -
  have mem: "\<exists>x\<in>set (l_revisions L). nv_id x = p \<and> nv_resource x = nv_resource y"
    if "y \<in> set (l_revisions L)" "nv_parent y = Some p" for y
    using chained_parent [OF history_chained [OF assms(1) that(1)], of y] that
    by (auto simp: history_of_def)
  from mem assms(2, 4) obtain x where x: "x \<in> set (l_revisions L)" "nv_id x = p" "nv_resource x = nv_resource v" by blast
  from mem assms(3, 5) obtain y where y: "y \<in> set (l_revisions L)" "nv_id y = p" "nv_resource y = nv_resource w" by blast
  have "x = y" using x y assms(1) unique_by_key_eq [of nv_id "l_revisions L" x y] by (simp add: facts_ok_def)
  then have r: "nv_resource w = nv_resource v" using x y by simp
  show ?thesis
    by (rule chained_inj [OF history_chained [OF assms(1, 2)] unique_history [OF assms(1)]])
       (use assms r in \<open>auto simp: history_of_def\<close>)
qed

lemma fresh_revision_added:
  assumes "committed_as m e rq fp L L'"
  shows "ef_revision e \<in> set (l_revisions L')" and "ef_revision e \<notin> set (l_revisions L)"
    and "set (l_revisions L) \<subseteq> set (l_revisions L')" and "mr_parent m = nv_parent (ef_revision e)"
  using assms by (auto simp: committed_as_def published_def revision_new_def from_row_def)

text \<open>C6: No update is lost. Once an update on top of revision e has committed, every other new mutation that
  expects e as the current head, of any kind, in any later state and whatever stale state it first read,
  is refused.\<close>

theorem no_lost_update:
  assumes "ledger_ok L" and "publish parse c rq fp fr pre seen L = Inr (m, L1)"
    and "payload_stored c (rq_ns rq) L" and "mr_parent m = Some e" and "ledger_steps L1 L2"
    and "find_mutation (rq_ns rq') (rq_mutation rq') L2 = None" and "expected_revision_of c' = Some e"
    and "payload_stored c' (rq_ns rq') L2"
  shows "\<exists>err. publish parse' c' rq' fp' fr' pre' seen' L2 = Inl err"
proof (rule ccontr)
  assume "\<nexists>err. publish parse' c' rq' fp' fr' pre' seen' L2 = Inl err"
  then obtain m' L3 where p: "publish parse' c' rq' fp' fr' pre' seen' L2 = Inr (m', L3)"
    by (metis sumE surj_pair)
  have ok1: "ledger_ok L1" using publish_ok assms(1-3) by blast
  have ok2: "ledger_ok L2" using ledger_steps_ok [OF assms(5) ok1] .
  from publish_fresh [OF p ok2 assms(6)] assms(7) obtain x where
    x: "committed_as m' x rq' fp' L2 L3" and par: "mr_parent m' = Some e" by blast
  have ok3: "facts_ok L3" using publish_ok [OF p ok2 assms(8)] by (simp add: ledger_ok_def)
  from publish_recorded [OF assms(2, 1)] obtain v where
    r: "find_mutation (rq_ns rq) (rq_mutation rq) L1 = Some v" "from_row v True = m\<lparr>mr_replay := True\<rparr>" .
  then have v: "v \<in> set (l_revisions L1)" "nv_parent v = Some e"
    using assms(4) replayed_fields [OF r(2)] by (auto simp: find_mutation_def dest: find_Some_in)
  then have "v \<in> set (l_revisions L2)" using steps_extends [OF assms(5) ok1] by (auto simp: extends_def)
  then show False
    using one_child [OF ok3, of v "ef_revision x" e] fresh_revision_added [OF x] v par by auto
qed

lemma no_lost_update_witness:
  "\<exists>err. publish ex_no_images (Delete (Some (ex_token CHR ''a'')) None True) (ex_request 7 ''notes/b.md'') ''fp''
     (ex_fresh 3 CHR ''c'') ex_moved ex_moved ex_moved = Inl err"
proof (rule no_lost_update [OF ex_ok(3) ex_publish(2) _ _ rtranclp.rtrancl_refl])
  show "mr_parent (from_row ex_rev2 False) = Some (ex_token CHR ''a'')"
    by (simp add: from_row_def ex_rev2_def new_revision_def)
  show "find_mutation (rq_ns (ex_request 7 ''notes/b.md'')) (rq_mutation (ex_request 7 ''notes/b.md'')) ex_moved = None"
    by (simp add: find_mutation_def ex_moved_def ex_rev1_def ex_rev2_def new_revision_def ex_request_def)
qed (simp_all add: expected_revision_of_def payload_stored_def ex_move_def)

end
