(* ===== verification/LedgerReads.thy ===== *)
theory LedgerReads
  imports LedgerProps
begin

text \<open>
  What readers of the ledger see: references, history, verified bodies and the bulk read.
\<close>

section \<open>History\<close>

lemma find_by_id:
  assumes "unique_by nv_id revs" and "v \<in> set revs" and "nv_resource v = rid"
  shows "find (\<lambda>x. nv_resource x = rid \<and> nv_id x = nv_id v) revs = Some v"
proof (cases "find (\<lambda>x. nv_resource x = rid \<and> nv_id x = nv_id v) revs")
  case None
  then show ?thesis using assms(2, 3) by (auto simp: find_None_iff)
next
  case (Some x)
  then have "x \<in> set revs" "nv_id x = nv_id v" by (auto dest: find_Some_in)
  then show ?thesis using Some assms(1, 2) unique_by_key_eq [of nv_id revs x v] by simp
qed

lemma ancestors_chain:
  assumes "unique_by nv_id revs"
  shows "chained None h \<Longrightarrow> \<forall>v\<in>set h. v \<in> set revs \<and> nv_resource v = rid \<Longrightarrow>
     ancestors n revs rid (if h = [] then None else Some (nv_id (last h))) = take n (rev h)"
proof (induction h arbitrary: n rule: rev_induct)
  case Nil
  then show ?case by (cases n) simp_all
next
  case (snoc v h)
  have f: "find (\<lambda>x. nv_resource x = rid \<and> nv_id x = nv_id v) revs = Some v"
    using find_by_id [OF assms, of v rid] snoc.prems(2) by simp
  have c: "chained None h" "nv_parent v = (if h = [] then None else Some (nv_id (last h)))"
    using snoc.prems(1) by (simp_all add: chained_snoc)
  show ?case
  proof (cases n)
    case (Suc k)
    show ?thesis using snoc.IH [OF c(1), of k] snoc.prems(2) by (simp add: Suc f c(2))
  qed simp
qed

text \<open>C20: The history of a resource is complete and causal: it lists the resource's revisions, all of them up to
  the limit, newest first, from the head back to the creation, each the parent of the one before it. A limit
  below one still returns the head.\<close>

theorem history_is_lineage:
  assumes "ledger_ok L" and "lock_resource rid L = Some r"
  shows "list_history_rows rid limit L = take (nat (max 1 limit)) (rev (history_of rid L))
     \<and> nr_head r = Some (nv_id (last (history_of rid L)))
     \<and> nv_parent (hd (history_of rid L)) = None
     \<and> chained None (history_of rid L)"
proof -
  have f: "facts_ok L" using assms(1) by (simp add: ledger_ok_def)
  have r: "r \<in> set (l_resources L)" "nr_id r = rid" using assms(2) by (auto simp: lock_resource_def dest: tab_get_Some)
  then have ok: "history_of rid L \<noteq> []" "chained None (history_of rid L)"
    "nr_head r = Some (nv_id (last (history_of rid L)))"
    using f by (auto simp: facts_ok_def resource_ok_def Let_def)
  have u: "unique_by nv_id (l_revisions L)" using f by (simp add: facts_ok_def)
  have mem: "\<forall>v\<in>set (history_of rid L). v \<in> set (l_revisions L) \<and> nv_resource v = rid"
    by (simp add: history_of_def)
  have "ancestors (Suc (nat (limit - 1))) (l_revisions L) rid (nr_head r)
      = take (Suc (nat (limit - 1))) (rev (history_of rid L))"
    using ancestors_chain [OF u ok(2) mem, of "Suc (nat (limit - 1))"] ok(1, 3) by (simp del: ancestors.simps)
  moreover have "Suc (nat (limit - 1)) = nat (max 1 limit)" by simp
  moreover have "nv_parent (hd (history_of rid L)) = None" using ok(1, 2) by (cases "history_of rid L") simp_all
  ultimately show ?thesis using ok assms(2) by (simp add: list_history_rows_def del: ancestors.simps)
qed

lemma ex_lock_row:
  "lock_resource 1 ex_created = Some (ex_row ''notes/a.md'' (ex_token CHR ''a''))"
  "lock_resource 1 ex_moved = Some (ex_row ''notes/b.md'' (ex_token CHR ''b''))"
  by (simp_all add: lock_resource_def tab_get_def ex_created_def ex_moved_def ex_row_def)

lemma ex_history: "history_of 1 ex_moved = [ex_rev1, ex_rev2]"
  by (simp add: history_of_def ex_moved_def ex_rev1_def ex_rev2_def new_revision_def)

lemma history_is_lineage_witness:
  "list_history_rows 1 10 ex_moved = [ex_rev2, ex_rev1] \<and> list_history_rows 1 0 ex_moved = [ex_rev2]"
  using history_is_lineage [OF ex_ok(4) ex_lock_row(2), of 10] history_is_lineage [OF ex_ok(4) ex_lock_row(2), of 0]
  by (simp add: ex_history)

section \<open>References\<close>

definition named_by :: "uuid \<Rightarrow> string \<Rightarrow> string \<Rightarrow> ledger \<Rightarrow> resource_row set" where
  "named_by ns surface reference L = {r. live_in ns surface r L \<and> names reference r L}"

lemma live_in_live: "live_in ns s r L \<longleftrightarrow> r \<in> live L \<and> nr_ns r = ns \<and> nr_surface r = s"
  by (auto simp: live_in_def live_def)

text \<open>A path names at most one live resource, by itself or through an alias.\<close>

lemma path_names_one:
  assumes "ledger_ok L" and "live_in ns s r L" and "live_in ns s r' L"
    and "nr_path r = p \<or> has_live_alias p L r" and "nr_path r' = p \<or> has_live_alias p L r'"
  shows "r = r'"
proof -
  have n: "names_ok L" "facts_ok L" using assms(1) by (simp_all add: ledger_ok_def)
  have al: "\<exists>a\<in>set (live_aliases L). al_ns a = ns \<and> al_path a = p \<and> al_resource a = nr_id x"
    if "live_in ns s x L" "has_live_alias p L x" for x
    using that by (auto simp: has_live_alias_def list_ex_iff live_aliases_def live_in_def)
  have no: "\<not> (nr_path x = p \<and> has_live_alias p L y)" if xy: "live_in ns s x L" "live_in ns s y L" for x y
  proof
    assume *: "nr_path x = p \<and> has_live_alias p L y"
    then obtain a where "a \<in> set (live_aliases L)" "al_ns a = ns" "al_path a = p" using al [OF xy(2)] by blast
    then show False using names_apart [OF n(1), of a x] xy(1) * by (simp add: live_in_live)
  qed
  consider "nr_path r = p" "nr_path r' = p" | "has_live_alias p L r" "has_live_alias p L r'"
    using assms(2-5) no by blast
  then show ?thesis
  proof cases
    case 1
    then show ?thesis using n(1) assms(2, 3) by (auto simp: names_ok_def live_in_live)
  next
    case 2
    from al [OF assms(2) 2(1)] obtain a where a: "a \<in> set (live_aliases L)" "al_ns a = ns" "al_path a = p"
      "al_resource a = nr_id r" by blast
    from al [OF assms(3) 2(2)] obtain b where b: "b \<in> set (live_aliases L)" "al_ns b = ns" "al_path b = p"
      "al_resource b = nr_id r'" by blast
    have "unique_by (\<lambda>a. (al_ns a, al_path a)) (live_aliases L)" using n(1) by (simp add: names_ok_def)
    from unique_by_key_eq [OF this a(1) b(1)] a b have "nr_id r = nr_id r'" by simp
    then show ?thesis using live_unique [OF n(2)] assms(2, 3) by (simp add: live_in_live)
  qed
qed

lemma path_candidate_None:
  "path_candidate ns s p L = None \<Longrightarrow> live_in ns s r L \<Longrightarrow> \<not> (nr_path r = p \<or> has_live_alias p L r)"
  by (auto simp: path_candidate_def Let_def find_None_iff live_in_def split: option.splits)

lemma id_candidate:
  assumes "facts_ok L"
  shows "find (\<lambda>r. nr_ns r = ns \<and> nr_surface r = s \<and> nr_id r = i \<and> nr_lifecycle r = ''live'') (l_resources L) = Some r
     \<longleftrightarrow> live_in ns s r L \<and> nr_id r = i"
proof
  assume "find (\<lambda>r. nr_ns r = ns \<and> nr_surface r = s \<and> nr_id r = i \<and> nr_lifecycle r = ''live'') (l_resources L) = Some r"
  then show "live_in ns s r L \<and> nr_id r = i" by (auto simp: live_in_def dest: find_Some_in)
next
  assume r: "live_in ns s r L \<and> nr_id r = i"
  then have "find (\<lambda>r. nr_ns r = ns \<and> nr_surface r = s \<and> nr_id r = i \<and> nr_lifecycle r = ''live'') (l_resources L) \<noteq> None"
    by (auto simp: find_None_iff live_in_def)
  then obtain x where x: "find (\<lambda>r. nr_ns r = ns \<and> nr_surface r = s \<and> nr_id r = i \<and> nr_lifecycle r = ''live'')
      (l_resources L) = Some x" by blast
  then have "x \<in> set (l_resources L)" "nr_id x = i" by (auto dest: find_Some_in)
  then have "x = r" using r assms unique_by_key_eq [of nr_id "l_resources L" x r]
    by (simp add: facts_ok_def live_in_def)
  then show "find (\<lambda>r. nr_ns r = ns \<and> nr_surface r = s \<and> nr_id r = i \<and> nr_lifecycle r = ''live'') (l_resources L) = Some r"
    using x by simp
qed

lemma resolve_cases:
  assumes "ledger_ok L"
  shows "case resolve_live_reference ns s ref L of
       Inl e \<Rightarrow> e = Conflict ''ambiguous reference'' \<and> (\<exists>x y. x \<in> named_by ns s ref L \<and> y \<in> named_by ns s ref L \<and> x \<noteq> y)
     | Inr None \<Rightarrow> named_by ns s ref L = {}
     | Inr (Some r) \<Rightarrow> named_by ns s ref L = {r}"
proof -
  have f: "facts_ok L" using assms by (simp add: ledger_ok_def)
  define ids where "ids = {r. live_in ns s r L \<and> parse_uuid ref = Some (nr_id r)}"
  define ps where "ps = {r. live_in ns s r L \<and> (nr_path r = ref \<or> has_live_alias ref L r)}"
  have N: "named_by ns s ref L = ids \<union> ps" by (auto simp: named_by_def names_def ids_def ps_def)
  have p: "case path_candidate ns s ref L of None \<Rightarrow> ps = {} | Some r \<Rightarrow> ps = {r}"
  proof (cases "path_candidate ns s ref L")
    case None
    then show ?thesis using path_candidate_None [OF None] by (auto simp: ps_def)
  next
    case (Some r)
    then have "r \<in> ps" using path_candidate_Some [OF Some] by (simp add: ps_def)
    moreover from this have "x = r" if "x \<in> ps" for x
      using that path_names_one [OF assms, of ns s x r ref] by (simp add: ps_def)
    ultimately have "ps = {r}" by blast
    then show ?thesis using Some by simp
  qed
  define idc where "idc = (case parse_uuid ref of None \<Rightarrow> None
             | Some rid \<Rightarrow> find (\<lambda>r. nr_ns r = ns \<and> nr_surface r = s \<and> nr_id r = rid
                                      \<and> nr_lifecycle r = ''live'') (l_resources L))"
  have "ids = {r. idc = Some r}"
  proof (cases "parse_uuid ref")
    case (Some rid)
    then show ?thesis by (auto simp: idc_def ids_def id_candidate [OF f])
  qed (simp add: idc_def ids_def)
  then have i: "case idc of None \<Rightarrow> ids = {} | Some r \<Rightarrow> ids = {r}" by (simp split: option.splits)
  have res: "resolve_live_reference ns s ref L =
      (case (idc, path_candidate ns s ref L) of
           (Some i, Some p) \<Rightarrow> if nr_id i \<noteq> nr_id p then Inl (Conflict ''ambiguous reference'') else Inr (Some i)
         | (Some i, None) \<Rightarrow> Inr (Some i)
         | (None, p) \<Rightarrow> Inr p)"
    by (simp add: resolve_live_reference_def idc_def Let_def)
  have same: "x = y" if "x \<in> ids" "y \<in> ps" "nr_id x = nr_id y" for x y
    using that live_unique [OF f, of x y] by (simp add: ids_def ps_def live_in_live)
  show ?thesis
    using p i same unfolding res N by (cases idc; cases "path_candidate ns s ref L") auto
qed

lemma resolve_facts:
  assumes "ledger_ok L"
  shows "(resolve_live_reference ns s ref L = Inr None \<longleftrightarrow> named_by ns s ref L = {})
    \<and> (resolve_live_reference ns s ref L = Inr (Some r) \<longleftrightarrow> named_by ns s ref L = {r})
    \<and> (resolve_live_reference ns s ref L = Inl e \<longleftrightarrow>
         e = Conflict ''ambiguous reference'' \<and> (\<exists>x y. x \<in> named_by ns s ref L \<and> y \<in> named_by ns s ref L \<and> x \<noteq> y))"
proof (cases "resolve_live_reference ns s ref L")
  case (Inl e')
  then have "e' = Conflict ''ambiguous reference''"
    and xy: "\<exists>x y. x \<in> named_by ns s ref L \<and> y \<in> named_by ns s ref L \<and> x \<noteq> y"
    using resolve_cases [OF assms, of ns s ref] by simp_all
  moreover have "named_by ns s ref L \<noteq> {}" "named_by ns s ref L \<noteq> {r}" using xy by auto
  ultimately show ?thesis using Inl by auto
next
  case (Inr m)
  then show ?thesis using resolve_cases [OF assms, of ns s ref] by (cases m) auto
qed

text \<open>C18: A reference means one resource or none: it resolves to a live resource exactly when that resource is the
  only one of the namespace and surface it names, by id, current path or live alias; nothing when it names
  none; and it is refused as ambiguous exactly when it names two.\<close>

theorem reference_resolution:
  assumes "ledger_ok L"
  shows "(resolve_live_reference ns s ref L = Inr None \<longleftrightarrow> named_by ns s ref L = {})
    \<and> (resolve_live_reference ns s ref L = Inr (Some r) \<longleftrightarrow> named_by ns s ref L = {r})
    \<and> (resolve_live_reference ns s ref L = Inl e \<longleftrightarrow>
         e = Conflict ''ambiguous reference'' \<and> (\<exists>x y. x \<in> named_by ns s ref L \<and> y \<in> named_by ns s ref L \<and> x \<noteq> y))"
  by (rule resolve_facts [OF assms])

lemma reference_resolution_witness:
  "resolve_live_reference 10 ''document'' ''notes/none.md'' ex_moved = Inr None
   \<and> resolve_live_reference 10 ''document'' ''notes/a.md'' ex_moved
       = Inr (Some (ex_row ''notes/b.md'' (ex_token CHR ''b'')))"
proof -
  have "parse_uuid ''notes/none.md'' = None" by code_simp
  then have "named_by 10 ''document'' ''notes/none.md'' ex_moved = {}"
    by (auto simp: named_by_def names_def live_in_def has_live_alias_def ex_moved_def ex_row_def)
  moreover have "named_by 10 ''document'' ''notes/a.md'' ex_moved = {ex_row ''notes/b.md'' (ex_token CHR ''b'')}"
    by (auto simp: named_by_def names_def live_in_def has_live_alias_def ex_moved_def ex_row_def)
  ultimately show ?thesis
    using reference_resolution [OF ex_ok(4), of 10 "''document''" "''notes/none.md''"]
      reference_resolution [OF ex_ok(4), of 10 "''document''" "''notes/a.md''"] by simp
qed

lemma named_by_path:
  assumes "ledger_ok L" and "live_in ns s r L" and "nr_path r = p \<or> has_live_alias p L r" and "parse_uuid p = None"
  shows "resolve_live_reference ns s p L = Inr (Some r)"
proof -
  have "x = r" if "x \<in> named_by ns s p L" for x
    using that path_names_one [OF assms(1), of ns s x r p] assms(2-4) by (auto simp: named_by_def names_def)
  moreover have "r \<in> named_by ns s p L" using assms(2, 3) by (auto simp: named_by_def names_def)
  ultimately have "named_by ns s p L = {r}" by blast
  then show ?thesis using resolve_facts [OF assms(1), of ns s p r] by simp
qed

text \<open>C19: A move leaves no dangling link: right after it both the new path and the old one resolve to the moved
  resource, at its new head (when neither path has the shape of a UUID, which could also be another's id).\<close>

theorem moved_path_resolves:
  assumes "ledger_ok L" and "publish_move parse rq path_to fp ev er fr pre seen L = Inr (m, L')"
    and "find_mutation (rq_ns rq) (rq_mutation rq) L = None"
    and "lock_resource (mr_resource m) L = Some r"
    and "parse_uuid (nr_path r) = None" and "parse_uuid path_to = None"
  shows "\<exists>r'. resolve_live_reference (rq_ns rq) (rq_surface rq) (nr_path r) L' = Inr (Some r')
           \<and> resolve_live_reference (rq_ns rq) (rq_surface rq) path_to L' = Inr (Some r')
           \<and> nr_id r' = nr_id r \<and> nr_path r' = path_to \<and> nr_head r' = Some (mr_revision m)"
proof (rule move_effect [OF assms(2, 3) ledger_ok_keys [OF assms(1)]], goal_cases)
  case (1 rev_id r0 v h source)
  have ok': "ledger_ok L'" by (rule move_ok [OF assms(2, 1)])
  note rr = lock_live_reference_Inr [OF 1(1) ledger_ok_keys [OF assms(1)]]
  have r0: "r0 = r" using assms(4) rr(1) 1(8, 9) by (simp add: from_row_def)
  define row where "row = head_row r v ''live''"
  have row: "row \<in> set (l_resources L')"
    using 1(12) set_put_resource [OF ledger_ok_keys [OF assms(1)]] by (simp add: published_def row_def r0)
  have lr: "live_in (rq_ns rq) (rq_surface rq) row L'" using row rr(2) by (simp add: live_in_def row_def r0)
  have "has_live_alias (nr_path r) L' row"
    using 1(12) rr(2) by (auto simp: has_live_alias_def published_def row_def r0 live_in_def)
  moreover have "nr_path row = path_to" "nr_id row = nr_id r" "nr_head row = Some (mr_revision m)"
    using 1(8, 9) by (simp_all add: row_def from_row_def)
  ultimately show ?case using named_by_path [OF ok' lr] assms(5, 6) by blast
qed

lemma moved_path_resolves_witness:
  "\<exists>r'. resolve_live_reference 10 ''document'' ''notes/a.md'' ex_moved = Inr (Some r')
      \<and> resolve_live_reference 10 ''document'' ''notes/b.md'' ex_moved = Inr (Some r')
      \<and> nr_id r' = 1 \<and> nr_path r' = ''notes/b.md'' \<and> nr_head r' = Some (ex_token CHR ''b'')"
proof -
  have "lock_resource (mr_resource (from_row ex_rev2 False)) ex_created = Some (ex_row ''notes/a.md'' (ex_token CHR ''a''))"
    "mr_revision (from_row ex_rev2 False) = ex_token CHR ''b''"
    using ex_lock_row(1) by (simp_all add: from_row_def ex_rev2_def new_revision_def)
  moreover have "find_mutation (rq_ns (ex_request 6 ''notes/a.md'')) (rq_mutation (ex_request 6 ''notes/a.md'')) ex_created = None"
    by (simp add: find_mutation_def ex_created_def ex_rev1_def new_revision_def ex_request_def)
  ultimately show ?thesis
    using moved_path_resolves [OF ex_ok(3) ex_move_eval, of "ex_row ''notes/a.md'' (ex_token CHR ''a'')"]
    by (simp add: ex_row_def)
qed

section \<open>Bodies\<close>

lemma store_of_placement:
  "payload_store_for_placement p = Inr store \<Longrightarrow> store_placement store = p \<Longrightarrow> read_store st p = Inr store"
  by (cases st; cases store) (auto simp: read_store_def store_placement_def)

text \<open>A row whose manifest is in the ledger reads back as the bytes of the manifest's body.\<close>

lemma snapshot_reads:
  assumes "ledger_ok L" and "jr_manifest row = Some m" and "m \<in> set (l_manifests L)"
    and "b \<in> set (l_bodies L)" and "pb_id b = nm_locator m"
  shows "\<exists>cps. utf8_decode (pb_bytes b) = Some cps
           \<and> snapshot_from_row st path L row = Inr (snapshot_of row path m (pb_bytes b) cps)"
proof -
  have f: "bodies_ok (l_bodies L)" "manifest_ok L m" using assms(1, 3) by (simp_all add: ledger_ok_def facts_ok_def)
  from f(2) obtain b' where "b' \<in> set (l_bodies L)" and m: "body_of_manifest b' m" by (auto simp: manifest_ok_def)
  moreover have "unique_by pb_id (l_bodies L)" using f(1) by (simp add: bodies_ok_def)
  ultimately have "b' = b" using assms(4, 5) unique_by_key_eq [of pb_id "l_bodies L" b' b] by (simp add: body_of_manifest_def)
  with m have m: "body_of_manifest b m" by simp
  have ok: "body_ok b" using f(1) assms(4) by (simp add: bodies_ok_def list_all_iff)
  then obtain cps where t: "utf8_decode (pb_bytes b) = Some cps" by (auto simp: body_ok_def)
  have "verify_snapshot_payload (pb_bytes b) m = Inr cps"
    using ok m t by (simp add: verify_snapshot_payload_def body_ok_def body_of_manifest_def)
  moreover obtain store where "read_store st (nm_placement m) = Inr store"
    and "open_verified store (nm_locator m) (l_bodies L) = Inr (pb_bytes b)"
    using open_by_placement [OF f(1) assms(4)] store_of_placement m assms(5)
    by (metis body_of_manifest_def)
  ultimately show ?thesis using assms(2) t by (simp add: snapshot_from_row_def)
qed

lemma filter_key:
  "unique_by f xs \<Longrightarrow> x \<in> set xs \<Longrightarrow> P x \<Longrightarrow> filter (\<lambda>y. P y \<and> f y = f x) xs = [x]"
proof (induction xs)
  case (Cons y ys)
  then have y: "f y \<notin> f ` set ys" "unique_by f ys" by (simp_all add: unique_by_def)
  show ?case
  proof (cases "x = y")
    case True
    then have "filter (\<lambda>z. P z \<and> f z = f x) ys = []" using y(1) by (auto simp: filter_empty_conv image_iff)
    then show ?thesis using True Cons.prems(3) by simp
  next
    case False
    then have "x \<in> set ys" using Cons.prems(2) by simp
    moreover from this have "f y \<noteq> f x" using y(1) by auto
    ultimately show ?thesis using Cons.IH [OF y(2)] Cons.prems(3) by simp
  qed
qed simp

lemma get_revision_row_exact:
  assumes "facts_ok L" and "v \<in> set (l_revisions L)" and "lock_resource (nv_resource v) L = Some r"
  shows "get_revision_row (nv_resource v) (nv_id v) L =
     Inr (Some \<lparr>jr_resource = r, jr_revision = v, jr_manifest = manifest_of v L\<rparr>)"
proof -
  have sel: "selects (nv_id v) x \<longleftrightarrow> x = nv_id v" for x
    using assms(1, 2) by (auto simp: selects_def facts_ok_def revision_ok_def revision_check_def)
  have "unique_by nv_id (l_revisions L)" using assms(1) by (simp add: facts_ok_def)
  from filter_key [OF this assms(2), of "\<lambda>x. nv_resource x = nv_resource v"]
  show ?thesis using assms(3) by (simp add: get_revision_row_def sel)
qed

text \<open>The head of a live resource: its revision, with the manifest and the body behind it.\<close>

lemma revision_body:
  assumes "ledger_ok L" and "v \<in> set (l_revisions L)" and "nv_manifest v = Some i"
  obtains m b where "manifest_of v L = Some m" and "m \<in> set (l_manifests L)" and "b \<in> set (l_bodies L)"
    and "pb_id b = nm_locator m" and "tab_get nm_id i (l_manifests L) = Some m" and "body_of_manifest b m"
proof -
  have f: "facts_ok L" using assms(1) by (simp add: ledger_ok_def)
  then have "revision_ok L v" using assms(2) by (simp add: facts_ok_def)
  then obtain m where m: "tab_get nm_id i (l_manifests L) = Some m" using assms(3) by (auto simp: revision_ok_def)
  then have "m \<in> set (l_manifests L)" by (auto dest: tab_get_Some)
  moreover from this have "manifest_ok L m" using f by (simp add: facts_ok_def)
  then obtain b where "b \<in> set (l_bodies L)" "body_of_manifest b m" by (auto simp: manifest_ok_def)
  ultimately show thesis using that m assms(3) by (simp add: manifest_of_def body_of_manifest_def)
qed

lemma committed_reads:
  assumes "ledger_ok L" and "v \<in> set (l_revisions L)" and "nv_manifest v = Some i"
    and "lock_resource (nv_resource v) L = Some r"
  shows "get_resource_revision st (nv_ns v) (nr_surface r) (nv_resource v) (nv_id v) L =
      snapshot_from_row st (nv_path v) L \<lparr>jr_resource = r, jr_revision = v, jr_manifest = manifest_of v L\<rparr>"
proof -
  have f: "facts_ok L" using assms(1) by (simp add: ledger_ok_def)
  then have "length (nv_id v) = 40 \<and> hex_chars (nv_id v)"
    using assms(2) by (simp add: facts_ok_def revision_ok_def revision_check_def)
  then show ?thesis
    using get_revision_row_exact [OF f assms(2, 4)] assms(3)
    by (simp add: get_resource_revision_def committed_snapshot_def validate_expected_revision_def)
qed

lemma head_revision:
  assumes "ledger_ok L" and "r \<in> live L"
  obtains v i where "v \<in> set (l_revisions L)" and "nv_resource v = nr_id r" and "nr_head r = Some (nv_id v)"
    and "nv_path v = nr_path r" and "nv_ns v = nr_ns r" and "nv_manifest v = Some i"
    and "lock_resource (nr_id r) L = Some r" and "find (\<lambda>x. nv_resource x = nr_id r \<and> nr_head r = Some (nv_id x)) (l_revisions L) = Some v"
proof -
  have f: "facts_ok L" using assms(1) by (simp add: ledger_ok_def)
  have r: "r \<in> set (l_resources L)" "nr_lifecycle r = ''live''" using assms(2) by (simp_all add: live_def)
  define v where "v = last (history_of (nr_id r) L)"
  have ro: "resource_ok L r" using f r by (simp add: facts_ok_def)
  then have "v \<in> set (history_of (nr_id r) L)" by (simp add: resource_ok_def Let_def v_def)
  then have v: "v \<in> set (l_revisions L)" "nv_resource v = nr_id r" by (simp_all add: history_of_def)
  have hd: "nr_head r = Some (nv_id v)" "nv_path v = nr_path r" "nv_ns v = nr_ns r" "nv_action v \<noteq> ''delete''"
    using ro r(2) by (auto simp: resource_ok_def Let_def v_def lifecycle_after_def split: if_splits)
  have "action_shape v" using f v(1) by (simp add: facts_ok_def revision_ok_def revision_check_def)
  then obtain i where "nv_manifest v = Some i" using hd(4) by (auto simp: action_shape_def)
  moreover have "find (\<lambda>x. nv_resource x = nr_id r \<and> nr_head r = Some (nv_id x)) (l_revisions L) = Some v"
    using find_by_id [of "l_revisions L" v "nr_id r"] f v hd(1) by (simp add: facts_ok_def eq_commute)
  moreover have "lock_resource (nr_id r) L = Some r"
    using f r(1) tab_get_unique [of nr_id "l_resources L" r] by (simp add: facts_ok_def lock_resource_def)
  ultimately show thesis using that v hd by blast
qed

lemma current_is_head:
  assumes "ledger_ok L" and "r \<in> live L" and "nr_head r = Some h"
  shows "get_current_resource st (nr_ns r) (nr_surface r) (nr_id r) L =
         get_resource_revision st (nr_ns r) (nr_surface r) (nr_id r) h L"
proof (rule head_revision [OF assms(1, 2)], goal_cases)
  case (1 v i)
  have "get_resource_head (nr_id r) L = Some \<lparr>jr_resource = r, jr_revision = v, jr_manifest = manifest_of v L\<rparr>"
    using 1(7, 8) by (simp add: get_resource_head_def join_head_def)
  moreover have "nr_lifecycle r = ''live''" using assms(2) by (simp add: live_def)
  ultimately show ?case
    using committed_reads [OF assms(1) 1(1, 6), of r st] 1 assms(3) by (simp add: get_current_resource_def)
qed

section \<open>What a write leaves behind\<close>

definition written :: "prepared \<Rightarrow> request \<Rightarrow> mutation_result \<Rightarrow> revision_row \<Rightarrow> ledger \<Rightarrow> bool" where
  "written pp rq m v L \<longleftrightarrow>
     v \<in> set (l_revisions L) \<and> m = from_row v False \<and> nv_ns v = rq_ns rq
     \<and> (\<exists>i r. nv_manifest v = Some i \<and> tab_get nm_id i (l_manifests L) = Some (manifest_for pp v i)
            \<and> lock_resource (nv_resource v) L = Some r \<and> nr_surface r = rq_surface rq \<and> nr_ns r = rq_ns rq
            \<and> r \<in> live L \<and> nr_head r = Some (nv_id v))"

lemma writtenI:
  assumes "published \<lparr>ef_revision = v, ef_row = row, ef_manifests = [manifest_for pp v i], ef_aliases = as\<rparr> L L'"
    and "unique_by nr_id (l_resources L)" and "i \<notin> nm_id ` set (l_manifests L)" and "m = from_row v False"
    and "nv_ns v = rq_ns rq" and "nv_manifest v = Some i" and "nr_id row = nv_resource v"
    and "nr_surface row = rq_surface rq" and "nr_ns row = rq_ns rq" and "nr_lifecycle row = ''live''"
    and "nr_head row = Some (nv_id v)"
  shows "written pp rq m v L'"
proof -
  have "tab_get nm_id i (l_manifests L) = None" using assms(3) by (simp add: tab_get_None_iff)
  then have "tab_get nm_id i (l_manifests L') = Some (manifest_for pp v i)"
    using assms(1) by (simp add: published_def tab_get_append tab_get_Cons)
  moreover have "lock_resource (nv_resource v) L' = Some row"
    using assms(1, 7) by (simp add: published_def lock_resource_def get_put_resource)
  moreover have "row \<in> live L'"
    using assms(1, 10) set_put_resource [OF assms(2)] by (simp add: published_def live_def)
  ultimately show ?thesis using assms by (simp add: written_def published_def)
qed

lemma create_written:
  assumes "publish_create rq pp fp req ids allow fr pre L = Inr (m, L')" and "ledger_ok L" and "\<not> mr_replay m"
  shows "\<exists>v. written pp rq m v L'"
proof (cases "find_mutation (rq_ns rq) (rq_mutation rq) L")
  case None
  show ?thesis
    by (rule publish_create_effect [OF assms(1) None], rule exI, rule writtenI, assumption)
       (simp_all add: ledger_ok_keys [OF assms(2)])
next
  case (Some p)
  then show ?thesis using assms(1, 3)
    by (auto simp: publish_create_def replay_or_def Let_def result_iff from_row_def split: if_splits)
qed

lemma replace_written:
  assumes "publish_replace parse rq pp fp ev er ids ps st fr pre seen L = Inr (m, L')" and "ledger_ok L"
    and "\<not> mr_replay m"
  shows "\<exists>v. written pp rq m v L'"
proof (cases "find_mutation (rq_ns rq) (rq_mutation rq) L")
  case None
  show ?thesis
  proof (rule replace_effect [OF assms(1) None ledger_ok_keys [OF assms(2)]], goal_cases)
    case (1 rev_id r v)
    have "live_in (rq_ns rq) (rq_surface rq) r L"
      by (rule lock_live_reference_Inr(2) [OF 1(1) ledger_ok_keys [OF assms(2)]])
    then show ?case using 1(3-5)
      by (intro exI, rule_tac writtenI [OF 1(6) ledger_ok_keys [OF assms(2)]]) (simp_all add: live_in_def)
  qed
next
  case (Some p)
  then show ?thesis using assms(1, 3)
    by (auto simp: publish_replace_def replay_or_def Let_def result_iff from_row_def split: if_splits)
qed

lemma restore_written:
  assumes "publish_restore rq pp fp ev rid ids fr pre L = Inr (m, L')" and "ledger_ok L" and "\<not> mr_replay m"
  shows "\<exists>v. written pp rq m v L'"
proof (cases "find_mutation (rq_ns rq) (rq_mutation rq) L")
  case None
  show ?thesis
  proof (rule restore_effect [OF assms(1) None ledger_ok_keys [OF assms(2)]], goal_cases)
    case (1 rev_id r v)
    have "nr_id r = rid" using 1(1) by (auto simp: lock_resource_def dest: tab_get_key)
    then show ?case using 1(2, 3, 8-10)
      by (intro exI, rule_tac writtenI [OF 1(11) ledger_ok_keys [OF assms(2)]]) simp_all
  qed
next
  case (Some p)
  then show ?thesis using assms(1, 3)
    by (auto simp: publish_restore_def replay_or_def Let_def result_iff from_row_def split: if_splits)
qed

text \<open>A written revision reads back as the prepared bytes in every later ledger.\<close>

lemma written_reads:
  assumes "written pp rq m v L1" and "ledger_ok L1" and "b \<in> set (l_bodies L1)" and "pp_id pp = pb_id b"
    and "extends L1 L2" and "ledger_ok L2"
  shows "\<exists>sn. get_resource_revision st (rq_ns rq) (rq_surface rq) (mr_resource m) (mr_revision m) L2 = Inr sn
     \<and> sn_bytes sn = pb_bytes b \<and> utf8_decode (pb_bytes b) = Some (sn_text sn)
     \<and> sn_path sn = mr_path m \<and> sn_action sn = mr_action m \<and> sn_parent sn = mr_parent m"
proof -
  from assms(1) obtain i r where w: "v \<in> set (l_revisions L1)" "m = from_row v False" "nv_ns v = rq_ns rq"
    "nv_manifest v = Some i" "tab_get nm_id i (l_manifests L1) = Some (manifest_for pp v i)"
    "lock_resource (nv_resource v) L1 = Some r" "nr_surface r = rq_surface rq"
    by (auto simp: written_def)
  have r1: "r \<in> set (l_resources L1)" "nr_id r = nv_resource v"
    using w(6) by (auto simp: lock_resource_def dest: tab_get_Some)
  from assms(5) r1(1) obtain r' where r': "r' \<in> set (l_resources L2)" "nr_id r' = nr_id r" "nr_surface r' = nr_surface r"
    by (auto simp: extends_def)
  have l2: "lock_resource (nv_resource v) L2 = Some r'"
    using tab_get_unique [OF ledger_ok_keys [OF assms(6)] r'(1)] r'(2) r1(2) by (simp add: lock_resource_def)
  have v2: "v \<in> set (l_revisions L2)" and b2: "b \<in> set (l_bodies L2)" and
    m2: "tab_get nm_id i (l_manifests L2) = Some (manifest_for pp v i)"
    using assms(3, 5) w(1, 5) by (auto simp: extends_def tab_get_append)
  have mo: "manifest_of v L2 = Some (manifest_for pp v i)" using w(4) m2 by (simp add: manifest_of_def)
  have min: "manifest_for pp v i \<in> set (l_manifests L2)" using m2 by (auto dest: tab_get_Some)
  have "pb_id b = nm_locator (manifest_for pp v i)" using assms(4) by (simp add: manifest_for_def)
  from snapshot_reads [OF assms(6) _ min b2 this, of "\<lparr>jr_resource = r', jr_revision = v, jr_manifest = manifest_of v L2\<rparr>" st "nv_path v"]
  obtain cps where "utf8_decode (pb_bytes b) = Some cps"
    "snapshot_from_row st (nv_path v) L2 \<lparr>jr_resource = r', jr_revision = v, jr_manifest = manifest_of v L2\<rparr> =
     Inr (snapshot_of \<lparr>jr_resource = r', jr_revision = v, jr_manifest = manifest_of v L2\<rparr> (nv_path v)
        (manifest_for pp v i) (pb_bytes b) cps)"
    using mo by auto
  then show ?thesis
    using committed_reads [OF assms(6) v2 w(4) l2, of st] w(2, 3, 7) r'(3)
    by (simp add: from_row_def snapshot_of_def)
qed

lemma transaction_Inr: "transaction L r = (L', Inr m) \<Longrightarrow> r = Inr (m, L')"
  by (auto simp: transaction_def split: sum.splits)

lemma with_prepared_Inr:
  assumes "with_prepared st rq payload ed es fr L k = (L', Inr m)" and "ledger_ok L"
  obtains pp b bodies where "k pp (L\<lparr>l_bodies := bodies\<rparr>) = Inr (m, L')" and "ledger_ok (L\<lparr>l_bodies := bodies\<rparr>)"
    and "b \<in> set bodies" and "pp = prepared_of b" and "pb_ns b = rq_ns rq" and "pb_bytes b = payload_bytes payload"
    and "ledger_step L (L\<lparr>l_bodies := bodies\<rparr>)"
proof -
  from assms(1) obtain pp bodies where p: "prepare_text st (l_cat L) (fr_body fr) (rq_ns rq) payload ed es (l_bodies L) = Inr (pp, bodies)"
    and k: "k pp (L\<lparr>l_bodies := bodies\<rparr>) = Inr (m, L')"
    by (auto simp: with_prepared_def Let_def split: sum.splits dest: transaction_Inr)
  note s = stored_body [OF p]
  have "bodies_ok (l_bodies L)" using assms(2) by (simp add: ledger_ok_def facts_ok_def)
  from prepare_text_row [OF p this] obtain b where "b \<in> set bodies" "pp = prepared_of b" "pb_ns b = rq_ns rq"
    "pb_bytes b = payload_bytes payload" by blast
  then show thesis using that k ledger_step_ok [OF s assms(2)] s by blast
qed

lemma publish_bodies:
  assumes "publish parse c rq fp fr pre seen L = Inr (m, L')" and "ledger_ok L" and "b \<in> set (l_bodies L)"
  shows "b \<in> set (l_bodies L')"
  using publish_extends [OF assms(1, 2)] assms(3) by (auto simp: extends_def)

text \<open>The three text operations that store a body, taken apart: the body, and the revision that pins it.\<close>

lemma text_write:
  assumes "ledger_ok L" and "\<not> mr_replay m"
    and "create_text st parse rq payload res ed es allow fr pre L = (L1, Inr m)
      \<or> replace_text st parse rq payload ev er ed es ps sta fr pre seen L = (L1, Inr m)
      \<or> restore_text st parse rq payload x rid ed es fr pre L = (L1, Inr m)"
  obtains pp v b where "written pp rq m v L1" and "ledger_ok L1" and "b \<in> set (l_bodies L1)"
    and "pp_id pp = pb_id b" and "pb_bytes b = payload_bytes payload"
proof -
  note result = that
  have wrt: thesis if w: "with_prepared st rq payload ed es fr L (\<lambda>pp L. rbind (payload_images parse rq payload)
      (\<lambda>ids. publish parse (c pp ids) rq (fp pp) fr pre seen L)) = (L1, Inr m)"
    and c: "\<And>pp ids L. stored pp (rq_ns rq) L \<Longrightarrow> payload_stored (c pp ids) (rq_ns rq) L"
    and wr: "\<And>pp ids L. publish parse (c pp ids) rq (fp pp) fr pre seen L = Inr (m, L1) \<Longrightarrow> ledger_ok L \<Longrightarrow>
      \<exists>v. written pp rq m v L1" for c fp
  proof (rule with_prepared_Inr [OF w assms(1)], goal_cases)
    case (1 pp b bodies)
    then obtain ids where p: "publish parse (c pp ids) rq (fp pp) fr pre seen (L\<lparr>l_bodies := bodies\<rparr>) = Inr (m, L1)"
      by (auto simp: result_iff)
    have "stored pp (rq_ns rq) (L\<lparr>l_bodies := bodies\<rparr>)" using 1(3-5) by (auto simp: stored_def)
    then have "ledger_ok L1" using publish_ok [OF p 1(2)] c by blast
    moreover have "b \<in> set (l_bodies L1)" using publish_bodies [OF p 1(2)] 1(3) by simp
    moreover obtain v where "written pp rq m v L1" using wr [OF p 1(2)] by blast
    ultimately show ?case using result [of pp v b] 1(4, 6) by (simp add: prepared_of_def)
  qed
  from assms(3) show thesis
  proof (elim disjE)
    assume "create_text st parse rq payload res ed es allow fr pre L = (L1, Inr m)"
    then show thesis
      by (intro wrt [where c = "\<lambda>pp ids. Create pp res ids allow"
            and fp = "\<lambda>pp. fingerprint ''create'' rq pp None res None allow"])
         (auto simp: create_text_def publish_def payload_stored_def split: sum.splits
            dest: create_written [OF _ _ assms(2)])
  next
    assume "replace_text st parse rq payload ev er ed es ps sta fr pre seen L = (L1, Inr m)"
    then show thesis
      by (intro wrt [where c = "\<lambda>pp ids. Replace pp ev er ids ps sta"
            and fp = "\<lambda>pp. fingerprint ''replace'' rq pp ev None er False"])
         (auto simp: replace_text_def publish_def payload_stored_def split: sum.splits
            dest: replace_written [OF _ _ assms(2)])
  next
    assume "restore_text st parse rq payload x rid ed es fr pre L = (L1, Inr m)"
    then show thesis
      by (intro wrt [where c = "\<lambda>pp ids. Restore pp x rid ids"
            and fp = "\<lambda>pp. fingerprint ''replace'' rq pp (Some x) None (Some rid) False"])
         (auto simp: restore_text_def publish_def payload_stored_def split: sum.splits
            dest: restore_written [OF _ _ assms(2)])
  qed
qed

text \<open>C7: What is written stays readable. After create_text, replace_text or restore_text has returned a new
  revision, that revision reads back as exactly the bytes given to the call, through either store and with
  every digest and size check passing, in every ledger the system ever reaches from there, whatever is
  replaced, moved, deleted or stored in between; and right after the call it is the current version.\<close>

theorem written_body_is_permanent:
  assumes "ledger_ok L" and "\<not> mr_replay m"
    and "create_text st parse rq payload res ed es allow fr pre L = (L1, Inr m)
      \<or> replace_text st parse rq payload ev er ed es ps sta fr pre seen L = (L1, Inr m)
      \<or> restore_text st parse rq payload x rid ed es fr pre L = (L1, Inr m)"
    and "ledger_steps L1 L2"
  shows "\<exists>sn. get_resource_revision st' (rq_ns rq) (rq_surface rq) (mr_resource m) (mr_revision m) L2 = Inr sn
     \<and> sn_bytes sn = payload_bytes payload \<and> utf8_decode (payload_bytes payload) = Some (sn_text sn)
     \<and> sn_path sn = mr_path m
     \<and> get_current_resource st' (rq_ns rq) (rq_surface rq) (mr_resource m) L1 =
         get_resource_revision st' (rq_ns rq) (rq_surface rq) (mr_resource m) (mr_revision m) L1"
proof (rule text_write [OF assms(1-3)])
  fix pp v b
  assume w: "written pp rq m v L1" and ok: "ledger_ok L1" and b: "b \<in> set (l_bodies L1)" "pp_id pp = pb_id b"
    "pb_bytes b = payload_bytes payload"
  from written_reads [OF w ok b(1, 2) steps_extends [OF assms(4) ok] ledger_steps_ok [OF assms(4) ok], of st']
  have r: "\<exists>sn. get_resource_revision st' (rq_ns rq) (rq_surface rq) (mr_resource m) (mr_revision m) L2 = Inr sn
     \<and> sn_bytes sn = payload_bytes payload \<and> utf8_decode (payload_bytes payload) = Some (sn_text sn)
     \<and> sn_path sn = mr_path m" using b(3) by auto
  from w obtain r where r0: "m = from_row v False" "lock_resource (nv_resource v) L1 = Some r" "nr_surface r = rq_surface rq"
    "nr_ns r = rq_ns rq" "r \<in> live L1" "nr_head r = Some (nv_id v)" by (auto simp: written_def)
  have "nr_id r = nv_resource v" using r0(2) by (auto simp: lock_resource_def dest: tab_get_key)
  then have "get_current_resource st' (rq_ns rq) (rq_surface rq) (mr_resource m) L1 =
         get_resource_revision st' (rq_ns rq) (rq_surface rq) (mr_resource m) (mr_revision m) L1"
    using current_is_head [OF ok r0(5, 6), of st'] r0(1, 3, 4) by (simp add: from_row_def)
  with r show ?thesis by blast
qed

lemma written_body_is_permanent_witness:
  "\<exists>sn. get_resource_revision RefStore 10 ''document'' 1 (ex_token CHR ''a'') ex_moved = Inr sn
     \<and> sn_bytes sn = [72, 105] \<and> sn_path sn = ''notes/a.md''"
proof -
  have m: "mr_resource (from_row ex_rev1 False) = 1" "mr_revision (from_row ex_rev1 False) = ex_token CHR ''a''"
    "mr_path (from_row ex_rev1 False) = ''notes/a.md''" "\<not> mr_replay (from_row ex_rev1 False)"
    by (simp_all add: from_row_def ex_rev1_def new_revision_def ex_fresh_def)
  have "ledger_steps ex_created ex_moved" using ex_steps(3) by (rule r_into_rtranclp)
  then show ?thesis
    using written_body_is_permanent [OF ex_ok(1) m(4) disjI1 [OF ex_create_text_eval], of ex_moved RefStore]
      m by (auto simp: ex_payload_def payload_bytes_def)
qed

section \<open>The bulk read\<close>

lemma map_res_total: "\<forall>x\<in>set xs. f x = Inr (h x) \<Longrightarrow> map_res f xs = Inr (map h xs)"
  by (induction xs) auto

lemma selected_live:
  "r \<in> set (selected_heads ns s f L) \<Longrightarrow> r \<in> live L \<and> nr_ns r = ns \<and> nr_surface r = s"
  by (auto simp: selected_heads_def head_selected_def live_def Let_def split: option.splits dest!: in_set_takeD)

lemma bulk_row:
  assumes "ledger_ok L" and "r \<in> live L"
  shows "\<exists>v store sn. check_head_row (join_live_head L r) = Inr v \<and> head_store st (join_live_head L r) = Inr store
     \<and> verify_head_row (join_live_head L r, store) = Inr sn
     \<and> get_resource_revision st (nr_ns r) (nr_surface r) (nr_id r) (the (nr_head r)) L = Inr sn"
proof (rule head_revision [OF assms], goal_cases)
  case (1 v i)
  obtain m b where m: "manifest_of v L = Some m" "m \<in> set (l_manifests L)" and b: "b \<in> set (l_bodies L)" "pb_id b = nm_locator m"
    and mb: "body_of_manifest b m" by (rule revision_body [OF assms(1) 1(1, 6)])
  have bo: "bodies_ok (l_bodies L)" using assms(1) by (simp add: ledger_ok_def facts_ok_def)
  have bg: "tab_get pb_id (nm_locator m) (l_bodies L) = Some b"
    using tab_get_unique [of pb_id "l_bodies L" b] bo b by (simp add: bodies_ok_def)
  have j: "join_live_head L r = \<lparr>hj_resource = r, hj_revision = Some v, hj_manifest = Some m, hj_body = Some b\<rparr>"
    by (simp add: join_live_head_def 1(8) m(1) bg)
  from open_by_placement [OF bo b(1)] obtain store where
    store: "payload_store_for_placement (pb_placement b) = Inr store" "store_placement store = pb_placement b"
      "verify_row store b None = Inr (pb_bytes b)" by blast
  then have rs: "read_store st (nm_placement m) = Inr store"
    using store_of_placement [of "nm_placement m"] mb by (simp add: body_of_manifest_def)
  have "body_ok b" using bo b(1) by (simp add: bodies_ok_def list_all_iff)
  moreover from this obtain cps where cps: "utf8_decode (pb_bytes b) = Some cps" by (auto simp: body_ok_def)
  ultimately have vs: "verify_snapshot_payload (pb_bytes b) m = Inr cps"
    using mb by (simp add: verify_snapshot_payload_def body_ok_def body_of_manifest_def)
  let ?row = "\<lparr>jr_resource = r, jr_revision = v, jr_manifest = Some m\<rparr>"
  from snapshot_reads [OF assms(1) _ m(2) b, of ?row st "nv_path v"] cps
  have "snapshot_from_row st (nv_path v) L ?row = Inr (snapshot_of ?row (nv_path v) m (pb_bytes b) cps)" by auto
  then show ?case
    using committed_reads [OF assms(1) 1(1, 6), of r st] 1 m(1) rs store(3) vs
    by (simp add: j check_head_row_def head_store_def verify_head_row_def)
qed

text \<open>C21: The bulk read of the live heads is the per-resource read of each: for every filter, order and limit it
  returns, newest first, exactly the snapshots get_resource_revision returns for the selected heads, and
  neither ever fails on a ledger in order.\<close>

theorem bulk_read_equivalent:
  assumes "ledger_ok L"
  shows "list_live_head_snapshots st ns s f L =
           map_res (\<lambda>r. get_resource_revision st ns s (nr_id r) (the (nr_head r)) L) (selected_heads ns s f L)
         \<and> is_ok (list_live_head_snapshots st ns s f L)"
proof -
  define rs where "rs = selected_heads ns s f L"
  have "\<forall>r\<in>set rs. \<exists>v store sn. check_head_row (join_live_head L r) = Inr v
     \<and> head_store st (join_live_head L r) = Inr store \<and> verify_head_row (join_live_head L r, store) = Inr sn
     \<and> get_resource_revision st ns s (nr_id r) (the (nr_head r)) L = Inr sn"
    using bulk_row [OF assms] selected_live unfolding rs_def by metis
  then obtain v store sn where ok: "\<forall>r\<in>set rs. check_head_row (join_live_head L r) = Inr (v r)
     \<and> head_store st (join_live_head L r) = Inr (store r) \<and> verify_head_row (join_live_head L r, store r) = Inr (sn r)
     \<and> get_resource_revision st ns s (nr_id r) (the (nr_head r)) L = Inr (sn r)"
    by metis
  have rows: "list_live_heads_with_payloads ns s f L = map (join_live_head L) rs"
    by (simp add: list_live_heads_with_payloads_def rs_def)
  have on_map: "map_res g (map (join_live_head L) xs) = map_res (\<lambda>r. g (join_live_head L r)) xs" for g :: "_ \<Rightarrow> _ result" and xs
    by (induction xs) simp_all
  have z: "zip (map (join_live_head L) rs) (map store rs) = map (\<lambda>r. (join_live_head L r, store r)) rs"
    by (induction rs) simp_all
  have "map_res verify_head_row (map (\<lambda>r. (join_live_head L r, store r)) rs) = Inr (map sn rs)"
    using map_res_total [of rs "\<lambda>r. verify_head_row (join_live_head L r, store r)" sn] ok
    by (simp add: map_res_Inr list_all2_map1 list.rel_map)
  moreover have "map_res (\<lambda>r. check_head_row (join_live_head L r)) rs = Inr (map v rs)"
    and "map_res (\<lambda>r. head_store st (join_live_head L r)) rs = Inr (map store rs)"
    and "map_res (\<lambda>r. get_resource_revision st ns s (nr_id r) (the (nr_head r)) L) rs = Inr (map sn rs)"
    using ok by (auto intro: map_res_total)
  ultimately show ?thesis
    by (simp add: list_live_head_snapshots_def Let_def rows on_map z rs_def [symmetric])
qed

definition ex_filter :: head_filter where
  "ex_filter = \<lparr>hf_path_like = None, hf_max_slashes = Some 1, hf_resource_ids = None, hf_paths = None,
     hf_excluded = [], hf_before = None, hf_limit = Some 5\<rparr>"

lemma bulk_read_equivalent_witness:
  "is_ok (list_live_head_snapshots PgStore 10 ''document'' ex_filter ex_moved)
   \<and> list_live_head_snapshots PgStore 10 ''document'' ex_filter ex_moved =
       map_res (\<lambda>r. get_resource_revision PgStore 10 ''document'' (nr_id r) (the (nr_head r)) ex_moved)
         [ex_row ''notes/b.md'' (ex_token CHR ''b'')]"
proof -
  have "selected_heads 10 ''document'' ex_filter ex_moved = [ex_row ''notes/b.md'' (ex_token CHR ''b'')]"
    by (simp add: selected_heads_def head_selected_def ex_filter_def ex_moved_def ex_row_def Let_def)
  then show ?thesis using bulk_read_equivalent [OF ex_ok(4), of PgStore 10 "''document''" ex_filter] by metis
qed

end
