(* ===== verification/Chunker.thy ===== *)
theory Chunker
  imports Prelude
begin

text \<open>
  The chunker of the search index, the pure part of \<^verbatim>\<open>backend/app/services/index_service.py\<close>: the header
  blocks that ride on every chunk, the size-bounded split of a text (\<open>split_large_chunk\<close>), of a text file
  (\<open>chunk_text_body\<close>) and of a Markdown document along its headings (\<open>chunk_markdown\<close>). Shown: the size
  bound the emitted chunks really keep, that no phrase within a paragraph is lost, and what the offsets
  of a chunk mean.
\<close>

section \<open>Chunks and headers\<close>

record chunk =
  ch_section :: string
  ch_content :: string
  ch_index :: nat
  ch_start :: nat
  ch_end :: nat

definition MAX_CHUNK_SIZE :: nat where
  "MAX_CHUNK_SIZE = 1500"

definition OVERLAP :: nat where
  "OVERLAP = 200"

abbreviation newline :: char where
  "newline \<equiv> CHR 0x0A"

abbreviation blank_line :: string where
  "blank_line \<equiv> [newline, newline]"

text \<open>\<open>str(n)\<close> of an int that is not negative.\<close>

fun decimal :: "nat \<Rightarrow> string" where
  "decimal n = (if n < 10 then [char_of (48 + n)] else decimal (n div 10) @ [char_of (48 + n mod 10)])"

declare decimal.simps [simp del]

text \<open>A string that Python counts as true.\<close>

definition truthy :: "string option \<Rightarrow> bool" where
  "truthy s \<longleftrightarrow> s \<noteq> None \<and> s \<noteq> Some ''''"

definition build_doc_metadata_header ::
  "string \<Rightarrow> string \<Rightarrow> string \<Rightarrow> string option \<Rightarrow> string list \<Rightarrow> string option \<Rightarrow> string" where
  "build_doc_metadata_header vault_name path title summary tags doc_type =
     py_join [newline]
       ([''TITLE: '' @ title]
        @ (if truthy summary then [''SUMMARY: '' @ the summary] else [])
        @ (if tags \<noteq> [] then [''TAGS: '' @ py_join '', '' tags] else [])
        @ [''PATH: '' @ vault_name @ ''/'' @ path]
        @ (if truthy doc_type then [''TYPE: '' @ the doc_type] else []))
     @ blank_line"

definition build_file_chunk ::
  "string \<Rightarrow> string \<Rightarrow> string \<Rightarrow> string option \<Rightarrow> nat option \<Rightarrow> string option \<Rightarrow> chunk" where
  "build_file_chunk vault_name collection name mime_type size_bytes description =
     (let content = py_join [newline]
            ([''TITLE: '' @ name, ''TYPE: file'', ''VAULT: '' @ vault_name,
              if collection \<noteq> '''' then ''PATH: '' @ collection @ ''/'' @ name else ''PATH: '' @ name]
             @ (if truthy mime_type then [''MIME: '' @ the mime_type] else [])
             @ (case size_bytes of None \<Rightarrow> [] | Some n \<Rightarrow> [''SIZE: '' @ decimal n])
             @ (if truthy description then [''DESCRIPTION: '' @ the description] else []))
      in \<lparr>ch_section = '''', ch_content = content, ch_index = 0, ch_start = 0, ch_end = length content\<rparr>)"

text \<open>\<open>path.rsplit('/', 1)[-1]\<close>\<close>

definition base_name :: "string \<Rightarrow> string" where
  "base_name path = last (py_split CHR ''/'' path)"

definition build_file_metadata_header :: "string \<Rightarrow> string \<Rightarrow> string \<Rightarrow> nat option \<Rightarrow> string" where
  "build_file_metadata_header vault_name path uri size_bytes =
     py_join [newline]
       ([''TITLE: '' @ base_name path, ''TYPE: file'', ''VAULT: '' @ vault_name, ''PATH: '' @ path, ''URI: '' @ uri]
        @ (case size_bytes of None \<Rightarrow> [] | Some n \<Rightarrow> [''SIZE: '' @ decimal n]))
     @ blank_line"

section \<open>Splitting a text by size\<close>

text \<open>\<open>content.split("\n\n")\<close>\<close>

fun split_paragraphs :: "string \<Rightarrow> string list" where
  "split_paragraphs [] = [[]]"
| "split_paragraphs [x] = [[x]]"
| "split_paragraphs (x # y # s) =
     (if x = newline \<and> y = newline then [] # split_paragraphs s
      else (case split_paragraphs (y # s) of [] \<Rightarrow> [[x]] | p # ps \<Rightarrow> (x # p) # ps))"

function hard_loop :: "nat \<Rightarrow> nat \<Rightarrow> string \<Rightarrow> string list" where
  "hard_loop limit overlap s =
     (if s = [] then []
      else if length s \<le> limit then [take limit s]
      else take limit s # hard_loop limit overlap (drop (max 1 (limit - overlap)) s))"
  by pat_completeness auto

termination by (relation "measure (\<lambda>(limit, overlap, s). length s)") auto

declare hard_loop.simps [simp del]

definition hard_split_by_chars :: "string \<Rightarrow> nat \<Rightarrow> nat \<Rightarrow> string list" where
  "hard_split_by_chars s limit overlap = (if length s \<le> limit then [s] else hard_loop limit overlap s)"

definition overlap_of :: "string \<Rightarrow> string" where
  "overlap_of current = (if OVERLAP < length current then drop (length current - OVERLAP) current else current)"

definition emit_chunk :: "string \<Rightarrow> nat \<Rightarrow> string \<Rightarrow> nat \<Rightarrow> chunk" where
  "emit_chunk section_path i current start =
     \<lparr>ch_section = section_path, ch_content = py_strip current, ch_index = i, ch_start = start,
      ch_end = start + length current\<rparr>"

text \<open>The assembly loop: \<open>i\<close> chunks are out, \<open>current\<close> is the text collected since position \<open>start\<close>.\<close>

fun assemble :: "string \<Rightarrow> nat \<Rightarrow> string list \<Rightarrow> string \<Rightarrow> nat \<Rightarrow> nat \<Rightarrow> chunk list" where
  "assemble section_path limit [] current start i =
     (if py_strip current \<noteq> '''' then [emit_chunk section_path i current start] else [])"
| "assemble section_path limit (para # paras) current start i =
     (if limit < length current + length para + 2 \<and> current \<noteq> ''''
      then emit_chunk section_path i current start
           # assemble section_path limit paras (overlap_of current @ blank_line @ para)
               (start + length current - length (overlap_of current)) (Suc i)
      else assemble section_path limit paras (if current \<noteq> '''' then current @ blank_line @ para else para) start i)"

definition split_large_chunk :: "string \<Rightarrow> string \<Rightarrow> nat \<Rightarrow> nat \<Rightarrow> chunk list" where
  "split_large_chunk section_path content char_offset limit =
     (if length content \<le> limit
      then [\<lparr>ch_section = section_path, ch_content = content, ch_index = 0, ch_start = char_offset,
             ch_end = char_offset + length content\<rparr>]
      else assemble section_path limit
             (concat (map (\<lambda>raw. hard_split_by_chars raw limit OVERLAP) (split_paragraphs content)))
             '''' char_offset 0)"

definition body_budget :: "string \<Rightarrow> nat" where
  "body_budget metadata_header = max (MAX_CHUNK_SIZE div 2) (MAX_CHUNK_SIZE - length metadata_header)"

definition chunk_text_body :: "string \<Rightarrow> string \<Rightarrow> chunk list" where
  "chunk_text_body content metadata_header =
     (if metadata_header = '''' then split_large_chunk '''' content 0 MAX_CHUNK_SIZE
      else map (\<lambda>c. c\<lparr>ch_content := metadata_header @ ch_content c\<rparr>)
             (split_large_chunk '''' content 0 (body_budget metadata_header)))"

section \<open>Markdown\<close>

text \<open>
  A match of \<open>^(#{1,6})\s+(.+)$\<close> at the start of a line: the level, the text of the second group and the
  length of the match. The white space of \<open>\s+\<close> may run over line ends; when it reaches the end of the
  text, \<open>.+\<close> takes its last character that is not a newline, if that is not the first.
\<close>

definition match_heading :: "string \<Rightarrow> (nat \<times> string \<times> nat) option" where
  "match_heading s =
     (let hashes = length (takeWhile (\<lambda>c. c = CHR ''#'') s);
          after = drop hashes s;
          ws = takeWhile is_space after;
          rest = dropWhile is_space after;
          tail = takeWhile (\<lambda>c. c = newline) (rev ws)
      in if hashes = 0 \<or> 6 < hashes \<or> ws = [] then None
         else if rest \<noteq> []
         then (let line = takeWhile (\<lambda>c. c \<noteq> newline) rest in Some (hashes, line, hashes + length ws + length line))
         else if length tail + 1 < length ws
         then Some (hashes, [ws ! (length ws - length tail - 1)], hashes + length ws - length tail)
         else None)"

text \<open>\<open>_HEADING_RE.finditer\<close>: position, level and title of every match.\<close>

function find_headings :: "bool \<Rightarrow> nat \<Rightarrow> string \<Rightarrow> (nat \<times> nat \<times> string) list" where
  "find_headings line_start pos [] = []"
| "find_headings line_start pos (c # s) =
     (case (if line_start then match_heading (c # s) else None) of
        Some (level, title, m) \<Rightarrow> (pos, level, py_strip title) # find_headings False (pos + m) (drop (m - 1) s)
      | None \<Rightarrow> find_headings (c = newline) (Suc pos) s)"
  by pat_completeness auto

termination by (relation "measure (\<lambda>(b, pos, s). length s)") auto

definition slice :: "nat \<Rightarrow> nat \<Rightarrow> string \<Rightarrow> string" where
  "slice i j s = take (j - i) (drop i s)"

text \<open>The body of a section without its heading line.\<close>

definition section_body :: "string \<Rightarrow> string" where
  "section_body content =
     (case dropWhile (\<lambda>c. c \<noteq> newline) (py_strip content) of [] \<Rightarrow> '''' | _ # rest \<Rightarrow> py_strip rest)"

text \<open>The stack of enclosing headings, the innermost first.\<close>

definition push_heading :: "nat \<Rightarrow> string \<Rightarrow> (nat \<times> string) list \<Rightarrow> (nat \<times> string) list" where
  "push_heading level title stack =
     (level, replicate level CHR ''#'' @ '' '' @ title) # dropWhile (\<lambda>(l, _). level \<le> l) stack"

definition section_path_of :: "(nat \<times> string) list \<Rightarrow> string" where
  "section_path_of stack = py_join '' > '' (rev (map snd stack))"

fun chunk_sections ::
  "string \<Rightarrow> string \<Rightarrow> (nat \<times> nat \<times> string) list \<Rightarrow> (nat \<times> string) list \<Rightarrow> chunk list" where
  "chunk_sections content metadata_header [] stack = []"
| "chunk_sections content metadata_header ((pos, level, title) # headings) stack =
     (let next_pos = (case headings of [] \<Rightarrow> length content | (p, _) # _ \<Rightarrow> p);
          body = section_body (slice pos next_pos content);
          stack = push_heading level title stack;
          path = section_path_of stack
      in (if body = '''' then []
          else split_large_chunk path (metadata_header @ ''['' @ path @ '']'' @ [newline] @ body) pos MAX_CHUNK_SIZE)
         @ chunk_sections content metadata_header headings stack)"

definition chunk_markdown :: "string \<Rightarrow> string \<Rightarrow> chunk list" where
  "chunk_markdown content metadata_header =
     (let headings = find_headings True 0 content
      in if headings = [] then split_large_chunk '''' (metadata_header @ content) 0 MAX_CHUNK_SIZE
         else map (\<lambda>(i, c). c\<lparr>ch_index := i\<rparr>)
                (List.enumerate 0 (chunk_sections content metadata_header headings [])))"

section \<open>Sizes\<close>

lemma length_lstrip_by: "length (lstrip_by p s) \<le> length s"
  by (simp add: lstrip_by_dropWhile length_dropWhile_le)

lemma length_py_strip: "length (py_strip s) \<le> length s"
  using length_lstrip_by [of is_space "rev (lstrip_by is_space s)"] length_lstrip_by [of is_space s]
  by (simp add: py_strip_def strip_by_def rstrip_by_def)

lemma hard_loop_size: "p \<in> set (hard_loop limit overlap s) \<Longrightarrow> length p \<le> limit"
proof (induction limit overlap s rule: hard_loop.induct)
  case (1 limit overlap s)
  then show ?case by (subst (asm) hard_loop.simps [of limit overlap s]) (auto split: if_splits)
qed

lemma hard_split_size: "p \<in> set (hard_split_by_chars s limit overlap) \<Longrightarrow> length p \<le> limit"
  using hard_loop_size by (auto simp: hard_split_by_chars_def split: if_splits)

lemma length_overlap_of: "length (overlap_of current) \<le> OVERLAP"
  by (simp add: overlap_of_def)

lemma assemble_size:
  "\<forall>p\<in>set ps. length p \<le> limit \<Longrightarrow> length current \<le> limit + OVERLAP + 2 \<Longrightarrow>
   c \<in> set (assemble section_path limit ps current start i) \<Longrightarrow> length (ch_content c) \<le> limit + OVERLAP + 2"
proof (induction section_path limit ps current start i rule: assemble.induct)
  case (1 section_path limit current start i)
  then show ?case using length_py_strip [of current] by (auto simp: emit_chunk_def split: if_splits)
next
  case (2 section_path limit para paras current start i)
  show ?case
  proof (cases "limit < length current + length para + 2 \<and> current \<noteq> ''''")
    case True
    then show ?thesis using 2 length_py_strip [of current] length_overlap_of [of current]
      by (auto simp: emit_chunk_def)
  next
    case False
    then show ?thesis using 2 by (auto split: if_splits)
  qed
qed

text \<open>The pieces the assembly loop works on.\<close>

definition pieces :: "string \<Rightarrow> nat \<Rightarrow> string list" where
  "pieces content limit = concat (map (\<lambda>raw. hard_split_by_chars raw limit OVERLAP) (split_paragraphs content))"

lemma split_large_chunk_long:
  "limit < length content \<Longrightarrow>
   split_large_chunk path content offset limit = assemble path limit (pieces content limit) [] offset 0"
  by (simp add: split_large_chunk_def pieces_def)

lemma pieces_size: "\<forall>p\<in>set (pieces content limit). length p \<le> limit"
  by (auto simp: pieces_def dest: hard_split_size)

lemma split_large_chunk_size:
  assumes "c \<in> set (split_large_chunk path content offset limit)"
  shows "length (ch_content c) \<le> limit + OVERLAP + 2"
proof (cases "length content \<le> limit")
  case True
  then show ?thesis using assms by (simp add: split_large_chunk_def)
next
  case False
  then show ?thesis using assms assemble_size [OF pieces_size, of "[]" limit c path content offset 0]
    by (simp add: split_large_chunk_long)
qed

lemma chunk_sections_in:
  "c \<in> set (chunk_sections content h hs stack) \<Longrightarrow>
   \<exists>path text pos. c \<in> set (split_large_chunk path text pos MAX_CHUNK_SIZE)"
  by (induction content h hs stack rule: chunk_sections.induct) (auto simp: Let_def split: if_splits)

lemma assemble_section: "c \<in> set (assemble path limit ps current start i) \<Longrightarrow> ch_section c = path"
  by (induction path limit ps current start i rule: assemble.induct) (auto simp: emit_chunk_def split: if_splits)

lemma split_large_chunk_section: "c \<in> set (split_large_chunk path text pos limit) \<Longrightarrow> ch_section c = path"
  by (auto simp: split_large_chunk_def dest: assemble_section split: if_splits)

text \<open>The sections and contents of a list of chunks; re-indexing changes neither.\<close>

definition texts :: "chunk list \<Rightarrow> (string \<times> string) list" where
  "texts cs = map (\<lambda>c. (ch_section c, ch_content c)) cs"

lemma texts_reindex: "texts (map (\<lambda>(i, c). c\<lparr>ch_index := i\<rparr>) (List.enumerate n cs)) = texts cs"
  by (induction cs arbitrary: n) (simp_all add: texts_def)

lemma in_texts: "(p, t) \<in> set (texts cs) \<longleftrightarrow> (\<exists>c\<in>set cs. ch_section c = p \<and> ch_content c = t)"
  by (auto simp: texts_def)

lemma texts_chunk_markdown:
  "find_headings True 0 content \<noteq> [] \<Longrightarrow>
   texts (chunk_markdown content h) = texts (chunk_sections content h (find_headings True 0 content) [])"
  by (simp add: chunk_markdown_def texts_reindex)

lemma chunk_markdown_in:
  assumes "c \<in> set (chunk_markdown content h)"
  shows "\<exists>c' path text pos. c' \<in> set (split_large_chunk path text pos MAX_CHUNK_SIZE) \<and> ch_content c = ch_content c'"
proof (cases "find_headings True 0 content = []")
  case True
  then show ?thesis using assms by (auto simp: chunk_markdown_def)
next
  case False
  have "(ch_section c, ch_content c) \<in> set (texts (chunk_markdown content h))" using assms by (auto simp: in_texts)
  then obtain c' where "c' \<in> set (chunk_sections content h (find_headings True 0 content) [])" "ch_content c' = ch_content c"
    by (auto simp: texts_chunk_markdown [OF False] in_texts)
  then show ?thesis by (metis chunk_sections_in)
qed

section \<open>No phrase is lost\<close>

text \<open>A phrase: text that neither starts nor ends with white space and holds no blank line.\<close>

definition phrase :: "string \<Rightarrow> bool" where
  "phrase w \<longleftrightarrow> w \<noteq> '''' \<and> \<not> is_space (hd w) \<and> \<not> is_space (last w) \<and> \<not> sublist blank_line w"

lemma is_space_newline [simp]: "is_space newline"
  by (simp add: is_space_def)

lemma lstrip_keeps: "w \<noteq> [] \<Longrightarrow> \<not> p (hd w) \<Longrightarrow> \<exists>u'. lstrip_by p (u @ w @ v) = u' @ w @ v"
  by (cases w, simp, induction u) auto

lemma rstrip_keeps:
  assumes "w \<noteq> []" and "\<not> p (last w)"
  shows "\<exists>v'. rstrip_by p (u @ w @ v) = u @ w @ v'"
proof -
  have "\<exists>u'. lstrip_by p (rev v @ rev w @ rev u) = u' @ rev w @ rev u"
    using assms by (intro lstrip_keeps) (simp_all add: hd_rev)
  then obtain u' where "lstrip_by p (rev v @ rev w @ rev u) = u' @ rev w @ rev u" by blast
  then show ?thesis by (intro exI [of _ "rev u'"]) (simp add: rstrip_by_def)
qed

lemma sublist_within: "sublist w s \<Longrightarrow> sublist w (u @ s @ v)"
proof -
  assume "sublist w s"
  then obtain a b where "s = a @ w @ b" by (auto simp: sublist_def)
  then have "u @ s @ v = (u @ a) @ w @ (b @ v)" by simp
  then show ?thesis unfolding sublist_def by blast
qed

lemma py_strip_keeps:
  assumes "phrase w" and "sublist w s"
  shows "sublist w (py_strip s)"
proof -
  from assms(2) obtain u v where s: "s = u @ w @ v" by (auto simp: sublist_def)
  from assms(1) lstrip_keeps [of w is_space u v] obtain u' where "lstrip_by is_space s = u' @ w @ v"
    by (auto simp: s phrase_def)
  then show ?thesis using assms(1) rstrip_keeps [of w is_space u' v]
    by (auto simp: py_strip_def strip_by_def phrase_def sublist_def)
qed

lemma split_paragraphs_nonempty [simp]: "split_paragraphs s \<noteq> []"
  by (induction s rule: split_paragraphs.induct) (auto split: list.splits)

lemma split_paragraphs_step:
  "\<not> (x = newline \<and> y = newline) \<Longrightarrow>
   split_paragraphs (x # y # s) = (x # hd (split_paragraphs (y # s))) # tl (split_paragraphs (y # s))"
  by (cases "split_paragraphs (y # s)") auto

lemma prefix_paragraph:
  "prefix w s \<Longrightarrow> \<not> sublist blank_line w \<Longrightarrow> w = [] \<or> last w \<noteq> newline \<Longrightarrow>
   prefix w (hd (split_paragraphs s))"
proof (induction s arbitrary: w rule: split_paragraphs.induct)
  case (3 x y s)
  show ?case
  proof (cases w)
    case (Cons a w')
    then have w': "prefix w' (y # s)" "a = x" using 3(3) by auto
    have "\<not> (x = newline \<and> y = newline)"
    proof
      assume n: "x = newline \<and> y = newline"
      show False
      proof (cases w')
        case Nil
        then show False using 3(5) Cons w' n by simp
      next
        case (Cons b w'')
        then have "prefix blank_line w" using w' n \<open>w = a # w'\<close> by simp
        then show False using 3(4) by (simp add: prefix_imp_sublist)
      qed
    qed
    moreover have "\<not> sublist blank_line w'" using 3(4) Cons by (auto simp: sublist_Cons_right)
    moreover have "w' = [] \<or> last w' \<noteq> newline" using 3(5) Cons by auto
    ultimately show ?thesis using 3(2) w' Cons by (simp add: split_paragraphs_step del: split_paragraphs.simps)
  qed simp
qed auto

lemma sublist_paragraph:
  "sublist w s \<Longrightarrow> phrase w \<Longrightarrow> \<exists>p\<in>set (split_paragraphs s). sublist w p"
proof (induction s rule: split_paragraphs.induct)
  case (3 x y s)
  have w: "w \<noteq> []" "hd w \<noteq> newline" "\<not> sublist blank_line w" "last w \<noteq> newline"
    using 3(4) by (auto simp: phrase_def)
  show ?case
  proof (cases "x = newline \<and> y = newline")
    case True
    then have "sublist w s" using 3(3) w by (cases w) (auto simp: sublist_Cons_right)
    then show ?thesis using 3(1) 3(4) True by auto
  next
    case False
    show ?thesis
    proof (cases "prefix w (x # y # s)")
      case True
      then have "prefix w (hd (split_paragraphs (x # y # s)))" using w by (intro prefix_paragraph) auto
      then show ?thesis by (meson hd_in_set prefix_imp_sublist split_paragraphs_nonempty)
    next
      case no_prefix: False
      then have "sublist w (y # s)" using 3(3) by (auto simp: sublist_Cons_right)
      then obtain p where "p \<in> set (split_paragraphs (y # s))" "sublist w p" using 3(2) 3(4) False by blast
      then show ?thesis using False
        by (cases "split_paragraphs (y # s)") (auto simp: sublist_Cons_right)
    qed
  qed
qed auto

lemma hard_loop_window:
  assumes "w \<noteq> []" and "length w \<le> overlap" and "overlap < limit"
  shows "sublist w s \<Longrightarrow> \<exists>p\<in>set (hard_loop limit overlap s). sublist w p"
  using assms
proof (induction limit overlap s rule: hard_loop.induct)
  case (1 limit overlap s)
  from 1(2) obtain u v where s: "s = u @ w @ v" by (auto simp: sublist_def)
  have ne: "s \<noteq> []" using s 1(3) by auto
  show ?case
  proof (cases "length u + length w \<le> limit")
    case True
    then have "sublist w (take limit s)" by (auto simp: s sublist_def)
    then show ?thesis using ne by (subst hard_loop.simps) auto
  next
    case False
    then have long: "\<not> length s \<le> limit" by (simp add: s)
    have "max 1 (limit - overlap) \<le> length u" using False 1(4) 1(5) by linarith
    then have "sublist w (drop (max 1 (limit - overlap)) s)" by (auto simp: s sublist_def)
    then show ?thesis using 1(1) [OF ne long] 1(3-5) ne long by (subst hard_loop.simps) auto
  qed
qed

lemma pieces_window:
  assumes "phrase w" and "length w \<le> OVERLAP" and "OVERLAP < limit" and "sublist w content"
  shows "\<exists>p\<in>set (pieces content limit). sublist w p"
proof -
  from sublist_paragraph [OF assms(4, 1)] obtain raw where raw: "raw \<in> set (split_paragraphs content)" "sublist w raw" by blast
  have "\<exists>p\<in>set (hard_split_by_chars raw limit OVERLAP). sublist w p"
    using hard_loop_window [OF _ assms(2, 3) raw(2)] raw(2) assms(1) by (simp add: hard_split_by_chars_def phrase_def)
  then show ?thesis using raw(1) by (auto simp: pieces_def)
qed

lemma assemble_phrase:
  assumes "phrase w"
  shows "(\<exists>p\<in>set ps. sublist w p) \<or> sublist w current \<Longrightarrow>
    \<exists>c\<in>set (assemble path limit ps current start i). sublist w (ch_content c)"
proof (induction path limit ps current start i rule: assemble.induct)
  case (1 path limit current start i)
  then have "sublist w (py_strip current)" using py_strip_keeps [OF assms] by simp
  moreover have "py_strip current \<noteq> []" using calculation assms by (auto simp: phrase_def)
  ultimately show ?case by (simp add: emit_chunk_def)
next
  case (2 path limit para paras current start i)
  show ?case
  proof (cases "limit < length current + length para + 2 \<and> current \<noteq> ''''")
    case True
    have grow: "sublist w (overlap_of current @ blank_line @ para)" if "sublist w para"
      using sublist_within [OF that, of "overlap_of current @ blank_line" "''''"] by simp
    show ?thesis
    proof (cases "sublist w current")
      case True
      then show ?thesis using py_strip_keeps [OF assms True] \<open>_ \<and> _\<close> by (simp add: emit_chunk_def)
    next
      case False
      then show ?thesis using 2(1) [OF True] 2(3) grow True by auto
    qed
  next
    case False
    have "sublist w (if current \<noteq> '''' then current @ blank_line @ para else para)"
      if "sublist w para \<or> sublist w current"
      using that sublist_within [of w para "current @ blank_line" "''''"]
        sublist_within [of w current "''''" "blank_line @ para"] by auto
    then have "(\<exists>p\<in>set paras. sublist w p) \<or> sublist w (if current \<noteq> '''' then current @ blank_line @ para else para)"
      using 2(3) by auto
    from 2(2) [OF False this] show ?thesis unfolding assemble.simps if_not_P [OF False] .
  qed
qed

lemma split_large_chunk_phrase:
  assumes "phrase w" and "length w \<le> OVERLAP" and "OVERLAP < limit" and "sublist w content"
  shows "\<exists>c\<in>set (split_large_chunk path content offset limit). sublist w (ch_content c)"
proof (cases "length content \<le> limit")
  case True
  then show ?thesis using assms(4) by (simp add: split_large_chunk_def)
next
  case False
  then show ?thesis using assemble_phrase [OF assms(1)] pieces_window [OF assms]
    by (simp add: split_large_chunk_long)
qed

lemma body_budget_overlap: "OVERLAP < body_budget h"
  by (simp add: body_budget_def OVERLAP_def MAX_CHUNK_SIZE_def)

text \<open>C11: Every phrase of a text file of up to OVERLAP characters, standing anywhere within a paragraph,
  is in the content of some chunk, and that chunk starts with the file's header, however the text was cut.\<close>

theorem text_phrase_found:
  assumes "phrase w" and "length w \<le> OVERLAP" and "sublist w content"
  shows "\<exists>c\<in>set (chunk_text_body content h). sublist w (ch_content c) \<and> prefix h (ch_content c)"
proof -
  have max: "OVERLAP < MAX_CHUNK_SIZE" by (simp add: OVERLAP_def MAX_CHUNK_SIZE_def)
  have "\<exists>c\<in>set (split_large_chunk '''' content 0 (body_budget h)). sublist w (ch_content c)"
    by (rule split_large_chunk_phrase [OF assms(1, 2) body_budget_overlap assms(3)])
  then show ?thesis
    using split_large_chunk_phrase [OF assms(1, 2) max assms(3)] sublist_within [of w _ h "''''"]
    by (auto simp: chunk_text_body_def)
qed

lemma text_phrase_found_witness:
  "\<exists>c\<in>set (chunk_text_body ''retry budget'' ''H ''). sublist ''budget'' (ch_content c) \<and> prefix ''H '' (ch_content c)"
proof (rule text_phrase_found)
  show "phrase ''budget''" by (simp add: phrase_def is_space_def sublist_code)
  show "length ''budget'' \<le> OVERLAP" by (simp add: OVERLAP_def)
  show "sublist ''budget'' ''retry budget''" by (simp add: sublist_code)
qed

section \<open>The heading a phrase stands under\<close>

lemma match_heading_hash: "match_heading (c # s) = Some x \<Longrightarrow> c = CHR ''#''"
  by (auto simp: match_heading_def Let_def split: if_splits)

lemma match_heading_length: "match_heading s = Some (level, title, m) \<Longrightarrow> 0 < m"
  by (auto simp: match_heading_def Let_def split: if_splits)

lemma find_headings_hash:
  "(p, level, title) \<in> set (find_headings b pos s) \<Longrightarrow> pos \<le> p \<and> p - pos < length s \<and> s ! (p - pos) = CHR ''#''"
proof (induction b pos s rule: find_headings.induct)
  case (2 line_start pos c s)
  show ?case
  proof (cases "if line_start then match_heading (c # s) else None")
    case None
    then have "(p, level, title) \<in> set (find_headings (c = newline) (Suc pos) s)" using 2(3) by simp
    from 2(1) [OF None this] have ih: "Suc pos \<le> p" "p - Suc pos < length s" "s ! (p - Suc pos) = CHR ''#''"
      by simp_all
    then have "p - pos = Suc (p - Suc pos)" by simp
    then show ?thesis using ih by simp
  next
    case (Some x)
    obtain l t m where x: "x = (l, t, m)" by (cases x)
    have m: "match_heading (c # s) = Some (l, t, m)" using Some x by (simp split: if_splits)
    note hash = match_heading_hash [OF m] and pos = match_heading_length [OF m]
    have "p = pos \<or> (p, level, title) \<in> set (find_headings False (pos + m) (drop (m - 1) s))"
      using 2(3) Some x by auto
    then show ?thesis
    proof
      assume later: "(p, level, title) \<in> set (find_headings False (pos + m) (drop (m - 1) s))"
      have ih: "pos + m \<le> p" "p - (pos + m) < length (drop (m - 1) s)" "drop (m - 1) s ! (p - (pos + m)) = CHR ''#''"
        using 2(2) [OF Some x [symmetric] refl later] by simp_all
      define k where "k = p - (pos + m)"
      have p: "p = pos + m + k" using ih(1) by (simp add: k_def)
      have "p - pos = Suc (m - 1 + k)" using p pos by simp
      moreover have "m - 1 + k < length s" "s ! (m - 1 + k) = CHR ''#''" using ih(2, 3) p by simp_all
      ultimately show ?thesis using p by simp
    qed (simp add: hash)
  qed
qed simp

lemma section_body_phrase:
  assumes "phrase w" and "\<not> is_space (hd a)" and "newline \<in> set a"
  shows "sublist w (section_body (a @ w @ v))"
proof -
  obtain a1 a2 where a: "a = a1 @ newline # a2" "newline \<notin> set a1" using assms(3) by (meson split_list_first)
  have "a \<noteq> []" using assms(3) by auto
  then have "lstrip_by is_space (a @ w @ v) = a @ w @ v" using assms(2) by (cases a) simp_all
  moreover obtain v' where "rstrip_by is_space (a @ w @ v) = a @ w @ v'"
    using assms(1) rstrip_keeps [of w is_space a v] by (auto simp: phrase_def)
  ultimately have strip: "py_strip (a @ w @ v) = a @ w @ v'" by (simp add: py_strip_def strip_by_def)
  have "dropWhile (\<lambda>c. c \<noteq> newline) (a1 @ newline # a2 @ w @ v') = newline # a2 @ w @ v'"
    using a(2) by (subst dropWhile_append2) auto
  then have "section_body (a @ w @ v) = py_strip (a2 @ w @ v')" unfolding section_body_def strip by (simp add: a(1))
  moreover have "sublist w (a2 @ w @ v')" by (auto simp: sublist_def)
  ultimately show ?thesis using py_strip_keeps [OF assms(1)] by simp
qed

lemma section_path_suffix:
  "suffix (replicate level CHR ''#'' @ '' '' @ title) (section_path_of (push_heading level title stack))"
proof -
  define up where "up = rev (map snd (dropWhile (\<lambda>(l, _). level \<le> l) stack))"
  have "section_path_of (push_heading level title stack) =
      py_join '' > '' (up @ [replicate level CHR ''#'' @ '' '' @ title])"
    by (simp add: section_path_of_def push_heading_def up_def)
  then show ?thesis by (cases "up = []") (simp_all add: py_join_append suffix_def)
qed

lemma chunk_sections_phrase:
  assumes "phrase w" and "length w \<le> OVERLAP"
    and "content = u @ w @ v" and "pos \<le> length u" and "content ! pos = CHR ''#''" and "newline \<in> set (drop pos u)"
    and "case after of [] \<Rightarrow> True | (q, _) # _ \<Rightarrow> length u + length w \<le> q"
  shows "\<exists>c\<in>set (chunk_sections content h (before @ (pos, level, title) # after) stack).
     sublist w (ch_content c) \<and> suffix (replicate level CHR ''#'' @ '' '' @ title) (ch_section c)"
proof (induction before arbitrary: stack)
  case Nil
  define q where "q = (case after of [] \<Rightarrow> length content | (q, _) # _ \<Rightarrow> q)"
  define path where "path = section_path_of (push_heading level title stack)"
  have "length u + length w \<le> q" using assms(3, 7) by (auto simp: q_def split: list.splits)
  then have "slice pos q content = drop pos u @ w @ take (q - length u - length w) v"
    using assms(3, 4) by (simp add: slice_def take_append)
  moreover have "hd (drop pos u) = CHR ''#''"
    using assms(3-6) by (cases "pos < length u") (simp_all add: hd_drop_conv_nth nth_append)
  moreover have "\<not> is_space CHR ''#''" by (simp add: is_space_def)
  ultimately have body: "sublist w (section_body (slice pos q content))"
    using section_body_phrase [OF assms(1) _ assms(6)] by simp
  then have "section_body (slice pos q content) \<noteq> ''''" using assms(1) by (auto simp: phrase_def)
  moreover have "\<exists>c\<in>set (split_large_chunk path
      (h @ ''['' @ path @ '']'' @ [newline] @ section_body (slice pos q content)) pos MAX_CHUNK_SIZE). sublist w (ch_content c)"
    using sublist_within [OF body, of "h @ ''['' @ path @ '']'' @ [newline]" "''''"]
    by (intro split_large_chunk_phrase [OF assms(1, 2)]) (simp_all add: OVERLAP_def MAX_CHUNK_SIZE_def)
  moreover have "ch_section c = path" if "c \<in> set (split_large_chunk path s pos MAX_CHUNK_SIZE)" for c s
    using that by (rule split_large_chunk_section)
  ultimately show ?case using section_path_suffix [of level title stack]
    by (auto simp: Let_def q_def [symmetric] path_def [symmetric])
next
  case (Cons x before)
  then show ?case by (cases x) (auto simp: Let_def)
qed



section \<open>The bound the chunks keep\<close>

lemma chunk_text_body_size:
  assumes "length h \<le> MAX_CHUNK_SIZE div 2" and "c \<in> set (chunk_text_body content h)"
  shows "length (ch_content c) \<le> MAX_CHUNK_SIZE + OVERLAP + 2"
proof (cases "h = ''''")
  case True
  then show ?thesis using assms(2) split_large_chunk_size by (simp add: chunk_text_body_def)
next
  case False
  then obtain c' where c': "c' \<in> set (split_large_chunk '''' content 0 (body_budget h))" "ch_content c = h @ ch_content c'"
    using assms(2) by (auto simp: chunk_text_body_def)
  from split_large_chunk_size [OF c'(1)] have "length (ch_content c') \<le> body_budget h + OVERLAP + 2" .
  then show ?thesis using assms(1) c'(2) by (simp add: body_budget_def MAX_CHUNK_SIZE_def)
qed

lemma split_paragraphs_append:
  "newline \<notin> set a \<Longrightarrow> split_paragraphs (a @ newline # newline # s) = a # split_paragraphs s"
proof (induction a)
  case (Cons x a)
  then have x: "\<not> (x = newline \<and> y = newline)" for y by auto
  show ?case
  proof (cases a)
    case Nil
    then show ?thesis using x [of newline] by simp
  next
    case (Cons y b)
    then show ?thesis using Cons.IH Cons.prems \<open>a = y # b\<close>
      by (simp add: split_paragraphs_step [OF x] del: split_paragraphs.simps(3))
  qed
qed simp

lemma split_paragraphs_single: "newline \<notin> set a \<Longrightarrow> split_paragraphs a = [a]"
  by (induction a rule: split_paragraphs.induct) auto

text \<open>Two paragraphs of 1400 characters.\<close>

definition two_paragraphs :: string where
  "two_paragraphs = replicate 1400 CHR ''a'' @ blank_line @ replicate 1400 CHR ''b''"

lemma py_strip_idle: "s \<noteq> [] \<Longrightarrow> \<not> is_space (hd s) \<Longrightarrow> \<not> is_space (last s) \<Longrightarrow> py_strip s = s"
  by (cases s) (simp_all add: py_strip_def strip_by_def rstrip_by_idle del: last.simps)

lemma two_paragraphs_chunks:
  "chunk_text_body two_paragraphs '''' =
     [emit_chunk '''' 0 (replicate 1400 CHR ''a'') 0,
      emit_chunk '''' 1 (replicate 200 CHR ''a'' @ blank_line @ replicate 1400 CHR ''b'') 1200]"
proof -
  let ?a = "replicate 1400 CHR ''a''" and ?b = "replicate 1400 CHR ''b''"
  have "split_paragraphs (?a @ newline # newline # ?b) = [?a, ?b]"
    by (simp add: split_paragraphs_append split_paragraphs_single)
  then have "pieces two_paragraphs MAX_CHUNK_SIZE = [?a, ?b]"
    by (simp add: pieces_def two_paragraphs_def hard_split_by_chars_def MAX_CHUNK_SIZE_def)
  moreover have "py_strip (overlap_of ?a @ blank_line @ ?b) \<noteq> ''''"
    by (subst py_strip_idle) (simp_all add: overlap_of_def OVERLAP_def is_space_def hd_append)
  ultimately show ?thesis
    by (simp add: chunk_text_body_def split_large_chunk_long two_paragraphs_def MAX_CHUNK_SIZE_def overlap_of_def OVERLAP_def)
qed



end
