(* ===== verification/Queue.thy ===== *)
theory Queue
  imports Catalog "HOL-Library.Multiset"
begin

text \<open>
  Durable queues: a table of rows that workers claim with a lease, finish, fail with a backoff, hand back,
  or give up. The statements are those of \<^verbatim>\<open>services/events_publisher.py\<close> (table \<^verbatim>\<open>events\<close>) and
  \<^verbatim>\<open>services/delete_worker.py\<close> (table \<^verbatim>\<open>vector_delete_outbox\<close>), which differ in the batch size and the
  payload only; the backoff is \<^verbatim>\<open>services/_backfill.py\<close> and the last statement \<^verbatim>\<open>services/queue_rescuer.py\<close>.
  Times are seconds.
\<close>

section \<open>Backoff\<close>

definition BACKOFF_SECS :: "nat list" where
  "BACKOFF_SECS = [60, 300, 900, 1800, 3600, 7200, 14400, 21600]"

definition MAX_RETRIES :: nat where
  "MAX_RETRIES = length BACKOFF_SECS"

definition LEASE_SECS :: nat where
  "LEASE_SECS = 600"

definition next_attempt_delay :: "nat \<Rightarrow> nat" where
  "next_attempt_delay retry_count = BACKOFF_SECS ! min retry_count (length BACKOFF_SECS - 1)"

lemma MAX_RETRIES_pos [simp]: "0 < MAX_RETRIES"
  by (simp add: MAX_RETRIES_def BACKOFF_SECS_def)

section \<open>Rows\<close>

record ('i, 'p) qrow =
  q_id :: 'i
  q_payload :: 'p
  q_attempts :: nat
  q_next :: "nat option"
  q_claimed :: "nat option"
  q_done :: "nat option"
  q_abandoned :: "nat option"
  q_error :: "string option"

definition new_qrow :: "'i \<Rightarrow> 'p \<Rightarrow> nat option \<Rightarrow> ('i, 'p) qrow" where
  "new_qrow i p next_at =
     \<lparr>q_id = i, q_payload = p, q_attempts = 0, q_next = next_at, q_claimed = None, q_done = None,
      q_abandoned = None, q_error = None\<rparr>"

definition due :: "nat \<Rightarrow> nat option \<Rightarrow> bool" where
  "due now next_at = (case next_at of None \<Rightarrow> True | Some t \<Rightarrow> t \<le> now)"

definition open_row :: "('i, 'p) qrow \<Rightarrow> bool" where
  "open_row r \<longleftrightarrow> q_done r = None \<and> q_abandoned r = None"

definition claimable :: "nat \<Rightarrow> ('i, 'p) qrow \<Rightarrow> bool" where
  "claimable now r \<longleftrightarrow> open_row r \<and> due now (q_next r) \<and> q_attempts r < MAX_RETRIES"

text \<open>\<open>ORDER BY next_attempt_at NULLS FIRST, id\<close>\<close>

definition claim_order :: "('i, 'p) qrow \<Rightarrow> nat \<times> 'i" where
  "claim_order r = (case q_next r of None \<Rightarrow> (0, q_id r) | Some t \<Rightarrow> (Suc t, q_id r))"

definition claimed_row :: "nat \<Rightarrow> ('i, 'p) qrow \<Rightarrow> ('i, 'p) qrow" where
  "claimed_row now r =
     r\<lparr>q_next := Some (now + LEASE_SECS), q_claimed := Some now, q_attempts := q_attempts r + 1\<rparr>"

text \<open>
  The claim of a batch in the order of \<open>key\<close>; \<open>locked\<close> are the rows other transactions hold (\<open>SKIP LOCKED\<close>).
  \<open>RETURNING\<close> gives the rows as updated.
\<close>

definition claim_rows ::
  "(('i, 'p) qrow \<Rightarrow> 'k::linorder) \<Rightarrow> nat \<Rightarrow> 'i list \<Rightarrow> nat \<Rightarrow> ('i, 'p) qrow list \<Rightarrow> ('i, 'p) qrow list \<times> ('i, 'p) qrow list" where
  "claim_rows key n locked now rows =
     (let pending = take n (sort_key key
                      (filter (\<lambda>r. claimable now r \<and> \<not> List.member locked (q_id r)) rows));
          ids = map q_id pending
      in (map (claimed_row now) pending,
          map (\<lambda>r. if List.member ids (q_id r) then claimed_row now r else r) rows))"

abbreviation claim_batch :: "nat \<Rightarrow> ('i::linorder) list \<Rightarrow> nat \<Rightarrow> ('i, 'p) qrow list \<Rightarrow> ('i, 'p) qrow list \<times> ('i, 'p) qrow list" where
  "claim_batch \<equiv> claim_rows claim_order"

definition mark_success :: "'i \<Rightarrow> nat \<Rightarrow> ('i, 'p) qrow list \<Rightarrow> ('i, 'p) qrow list" where
  "mark_success i now =
     tab_update q_id i (\<lambda>r. r\<lparr>q_done := Some now, q_attempts := 0, q_error := None, q_next := None,
                              q_claimed := None, q_abandoned := None\<rparr>)"

definition mark_failure :: "'i \<Rightarrow> nat \<Rightarrow> string \<Rightarrow> nat \<Rightarrow> ('i, 'p) qrow list \<Rightarrow> ('i, 'p) qrow list" where
  "mark_failure i attempt_count error now =
     (let terminal = MAX_RETRIES \<le> attempt_count;
          delay = next_attempt_delay (attempt_count - 1)
      in tab_update q_id i
           (\<lambda>r. r\<lparr>q_error := Some (take 500 error), q_next := (if terminal then None else Some (now + delay)),
                  q_claimed := None, q_abandoned := (if terminal then Some now else None)\<rparr>))"

text \<open>The rest of a batch goes back with its claim credit, unless another worker has claimed it since.\<close>

definition release_unattempted :: "('i, 'p) qrow list \<Rightarrow> nat \<Rightarrow> ('i, 'p) qrow list \<Rightarrow> ('i, 'p) qrow list" where
  "release_unattempted batch now rows =
     (if batch = [] then rows
      else map (\<lambda>r. if List.member (map q_id batch) (q_id r) \<and> open_row r \<and> q_claimed r = q_claimed (hd batch)
                    then r\<lparr>q_attempts := q_attempts r - 1, q_next := Some now, q_claimed := None\<rparr> else r) rows)"

definition rescue :: "nat \<Rightarrow> ('i, 'p) qrow list \<Rightarrow> ('i, 'p) qrow list" where
  "rescue now =
     map (\<lambda>r. if open_row r \<and> MAX_RETRIES \<le> q_attempts r \<and> due now (q_next r)
              then r\<lparr>q_abandoned := Some now, q_claimed := None, q_next := None,
                     q_error := (case q_error r of None \<Rightarrow> Some ''claim lease expired after final attempt'' | e \<Rightarrow> e)\<rparr>
              else r)"

text \<open>The sweep of finished rows past their grace period, with the number it deletes.\<close>

definition sweep :: "nat \<Rightarrow> nat \<Rightarrow> ('i, 'p) qrow list \<Rightarrow> nat \<times> ('i, 'p) qrow list" where
  "sweep grace now rows =
     (let old = (\<lambda>r. case q_done r of None \<Rightarrow> False | Some t \<Rightarrow> t + grace < now)
      in (length (filter old rows), filter (\<lambda>r. \<not> old r) rows))"

section \<open>No row is stuck\<close>

text \<open>
  An open row whose lease or backoff has run out is picked up by the next claim or closed by the next rescue,
  and never by both.
\<close>

lemma claim_or_rescue:
  assumes "open_row r" and "due now (q_next r)"
  shows "claimable now r \<noteq> (MAX_RETRIES \<le> q_attempts r)"
  using assms by (auto simp: claimable_def)

section \<open>What a claim returns\<close>

lemma claim_rows_fst:
  "r0 \<in> set (fst (claim_rows key n locked now rows)) \<Longrightarrow>
   \<exists>r\<in>set rows. claimable now r \<and> r0 = claimed_row now r"
  by (auto simp: claim_rows_def Let_def dest!: in_set_takeD)

lemma claim_rows_snd:
  assumes "unique_by q_id rows" and "r' \<in> set (snd (claim_rows key n locked now rows))"
  shows "\<exists>r\<in>set rows. r' = r \<or> claimable now r \<and> r' = claimed_row now r"
proof -
  obtain r where r: "r \<in> set rows" "r' = (if q_id r \<in> q_id ` set (take n (sort_key key
      (filter (\<lambda>r. claimable now r \<and> \<not> List.member locked (q_id r)) rows))) then claimed_row now r else r)"
    using assms(2) by (auto simp: claim_rows_def Let_def)
  have "claimable now r" if "q_id r \<in> q_id ` set (take n (sort_key key
      (filter (\<lambda>r. claimable now r \<and> \<not> List.member locked (q_id r)) rows)))"
  proof -
    from that obtain x where "x \<in> set rows" "claimable now x" "q_id x = q_id r"
      by (auto dest!: in_set_takeD)
    then show ?thesis using unique_by_key_eq [OF assms(1), of x r] r(1) by simp
  qed
  then show ?thesis using r by (cases "r' = r") auto
qed

lemma claim_rows_distinct:
  assumes "unique_by q_id rows"
  shows "distinct (map q_id (fst (claim_rows key n locked now rows)))"
proof -
  have "distinct (map q_id (filter (\<lambda>r. claimable now r \<and> \<not> List.member locked (q_id r)) rows))"
    using assms by (simp add: unique_by_def distinct_map_filter)
  then have "distinct (map q_id (sort_key key
      (filter (\<lambda>r. claimable now r \<and> \<not> List.member locked (q_id r)) rows)))"
    by (simp add: distinct_map)
  then have "distinct (take n (map q_id (sort_key key
      (filter (\<lambda>r. claimable now r \<and> \<not> List.member locked (q_id r)) rows))))" by (rule distinct_take)
  then show ?thesis by (simp add: claim_rows_def Let_def comp_def claimed_row_def take_map)
qed

text \<open>
  Every statement on the queue but the sweep keeps its rows with their ids and payloads, and finishes at most
  the row with the given id.
\<close>

definition kept :: "'i option \<Rightarrow> ('i, 'p) qrow list \<Rightarrow> ('i, 'p) qrow list \<Rightarrow> bool" where
  "kept i rows rows' \<longleftrightarrow>
     list_all2 (\<lambda>r r'. q_id r' = q_id r \<and> q_payload r' = q_payload r
                       \<and> (q_done r' = q_done r \<or> i = Some (q_id r) \<and> q_done r' \<noteq> None)) rows rows'"

lemma kept_statements:
  "kept None rows (snd (claim_rows key n locked now rows))"
  "kept (Some i) rows (mark_success i now rows)"
  "kept None rows (mark_failure i k err now rows)"
  "kept None rows (release_unattempted batch now rows)"
  "kept None rows (rescue now rows)"
  by (auto simp: claim_rows_def mark_success_def mark_failure_def release_unattempted_def rescue_def Let_def
      tab_update_def claimed_row_def kept_def list.rel_map list_all2_same list_all2_refl)

lemma kept_ids: "kept i rows rows' \<Longrightarrow> map q_id rows' = map q_id rows"
  unfolding kept_def by (induction rule: list_all2_induct) auto

lemma kept_in:
  "kept i rows rows' \<Longrightarrow> r' \<in> set rows' \<Longrightarrow>
   \<exists>r\<in>set rows. q_id r' = q_id r \<and> q_payload r' = q_payload r \<and>
     (q_done r' = q_done r \<or> i = Some (q_id r) \<and> q_done r' \<noteq> None)"
  unfolding kept_def by (induction rule: list_all2_induct) auto

section \<open>A worker whose work succeeds drains its queue\<close>

definition delivered :: "nat \<Rightarrow> ('i, 'p) qrow \<Rightarrow> ('i, 'p) qrow" where
  "delivered now r = r\<lparr>q_done := Some now, q_attempts := 0, q_error := None, q_next := None,
     q_claimed := None, q_abandoned := None\<rparr>"

lemma mark_success_delivered:
  "mark_success i now rows = map (\<lambda>r. if q_id r = i then delivered now r else r) rows"
  by (simp add: mark_success_def tab_update_def delivered_def)

lemma delivered_simps [simp]:
  "q_id (delivered now r) = q_id r" "q_payload (delivered now r) = q_payload r"
  "q_done (delivered now r) = Some now" "delivered now (delivered now r) = delivered now r"
  by (simp_all add: delivered_def)

lemma claimed_simps [simp]:
  "q_id (claimed_row now r) = q_id r" "q_payload (claimed_row now r) = q_payload r"
  "delivered now (claimed_row now r) = delivered now r"
  by (simp_all add: delivered_def claimed_row_def)

lemma not_claimable_delivered [simp]: "\<not> claimable now' (delivered now r)"
  by (simp add: claimable_def open_row_def delivered_def)

text \<open>The rows the next claim of \<open>n\<close> takes, and the table in which a set of rows is finished.\<close>

definition pending :: "nat \<Rightarrow> nat \<Rightarrow> ('i::linorder, 'p) qrow list \<Rightarrow> ('i, 'p) qrow list" where
  "pending n now rows = take n (sort_key claim_order (filter (claimable now) rows))"

definition finish :: "('i, 'p) qrow list \<Rightarrow> nat \<Rightarrow> ('i, 'p) qrow list \<Rightarrow> ('i, 'p) qrow list" where
  "finish batch now rows = map (\<lambda>r. if q_id r \<in> q_id ` set batch then delivered now r else r) rows"

lemma claim_batch_pending:
  "claim_batch n [] now rows =
     (map (claimed_row now) (pending n now rows),
      map (\<lambda>r. if q_id r \<in> q_id ` set (pending n now rows) then claimed_row now r else r) rows)"
  by (simp add: claim_rows_def pending_def Let_def)

lemma finish_claimed:
  "finish (map (claimed_row now) batch) now
     (map (\<lambda>r. if q_id r \<in> q_id ` set batch then claimed_row now r else r) rows) = finish batch now rows"
  by (simp add: finish_def image_image)

lemma finish_Cons: "finish (r # batch) now rows = finish batch now (mark_success (q_id r) now rows)"
  by (auto simp: finish_def mark_success_delivered)

lemma finish_Nil [simp]: "finish [] now rows = rows"
  by (simp add: finish_def)

lemma finish_ids [simp]: "map q_id (finish batch now rows) = map q_id rows"
  by (simp add: finish_def)

lemma pending_claimable: "r \<in> set (pending n now rows) \<Longrightarrow> r \<in> set rows \<and> claimable now r"
  by (auto simp: pending_def dest!: in_set_takeD)

lemma claimable_pending:
  assumes "unique_by q_id rows" and "r \<in> set rows" and "q_id r \<in> q_id ` set (pending n now rows)"
  shows "claimable now r"
proof -
  from assms(3) obtain x where "x \<in> set (pending n now rows)" "q_id x = q_id r" by auto
  then show ?thesis using pending_claimable [of x n now rows] unique_by_key_eq [OF assms(1), of x r] assms(2) by simp
qed

lemma pending_mset:
  assumes "unique_by q_id rows"
  shows "mset (pending n now rows) =
     filter_mset (\<lambda>r. claimable now r \<and> q_id r \<in> q_id ` set (pending n now rows)) (mset rows)"
proof -
  have d: "distinct rows" using assms by (simp add: unique_by_def distinct_map)
  have "distinct (pending n now rows)" using d by (simp add: pending_def)
  moreover have "set (pending n now rows) = {r \<in> set rows. claimable now r \<and> q_id r \<in> q_id ` set (pending n now rows)}"
    using pending_claimable [of _ n now rows] unique_by_key_eq [OF assms] by fastforce
  ultimately show ?thesis
    using d by (subst mset_filter [symmetric], subst set_eq_iff_mset_eq_distinct [symmetric]) auto
qed

lemma finish_claimable:
  assumes "unique_by q_id rows"
  shows "filter_mset (claimable now) (mset (finish (pending n now rows) now rows)) + mset (pending n now rows)
     = filter_mset (claimable now) (mset rows)"
proof -
  define ids where "ids = q_id ` set (pending n now rows)"
  have P: "mset (pending n now rows) = filter_mset (\<lambda>r. claimable now r \<and> q_id r \<in> ids) (mset rows)"
    using pending_mset [OF assms] by (simp add: ids_def)
  have T: "finish (pending n now rows) now rows = map (\<lambda>r. if q_id r \<in> ids then delivered now r else r) rows"
    by (simp add: finish_def ids_def)
  have "filter_mset (claimable now) (mset (map (\<lambda>r. if q_id r \<in> ids then delivered now r else r) xs))
      + filter_mset (\<lambda>r. claimable now r \<and> q_id r \<in> ids) (mset xs) = filter_mset (claimable now) (mset xs)" for xs
    by (induction xs) auto
  then show ?thesis unfolding T P .
qed

text \<open>
  The contract of a worker in a pass in which all its work succeeds: it finishes the rows of its claim, and
  their work is done in some order. The client is the argument that repeated passes empty the queue.
\<close>

locale queue_worker =
  fixes tick :: "nat \<Rightarrow> ('i::linorder, 'p) qrow list \<times> 's \<Rightarrow> ('i, 'p) qrow list \<times> 's"
    and batch :: nat
    and work :: "('i, 'p) qrow \<Rightarrow> 's \<Rightarrow> 's"
  assumes tick: "tick now (rows, s) =
      (finish (pending batch now rows) now rows, fold work (pending batch now rows) s)"
begin

lemma drains:
  assumes "unique_by q_id rows" and "length (filter (claimable now) rows) \<le> batch * k"
  shows "fst ((tick now ^^ k) (rows, s)) = map (\<lambda>r. if claimable now r then delivered now r else r) rows
     \<and> (\<exists>order. mset order = mset (filter (claimable now) rows) \<and> snd ((tick now ^^ k) (rows, s)) = fold work order s)"
  using assms
proof (induction k arbitrary: rows s)
  case 0
  then have "\<And>r. r \<in> set rows \<Longrightarrow> \<not> claimable now r" by (auto simp: filter_empty_conv)
  then show ?case by (auto simp: map_idI filter_empty_conv intro: exI [of _ "[]"])
next
  case (Suc k)
  define now_rows where "now_rows = pending batch now rows"
  define rows1 where "rows1 = finish now_rows now rows"
  define s1 where "s1 = fold work now_rows s"
  have t: "tick now (rows, s) = (rows1, s1)" by (simp add: tick rows1_def s1_def now_rows_def)
  have split: "filter_mset (claimable now) (mset rows1) + mset now_rows = filter_mset (claimable now) (mset rows)"
    using finish_claimable [OF Suc.prems(1)] by (simp add: rows1_def now_rows_def)
  have u: "unique_by q_id rows1" using Suc.prems(1) by (simp add: unique_by_def rows1_def)
  have "length now_rows = min batch (length (filter (claimable now) rows))"
    by (simp add: now_rows_def pending_def)
  moreover have "length (filter (claimable now) rows1) + length now_rows = length (filter (claimable now) rows)"
    using arg_cong [OF split, of size] by (simp flip: mset_filter)
  ultimately have "length (filter (claimable now) rows1) \<le> batch * k" using Suc.prems(2) by auto
  from Suc.IH [OF u this, of s1] obtain order where ih:
    "fst ((tick now ^^ k) (rows1, s1)) = map (\<lambda>r. if claimable now r then delivered now r else r) rows1"
    "mset order = filter_mset (claimable now) (mset rows1)" "snd ((tick now ^^ k) (rows1, s1)) = fold work order s1"
    by auto
  have "map (\<lambda>r. if claimable now r then delivered now r else r) rows1 =
      map (\<lambda>r. if claimable now r then delivered now r else r) rows"
    using claimable_pending [OF Suc.prems(1)] by (auto simp: rows1_def finish_def now_rows_def)
  moreover have "(tick now ^^ Suc k) (rows, s) = (tick now ^^ k) (rows1, s1)"
    by (simp add: funpow_Suc_right t del: funpow.simps)
  moreover have "mset (now_rows @ order) = mset (filter (claimable now) rows)"
    using split ih(2) by (simp add: add.commute)
  ultimately show ?case using ih(1, 3) by (metis fold_append comp_apply s1_def)
qed

end

end
