(* ===== verification/Outbox.thy ===== *)
theory Outbox
  imports Queue
begin

text \<open>
  The publisher of the event outbox (\<^verbatim>\<open>services/events_publisher.py\<close>). Every event a committed transaction
  appended to the catalog is a row of the queue, with its position in \<open>events\<close> as its id; several
  publishers drain the queue into a Redis stream, each statement a transaction of its own. A publisher may
  stop anywhere, and an \<open>XADD\<close> that fails may still have reached the stream. The stream's trimming to its
  maximal length, its text encoding and the \<open>occurred_at\<close> field are not modelled.
\<close>

section \<open>Suppressed bookkeeping\<close>

definition SUPPRESSED_VAULT_PREFIX :: string where
  "SUPPRESSED_VAULT_PREFIX = ''gdn-''"

definition SUPPRESSED_TABLE_NAMES :: "string list" where
  "SUPPRESSED_TABLE_NAMES = [''sweep_log'', ''gardener_event_log'', ''gardener_kv'']"

fun after_marker :: "string \<Rightarrow> string \<Rightarrow> string" where
  "after_marker m [] = (case strip_prefix m [] of Some t \<Rightarrow> t | None \<Rightarrow> '''')"
| "after_marker m (c # s) = (case strip_prefix m (c # s) of Some t \<Rightarrow> t | None \<Rightarrow> after_marker m s)"

definition table_name_from_uri :: "string \<Rightarrow> string" where
  "table_name_from_uri uri = after_marker ''/table/'' uri"

text \<open>The vault whose bookkeeping the event is, if it is any.\<close>

definition suppressing_vault :: "db \<Rightarrow> event \<Rightarrow> string option" where
  "suppressing_vault d e =
     (case (ev_uri e, ev_vault e) of
        (Some uri, Some vid) \<Rightarrow>
          if uri = '''' \<or> \<not> List.member SUPPRESSED_TABLE_NAMES (table_name_from_uri uri) then None
          else (case vault_by_id d vid of
                  None \<Rightarrow> None
                | Some v \<Rightarrow> if starts_with (v_name v) SUPPRESSED_VAULT_PREFIX then Some (v_name v) else None)
      | _ \<Rightarrow> None)"

definition is_suppressed :: "db \<Rightarrow> event \<Rightarrow> bool" where
  "is_suppressed d e \<longleftrightarrow> suppressing_vault d e \<noteq> None"

definition skipped_event :: "db \<Rightarrow> event \<Rightarrow> bool" where
  "skipped_event d e \<longleftrightarrow> ev_kind e = ''table.rows_changed'' \<and> is_suppressed d e"

section \<open>The stream\<close>

record stream_entry =
  se_id :: nat
  se_kind :: string
  se_payload :: "(string \<times> json) list"
  se_vault :: "uuid option"
  se_uri :: "string option"
  se_actor :: "string option"

definition xadd_fields :: "(nat, event) qrow \<Rightarrow> stream_entry" where
  "xadd_fields r =
     (let e = q_payload r in
      \<lparr>se_id = q_id r, se_kind = ev_kind e, se_payload = ev_payload e, se_vault = ev_vault e,
       se_uri = (case ev_uri e of Some u \<Rightarrow> if u = '''' then None else Some u | None \<Rightarrow> None),
       se_actor = ev_actor e\<rparr>)"

section \<open>One pass, undisturbed\<close>

definition BATCH_SIZE :: nat where
  "BATCH_SIZE = 64"

text \<open>
  The loop over a claimed batch: \<open>broker\<close> gives the exception of an \<open>XADD\<close> call that fails. The first that
  fails ends the pass: its row backs off and the untouched rest is handed back. The number of drained rows
  comes first.
\<close>

fun drain_batch ::
  "db \<Rightarrow> (nat \<Rightarrow> string option) \<Rightarrow> nat \<Rightarrow> (nat, event) qrow list \<Rightarrow> (nat, event) qrow list \<times> stream_entry list
   \<Rightarrow> nat \<times> (nat, event) qrow list \<times> stream_entry list" where
  "drain_batch d broker now [] (rows, st) = (0, rows, st)"
| "drain_batch d broker now (r # rest) (rows, st) =
     (if skipped_event d (q_payload r)
      then (let (n, s) = drain_batch d broker now rest (mark_success (q_id r) now rows, st) in (Suc n, s))
      else (case broker (q_id r) of
              None \<Rightarrow>
                (let (n, s) = drain_batch d broker now rest (mark_success (q_id r) now rows, st @ [xadd_fields r])
                 in (Suc n, s))
            | Some error \<Rightarrow>
                (0, release_unattempted rest now (mark_failure (q_id r) (q_attempts r) error now rows), st)))"

text \<open>One pass with a broker configured; \<open>connection\<close> is the exception of a client that cannot be built.\<close>

definition publish_once ::
  "db \<Rightarrow> (nat \<Rightarrow> string option) \<Rightarrow> string option \<Rightarrow> nat \<Rightarrow> (nat, event) qrow list \<times> stream_entry list
   \<Rightarrow> nat \<times> (nat, event) qrow list \<times> stream_entry list" where
  "publish_once d broker connection now s =
     (case s of (rows, st) \<Rightarrow>
       (case claim_batch BATCH_SIZE [] now rows of
          ([], rows) \<Rightarrow> (0, rows, st)
        | (first # rest, rows) \<Rightarrow>
            (case connection of
               Some e \<Rightarrow>
                 (0, release_unattempted rest now
                       (mark_failure (q_id first) (q_attempts first) (''redis client init: '' @ e) now rows), st)
             | None \<Rightarrow> drain_batch d broker now (first # rest) (rows, st))))"

section \<open>Publishers side by side\<close>

datatype publisher =
    PIdle
  | PBatch "(nat, event) qrow list"
  | PSent "(nat, event) qrow" "(nat, event) qrow list"
  | PFailed "(nat, event) qrow list"

fun holds :: "publisher \<Rightarrow> (nat, event) qrow list" where
  "holds PIdle = []"
| "holds (PBatch rs) = rs"
| "holds (PSent r rs) = r # rs"
| "holds (PFailed rs) = rs"

text \<open>\<open>pu_skipped\<close> records the bookkeeping events that were drained without an \<open>XADD\<close>, with their vault.\<close>

record outbox =
  pu_now :: nat
  pu_cat :: db
  pu_rows :: "(nat, event) qrow list"
  pu_stream :: "stream_entry list"
  pu_skipped :: "(nat \<times> string) list"
  pu_worker :: "nat \<Rightarrow> publisher"

definition set_worker :: "nat \<Rightarrow> publisher \<Rightarrow> outbox \<Rightarrow> outbox" where
  "set_worker w p s = s\<lparr>pu_worker := (pu_worker s)(w := p)\<rparr>"

definition commit_events :: "db \<Rightarrow> event list \<Rightarrow> outbox \<Rightarrow> outbox" where
  "commit_events d new s =
     s\<lparr>pu_cat := d,
       pu_rows := pu_rows s @ map (\<lambda>(k, e). new_qrow (length (events (pu_cat s)) + k) e None)
                                 (List.enumerate 0 new)\<rparr>"

definition claim :: "nat \<Rightarrow> nat list \<Rightarrow> (nat, event) qrow list \<Rightarrow> outbox \<Rightarrow> outbox" where
  "claim w locked batch s =
     (set_worker w (PBatch batch) s)\<lparr>pu_rows := snd (claim_batch BATCH_SIZE locked (pu_now s) (pu_rows s))\<rparr>"

definition skip :: "nat \<Rightarrow> (nat, event) qrow \<Rightarrow> (nat, event) qrow list \<Rightarrow> string \<Rightarrow> outbox \<Rightarrow> outbox" where
  "skip w r rest v s =
     (set_worker w (PBatch rest) s)\<lparr>pu_rows := mark_success (q_id r) (pu_now s) (pu_rows s),
       pu_skipped := (q_id r, v) # pu_skipped s\<rparr>"

definition xadd :: "nat \<Rightarrow> (nat, event) qrow \<Rightarrow> (nat, event) qrow list \<Rightarrow> outbox \<Rightarrow> outbox" where
  "xadd w r rest s = (set_worker w (PSent r rest) s)\<lparr>pu_stream := pu_stream s @ [xadd_fields r]\<rparr>"

definition mark_published :: "nat \<Rightarrow> (nat, event) qrow \<Rightarrow> (nat, event) qrow list \<Rightarrow> outbox \<Rightarrow> outbox" where
  "mark_published w r rest s =
     (set_worker w (PBatch rest) s)\<lparr>pu_rows := mark_success (q_id r) (pu_now s) (pu_rows s)\<rparr>"

definition xadd_failed :: "nat \<Rightarrow> bool \<Rightarrow> string \<Rightarrow> (nat, event) qrow \<Rightarrow> (nat, event) qrow list \<Rightarrow> outbox \<Rightarrow> outbox" where
  "xadd_failed w arrived error r rest s =
     (set_worker w (PFailed rest) s)\<lparr>pu_rows := mark_failure (q_id r) (q_attempts r) error (pu_now s) (pu_rows s),
       pu_stream := (if arrived then pu_stream s @ [xadd_fields r] else pu_stream s)\<rparr>"

definition release :: "nat \<Rightarrow> (nat, event) qrow list \<Rightarrow> outbox \<Rightarrow> outbox" where
  "release w rest s =
     (set_worker w PIdle s)\<lparr>pu_rows := release_unattempted rest (pu_now s) (pu_rows s)\<rparr>"

inductive outbox_step :: "outbox \<Rightarrow> outbox \<Rightarrow> bool" where
  commit_events: "events d = events (pu_cat s) @ new \<Longrightarrow> outbox_step s (commit_events d new s)"
| time_passes: "outbox_step s (s\<lparr>pu_now := pu_now s + n\<rparr>)"
| claim: "pu_worker s w = PIdle \<Longrightarrow> mset batch = mset (fst (claim_batch BATCH_SIZE locked (pu_now s) (pu_rows s))) \<Longrightarrow>
    outbox_step s (claim w locked batch s)"
| skip: "pu_worker s w = PBatch (r # rest) \<Longrightarrow> ev_kind (q_payload r) = ''table.rows_changed'' \<Longrightarrow>
    suppressing_vault (pu_cat s) (q_payload r) = Some v \<Longrightarrow> outbox_step s (skip w r rest v s)"
| xadd: "pu_worker s w = PBatch (r # rest) \<Longrightarrow> \<not> skipped_event (pu_cat s) (q_payload r) \<Longrightarrow>
    outbox_step s (xadd w r rest s)"
| mark_published: "pu_worker s w = PSent r rest \<Longrightarrow> outbox_step s (mark_published w r rest s)"
| xadd_failed: "pu_worker s w = PBatch (r # rest) \<Longrightarrow> outbox_step s (xadd_failed w arrived error r rest s)"
| release: "pu_worker s w = PFailed rest \<Longrightarrow> outbox_step s (release w rest s)"
| batch_done: "pu_worker s w = PBatch [] \<Longrightarrow> outbox_step s (set_worker w PIdle s)"
| crash: "outbox_step s (set_worker w PIdle s)"
| rescue: "outbox_step s (s\<lparr>pu_rows := rescue (pu_now s) (pu_rows s)\<rparr>)"
| sweep: "outbox_step s (s\<lparr>pu_rows := snd (sweep grace (pu_now s) (pu_rows s))\<rparr>)"

abbreviation outbox_steps :: "outbox \<Rightarrow> outbox \<Rightarrow> bool" where
  "outbox_steps \<equiv> outbox_step\<^sup>*\<^sup>*"

definition outbox_init :: "db \<Rightarrow> outbox" where
  "outbox_init d =
     \<lparr>pu_now = 0, pu_cat = d\<lparr>events := []\<rparr>, pu_rows = [], pu_stream = [], pu_skipped = [], pu_worker = (\<lambda>_. PIdle)\<rparr>"

section \<open>No event is lost\<close>

definition entry :: "nat \<Rightarrow> event \<Rightarrow> stream_entry" where
  "entry i e = xadd_fields (new_qrow i e None)"

lemma xadd_fields_entry: "xadd_fields r = entry (q_id r) (q_payload r)"
  by (simp add: xadd_fields_def entry_def new_qrow_def)

definition sent :: "nat \<Rightarrow> outbox \<Rightarrow> bool" where
  "sent i s \<longleftrightarrow> entry i (events (pu_cat s) ! i) \<in> set (pu_stream s)"

definition bookkeeping :: "event \<Rightarrow> string \<Rightarrow> bool" where
  "bookkeeping e v \<longleftrightarrow> ev_kind e = ''table.rows_changed'' \<and> starts_with v SUPPRESSED_VAULT_PREFIX
     \<and> (\<exists>uri. ev_uri e = Some uri \<and> table_name_from_uri uri \<in> set SUPPRESSED_TABLE_NAMES)"

lemma suppressing_bookkeeping:
  "suppressing_vault d e = Some v \<Longrightarrow> ev_kind e = ''table.rows_changed'' \<Longrightarrow> bookkeeping e v"
  by (auto simp: suppressing_vault_def bookkeeping_def split: option.splits if_splits)

definition skipped :: "nat \<Rightarrow> outbox \<Rightarrow> bool" where
  "skipped i s \<longleftrightarrow> (\<exists>v. (i, v) \<in> set (pu_skipped s) \<and> bookkeeping (events (pu_cat s) ! i) v)"

definition carries :: "outbox \<Rightarrow> (nat, event) qrow \<Rightarrow> bool" where
  "carries s r \<longleftrightarrow> q_id r < length (events (pu_cat s)) \<and> q_payload r = events (pu_cat s) ! q_id r"

fun sent_row :: "publisher \<Rightarrow> (nat, event) qrow option" where
  "sent_row (PSent r rest) = Some r"
| "sent_row _ = None"

definition outbox_ok :: "outbox \<Rightarrow> bool" where
  "outbox_ok s \<longleftrightarrow> unique_by q_id (pu_rows s) \<and> (\<forall>r\<in>set (pu_rows s). carries s r)
     \<and> (\<forall>i<length (events (pu_cat s)). i \<in> q_id ` set (pu_rows s) \<or> sent i s \<or> skipped i s)
     \<and> (\<forall>r\<in>set (pu_rows s). q_done r \<noteq> None \<longrightarrow> sent (q_id r) s \<or> skipped (q_id r) s)
     \<and> (\<forall>w. \<forall>r\<in>set (holds (pu_worker s w)). carries s r)
     \<and> (\<forall>w r. sent_row (pu_worker s w) = Some r \<longrightarrow> sent (q_id r) s)
     \<and> (\<forall>se\<in>set (pu_stream s). \<exists>i<length (events (pu_cat s)). se = entry i (events (pu_cat s) ! i))"

lemma outbox_ok_statement:
  assumes "outbox_ok s" and "kept j (pu_rows s) rows"
    and "\<And>i. j = Some i \<Longrightarrow> sent i s' \<or> skipped i s'"
    and "pu_rows s' = rows" and "pu_cat s' = pu_cat s" and "set (pu_stream s) \<subseteq> set (pu_stream s')"
    and "set (pu_skipped s) \<subseteq> set (pu_skipped s')"
    and "\<And>w. \<forall>r\<in>set (holds (pu_worker s' w)). carries s r"
    and "\<And>w r. sent_row (pu_worker s' w) = Some r \<Longrightarrow> sent (q_id r) s'"
    and "\<forall>se\<in>set (pu_stream s'). \<exists>i<length (events (pu_cat s)). se = entry i (events (pu_cat s) ! i)"
  shows "outbox_ok s'"
proof -
  have mono: "sent i s' \<or> skipped i s'" if "sent i s \<or> skipped i s" for i
    using that assms(5-7) by (auto simp: sent_def skipped_def)
  have c: "carries s' r = carries s r" for r using assms(5) by (simp add: carries_def)
  have ids: "map q_id rows = map q_id (pu_rows s)" by (rule kept_ids [OF assms(2)])
  then have idset: "q_id ` set rows = q_id ` set (pu_rows s)" by (metis list.set_map)
  have "carries s r \<and> (q_done r \<noteq> None \<longrightarrow> sent (q_id r) s' \<or> skipped (q_id r) s')" if "r \<in> set rows" for r
  proof -
    from kept_in [OF assms(2) that] obtain r0 where r0: "r0 \<in> set (pu_rows s)" "q_id r = q_id r0"
      "q_payload r = q_payload r0" "q_done r = q_done r0 \<or> j = Some (q_id r0) \<and> q_done r \<noteq> None" by blast
    have "carries s r0" using assms(1) r0(1) by (simp add: outbox_ok_def)
    moreover have "q_done r0 \<noteq> None \<Longrightarrow> sent (q_id r0) s' \<or> skipped (q_id r0) s'"
      using assms(1) r0(1) mono by (simp add: outbox_ok_def)
    ultimately show ?thesis using r0 assms(3) by (auto simp: carries_def)
  qed
  moreover have "\<forall>i<length (events (pu_cat s)). i \<in> q_id ` set (pu_rows s) \<or> sent i s' \<or> skipped i s'"
    using assms(1) mono unfolding outbox_ok_def by blast
  ultimately show ?thesis
    using assms(1, 4, 5, 8-10) ids idset by (simp add: outbox_ok_def unique_by_def c)
qed

lemma carries_worker: "outbox_ok s \<Longrightarrow> pu_worker s w = p \<Longrightarrow> \<forall>r\<in>set (holds p). carries s r"
  by (auto simp: outbox_ok_def)

lemma set_worker_simps [simp]:
  "pu_worker (set_worker w p s) = (pu_worker s)(w := p)" "pu_now (set_worker w p s) = pu_now s"
  "pu_cat (set_worker w p s) = pu_cat s" "pu_rows (set_worker w p s) = pu_rows s"
  "pu_stream (set_worker w p s) = pu_stream s" "pu_skipped (set_worker w p s) = pu_skipped s"
  by (simp_all add: set_worker_def)

lemma kept_refl: "kept None rows rows"
  by (simp add: kept_def list_all2_refl)

lemma outbox_committed_ok:
  assumes "outbox_ok s" and "events d = events (pu_cat s) @ new"
  shows "outbox_ok (commit_events d new s)"
proof -
  let ?n = "length (events (pu_cat s))"
  let ?fresh = "map (\<lambda>(k, e). new_qrow (?n + k) e None) (List.enumerate 0 new)"
  have nth: "events d ! i = events (pu_cat s) ! i" if "i < ?n" for i using that assms(2) by (simp add: nth_append)
  have fresh: "q_id r < length (events d) \<and> ?n \<le> q_id r \<and> q_payload r = events d ! q_id r \<and> q_done r = None"
    if "r \<in> set ?fresh" for r
    using that assms(2) by (auto simp: new_qrow_def in_set_enumerate_eq nth_append)
  have fid: "map q_id ?fresh = [?n..<?n + length new]"
    by (rule nth_equalityI) (simp_all add: new_qrow_def nth_enumerate_eq)
  have keep: "sent i (commit_events d new s) = sent i s" "skipped i (commit_events d new s) = skipped i s" if "i < ?n" for i
    using nth [OF that] by (simp_all add: sent_def skipped_def commit_events_def)
  have c: "carries (commit_events d new s) r" if "carries s r" for r
    using that nth assms(2) by (auto simp: carries_def commit_events_def)
  have "unique_by q_id (pu_rows s @ ?fresh)"
    using assms(1) fid by (auto simp: unique_by_def outbox_ok_def carries_def simp del: map_map)
  moreover have "i \<in> q_id ` set (pu_rows s @ ?fresh) \<or> sent i (commit_events d new s) \<or> skipped i (commit_events d new s)"
    if "i < length (events d)" for i
  proof (cases "i < ?n")
    case True
    then show ?thesis using assms(1) keep by (auto simp: outbox_ok_def)
  next
    case False
    then have "i \<in> set (map q_id ?fresh)" using that assms(2) unfolding fid by simp
    then show ?thesis by (simp only: set_append image_Un set_map) blast
  qed
  moreover have "\<exists>i<length (events d). se = entry i (events d ! i)" if "se \<in> set (pu_stream s)" for se
  proof -
    from assms(1) that obtain i where "i < ?n" "se = entry i (events (pu_cat s) ! i)" by (auto simp: outbox_ok_def)
    then show ?thesis using nth assms(2) by (intro exI [of _ i]) simp
  qed
  moreover have "carries (commit_events d new s) r" if "r \<in> set ?fresh" for r
    using fresh [OF that] assms(2) by (simp add: carries_def commit_events_def)
  moreover have "sent (q_id r) (commit_events d new s) \<or> skipped (q_id r) (commit_events d new s)"
    if "r \<in> set (pu_rows s @ ?fresh)" "q_done r \<noteq> None" for r
    using that assms(1) fresh keep by (fastforce simp: outbox_ok_def carries_def)
  moreover have "sent (q_id r) (commit_events d new s)" if sr: "sent_row (pu_worker s w) = Some r" for w r
  proof -
    have "r \<in> set (holds (pu_worker s w))" using sr by (cases "pu_worker s w") auto
    then show ?thesis using sr assms(1) keep by (auto simp: outbox_ok_def carries_def)
  qed
  ultimately show ?thesis using assms(1) c
    unfolding outbox_ok_def by (auto simp: commit_events_def)
qed

lemma outbox_step_ok: "outbox_step s s' \<Longrightarrow> outbox_ok s \<Longrightarrow> outbox_ok s'"
proof (induction rule: outbox_step.induct)
  case (commit_events d s new)
  then show ?case by (rule outbox_committed_ok [rotated])
next
  case (time_passes s n)
  then show ?case by (simp add: outbox_ok_def sent_def skipped_def carries_def)
next
  case (claim s w batch locked)
  let ?c = "claim_batch BATCH_SIZE locked (pu_now s) (pu_rows s)"
  have "set batch = set (fst ?c)" using claim(2) by (rule mset_eq_setD)
  moreover have "carries s r" if "r \<in> set (fst ?c)" for r
    using claim_rows_fst [OF that] claim(3) by (auto simp: outbox_ok_def carries_def claimed_row_def)
  ultimately show ?case
    using claim(3) by (intro outbox_ok_statement [OF claim(3) kept_statements(1)])
      (auto simp: claim_def outbox_ok_def sent_def split: if_splits)
next
  case (skip s w r rest v)
  have "carries s r" using carries_worker [OF skip(4, 1)] by simp
  then have "skipped (q_id r) (skip w r rest v s)"
    using suppressing_bookkeeping [OF skip(3, 2)] by (auto simp: skipped_def skip_def carries_def)
  then show ?case
    using skip(4) carries_worker [OF skip(4, 1)]
    by (intro outbox_ok_statement [OF skip(4) kept_statements(2) [where i = "q_id r"]])
      (auto simp: skip_def outbox_ok_def sent_def split: if_splits)
next
  case (xadd s w r rest)
  have c: "carries s r" using carries_worker [OF xadd(3, 1)] by simp
  then have "entry (q_id r) (events (pu_cat s) ! q_id r) = xadd_fields r" by (simp add: xadd_fields_entry carries_def)
  then show ?case
    using xadd(3) carries_worker [OF xadd(3, 1)] c
    by (intro outbox_ok_statement [OF xadd(3) kept_refl])
      (auto simp: xadd_def outbox_ok_def sent_def carries_def split: if_splits)
next
  case (mark_published s w r rest)
  have "sent (q_id r) (mark_published w r rest s)"
    using mark_published(1) mark_published(2) [unfolded outbox_ok_def, THEN conjunct2, THEN conjunct2, THEN conjunct2,
        THEN conjunct2, THEN conjunct2, THEN conjunct1, rule_format, of w r]
    by (simp add: sent_def mark_published_def)
  then show ?case
    using mark_published(2) carries_worker [OF mark_published(2, 1)]
    by (intro outbox_ok_statement [OF mark_published(2) kept_statements(2) [where i = "q_id r"]])
      (auto simp: mark_published_def outbox_ok_def sent_def split: if_splits)
next
  case (xadd_failed s w r rest arrived error)
  have c: "carries s r" using carries_worker [OF xadd_failed(2, 1)] by simp
  then have "entry (q_id r) (events (pu_cat s) ! q_id r) = xadd_fields r" by (simp add: xadd_fields_entry carries_def)
  then show ?case
    using xadd_failed(2) carries_worker [OF xadd_failed(2, 1)] c
    by (intro outbox_ok_statement [OF xadd_failed(2) kept_statements(3)])
      (auto simp: xadd_failed_def outbox_ok_def sent_def carries_def split: if_splits)
next
  case (release s w rest)
  then show ?case
    by (intro outbox_ok_statement [OF release(2) kept_statements(4)])
      (auto simp: release_def outbox_ok_def sent_def split: if_splits)
next
  case (batch_done s w)
  then show ?case
    by (intro outbox_ok_statement [OF batch_done(2) kept_refl]) (auto simp: outbox_ok_def sent_def split: if_splits)
next
  case (crash s w)
  then show ?case
    by (intro outbox_ok_statement [OF crash kept_refl]) (auto simp: outbox_ok_def sent_def split: if_splits)
next
  case (rescue s)
  then show ?case
    by (intro outbox_ok_statement [OF rescue kept_statements(5)]) (auto simp: outbox_ok_def sent_def)
next
  case (sweep s grace)
  then show ?case
    by (fastforce simp: outbox_ok_def sweep_def Let_def unique_by_def distinct_map_filter sent_def skipped_def carries_def
        image_iff split: option.splits)
qed

section \<open>Leases\<close>

text \<open>
  What a publisher knows of a row it holds: the row is finished, or it still counts the publisher's attempt;
  a later claim of the row has a later time and one attempt more; and until then it was not due.
\<close>

definition lease_of :: "(nat, event) qrow \<Rightarrow> nat \<Rightarrow> (nat, event) qrow \<Rightarrow> bool" where
  "lease_of r0 t r \<longleftrightarrow>
     q_done r \<noteq> None
     \<or> q_attempts r0 \<le> q_attempts r
       \<and> (\<forall>u. q_claimed r = Some u \<longrightarrow> u = t \<or> t < u \<and> q_attempts r0 < q_attempts r)
       \<and> (q_abandoned r \<noteq> None \<or> (\<exists>v. q_next r = Some v \<and> t < v))"

definition lease_ok :: "nat \<Rightarrow> (nat, event) qrow list \<Rightarrow> (nat, event) qrow \<Rightarrow> bool" where
  "lease_ok now rows r0 \<longleftrightarrow>
     (\<exists>t\<le>now. q_claimed r0 = Some t \<and> (\<forall>r\<in>set rows. q_id r = q_id r0 \<longrightarrow> lease_of r0 t r))"

definition spent :: "(nat, event) qrow \<Rightarrow> bool" where
  "spent r \<longleftrightarrow> (q_done r = None \<and> q_abandoned r \<noteq> None \<longrightarrow> MAX_RETRIES \<le> q_attempts r)"

definition leases_ok :: "outbox \<Rightarrow> bool" where
  "leases_ok s \<longleftrightarrow>
     (\<forall>w. \<forall>r\<in>set (holds (pu_worker s w)). lease_ok (pu_now s) (pu_rows s) r)
     \<and> (\<forall>w. distinct (map q_id (holds (pu_worker s w))))
     \<and> (\<forall>w. \<forall>r\<in>set (holds (pu_worker s w)). \<forall>r'\<in>set (holds (pu_worker s w)). q_claimed r = q_claimed r')
     \<and> (\<forall>w w' r r'. w \<noteq> w' \<longrightarrow> r \<in> set (holds (pu_worker s w)) \<longrightarrow> r' \<in> set (holds (pu_worker s w')) \<longrightarrow>
          q_id r = q_id r' \<longrightarrow> q_claimed r \<noteq> q_claimed r')
     \<and> (\<forall>r\<in>set (pu_rows s). spent r)"

lemma delay_pos: "0 < next_attempt_delay k"
  using min.cobounded2 [of k 7] by (auto simp: next_attempt_delay_def BACKOFF_SECS_def nth_Cons split: nat.splits)

text \<open>One statement on the rows, seen by a lease: only rows that change matter.\<close>

lemma lease_ok_map:
  assumes "lease_ok now rows r0" and "now \<le> now'"
    and "\<And>r. q_id (f r) = q_id r"
    and "\<And>r t. r \<in> set rows \<Longrightarrow> q_id r = q_id r0 \<Longrightarrow> q_claimed r0 = Some t \<Longrightarrow> t \<le> now \<Longrightarrow> lease_of r0 t r \<Longrightarrow>
       lease_of r0 t (f r)"
  shows "lease_ok now' (map f rows) r0"
  using assms by (fastforce simp: lease_ok_def)

lemma lease_success:
  "lease_ok now rows r0 \<Longrightarrow> lease_ok now (mark_success i now rows) r0"
  unfolding mark_success_def tab_update_def
  by (rule lease_ok_map) (auto simp: lease_of_def)

lemma lease_failure:
  "lease_ok now rows r0 \<Longrightarrow> lease_ok now (mark_failure i k err now rows) r0"
  unfolding mark_failure_def tab_update_def Let_def
  using delay_pos [of "k - 1"] by (elim lease_ok_map) (auto simp: lease_of_def)

lemma lease_rescue:
  "lease_ok now rows r0 \<Longrightarrow> lease_ok now (rescue now rows) r0"
  unfolding rescue_def by (rule lease_ok_map) (auto simp: lease_of_def)

lemma lease_subset:
  "lease_ok now rows r0 \<Longrightarrow> now \<le> now' \<Longrightarrow> set rows' \<subseteq> set rows \<Longrightarrow> lease_ok now' rows' r0"
  by (fastforce simp: lease_ok_def)

lemma lease_claim:
  assumes "unique_by q_id rows" and "lease_ok now rows r0"
  shows "lease_ok now (snd (claim_batch n locked now rows)) r0"
proof -
  from assms(2) obtain t where t: "t \<le> now" "q_claimed r0 = Some t"
    "\<forall>r\<in>set rows. q_id r = q_id r0 \<longrightarrow> lease_of r0 t r" by (auto simp: lease_ok_def)
  have "lease_of r0 t r'" if "r' \<in> set (snd (claim_batch n locked now rows))" "q_id r' = q_id r0" for r'
  proof -
    from claim_rows_snd [OF assms(1) that(1)] obtain r where
      r: "r \<in> set rows" "r' = r \<or> claimable now r \<and> r' = claimed_row now r" by blast
    then have "q_id r = q_id r0" using that(2) by (auto simp: claimed_row_def)
    then have "lease_of r0 t r" using t(3) r(1) by blast
    then show ?thesis using r(2) t(1)
      by (auto simp: lease_of_def claimable_def open_row_def due_def claimed_row_def LEASE_SECS_def)
  qed
  then show ?thesis using t by (auto simp: lease_ok_def)
qed

text \<open>The lease a claim grants, and that no earlier lease of the row has its time.\<close>

lemma claim_granted:
  assumes "unique_by q_id rows" and "r0 \<in> set (fst (claim_batch n locked now rows))"
  shows "lease_ok now (snd (claim_batch n locked now rows)) r0" and "q_claimed r0 = Some now"
proof -
  from claim_rows_fst [OF assms(2)] obtain r where
    r: "r \<in> set rows" "claimable now r" "r0 = claimed_row now r" by blast
  show "q_claimed r0 = Some now" using r by (simp add: claimed_row_def)
  have in0: "q_id r0 \<in> set (map q_id (fst (claim_batch n locked now rows)))" using assms(2) by simp
  have "lease_of r0 now r'" if r': "r' \<in> set (snd (claim_batch n locked now rows))" "q_id r' = q_id r0" for r'
  proof -
    from r'(1) obtain x where x: "x \<in> set rows" "q_id x = q_id r'"
      "q_id x \<in> set (map q_id (fst (claim_batch n locked now rows))) \<longrightarrow> r' = claimed_row now x"
      by (auto simp: claim_rows_def Let_def claimed_row_def comp_def split: if_splits)
    then have "x = r" using unique_by_key_eq [OF assms(1), of x r] r r'(2) by (simp add: claimed_row_def)
    then have "r' = r0" using x in0 r(3) r'(2) by simp
    then show ?thesis using r by (simp add: lease_of_def claimed_row_def LEASE_SECS_def)
  qed
  then show "lease_ok now (snd (claim_batch n locked now rows)) r0"
    using r by (auto simp: lease_ok_def claimed_row_def)
qed

lemma claim_later:
  assumes "lease_ok now rows r0" and "r \<in> set rows" and "q_id r = q_id r0" and "claimable now r"
  shows "q_claimed r0 \<noteq> Some now"
  using assms by (auto simp: lease_ok_def lease_of_def claimable_def open_row_def due_def)

lemma lease_release:
  assumes "lease_ok now rows r0"
    and "\<And>x. x \<in> set batch \<Longrightarrow> lease_ok now rows x \<and> q_claimed x = q_claimed (hd batch)"
    and "q_id r0 \<in> q_id ` set batch \<Longrightarrow> q_claimed r0 \<noteq> q_claimed (hd batch)"
  shows "lease_ok now (release_unattempted batch now rows) r0"
proof (cases "batch = []")
  case False
  from assms(2) [of "hd batch"] False obtain u where u: "q_claimed (hd batch) = Some u" "u \<le> now"
    by (auto simp: lease_ok_def)
  have "lease_of r0 t (r\<lparr>q_attempts := q_attempts r - 1, q_next := Some now, q_claimed := None\<rparr>)"
    if "lease_of r0 t r" "q_claimed r0 = Some t" "q_claimed r = q_claimed (hd batch)" "q_id r \<in> q_id ` set batch"
      "q_id r = q_id r0" for r t
    using that u assms(3) by (auto simp: lease_of_def)
  then show ?thesis
    unfolding release_unattempted_def using False assms(1) by (auto intro!: lease_ok_map [OF assms(1)])
qed (use assms(1) in \<open>simp add: release_unattempted_def\<close>)

lemma leasesD:
  assumes "leases_ok s"
  shows "r \<in> set (holds (pu_worker s w)) \<Longrightarrow> lease_ok (pu_now s) (pu_rows s) r"
    and "distinct (map q_id (holds (pu_worker s w)))"
    and "r \<in> set (holds (pu_worker s w)) \<Longrightarrow> r' \<in> set (holds (pu_worker s w)) \<Longrightarrow> q_claimed r = q_claimed r'"
    and "w \<noteq> w' \<Longrightarrow> r \<in> set (holds (pu_worker s w)) \<Longrightarrow> r' \<in> set (holds (pu_worker s w')) \<Longrightarrow>
       q_id r = q_id r' \<Longrightarrow> q_claimed r \<noteq> q_claimed r'"
    and "r \<in> set (pu_rows s) \<Longrightarrow> spent r"
  using assms unfolding leases_ok_def by blast+

text \<open>A step in which publisher \<open>w\<close> keeps a part of what it holds, or nothing, and no one else moves.\<close>

lemma leases_shrink:
  assumes "leases_ok s" and "pu_worker s' = (pu_worker s)(w := p)"
    and "set (holds p) \<subseteq> set (holds (pu_worker s w))" and "distinct (map q_id (holds p))"
    and "\<And>v r. r \<in> set (holds (pu_worker s' v)) \<Longrightarrow> lease_ok (pu_now s) (pu_rows s) r \<Longrightarrow>
       lease_ok (pu_now s') (pu_rows s') r"
    and "\<forall>r\<in>set (pu_rows s'). spent r"
  shows "leases_ok s'"
proof -
  have sub: "r \<in> set (holds (pu_worker s v))" if "r \<in> set (holds (pu_worker s' v))" for r v
    using that assms(2, 3) by (auto split: if_splits)
  have "distinct (map q_id (holds (pu_worker s' v)))" for v
    using assms(2, 4) leasesD(2) [OF assms(1), of v] by simp
  moreover have "lease_ok (pu_now s') (pu_rows s') r" if "r \<in> set (holds (pu_worker s' v))" for v r
    by (rule assms(5) [OF that leasesD(1) [OF assms(1) sub [OF that]]])
  moreover have "q_claimed r = q_claimed r'"
    if "r \<in> set (holds (pu_worker s' v))" "r' \<in> set (holds (pu_worker s' v))" for v r r'
    by (rule leasesD(3) [OF assms(1) sub [OF that(1)] sub [OF that(2)]])
  moreover have "q_claimed r \<noteq> q_claimed r'"
    if "v \<noteq> v'" "r \<in> set (holds (pu_worker s' v))" "r' \<in> set (holds (pu_worker s' v'))" "q_id r = q_id r'" for v v' r r'
    by (rule leasesD(4) [OF assms(1) that(1) sub [OF that(2)] sub [OF that(3)] that(4)])
  ultimately show ?thesis using assms(6) unfolding leases_ok_def by blast
qed

lemma spent_statements:
  "\<forall>r\<in>set rows. spent r \<Longrightarrow> \<forall>r\<in>set (mark_success i now rows). spent r"
  "\<forall>r\<in>set rows. spent r \<Longrightarrow> \<forall>r\<in>set (rescue now rows). spent r"
  "\<forall>r\<in>set rows. spent r \<Longrightarrow> \<forall>r\<in>set (release_unattempted batch now rows). spent r"
  by (auto simp: spent_def mark_success_def tab_update_def rescue_def release_unattempted_def open_row_def)

lemma spent_failure:
  assumes "\<forall>r\<in>set rows. spent r" and "lease_ok now rows r0"
  shows "\<forall>r\<in>set (mark_failure (q_id r0) (q_attempts r0) err now rows). spent r"
  using assms by (fastforce simp: spent_def mark_failure_def tab_update_def Let_def lease_ok_def lease_of_def)

lemma leases_claim:
  assumes "leases_ok s" and "unique_by q_id (pu_rows s)" and "pu_worker s w = PIdle"
    and "mset batch = mset (fst (claim_batch BATCH_SIZE locked (pu_now s) (pu_rows s)))"
  shows "leases_ok (claim w locked batch s)"
proof -
  let ?c = "claim_batch BATCH_SIZE locked (pu_now s) (pu_rows s)"
  have b: "r \<in> set batch \<longleftrightarrow> r \<in> set (fst ?c)" for r using mset_eq_setD [OF assms(4)] by simp
  have dist: "distinct (map q_id batch)"
    using claim_rows_distinct [OF assms(2)] assms(4) by (metis mset_eq_imp_distinct_iff mset_map)
  have g: "lease_ok (pu_now s) (snd ?c) r" "q_claimed r = Some (pu_now s)" if "r \<in> set batch" for r
    using claim_granted [OF assms(2)] that b by blast+
  have later: "q_claimed r' \<noteq> Some (pu_now s)"
    if "r \<in> set batch" "r' \<in> set (holds (pu_worker s v))" "q_id r = q_id r'" for v r r'
  proof -
    from that(1) b claim_rows_fst obtain x where "x \<in> set (pu_rows s)" "claimable (pu_now s) x"
      "r = claimed_row (pu_now s) x" by blast
    then show ?thesis using claim_later [OF leasesD(1) [OF assms(1) that(2)], of x] that(3) by (simp add: claimed_row_def)
  qed
  have h: "holds (pu_worker (claim w locked batch s) v) = (if v = w then batch else holds (pu_worker s v))" for v
    by (simp add: claim_def)
  have n: "pu_now (claim w locked batch s) = pu_now s" "pu_rows (claim w locked batch s) = snd ?c"
    by (simp_all add: claim_def)
  have "spent r" if "r \<in> set (snd ?c)" for r
  proof -
    from claim_rows_snd [OF assms(2) that] obtain x where "x \<in> set (pu_rows s)"
      "r = x \<or> claimable (pu_now s) x \<and> r = claimed_row (pu_now s) x" by blast
    then show ?thesis using leasesD(5) [OF assms(1), of x]
      by (auto simp: spent_def claimable_def open_row_def claimed_row_def)
  qed
  moreover have "lease_ok (pu_now s) (snd ?c) r" if "r \<in> set (if v = w then batch else holds (pu_worker s v))" for v r
    using that g(1) lease_claim [OF assms(2) leasesD(1) [OF assms(1)]] by (cases "v = w") simp_all
  moreover have "distinct (map q_id (if v = w then batch else holds (pu_worker s v)))" for v
    using dist leasesD(2) [OF assms(1), of v] by simp
  moreover have "q_claimed r = q_claimed r'"
    if "r \<in> set (if v = w then batch else holds (pu_worker s v))"
      "r' \<in> set (if v = w then batch else holds (pu_worker s v))" for v r r'
    using that g(2) leasesD(3) [OF assms(1), of r v r'] by (cases "v = w") simp_all
  moreover have "q_claimed r \<noteq> q_claimed r'"
    if two: "v \<noteq> v'" "r \<in> set (if v = w then batch else holds (pu_worker s v))"
      "r' \<in> set (if v' = w then batch else holds (pu_worker s v'))" "q_id r = q_id r'" for v v' r r'
  proof -
    consider "v = w" "v' \<noteq> w" | "v \<noteq> w" "v' = w" | "v \<noteq> w" "v' \<noteq> w" using two(1) by blast
    then show ?thesis
    proof cases
      case 1
      then show ?thesis using two g(2) [of r] later [of r r' v'] by simp
    next
      case 2
      then show ?thesis using two g(2) [of r'] later [of r' r v] by simp
    next
      case 3
      then show ?thesis using two leasesD(4) [OF assms(1) two(1), of r r'] by simp
    qed
  qed
  ultimately show ?thesis unfolding leases_ok_def h n by blast
qed

lemma leases_step: "outbox_step s s' \<Longrightarrow> outbox_ok s \<Longrightarrow> leases_ok s \<Longrightarrow> leases_ok s'"
proof (induction rule: outbox_step.induct)
  case (commit_events d s new)
  have "lease_ok (pu_now s) (pu_rows (commit_events d new s)) r"
    if "r \<in> set (holds (pu_worker s w))" for w r
  proof -
    have "q_id r < length (events (pu_cat s))" using that commit_events(2) by (auto simp: outbox_ok_def carries_def)
    then show ?thesis
      using leasesD(1) [OF commit_events(3) that] by (fastforce simp: lease_ok_def commit_events_def new_qrow_def)
  qed
  moreover have "\<forall>r\<in>set (pu_rows (commit_events d new s)). spent r"
    using leasesD(5) [OF commit_events(3)] by (auto simp: commit_events_def new_qrow_def spent_def)
  moreover have "pu_worker (commit_events d new s) = (pu_worker s)(0 := pu_worker s 0)" "pu_now (commit_events d new s) = pu_now s"
    by (simp_all add: commit_events_def)
  ultimately show ?case
    using leasesD(2) [OF commit_events(3), of 0] by (intro leases_shrink [OF commit_events(3), of _ 0 "pu_worker s 0"]) auto
next
  case (time_passes s n)
  then show ?case using leasesD(2) [OF time_passes(2), of 0] leasesD(5) [OF time_passes(2)]
    by (intro leases_shrink [OF time_passes(2), of _ 0 "pu_worker s 0"])
      (auto intro: lease_subset [of "pu_now s" "pu_rows s"])
next
  case (claim s w batch locked)
  then show ?case by (intro leases_claim) (auto simp: outbox_ok_def)
next
  case (skip s w r rest v)
  then show ?case using leasesD(2) [OF skip(5), of w] leasesD(5) [OF skip(5)]
    by (intro leases_shrink [OF skip(5), of _ w "PBatch rest"])
      (auto simp: skip_def intro: lease_success spent_statements(1) [rule_format])
next
  case (xadd s w r rest)
  then show ?case using leasesD(2) [OF xadd(4), of w] leasesD(5) [OF xadd(4)]
    by (intro leases_shrink [OF xadd(4), of _ w "PSent r rest"]) (auto simp: xadd_def)
next
  case (mark_published s w r rest)
  then show ?case using leasesD(2) [OF mark_published(3), of w] leasesD(5) [OF mark_published(3)]
    by (intro leases_shrink [OF mark_published(3), of _ w "PBatch rest"])
      (auto simp: mark_published_def intro: lease_success spent_statements(1) [rule_format])
next
  case (xadd_failed s w r rest arrived error)
  have "lease_ok (pu_now s) (pu_rows s) r" using leasesD(1) [OF xadd_failed(3), of r w] xadd_failed(1) by simp
  then have "\<forall>x\<in>set (mark_failure (q_id r) (q_attempts r) error (pu_now s) (pu_rows s)). spent x"
    using spent_failure leasesD(5) [OF xadd_failed(3)] by blast
  then show ?case using leasesD(2) [OF xadd_failed(3), of w] xadd_failed(1)
    by (intro leases_shrink [OF xadd_failed(3), of _ w "PFailed rest"]) (auto simp: xadd_failed_def intro: lease_failure)
next
  case (release s w rest)
  have h: "holds (pu_worker s w) = rest" using release(1) by simp
  have "lease_ok (pu_now s) (release_unattempted rest (pu_now s) (pu_rows s)) r"
    if "v \<noteq> w" "r \<in> set (holds (pu_worker s v))" for v r
  proof (rule lease_release [OF leasesD(1) [OF release(3) that(2)]])
    show "lease_ok (pu_now s) (pu_rows s) x \<and> q_claimed x = q_claimed (hd rest)" if "x \<in> set rest" for x
    proof -
      have "hd rest \<in> set rest" using that by (cases rest) auto
      then show ?thesis using leasesD(1) [OF release(3), of x w] leasesD(3) [OF release(3), of x w "hd rest"] that h by simp
    qed
    show "q_claimed r \<noteq> q_claimed (hd rest)" if id: "q_id r \<in> q_id ` set rest"
    proof -
      from id obtain x where x: "x \<in> set rest" "q_id r = q_id x" by auto
      then have "hd rest \<in> set rest" by (cases rest) auto
      then have "q_claimed x = q_claimed (hd rest)" using leasesD(3) [OF release(3), of x w] x h by blast
      then show ?thesis using leasesD(4) [OF release(3) \<open>v \<noteq> w\<close> \<open>r \<in> set (holds (pu_worker s v))\<close>, of x] x h by simp
    qed
  qed
  then have "lease_ok (pu_now (release w rest s)) (pu_rows (release w rest s)) r"
    if "r \<in> set (holds (pu_worker (release w rest s) v))" for v r
    using that by (cases "v = w") (simp_all add: release_def)
  moreover have "\<forall>r\<in>set (pu_rows (release w rest s)). spent r"
    using leasesD(5) [OF release(3)] spent_statements(3) [of "pu_rows s"] by (simp add: release_def)
  ultimately show ?case by (intro leases_shrink [OF release(3), of _ w PIdle]) (simp_all add: release_def)
next
  case (batch_done s w)
  then show ?case using leasesD(5) [OF batch_done(3)] by (intro leases_shrink [OF batch_done(3), of _ w PIdle]) auto
next
  case (crash s w)
  then show ?case using leasesD(5) [OF crash(2)] by (intro leases_shrink [OF crash(2), of _ w PIdle]) auto
next
  case (rescue s)
  then show ?case using leasesD(2) [OF rescue(2), of 0] leasesD(5) [OF rescue(2)]
    by (intro leases_shrink [OF rescue(2), of _ 0 "pu_worker s 0"])
      (auto intro: lease_rescue spent_statements(2) [rule_format])
next
  case (sweep s grace)
  then show ?case using leasesD(2) [OF sweep(2), of 0] leasesD(5) [OF sweep(2)]
    by (intro leases_shrink [OF sweep(2), of _ 0 "pu_worker s 0"])
      (auto simp: sweep_def Let_def intro: lease_subset [of "pu_now s" "pu_rows s"])
qed

lemma outbox_reachable: "outbox_steps (outbox_init d) s \<Longrightarrow> outbox_ok s \<and> leases_ok s"
proof (induction rule: rtranclp_induct)
  case base
  show ?case
    by (simp add: outbox_init_def outbox_ok_def leases_ok_def unique_by_def)
next
  case (step s s')
  then show ?case using outbox_step_ok leases_step by blast
qed


section \<open>A working broker drains the queue\<close>

lemma xadd_fields_claimed [simp]: "xadd_fields (claimed_row now r) = xadd_fields r"
  by (simp add: xadd_fields_def)

definition publish_row :: "db \<Rightarrow> (nat, event) qrow \<Rightarrow> stream_entry list \<Rightarrow> stream_entry list" where
  "publish_row d r st = (if skipped_event d (q_payload r) then st else st @ [xadd_fields r])"

definition publish_tick :: "db \<Rightarrow> nat \<Rightarrow> (nat, event) qrow list \<times> stream_entry list \<Rightarrow> (nat, event) qrow list \<times> stream_entry list" where
  "publish_tick d now s = snd (publish_once d (\<lambda>_. None) None now s)"

lemma drain_batch_accepted:
  "drain_batch d (\<lambda>_. None) now batch (rows, st) = (length batch, finish batch now rows, fold (publish_row d) batch st)"
  by (induction batch arbitrary: rows st) (simp_all add: finish_Cons publish_row_def)

lemma fold_publish_claimed: "fold (publish_row d) (map (claimed_row now) batch) st = fold (publish_row d) batch st"
  by (induction batch arbitrary: st) (simp_all add: publish_row_def)

interpretation publisher: queue_worker "publish_tick d" BATCH_SIZE "publish_row d"
proof
  fix now :: nat and rows :: "(nat, event) qrow list" and st
  let ?p = "pending BATCH_SIZE now rows"
  let ?rows = "map (\<lambda>r. if q_id r \<in> q_id ` set ?p then claimed_row now r else r) rows"
  have "publish_tick d now (rows, st) = snd (drain_batch d (\<lambda>_. None) now (map (claimed_row now) ?p) (?rows, st))"
    by (cases ?p) (simp_all add: publish_tick_def publish_once_def claim_batch_pending del: drain_batch.simps(2))
  then show "publish_tick d now (rows, st) = (finish ?p now rows, fold (publish_row d) ?p st)"
    by (simp only: drain_batch_accepted finish_claimed fold_publish_claimed snd_conv)
qed

lemma fold_publish_mset:
  "mset (fold (publish_row d) order st) =
     mset st + mset (map xadd_fields (filter (\<lambda>r. \<not> skipped_event d (q_payload r)) order))"
  by (induction order arbitrary: st) (simp_all add: publish_row_def)

text \<open>C9: While the broker accepts, repeated passes drain the queue: as many passes as there are batches among the
  claimable rows finish every one of them, touch no other row, and append to the stream one entry for each,
  and for nothing else; events that are gardener bookkeeping are finished without an entry.
\<close>

theorem publisher_drains:
  assumes "unique_by q_id rows" and "length (filter (claimable now) rows) \<le> BATCH_SIZE * k"
  shows "fst ((publish_tick d now ^^ k) (rows, st)) = map (\<lambda>r. if claimable now r then delivered now r else r) rows
     \<and> mset (snd ((publish_tick d now ^^ k) (rows, st))) =
         mset st + mset (map xadd_fields (filter (\<lambda>r. claimable now r \<and> \<not> skipped_event d (q_payload r)) rows))"
proof -
  from publisher.drains [OF assms, of d st] obtain order where o:
    "fst ((publish_tick d now ^^ k) (rows, st)) = map (\<lambda>r. if claimable now r then delivered now r else r) rows"
    "mset order = mset (filter (claimable now) rows)"
    "snd ((publish_tick d now ^^ k) (rows, st)) = fold (publish_row d) order st" by blast
  have "mset (filter (\<lambda>r. \<not> skipped_event d (q_payload r)) order)
      = mset (filter (\<lambda>r. claimable now r \<and> \<not> skipped_event d (q_payload r)) rows)"
    using arg_cong [OF o(2), of "filter_mset (\<lambda>r. \<not> skipped_event d (q_payload r))"]
    by (simp add: filter_filter_mset conj_commute)
  then show ?thesis using o(1, 3) by (simp add: fold_publish_mset)
qed

section \<open>A concrete queue\<close>

definition ex_event :: event where
  "ex_event = \<lparr>ev_kind = ''document.put'', ev_vault = None, ev_uri = None, ev_actor = None, ev_payload = []\<rparr>"

definition ex_catalog :: db where
  "ex_catalog =
     \<lparr>clock = 0, users = [], vaults = [], mirrors = [], tokens = [], access = [], contribs = [], policies = [],
      grants = [], events = [ex_event], pg_user = ''akb'', pg_roles = [], pg_edges = [], vault_tables = [],
      pg_tables = [], pg_privs = []\<rparr>"

definition ex_open :: "(nat, event) qrow" where
  "ex_open = new_qrow 0 ex_event None"

definition ex_claimed :: outbox where
  "ex_claimed = claim 7 [] [claimed_row 0 ex_open] (commit_events ex_catalog [ex_event] (outbox_init ex_catalog))"

definition ex_lost_answer :: outbox where
  "ex_lost_answer = xadd_failed 7 True ''timeout'' (claimed_row 0 ex_open) [] ex_claimed"

lemma ex_claim_batch:
  "claim_batch BATCH_SIZE [] 0 [ex_open] = ([claimed_row 0 ex_open], [claimed_row 0 ex_open])"
  by (simp add: claim_rows_def BATCH_SIZE_def Let_def claimable_def open_row_def due_def ex_open_def new_qrow_def
      claimed_row_def)

lemma ex_outbox_steps: "outbox_steps (outbox_init ex_catalog) ex_lost_answer"
proof -
  let ?c = "commit_events ex_catalog [ex_event] (outbox_init ex_catalog)"
  have r: "pu_rows ?c = [ex_open]" "pu_now ?c = 0" "pu_worker ?c = (\<lambda>_. PIdle)"
    by (simp_all add: commit_events_def outbox_init_def ex_open_def)
  have "outbox_step (outbox_init ex_catalog) ?c"
    by (rule outbox_step.commit_events) (simp add: ex_catalog_def outbox_init_def)
  moreover have "outbox_step ?c ex_claimed" unfolding ex_claimed_def
    by (rule outbox_step.claim) (simp_all add: r ex_claim_batch)
  moreover have "outbox_step ex_claimed ex_lost_answer" unfolding ex_lost_answer_def
    by (rule outbox_step.xadd_failed) (simp add: ex_claimed_def claim_def)
  ultimately show ?thesis by (meson converse_rtranclp_into_rtranclp rtranclp.rtrancl_refl)
qed

lemma ex_lost_answer_eval:
  "events (pu_cat ex_lost_answer) = [ex_event]" "pu_stream ex_lost_answer = [entry 0 ex_event]"
  "length (pu_rows ex_lost_answer) = 1"
  by (simp_all add: ex_lost_answer_def ex_claimed_def xadd_failed_def claim_def commit_events_def outbox_init_def
      ex_catalog_def xadd_fields_entry ex_open_def ex_claim_batch [unfolded ex_open_def] new_qrow_def claimed_row_def
      claim_rows_def Let_def mark_failure_def tab_update_def)


lemma publisher_drains_witness:
  "fst ((publish_tick ex_catalog 5 ^^ 1) ([ex_open], [])) = [delivered 5 ex_open]
   \<and> mset (snd ((publish_tick ex_catalog 5 ^^ 1) ([ex_open], []))) = {#xadd_fields ex_open#}"
proof -
  have "claimable 5 ex_open" "\<not> skipped_event ex_catalog (q_payload ex_open)"
    by (simp_all add: claimable_def open_row_def due_def ex_open_def new_qrow_def skipped_event_def ex_event_def)
  moreover have "unique_by q_id [ex_open]" by (simp add: unique_by_def)
  ultimately show ?thesis
    using publisher_drains [of "[ex_open]" 5 1 ex_catalog "[]"] by (simp add: BATCH_SIZE_def)
qed

end
