(* ===== verification/Indexing.thy ===== *)
theory Indexing
  imports Chunker Outbox
begin

text \<open>
  The search index behind the chunks: the table \<^verbatim>\<open>chunks\<close>, which is a queue of its own
  (\<^verbatim>\<open>services/embed_worker.py\<close> claims a chunk, embeds it and upserts its point), the table
  \<^verbatim>\<open>vector_delete_outbox\<close> (\<^verbatim>\<open>services/delete_worker.py\<close>), the writes of \<^verbatim>\<open>services/index_service.py\<close> to both,
  and the points of the vector store. The store is the keyed upsert and delete its drivers implement; the
  embedding API, the sparse encoder and the failures of the store are arguments. Vectors have elements of
  any type.
\<close>

section \<open>Tables and points\<close>

record chunk_row =
  cr_source_type :: string
  cr_source :: uuid
  cr_vault :: uuid
  cr_created :: nat
  cr_chunk :: chunk

record delete_row =
  vd_chunk :: uuid
  vd_source_type :: string
  vd_source :: uuid

record 'v point =
  pt_id :: uuid
  pt_source_type :: string
  pt_source :: uuid
  pt_vault :: uuid
  pt_section :: string
  pt_content :: string
  pt_index :: nat
  pt_dense :: "'v list option"
  pt_sparse :: "(nat \<times> 'v) list"

text \<open>\<open>ix_serial\<close> is the sequence of the outbox's ids.\<close>

record 'v index =
  ix_now :: nat
  ix_chunks :: "(uuid, chunk_row) qrow list"
  ix_deletes :: "(nat, delete_row) qrow list"
  ix_serial :: nat
  ix_points :: "'v point list"

section \<open>Writing and dropping the chunks of a source\<close>

definition enqueue_deletes :: "(uuid, chunk_row) qrow list \<Rightarrow> 'v index \<Rightarrow> 'v index" where
  "enqueue_deletes cs ix =
     ix\<lparr>ix_deletes := ix_deletes ix @
          map (\<lambda>(i, c). new_qrow i \<lparr>vd_chunk = q_id c, vd_source_type = cr_source_type (q_payload c),
                                    vd_source = cr_source (q_payload c)\<rparr> (Some (ix_now ix)))
            (List.enumerate (ix_serial ix) cs),
        ix_serial := ix_serial ix + length cs\<rparr>"

definition of_source :: "string \<Rightarrow> uuid \<Rightarrow> (uuid, chunk_row) qrow \<Rightarrow> bool" where
  "of_source source_type source_id c \<longleftrightarrow>
     cr_source_type (q_payload c) = source_type \<and> cr_source (q_payload c) = source_id"

definition enqueue_source_deletes :: "string \<Rightarrow> uuid \<Rightarrow> 'v index \<Rightarrow> nat \<times> 'v index" where
  "enqueue_source_deletes source_type source_id ix =
     (let cs = filter (of_source source_type source_id) (ix_chunks ix) in (length cs, enqueue_deletes cs ix))"

definition delete_chunks_where :: "((uuid, chunk_row) qrow \<Rightarrow> bool) \<Rightarrow> 'v index \<Rightarrow> 'v index" where
  "delete_chunks_where P ix = ix\<lparr>ix_chunks := filter (\<lambda>c. \<not> P c) (ix_chunks ix)\<rparr>"

definition drop_source_chunks :: "string \<Rightarrow> uuid \<Rightarrow> 'v index \<Rightarrow> 'v index" where
  "drop_source_chunks source_type source_id ix =
     delete_chunks_where (of_source source_type source_id) (snd (enqueue_source_deletes source_type source_id ix))"

definition SOURCE_NATIVE :: "string list" where
  "SOURCE_NATIVE = [''native_document'', ''native_file'']"

text \<open>\<open>docs\<close> are the ids of the vault's rows in \<^verbatim>\<open>documents\<close>.\<close>

definition delete_vault_chunks :: "uuid \<Rightarrow> uuid list \<Rightarrow> 'v index \<Rightarrow> 'v index" where
  "delete_vault_chunks vault docs ix =
     (let legacy = (\<lambda>c. cr_source_type (q_payload c) = ''document'' \<and> List.member docs (cr_source (q_payload c)));
          native = (\<lambda>c. List.member SOURCE_NATIVE (cr_source_type (q_payload c)) \<and> cr_vault (q_payload c) = vault);
          ix = delete_chunks_where legacy (enqueue_deletes (filter legacy (ix_chunks ix)) ix)
      in delete_chunks_where native (enqueue_deletes (filter native (ix_chunks ix)) ix))"

text \<open>One \<open>INSERT\<close> into \<^verbatim>\<open>chunks\<close>, with its primary key.\<close>

definition insert_chunk :: "string \<Rightarrow> uuid \<Rightarrow> uuid \<Rightarrow> uuid \<times> chunk \<Rightarrow> 'v index \<Rightarrow> 'v index result" where
  "insert_chunk source_type source_id vault_id c ix =
     (if List.member (map q_id (ix_chunks ix)) (fst c) then Inl (DbIntegrity ''chunks_pkey'')
      else Inr (ix\<lparr>ix_chunks := ix_chunks ix @
             [new_qrow (fst c) \<lparr>cr_source_type = source_type, cr_source = source_id, cr_vault = vault_id,
                               cr_created = ix_now ix, cr_chunk = snd c\<rparr> None]\<rparr>))"

text \<open>\<open>chunks\<close> come with the random ids their rows get.\<close>

definition write_source_chunks ::
  "string \<Rightarrow> uuid \<Rightarrow> uuid \<Rightarrow> (uuid \<times> chunk) list \<Rightarrow> 'v index \<Rightarrow> (nat \<times> 'v index) result" where
  "write_source_chunks source_type source_id vault_id chunks ix =
     rbind (fold_res (insert_chunk source_type source_id vault_id) chunks (drop_source_chunks source_type source_id ix))
       (\<lambda>ix. Inr (length chunks, ix))"

section \<open>The embed worker\<close>

definition chunk_order :: "(uuid, chunk_row) qrow \<Rightarrow> int \<times> uuid" where
  "chunk_order c = (- int (cr_created (q_payload c)), q_id c)"

definition claim_chunks :: "nat \<Rightarrow> uuid list \<Rightarrow> 'v index \<Rightarrow> (uuid, chunk_row) qrow list \<times> 'v index" where
  "claim_chunks n locked ix =
     (case claim_rows chunk_order n locked (ix_now ix) (ix_chunks ix) of
        (batch, rows) \<Rightarrow> (batch, ix\<lparr>ix_chunks := rows\<rparr>))"

definition mark_terminal :: "'i \<Rightarrow> string \<Rightarrow> nat \<Rightarrow> ('i, 'p) qrow list \<Rightarrow> ('i, 'p) qrow list" where
  "mark_terminal i error now =
     tab_update q_id i (\<lambda>r. r\<lparr>q_error := Some (take 500 error), q_next := None, q_claimed := None,
                              q_abandoned := Some now\<rparr>)"

definition chunk_failure :: "(uuid, chunk_row) qrow \<Rightarrow> string \<Rightarrow> 'v index \<Rightarrow> 'v index" where
  "chunk_failure r error ix =
     ix\<lparr>ix_chunks := mark_failure (q_id r) (q_attempts r) error (ix_now ix) (ix_chunks ix)\<rparr>"

definition chunk_terminal :: "(uuid, chunk_row) qrow \<Rightarrow> string \<Rightarrow> 'v index \<Rightarrow> 'v index" where
  "chunk_terminal r error ix = ix\<lparr>ix_chunks := mark_terminal (q_id r) error (ix_now ix) (ix_chunks ix)\<rparr>"

definition release_chunks :: "(uuid, chunk_row) qrow list \<Rightarrow> 'v index \<Rightarrow> 'v index" where
  "release_chunks batch ix = ix\<lparr>ix_chunks := release_unattempted batch (ix_now ix) (ix_chunks ix)\<rparr>"

definition has_dense :: "'v list option \<Rightarrow> bool" where
  "has_dense dense \<longleftrightarrow> dense \<noteq> None \<and> dense \<noteq> Some []"

definition point_of :: "(uuid, chunk_row) qrow \<Rightarrow> 'v list option \<Rightarrow> (nat \<times> 'v) list \<Rightarrow> 'v point" where
  "point_of r dense sparse =
     (let p = q_payload r; c = cr_chunk p in
      \<lparr>pt_id = q_id r, pt_source_type = (if cr_source_type p = '''' then ''document'' else cr_source_type p),
       pt_source = cr_source p, pt_vault = cr_vault p, pt_section = ch_section c, pt_content = ch_content c,
       pt_index = ch_index c, pt_dense = (if has_dense dense then dense else None), pt_sparse = sparse\<rparr>)"

definition upsert_point :: "'v point \<Rightarrow> 'v point list \<Rightarrow> 'v point list" where
  "upsert_point p ps =
     (if List.member (map pt_id ps) (pt_id p) then map (\<lambda>x. if pt_id x = pt_id p then p else x) ps else ps @ [p])"

definition chunk_exists :: "uuid \<Rightarrow> 'v index \<Rightarrow> bool" where
  "chunk_exists i ix = List.member (map q_id (ix_chunks ix)) i"

text \<open>The transaction of one chunk whose upsert succeeds: the point and the mark, or nothing if the chunk is gone.\<close>

definition store_chunk :: "(uuid, chunk_row) qrow \<Rightarrow> 'v list option \<Rightarrow> (nat \<times> 'v) list \<Rightarrow> 'v index \<Rightarrow> 'v index" where
  "store_chunk r dense sparse ix =
     (if chunk_exists (q_id r) ix
      then ix\<lparr>ix_points := upsert_point (point_of r dense sparse) (ix_points ix),
              ix_chunks := mark_success (q_id r) (ix_now ix) (ix_chunks ix)\<rparr>
      else ix)"

datatype 'v encode = Renumbering | EncodeFailed string | Encoded "(nat \<times> 'v) list"

datatype fence = Held | FenceRenumbering | EpochMoved string | FenceFailed string

datatype store_reply = Stored | TermIdOutOfRange string | StoreUnavailable string | StoreFailed string

text \<open>
  The loop over a claimed batch. The sparse encoder, the vocabulary fence and the store answer per chunk;
  the fence comes first in the transaction, then the check that the chunk is still there.
\<close>

fun embed_rows ::
  "(uuid \<Rightarrow> 'v encode) \<Rightarrow> (uuid \<Rightarrow> fence) \<Rightarrow> (uuid \<Rightarrow> store_reply) \<Rightarrow>
   ((uuid, chunk_row) qrow \<times> 'v list option) list \<Rightarrow> 'v index \<Rightarrow> nat \<times> 'v index" where
  "embed_rows enc fence store [] ix = (0, ix)"
| "embed_rows enc fence store ((r, dense) # rest) ix =
     (case enc (q_id r) of
        Renumbering \<Rightarrow> (0, release_chunks (r # map fst rest) ix)
      | EncodeFailed e \<Rightarrow> embed_rows enc fence store rest (chunk_failure r (''sparse encode failed: '' @ e) ix)
      | Encoded sparse \<Rightarrow>
          if \<not> has_dense dense \<and> sparse = []
          then embed_rows enc fence store rest
                 (chunk_failure r ''no indexable signal (no dense embedding + empty sparse)'' ix)
          else (case fence (q_id r) of
              FenceRenumbering \<Rightarrow> (0, release_chunks (r # map fst rest) ix)
            | EpochMoved e \<Rightarrow> embed_rows enc fence store rest (chunk_failure r e ix)
            | FenceFailed e \<Rightarrow> embed_rows enc fence store rest (chunk_failure r e ix)
            | Held \<Rightarrow>
                if \<not> chunk_exists (q_id r) ix then embed_rows enc fence store rest ix
                else (case store (q_id r) of
                    Stored \<Rightarrow>
                      (let (n, ix) = embed_rows enc fence store rest (store_chunk r dense sparse ix) in (Suc n, ix))
                  | TermIdOutOfRange e \<Rightarrow>
                      embed_rows enc fence store rest
                        (chunk_terminal r (e @ '' This chunk is abandoned; renumber the vocabulary first.'') ix)
                  | StoreUnavailable e \<Rightarrow> (0, release_chunks (map fst rest) (chunk_failure r e ix))
                  | StoreFailed e \<Rightarrow> embed_rows enc fence store rest (chunk_failure r e ix))))"

text \<open>\<open>embeddings\<close> is what the embedding API gave for the batch; any other length counts as an outage.\<close>

definition pad_embeddings :: "nat \<Rightarrow> 'v list list \<Rightarrow> 'v list option list" where
  "pad_embeddings n embeddings =
     (if length embeddings \<noteq> n then replicate n None else map Some embeddings)"

definition embed_once ::
  "nat \<Rightarrow> uuid list \<Rightarrow> (string list \<Rightarrow> 'v list list) \<Rightarrow> (uuid \<Rightarrow> 'v encode) \<Rightarrow> (uuid \<Rightarrow> fence) \<Rightarrow> (uuid \<Rightarrow> store_reply)
   \<Rightarrow> 'v index \<Rightarrow> nat \<times> 'v index" where
  "embed_once batch_size locked embedder enc fence store ix =
     (case claim_chunks batch_size locked ix of
        (batch, ix) \<Rightarrow>
          embed_rows enc fence store
            (zip batch (pad_embeddings (length batch) (embedder (map (\<lambda>r. ch_content (cr_chunk (q_payload r))) batch)))) ix)"

section \<open>The delete worker\<close>

definition DELETE_BATCH_SIZE :: nat where
  "DELETE_BATCH_SIZE = 16"

definition claim_deletes :: "nat list \<Rightarrow> 'v index \<Rightarrow> (nat, delete_row) qrow list \<times> 'v index" where
  "claim_deletes locked ix =
     (case claim_batch DELETE_BATCH_SIZE locked (ix_now ix) (ix_deletes ix) of
        (batch, rows) \<Rightarrow> (batch, ix\<lparr>ix_deletes := rows\<rparr>))"

definition delete_point :: "uuid \<Rightarrow> 'v point list \<Rightarrow> 'v point list" where
  "delete_point i ps = filter (\<lambda>p. pt_id p \<noteq> i) ps"

definition delete_done :: "(nat, delete_row) qrow \<Rightarrow> 'v index \<Rightarrow> 'v index" where
  "delete_done r ix =
     ix\<lparr>ix_points := delete_point (vd_chunk (q_payload r)) (ix_points ix),
        ix_deletes := mark_success (q_id r) (ix_now ix) (ix_deletes ix)\<rparr>"

definition delete_failure :: "(nat, delete_row) qrow \<Rightarrow> string \<Rightarrow> 'v index \<Rightarrow> 'v index" where
  "delete_failure r error ix =
     ix\<lparr>ix_deletes := mark_failure (q_id r) (q_attempts r) error (ix_now ix) (ix_deletes ix)\<rparr>"

definition release_deletes :: "(nat, delete_row) qrow list \<Rightarrow> 'v index \<Rightarrow> 'v index" where
  "release_deletes batch ix = ix\<lparr>ix_deletes := release_unattempted batch (ix_now ix) (ix_deletes ix)\<rparr>"

datatype delete_reply = Deleted | DeleteUnavailable string | DeleteFailed string

fun delete_rows :: "(uuid \<Rightarrow> delete_reply) \<Rightarrow> (nat, delete_row) qrow list \<Rightarrow> 'v index \<Rightarrow> nat \<times> 'v index" where
  "delete_rows store [] ix = (0, ix)"
| "delete_rows store (r # rest) ix =
     (case store (vd_chunk (q_payload r)) of
        Deleted \<Rightarrow> (let (n, ix) = delete_rows store rest (delete_done r ix) in (Suc n, ix))
      | DeleteUnavailable e \<Rightarrow> (0, release_deletes rest (delete_failure r e ix))
      | DeleteFailed e \<Rightarrow> delete_rows store rest (delete_failure r e ix))"

definition process_deletes_once :: "(uuid \<Rightarrow> delete_reply) \<Rightarrow> nat list \<Rightarrow> 'v index \<Rightarrow> nat \<times> 'v index" where
  "process_deletes_once store locked ix =
     (case claim_deletes locked ix of (batch, ix) \<Rightarrow> delete_rows store batch ix)"

definition sweep_outbox :: "nat \<Rightarrow> 'v index \<Rightarrow> nat \<times> 'v index" where
  "sweep_outbox grace ix =
     (case sweep grace (ix_now ix) (ix_deletes ix) of (n, rows) \<Rightarrow> (n, ix\<lparr>ix_deletes := rows\<rparr>))"

text \<open>
  The reaper of chunks given up long ago; \<open>locked\<close> are the chunks other transactions hold. A chunk with an
  unprocessed outbox row is not enqueued again.
\<close>

definition reapable :: "nat \<Rightarrow> uuid list \<Rightarrow> nat \<Rightarrow> (uuid, chunk_row) qrow \<Rightarrow> bool" where
  "reapable grace locked now c \<longleftrightarrow>
     q_done c = None \<and> (case q_abandoned c of None \<Rightarrow> False | Some t \<Rightarrow> t + grace < now)
     \<and> \<not> List.member locked (q_id c)"

definition reap_abandoned_chunks :: "nat \<Rightarrow> uuid list \<Rightarrow> 'v index \<Rightarrow> nat \<times> 'v index" where
  "reap_abandoned_chunks grace locked ix =
     (let old = reapable grace locked (ix_now ix);
          scheduled = (\<lambda>c. list_ex (\<lambda>d. vd_chunk (q_payload d) = q_id c \<and> q_done d = None) (ix_deletes ix));
          abandoned = filter old (ix_chunks ix)
      in (length abandoned,
          delete_chunks_where old (enqueue_deletes (filter (\<lambda>c. \<not> scheduled c) abandoned) ix)))"

section \<open>Counters\<close>

record queue_stats =
  st_pending :: nat
  st_retrying :: nat
  st_abandoned :: nat
  st_done :: nat

definition pending_stats :: "('i, 'p) qrow list \<Rightarrow> queue_stats" where
  "pending_stats rows =
     \<lparr>st_pending = length (filter open_row rows),
      st_retrying = length (filter (\<lambda>r. open_row r \<and> 0 < q_attempts r) rows),
      st_abandoned = length (filter (\<lambda>r. q_done r = None \<and> q_abandoned r \<noteq> None) rows),
      st_done = length (filter (\<lambda>r. q_done r \<noteq> None) rows)\<rparr>"

definition vault_stats :: "uuid option \<Rightarrow> 'v index \<Rightarrow> queue_stats" where
  "vault_stats vault ix =
     pending_stats (filter (\<lambda>c. case vault of None \<Rightarrow> True | Some v \<Rightarrow> cr_vault (q_payload c) = v) (ix_chunks ix))"

end
