(* ===== verification/IndexInv.thy ===== *)
theory IndexInv
  imports Indexing
begin

text \<open>
  The search index under concurrency: writers, embed workers, delete workers and the maintenance jobs as a
  step relation, one step per transaction, and what holds in every reachable state. A worker may stall,
  crash or lose the answer of the vector store anywhere; a store that is not PostgreSQL may have applied a
  write whose transaction failed.
\<close>

section \<open>Steps\<close>

text \<open>\<open>sy_used\<close> records the chunk ids ever drawn (\<open>uuid4\<close> does not repeat them).\<close>

record 'v system =
  sy_ix :: "'v index"
  sy_embed :: "nat \<Rightarrow> (uuid, chunk_row) qrow list"
  sy_delete :: "nat \<Rightarrow> (nat, delete_row) qrow list"
  sy_used :: "uuid list"

definition set_embed :: "nat \<Rightarrow> (uuid, chunk_row) qrow list \<Rightarrow> 'v index \<Rightarrow> 'v system \<Rightarrow> 'v system" where
  "set_embed w rs ix s = s\<lparr>sy_ix := ix, sy_embed := (sy_embed s)(w := rs)\<rparr>"

definition set_delete :: "nat \<Rightarrow> (nat, delete_row) qrow list \<Rightarrow> 'v index \<Rightarrow> 'v system \<Rightarrow> 'v system" where
  "set_delete w rs ix s = s\<lparr>sy_ix := ix, sy_delete := (sy_delete s)(w := rs)\<rparr>"

definition upsert_arrived :: "(uuid, chunk_row) qrow \<Rightarrow> 'v list option \<Rightarrow> (nat \<times> 'v) list \<Rightarrow> 'v index \<Rightarrow> 'v index" where
  "upsert_arrived r dense sparse ix = ix\<lparr>ix_points := upsert_point (point_of r dense sparse) (ix_points ix)\<rparr>"

definition delete_arrived :: "(nat, delete_row) qrow \<Rightarrow> 'v index \<Rightarrow> 'v index" where
  "delete_arrived r ix = ix\<lparr>ix_points := delete_point (vd_chunk (q_payload r)) (ix_points ix)\<rparr>"

inductive index_step :: "'v system \<Rightarrow> 'v system \<Rightarrow> bool" where
  written: "write_source_chunks st sid vid cs (sy_ix s) = Inr (n, ix) \<Longrightarrow> distinct (map fst cs) \<Longrightarrow>
     set (map fst cs) \<inter> set (sy_used s) = {} \<Longrightarrow>
     index_step s (s\<lparr>sy_ix := ix, sy_used := map fst cs @ sy_used s\<rparr>)"
| dropped: "index_step s (s\<lparr>sy_ix := drop_source_chunks st sid (sy_ix s)\<rparr>)"
| vault_dropped: "index_step s (s\<lparr>sy_ix := delete_vault_chunks vault docs (sy_ix s)\<rparr>)"
| time_passes: "index_step s (s\<lparr>sy_ix := (sy_ix s)\<lparr>ix_now := ix_now (sy_ix s) + k\<rparr>\<rparr>)"
| embed_claim: "claim_chunks m locked (sy_ix s) = (batch, ix) \<Longrightarrow> mset rs = mset batch \<Longrightarrow>
     index_step s (set_embed w rs ix s)"
| embed_stored: "sy_embed s w = r # rs \<Longrightarrow> index_step s (set_embed w rs (store_chunk r dense sparse (sy_ix s)) s)"
| embed_arrived: "sy_embed s w = r # rs \<Longrightarrow> chunk_exists (q_id r) (sy_ix s) \<Longrightarrow>
     index_step s (s\<lparr>sy_ix := upsert_arrived r dense sparse (sy_ix s)\<rparr>)"
| embed_failed: "sy_embed s w = r # rs \<Longrightarrow> index_step s (set_embed w rs (chunk_failure r e (sy_ix s)) s)"
| embed_terminal: "sy_embed s w = r # rs \<Longrightarrow> index_step s (set_embed w rs (chunk_terminal r e (sy_ix s)) s)"
| embed_released: "index_step s (set_embed w [] (release_chunks (sy_embed s w) (sy_ix s)) s)"
| embed_crash: "index_step s (set_embed w [] (sy_ix s) s)"
| delete_claim: "claim_deletes lk (sy_ix s) = (dbatch, ix) \<Longrightarrow> mset ds = mset dbatch \<Longrightarrow>
     index_step s (set_delete w ds ix s)"
| delete_done: "sy_delete s w = d # ds \<Longrightarrow> index_step s (set_delete w ds (delete_done d (sy_ix s)) s)"
| delete_arrived: "sy_delete s w = d # ds \<Longrightarrow> index_step s (s\<lparr>sy_ix := delete_arrived d (sy_ix s)\<rparr>)"
| delete_failed: "sy_delete s w = d # ds \<Longrightarrow> index_step s (set_delete w ds (delete_failure d e (sy_ix s)) s)"
| delete_released: "index_step s (set_delete w [] (release_deletes (sy_delete s w) (sy_ix s)) s)"
| delete_crash: "index_step s (set_delete w [] (sy_ix s) s)"
| rescued: "index_step s (s\<lparr>sy_ix := (sy_ix s)\<lparr>ix_chunks := rescue (ix_now (sy_ix s)) (ix_chunks (sy_ix s)),
     ix_deletes := rescue (ix_now (sy_ix s)) (ix_deletes (sy_ix s))\<rparr>\<rparr>)"
| swept: "index_step s (s\<lparr>sy_ix := snd (sweep_outbox grace (sy_ix s))\<rparr>)"
| reaped: "index_step s (s\<lparr>sy_ix := snd (reap_abandoned_chunks grace lk' (sy_ix s))\<rparr>)"

abbreviation index_steps :: "'v system \<Rightarrow> 'v system \<Rightarrow> bool" where
  "index_steps \<equiv> index_step\<^sup>*\<^sup>*"

definition index_init :: "'v system" where
  "index_init =
     \<lparr>sy_ix = \<lparr>ix_now = 0, ix_chunks = [], ix_deletes = [], ix_serial = 0, ix_points = []\<rparr>,
      sy_embed = (\<lambda>_. []), sy_delete = (\<lambda>_. []), sy_used = []\<rparr>"

section \<open>The invariant\<close>

text \<open>The point is made of the chunk's text and place.\<close>

definition describes :: "'v point \<Rightarrow> (uuid, chunk_row) qrow \<Rightarrow> bool" where
  "describes p c \<longleftrightarrow> p = point_of c (pt_dense p) (pt_sparse p)"

definition scheduled :: "uuid \<Rightarrow> 'v index \<Rightarrow> bool" where
  "scheduled i ix \<longleftrightarrow> (\<exists>d\<in>set (ix_deletes ix). vd_chunk (q_payload d) = i \<and> q_done d = None)"

abbreviation chunk_ids :: "'v index \<Rightarrow> uuid set" where
  "chunk_ids ix \<equiv> q_id ` set (ix_chunks ix)"

definition tables_ok :: "uuid set \<Rightarrow> 'v index \<Rightarrow> bool" where
  "tables_ok used ix \<longleftrightarrow> unique_by q_id (ix_chunks ix) \<and> chunk_ids ix \<subseteq> used
     \<and> unique_by q_id (ix_deletes ix)
     \<and> (\<forall>d\<in>set (ix_deletes ix). q_id d < ix_serial ix \<and> vd_chunk (q_payload d) \<in> used - chunk_ids ix)"

definition points_ok :: "uuid set \<Rightarrow> 'v index \<Rightarrow> bool" where
  "points_ok used ix \<longleftrightarrow>
     (\<forall>p\<in>set (ix_points ix). pt_id p \<in> used \<and> ((\<exists>c\<in>set (ix_chunks ix). describes p c) \<or> scheduled (pt_id p) ix))
     \<and> (\<forall>c\<in>set (ix_chunks ix). q_done c \<noteq> None \<longrightarrow> q_id c \<in> pt_id ` set (ix_points ix))"

definition held_chunk :: "uuid set \<Rightarrow> 'v index \<Rightarrow> (uuid, chunk_row) qrow \<Rightarrow> bool" where
  "held_chunk used ix r \<longleftrightarrow> q_id r \<in> used \<and> (\<forall>c\<in>set (ix_chunks ix). q_id c = q_id r \<longrightarrow> q_payload c = q_payload r)"

definition held_delete :: "uuid set \<Rightarrow> 'v index \<Rightarrow> (nat, delete_row) qrow \<Rightarrow> bool" where
  "held_delete used ix r \<longleftrightarrow> q_id r < ix_serial ix \<and> vd_chunk (q_payload r) \<in> used - chunk_ids ix
     \<and> (\<forall>d\<in>set (ix_deletes ix). q_id d = q_id r \<longrightarrow> q_payload d = q_payload r)"

definition index_ok :: "'v system \<Rightarrow> bool" where
  "index_ok s \<longleftrightarrow> tables_ok (set (sy_used s)) (sy_ix s) \<and> points_ok (set (sy_used s)) (sy_ix s)
     \<and> (\<forall>w. \<forall>r\<in>set (sy_embed s w). held_chunk (set (sy_used s)) (sy_ix s) r)
     \<and> (\<forall>w. \<forall>r\<in>set (sy_delete s w). held_delete (set (sy_used s)) (sy_ix s) r)"

lemma point_of_sel [simp]:
  "pt_id (point_of r dense sparse) = q_id r"
  by (simp add: point_of_def Let_def)

lemma point_of_cong: "q_id r = q_id c \<Longrightarrow> q_payload r = q_payload c \<Longrightarrow> point_of r dense sparse = point_of c dense sparse"
  by (simp add: point_of_def)

lemma describes_point_of: "q_id r = q_id c \<Longrightarrow> q_payload r = q_payload c \<Longrightarrow> describes (point_of r dense sparse) c"
  by (simp add: describes_def point_of_def Let_def)

lemma describes_id: "describes p c \<Longrightarrow> pt_id p = q_id c"
  unfolding describes_def by (metis point_of_sel)

lemma describes_cong: "q_id c = q_id c' \<Longrightarrow> q_payload c = q_payload c' \<Longrightarrow> describes p c = describes p c'"
  by (simp add: describes_def point_of_def)

section \<open>Statements that keep ids and payloads\<close>

text \<open>
  The same rows up to their queue columns; \<open>ended\<close> are ids that may have been finished meanwhile.
\<close>

definition same_rows :: "('i, 'p) qrow list \<Rightarrow> ('i, 'p) qrow list \<Rightarrow> bool" where
  "same_rows rows rows' \<longleftrightarrow> map (\<lambda>r. (q_id r, q_payload r)) rows' = map (\<lambda>r. (q_id r, q_payload r)) rows"

lemma kept_same_rows: "kept i rows rows' \<Longrightarrow> same_rows rows rows'"
  unfolding kept_def same_rows_def by (induction rule: list_all2_induct) auto

lemma same_rows_refl [simp]: "same_rows rows rows"
  by (simp add: same_rows_def)

lemma same_rows_ids: "same_rows rows rows' \<Longrightarrow> map q_id rows' = map q_id rows"
  unfolding same_rows_def by (metis (no_types, lifting) comp_def fst_conv list.map_comp map_eq_conv)

lemma same_rows_in: "same_rows rows rows' \<Longrightarrow> r' \<in> set rows' \<Longrightarrow> \<exists>r\<in>set rows. q_id r = q_id r' \<and> q_payload r = q_payload r'"
  unfolding same_rows_def by (metis (mono_tags, lifting) Pair_inject image_iff list.set_map)

lemma same_rows_sym: "same_rows rows rows' \<Longrightarrow> same_rows rows' rows"
  by (simp add: same_rows_def)

lemma same_rows_transfer:
  "same_rows rows rows' \<Longrightarrow> (\<And>r r'. q_id r = q_id r' \<Longrightarrow> q_payload r = q_payload r' \<Longrightarrow> P r = P r') \<Longrightarrow>
   (\<forall>r\<in>set rows'. P r) = (\<forall>r\<in>set rows. P r)"
  using same_rows_in [of rows rows'] same_rows_in [OF same_rows_sym, of rows rows'] by metis

lemma same_chunks:
  assumes "same_rows (ix_chunks ix) (ix_chunks ix')"
  shows "chunk_ids ix' = chunk_ids ix" and "unique_by q_id (ix_chunks ix') = unique_by q_id (ix_chunks ix)"
    and "(\<exists>c\<in>set (ix_chunks ix'). describes p c) = (\<exists>c\<in>set (ix_chunks ix). describes p c)"
proof -
  show "chunk_ids ix' = chunk_ids ix" using same_rows_ids [OF assms] by (metis list.set_map)
  show "unique_by q_id (ix_chunks ix') = unique_by q_id (ix_chunks ix)"
    by (simp add: unique_by_def same_rows_ids [OF assms])
  show "(\<exists>c\<in>set (ix_chunks ix'). describes p c) = (\<exists>c\<in>set (ix_chunks ix). describes p c)"
    using same_rows_transfer [OF assms, of "\<lambda>c. \<not> describes p c"] describes_cong by blast
qed

text \<open>
  Everything but a write, a drop and the reaper: the chunks stay, outbox rows may only go once their point is
  gone, points are old or made of a chunk, and workers hold what they held or have just claimed.
\<close>

lemma index_ok_frame:
  assumes ok: "index_ok s"
    and s': "sy_used s' = sy_used s" "ix_serial (sy_ix s') = ix_serial (sy_ix s)"
    and chunks: "same_rows (ix_chunks (sy_ix s)) (ix_chunks (sy_ix s'))"
    and dels: "unique_by q_id (ix_deletes (sy_ix s'))"
      "\<And>d'. d' \<in> set (ix_deletes (sy_ix s')) \<Longrightarrow>
         \<exists>d\<in>set (ix_deletes (sy_ix s)). q_id d = q_id d' \<and> q_payload d = q_payload d'"
    and sched: "\<And>p. p \<in> set (ix_points (sy_ix s')) \<Longrightarrow> scheduled (pt_id p) (sy_ix s) \<Longrightarrow> scheduled (pt_id p) (sy_ix s')"
    and points: "\<And>p. p \<in> set (ix_points (sy_ix s')) \<Longrightarrow>
         p \<in> set (ix_points (sy_ix s)) \<or> (\<exists>c\<in>set (ix_chunks (sy_ix s)). describes p c)"
    and finished: "\<And>c. c \<in> set (ix_chunks (sy_ix s')) \<Longrightarrow> q_done c \<noteq> None \<Longrightarrow> q_id c \<in> pt_id ` set (ix_points (sy_ix s'))"
    and embed: "\<And>w r. r \<in> set (sy_embed s' w) \<Longrightarrow>
         r \<in> set (sy_embed s w) \<or> (\<exists>c\<in>set (ix_chunks (sy_ix s)). q_id c = q_id r \<and> q_payload c = q_payload r)"
    and delete: "\<And>w r. r \<in> set (sy_delete s' w) \<Longrightarrow>
         r \<in> set (sy_delete s w) \<or> (\<exists>d\<in>set (ix_deletes (sy_ix s)). q_id d = q_id r \<and> q_payload d = q_payload r)"
  shows "index_ok s'"
proof -
  let ?u = "set (sy_used s)" and ?ix = "sy_ix s" and ?ix' = "sy_ix s'"
  note c = same_chunks [OF chunks]
  have t: "tables_ok ?u ?ix" and p: "points_ok ?u ?ix" using ok by (simp_all add: index_ok_def)
  have "tables_ok ?u ?ix'"
    using t dels s' c(1, 2) unfolding tables_ok_def by metis
  moreover have "pt_id p' \<in> ?u \<and> ((\<exists>c\<in>set (ix_chunks ?ix'). describes p' c) \<or> scheduled (pt_id p') ?ix')"
    if "p' \<in> set (ix_points ?ix')" for p'
  proof (cases "\<exists>c\<in>set (ix_chunks ?ix). describes p' c")
    case True
    then show ?thesis using t c(3) [of p'] describes_id unfolding tables_ok_def by fastforce
  next
    case False
    then show ?thesis using p points [OF that] sched [OF that] unfolding points_ok_def by blast
  qed
  then have "points_ok ?u ?ix'" using finished unfolding points_ok_def by blast
  moreover have "held_chunk ?u ?ix' r" if r: "r \<in> set (sy_embed s' w)" for w r
  proof -
    have "held_chunk ?u ?ix r"
    proof (cases "r \<in> set (sy_embed s w)")
      case True
      then show ?thesis using ok by (auto simp: index_ok_def)
    next
      case False
      then obtain x where x: "x \<in> set (ix_chunks ?ix)" "q_id x = q_id r" "q_payload x = q_payload r"
        using embed [OF r] by blast
      then have "q_id r \<in> ?u" using t unfolding tables_ok_def by (metis image_eqI subsetD)
      moreover have "q_payload c = q_payload r" if "c \<in> set (ix_chunks ?ix)" "q_id c = q_id r" for c
        using that x t unique_by_key_eq [of q_id "ix_chunks ?ix" c x] unfolding tables_ok_def by simp
      ultimately show ?thesis unfolding held_chunk_def by blast
    qed
    then show ?thesis using same_rows_in [OF chunks] unfolding held_chunk_def by metis
  qed
  moreover have "held_delete ?u ?ix' r" if r: "r \<in> set (sy_delete s' w)" for w r
  proof -
    have "held_delete ?u ?ix r"
    proof (cases "r \<in> set (sy_delete s w)")
      case True
      then show ?thesis using ok by (auto simp: index_ok_def)
    next
      case False
      then obtain x where x: "x \<in> set (ix_deletes ?ix)" "q_id x = q_id r" "q_payload x = q_payload r"
        using delete [OF r] by blast
      then have "q_id r < ix_serial ?ix" "vd_chunk (q_payload r) \<in> ?u - chunk_ids ?ix"
        using t unfolding tables_ok_def by metis+
      moreover have "q_payload d = q_payload r" if "d \<in> set (ix_deletes ?ix)" "q_id d = q_id r" for d
        using that x t unique_by_key_eq [of q_id "ix_deletes ?ix" d x] unfolding tables_ok_def by simp
      ultimately show ?thesis unfolding held_delete_def by blast
    qed
    then show ?thesis using dels(2) s'(2) c(1) unfolding held_delete_def by metis
  qed
  ultimately show ?thesis unfolding index_ok_def s'(1) by blast
qed

text \<open>A statement on the outbox that finishes at most row \<open>i\<close> keeps every schedule but its own.\<close>

lemma same_deletes:
  assumes "same_rows (ix_deletes ix) (ix_deletes ix')" and "unique_by q_id (ix_deletes ix)"
  shows "unique_by q_id (ix_deletes ix')"
    and "d' \<in> set (ix_deletes ix') \<Longrightarrow> \<exists>d\<in>set (ix_deletes ix). q_id d = q_id d' \<and> q_payload d = q_payload d'"
  using assms same_rows_ids [OF assms(1)] same_rows_in [OF assms(1)] by (simp_all add: unique_by_def)

lemma kept_scheduled:
  assumes "kept None (ix_deletes ix) (ix_deletes ix')" and "scheduled i ix"
  shows "scheduled i ix'"
proof -
  have "\<forall>d\<in>set ds. \<exists>d'\<in>set ds'. q_payload d' = q_payload d \<and> q_done d' = q_done d"
    if "kept None ds ds'" for ds ds' :: "(nat, delete_row) qrow list"
    using that unfolding kept_def by (induction rule: list_all2_induct) auto
  then show ?thesis using assms unfolding scheduled_def by metis
qed

lemma kept_finished:
  assumes "kept None rows rows'" and "c' \<in> set rows'" and "q_done c' \<noteq> None"
  shows "\<exists>c\<in>set rows. q_id c = q_id c' \<and> q_done c \<noteq> None"
  using kept_in [OF assms(1, 2)] assms(3) by auto

section \<open>Dropping and writing chunks\<close>

definition delete_for :: "nat \<Rightarrow> nat \<Rightarrow> (uuid, chunk_row) qrow \<Rightarrow> (nat, delete_row) qrow" where
  "delete_for now i c =
     new_qrow i \<lparr>vd_chunk = q_id c, vd_source_type = cr_source_type (q_payload c), vd_source = cr_source (q_payload c)\<rparr>
       (Some now)"

lemma delete_for_sel [simp]:
  "q_id (delete_for now i c) = i" "vd_chunk (q_payload (delete_for now i c)) = q_id c" "q_done (delete_for now i c) = None"
  by (simp_all add: delete_for_def new_qrow_def)

lemma enqueue_deletes_eq:
  "enqueue_deletes cs ix = ix\<lparr>ix_deletes := ix_deletes ix @ map (\<lambda>(i, c). delete_for (ix_now ix) i c)
       (List.enumerate (ix_serial ix) cs), ix_serial := ix_serial ix + length cs\<rparr>"
  by (simp add: enqueue_deletes_def delete_for_def)

lemma enqueue_ids: "map q_id (map (\<lambda>(i, c). delete_for now i c) (List.enumerate n cs)) = [n..<n + length cs]"
  by (simp flip: map_fst_enumerate add: comp_def split_def)

lemma index_ok_drop:
  assumes ok: "index_ok s" and cs: "set cs \<subseteq> {c \<in> set (ix_chunks (sy_ix s)). P c}"
    and all: "\<And>c. c \<in> set (ix_chunks (sy_ix s)) \<Longrightarrow> P c \<Longrightarrow> c \<in> set cs \<or> scheduled (q_id c) (sy_ix s)"
  shows "index_ok (s\<lparr>sy_ix := delete_chunks_where P (enqueue_deletes cs (sy_ix s))\<rparr>)"
proof -
  let ?u = "set (sy_used s)" and ?ix = "sy_ix s"
  let ?new = "map (\<lambda>(i, c). delete_for (ix_now ?ix) i c) (List.enumerate (ix_serial ?ix) cs)"
  let ?ix' = "delete_chunks_where P (enqueue_deletes cs ?ix)"
  have t: "tables_ok ?u ?ix" and p: "points_ok ?u ?ix" using ok by (simp_all add: index_ok_def)
  have sel: "ix_chunks ?ix' = filter (\<lambda>c. \<not> P c) (ix_chunks ?ix)" "ix_deletes ?ix' = ix_deletes ?ix @ ?new"
    "ix_serial ?ix' = ix_serial ?ix + length cs" "ix_points ?ix' = ix_points ?ix"
    by (simp_all add: delete_chunks_where_def enqueue_deletes_eq)
  have sub: "chunk_ids ?ix' \<subseteq> chunk_ids ?ix" by (auto simp: sel(1))
  have news: "(\<exists>c\<in>set cs. vd_chunk (q_payload d) = q_id c) \<and> q_done d = None \<and> q_id d < ix_serial ?ix + length cs
      \<and> ix_serial ?ix \<le> q_id d" if "d \<in> set ?new" for d
  proof -
    from that obtain i c where ic: "(i, c) \<in> set (List.enumerate (ix_serial ?ix) cs)" "d = delete_for (ix_now ?ix) i c"
      by auto
    then have "c \<in> set cs" "ix_serial ?ix \<le> i" "i < ix_serial ?ix + length cs" by (auto simp: in_set_enumerate_eq)
    then show ?thesis using ic(2) by auto
  qed
  have new: "\<exists>c\<in>set cs. vd_chunk (q_payload d) = q_id c" "q_done d = None" "q_id d < ix_serial ?ix + length cs"
    "ix_serial ?ix \<le> q_id d" if "d \<in> set ?new" for d
    using news [OF that] by blast+
  have gone: "q_id c \<in> ?u - chunk_ids ?ix'" if "c \<in> set cs" for c
  proof -
    have c: "c \<in> set (ix_chunks ?ix)" "P c" using that cs by auto
    have "q_id c \<noteq> q_id x" if "x \<in> set (ix_chunks ?ix')" for x
      using that c t unique_by_key_eq [of q_id "ix_chunks ?ix" c x] unfolding tables_ok_def sel(1) by auto
    then show ?thesis using c(1) t unfolding tables_ok_def by auto
  qed
  have "unique_by q_id (ix_deletes ?ix')" unfolding sel(2)
    using t enqueue_ids [of "ix_now ?ix" "ix_serial ?ix" cs] by (auto simp: unique_by_def tables_ok_def)
  moreover have "unique_by q_id (ix_chunks ?ix')"
    using t by (simp add: tables_ok_def unique_by_def sel(1) distinct_map_filter)
  moreover have "q_id d < ix_serial ?ix' \<and> vd_chunk (q_payload d) \<in> ?u - chunk_ids ?ix'" if "d \<in> set (ix_deletes ?ix')" for d
  proof (cases "d \<in> set ?new")
    case True
    from new(1) [OF True] obtain c where "c \<in> set cs" "vd_chunk (q_payload d) = q_id c" by blast
    then show ?thesis using new(3) [OF True] gone [of c] sel(3) by simp
  next
    case False
    then have "q_id d < ix_serial ?ix \<and> vd_chunk (q_payload d) \<in> ?u - chunk_ids ?ix"
      using that t unfolding sel(2) tables_ok_def by simp
    then show ?thesis using sub sel(3) by auto
  qed
  moreover have "chunk_ids ?ix' \<subseteq> ?u" using sub t unfolding tables_ok_def by blast
  ultimately have "tables_ok ?u ?ix'" unfolding tables_ok_def by blast
  moreover have sched: "scheduled i ?ix'" if "scheduled i ?ix" for i
    using that by (auto simp: scheduled_def sel(2))
  have "(\<exists>c\<in>set (ix_chunks ?ix'). describes q c) \<or> scheduled (pt_id q) ?ix'" if "q \<in> set (ix_points ?ix)" for q
  proof (cases "scheduled (pt_id q) ?ix")
    case False
    have "(\<exists>c\<in>set (ix_chunks ?ix). describes q c) \<or> scheduled (pt_id q) ?ix"
      using p that unfolding points_ok_def by simp
    with False obtain c where c: "c \<in> set (ix_chunks ?ix)" "describes q c" by auto
    show ?thesis
    proof (cases "P c")
      case True
      then have "c \<in> set cs" using all [OF c(1) True] False describes_id [OF c(2)] by auto
      then obtain i where "(i, c) \<in> set (List.enumerate (ix_serial ?ix) cs)"
        by (metis in_set_conv_nth in_set_enumerate_eq length_enumerate nth_enumerate_eq nth_mem)
      then have "delete_for (ix_now ?ix) i c \<in> set (ix_deletes ?ix')" unfolding sel(2) by force
      then have "scheduled (q_id c) ?ix'" unfolding scheduled_def by (metis delete_for_sel(2, 3))
      then show ?thesis using describes_id [OF c(2)] by simp
    qed (use c in \<open>auto simp: sel(1)\<close>)
  qed (use sched in blast)
  then have "points_ok ?u ?ix'" using p unfolding points_ok_def by (auto simp: sel(1, 4))
  moreover have "held_chunk ?u ?ix' r" if "held_chunk ?u ?ix r" for r
    using that by (auto simp: held_chunk_def sel(1))
  moreover have "held_delete ?u ?ix' r" if held: "held_delete ?u ?ix r" for r
  proof -
    have "q_payload d = q_payload r" if d: "d \<in> set (ix_deletes ?ix')" "q_id d = q_id r" for d
    proof -
      have "d \<notin> set ?new" using new(4) [of d] held d(2) unfolding held_delete_def by linarith
      then show ?thesis using held d unfolding sel(2) held_delete_def by simp
    qed
    moreover have "q_id r < ix_serial ?ix'" "vd_chunk (q_payload r) \<in> ?u - chunk_ids ?ix'"
      using held sub sel(3) unfolding held_delete_def by (simp, blast)
    ultimately show ?thesis unfolding held_delete_def by blast
  qed
  ultimately show ?thesis using ok unfolding index_ok_def by simp
qed

lemma index_ok_insert:
  assumes "index_ok s" and "insert_chunk st sid vid c (sy_ix s) = Inr ix" and "fst c \<notin> set (sy_used s)"
  shows "index_ok (s\<lparr>sy_ix := ix, sy_used := fst c # sy_used s\<rparr>)"
proof -
  define row where "row = new_qrow (fst c) \<lparr>cr_source_type = st, cr_source = sid, cr_vault = vid,
      cr_created = ix_now (sy_ix s), cr_chunk = snd c\<rparr> None"
  have ix: "ix = (sy_ix s)\<lparr>ix_chunks := ix_chunks (sy_ix s) @ [row]\<rparr>"
    using assms(2) by (simp add: insert_chunk_def row_def split: if_splits)
  have row: "q_id row = fst c" "q_done row = None" by (simp_all add: new_qrow_def row_def)
  have t: "tables_ok (set (sy_used s)) (sy_ix s)" and p: "points_ok (set (sy_used s)) (sy_ix s)"
    using assms(1) by (simp_all add: index_ok_def)
  have fresh: "fst c \<notin> chunk_ids (sy_ix s)" using t assms(3) by (auto simp: tables_ok_def)
  have sel: "ix_chunks ix = ix_chunks (sy_ix s) @ [row]" "ix_deletes ix = ix_deletes (sy_ix s)"
    "ix_serial ix = ix_serial (sy_ix s)" "ix_points ix = ix_points (sy_ix s)" by (simp_all add: ix)
  have ids: "chunk_ids ix = insert (fst c) (chunk_ids (sy_ix s))" by (simp add: sel(1) row(1))
  have "unique_by q_id (ix_chunks ix)" using t fresh row(1) by (simp add: tables_ok_def unique_by_def sel(1))
  moreover have "q_id d < ix_serial (sy_ix s) \<and> vd_chunk (q_payload d) \<in> insert (fst c) (set (sy_used s)) - chunk_ids ix"
    if "d \<in> set (ix_deletes (sy_ix s))" for d
  proof -
    have d: "q_id d < ix_serial (sy_ix s)" "vd_chunk (q_payload d) \<in> set (sy_used s)"
      "vd_chunk (q_payload d) \<notin> chunk_ids (sy_ix s)" using t that unfolding tables_ok_def by blast+
    then have "vd_chunk (q_payload d) \<noteq> fst c" using assms(3) by metis
    then show ?thesis using d unfolding ids by simp
  qed
  moreover have "chunk_ids ix \<subseteq> insert (fst c) (set (sy_used s))" using t unfolding ids tables_ok_def by blast
  moreover have "unique_by q_id (ix_deletes (sy_ix s))" using t unfolding tables_ok_def by blast
  ultimately have "tables_ok (insert (fst c) (set (sy_used s))) ix"
    unfolding tables_ok_def sel(2, 3) by blast
  moreover have sched: "scheduled i ix = scheduled i (sy_ix s)" for i by (simp add: scheduled_def sel(2))
  have "points_ok (insert (fst c) (set (sy_used s))) ix"
    unfolding points_ok_def sched sel
  proof (intro conjI ballI impI)
    fix q assume "q \<in> set (ix_points (sy_ix s))"
    then show "pt_id q \<in> insert (fst c) (set (sy_used s))"
      "(\<exists>x\<in>set (ix_chunks (sy_ix s) @ [row]). describes q x) \<or> scheduled (pt_id q) (sy_ix s)"
      using p unfolding points_ok_def by auto
  next
    fix x assume "x \<in> set (ix_chunks (sy_ix s) @ [row])" "q_done x \<noteq> None"
    then show "q_id x \<in> pt_id ` set (ix_points (sy_ix s))" using p row(2) unfolding points_ok_def by auto
  qed
  moreover have "held_chunk (insert (fst c) (set (sy_used s))) ix r" if "held_chunk (set (sy_used s)) (sy_ix s) r" for r
    using that assms(3) row(1) by (auto simp: held_chunk_def ix)
  moreover have "held_delete (insert (fst c) (set (sy_used s))) ix r" if "held_delete (set (sy_used s)) (sy_ix s) r" for r
    using that assms(3) row(1) by (auto simp: held_delete_def ix)
  ultimately show ?thesis using assms(1) unfolding index_ok_def by simp
qed

lemma index_ok_inserts:
  "fold_res (insert_chunk st sid vid) cs (sy_ix s) = Inr ix \<Longrightarrow> index_ok s \<Longrightarrow> distinct (map fst cs) \<Longrightarrow>
   set (map fst cs) \<inter> set (sy_used s) = {} \<Longrightarrow> set used = set (map fst cs) \<union> set (sy_used s) \<Longrightarrow>
   index_ok (s\<lparr>sy_ix := ix, sy_used := used\<rparr>)"
proof (induction cs arbitrary: s)
  case Nil
  then show ?case by (simp add: index_ok_def)
next
  case (Cons c cs)
  then obtain ix1 where ix1: "insert_chunk st sid vid c (sy_ix s) = Inr ix1" "fold_res (insert_chunk st sid vid) cs ix1 = Inr ix"
    by (auto simp: result_iff)
  have "index_ok (s\<lparr>sy_ix := ix1, sy_used := fst c # sy_used s\<rparr>)"
    using Cons.prems by (intro index_ok_insert [OF _ ix1(1)]) auto
  from Cons.IH [OF _ this] ix1(2) Cons.prems show ?case by auto
qed

section \<open>Every step keeps the invariant\<close>

lemma kept_terminal: "kept None rows (mark_terminal i e now rows)"
  by (auto simp: mark_terminal_def tab_update_def kept_def list.rel_map list_all2_same)

lemma index_ok_queue:
  assumes ok: "index_ok s" and used: "sy_used s' = sy_used s" and serial: "ix_serial (sy_ix s') = ix_serial (sy_ix s)"
    and chunks: "kept None (ix_chunks (sy_ix s)) (ix_chunks (sy_ix s'))"
    and dels: "kept None (ix_deletes (sy_ix s)) (ix_deletes (sy_ix s'))"
    and points: "ix_points (sy_ix s') = ix_points (sy_ix s)"
    and embed: "\<And>w r. r \<in> set (sy_embed s' w) \<Longrightarrow>
         r \<in> set (sy_embed s w) \<or> (\<exists>c\<in>set (ix_chunks (sy_ix s)). q_id c = q_id r \<and> q_payload c = q_payload r)"
    and delete: "\<And>w r. r \<in> set (sy_delete s' w) \<Longrightarrow>
         r \<in> set (sy_delete s w) \<or> (\<exists>d\<in>set (ix_deletes (sy_ix s)). q_id d = q_id r \<and> q_payload d = q_payload r)"
  shows "index_ok s'"
proof (rule index_ok_frame [OF ok used serial kept_same_rows [OF chunks]])
  have u: "unique_by q_id (ix_deletes (sy_ix s))" using ok by (simp add: index_ok_def tables_ok_def)
  show "unique_by q_id (ix_deletes (sy_ix s'))"
    by (rule same_deletes(1) [OF kept_same_rows [OF dels] u])
  show "\<exists>d\<in>set (ix_deletes (sy_ix s)). q_id d = q_id d' \<and> q_payload d = q_payload d'"
    if "d' \<in> set (ix_deletes (sy_ix s'))" for d'
    by (rule same_deletes(2) [OF kept_same_rows [OF dels] u that])
  show "q_id c \<in> pt_id ` set (ix_points (sy_ix s'))" if c: "c \<in> set (ix_chunks (sy_ix s'))" "q_done c \<noteq> None" for c
  proof -
    from kept_finished [OF chunks c] obtain x where "x \<in> set (ix_chunks (sy_ix s))" "q_id x = q_id c" "q_done x \<noteq> None" by blast
    then show ?thesis using ok unfolding index_ok_def points_ok_def points by metis
  qed
qed (use kept_scheduled [OF dels] points embed delete in auto)

lemma claimed_held:
  assumes "mset rs = mset (fst (claim_rows key n locked now rows))" and "r \<in> set rs"
  shows "\<exists>c\<in>set rows. q_id c = q_id r \<and> q_payload c = q_payload r"
proof -
  have "r \<in> set (fst (claim_rows key n locked now rows))" using assms by (metis mset_eq_setD)
  then show ?thesis using claim_rows_fst by fastforce
qed

lemma upsert_point_set: "p' \<in> set (upsert_point p ps) \<Longrightarrow> p' = p \<or> p' \<in> set ps"
  by (auto simp: upsert_point_def split: if_splits)

lemma upsert_point_ids: "pt_id ` set (upsert_point p ps) = insert (pt_id p) (pt_id ` set ps)"
proof -
  have "map pt_id (map (\<lambda>x. if pt_id x = pt_id p then p else x) ps) = map pt_id ps" by simp
  from arg_cong [OF this, of set] have
    "pt_id ` set (map (\<lambda>x. if pt_id x = pt_id p then p else x) ps) = pt_id ` set ps"
    by (simp only: list.set_map)
  then show ?thesis by (cases "pt_id p \<in> pt_id ` set ps")
      (simp_all only: upsert_point_def List.member_iff list.set_map if_True if_False insert_absorb set_append
        image_Un list.set image_insert image_empty Un_insert_right Un_empty_right)
qed

lemma existing_chunk:
  assumes "index_ok s" and "r \<in> set (sy_embed s w)" and "chunk_exists (q_id r) (sy_ix s)"
  shows "\<exists>c\<in>set (ix_chunks (sy_ix s)). describes (point_of r dense sparse) c"
proof -
  from assms(3) obtain c where c: "c \<in> set (ix_chunks (sy_ix s))" "q_id c = q_id r" by (auto simp: chunk_exists_def)
  moreover have "held_chunk (set (sy_used s)) (sy_ix s) r" using assms(1, 2) by (auto simp: index_ok_def)
  ultimately show ?thesis using describes_point_of [of r c] unfolding held_chunk_def by metis
qed

text \<open>An upsert of a chunk that is there, with the chunk marked or not.\<close>

lemma index_ok_upsert:
  assumes ok: "index_ok s" and r: "r \<in> set (sy_embed s w)" and ex: "chunk_exists (q_id r) (sy_ix s)"
    and s': "sy_used s' = sy_used s" "ix_serial (sy_ix s') = ix_serial (sy_ix s)" "ix_deletes (sy_ix s') = ix_deletes (sy_ix s)"
      "ix_points (sy_ix s') = upsert_point (point_of r dense sparse) (ix_points (sy_ix s))"
    and chunks: "kept (Some (q_id r)) (ix_chunks (sy_ix s)) (ix_chunks (sy_ix s'))"
    and held: "\<And>v. set (sy_embed s' v) \<subseteq> set (sy_embed s v)" "\<And>v. set (sy_delete s' v) \<subseteq> set (sy_delete s v)"
  shows "index_ok s'"
proof (rule index_ok_frame [OF ok s'(1, 2) kept_same_rows [OF chunks]])
  show "p \<in> set (ix_points (sy_ix s)) \<or> (\<exists>c\<in>set (ix_chunks (sy_ix s)). describes p c)"
    if "p \<in> set (ix_points (sy_ix s'))" for p
    using that upsert_point_set [of p] existing_chunk [OF ok r ex] unfolding s'(4) by blast
  show "q_id c \<in> pt_id ` set (ix_points (sy_ix s'))" if c: "c \<in> set (ix_chunks (sy_ix s'))" "q_done c \<noteq> None" for c
  proof -
    from kept_in [OF chunks c(1)] obtain x where x: "x \<in> set (ix_chunks (sy_ix s))" "q_id c = q_id x"
      "q_done c = q_done x \<or> q_id r = q_id x" by auto
    then show ?thesis using c(2) ok unfolding s'(4) upsert_point_ids index_ok_def points_ok_def by auto
  qed
qed (use ok s'(3) held in \<open>auto simp: index_ok_def tables_ok_def scheduled_def\<close>)

text \<open>A deletion of a point whose chunk is gone, with the outbox row marked or not.\<close>

lemma index_ok_delete:
  assumes ok: "index_ok s" and r: "r \<in> set (sy_delete s w)"
    and s': "sy_used s' = sy_used s" "ix_serial (sy_ix s') = ix_serial (sy_ix s)" "ix_chunks (sy_ix s') = ix_chunks (sy_ix s)"
      "ix_points (sy_ix s') = delete_point (vd_chunk (q_payload r)) (ix_points (sy_ix s))"
    and dels: "ix_deletes (sy_ix s') = ix_deletes (sy_ix s) \<or>
       ix_deletes (sy_ix s') = mark_success (q_id r) (ix_now (sy_ix s)) (ix_deletes (sy_ix s))"
    and held: "\<And>v. set (sy_embed s' v) \<subseteq> set (sy_embed s v)" "\<And>v. set (sy_delete s' v) \<subseteq> set (sy_delete s v)"
  shows "index_ok s'"
proof -
  have h: "held_delete (set (sy_used s)) (sy_ix s) r" using ok r by (auto simp: index_ok_def)
  have u: "unique_by q_id (ix_deletes (sy_ix s))" using ok by (simp add: index_ok_def tables_ok_def)
  have same: "same_rows (ix_deletes (sy_ix s)) (ix_deletes (sy_ix s'))"
    using dels kept_same_rows [OF kept_statements(2)] by auto
  show ?thesis
  proof (rule index_ok_frame [OF ok s'(1, 2)])
    show "same_rows (ix_chunks (sy_ix s)) (ix_chunks (sy_ix s'))" by (simp add: s'(3))
    show "unique_by q_id (ix_deletes (sy_ix s'))" by (rule same_deletes(1) [OF same u])
    show "\<exists>d\<in>set (ix_deletes (sy_ix s)). q_id d = q_id d' \<and> q_payload d = q_payload d'"
      if "d' \<in> set (ix_deletes (sy_ix s'))" for d'
      by (rule same_deletes(2) [OF same u that])
    show "scheduled (pt_id p) (sy_ix s')" if p: "p \<in> set (ix_points (sy_ix s'))" "scheduled (pt_id p) (sy_ix s)" for p
    proof -
      from p(2) obtain d where d: "d \<in> set (ix_deletes (sy_ix s))" "vd_chunk (q_payload d) = pt_id p" "q_done d = None"
        by (auto simp: scheduled_def)
      have "pt_id p \<noteq> vd_chunk (q_payload r)" using p(1) by (simp add: s'(4) delete_point_def)
      then have "q_id d \<noteq> q_id r" using d(1, 2) h unfolding held_delete_def by metis
      then have "d \<in> set (ix_deletes (sy_ix s'))" using dels d(1) by (force simp: mark_success_def tab_update_def)
      then show ?thesis using d(2, 3) by (auto simp: scheduled_def)
    qed
    show "p \<in> set (ix_points (sy_ix s)) \<or> (\<exists>c\<in>set (ix_chunks (sy_ix s)). describes p c)"
      if "p \<in> set (ix_points (sy_ix s'))" for p
      using that by (simp add: s'(4) delete_point_def)
    show "q_id c \<in> pt_id ` set (ix_points (sy_ix s'))" if c: "c \<in> set (ix_chunks (sy_ix s'))" "q_done c \<noteq> None" for c
    proof -
      have "q_id c \<in> pt_id ` set (ix_points (sy_ix s))" using ok c unfolding index_ok_def points_ok_def s'(3) by blast
      moreover have "q_id c \<noteq> vd_chunk (q_payload r)" using h imageI [OF c(1), of q_id] unfolding held_delete_def s'(3) by (metis DiffD2)
      ultimately show ?thesis by (auto simp: s'(4) delete_point_def)
    qed
  qed (use held in auto)
qed

lemma index_step_ok: "index_step s s' \<Longrightarrow> index_ok s \<Longrightarrow> index_ok s'"
proof (induction rule: index_step.induct)
  case (written st sid vid cs s n ix)
  then have "fold_res (insert_chunk st sid vid) cs (drop_source_chunks st sid (sy_ix s)) = Inr ix"
    by (auto simp: write_source_chunks_def result_iff)
  moreover have "index_ok (s\<lparr>sy_ix := drop_source_chunks st sid (sy_ix s)\<rparr>)"
    unfolding drop_source_chunks_def enqueue_source_deletes_def Let_def snd_conv
    by (rule index_ok_drop [OF written(4)]) auto
  ultimately show ?case using written(2, 3)
    index_ok_inserts [of st sid vid cs "s\<lparr>sy_ix := drop_source_chunks st sid (sy_ix s)\<rparr>" ix "map fst cs @ sy_used s"]
    by simp
next
  case (dropped s st sid)
  then show ?case unfolding drop_source_chunks_def enqueue_source_deletes_def Let_def snd_conv
    by (intro index_ok_drop) auto
next
  case (vault_dropped s vault docs)
  let ?legacy = "\<lambda>c :: (uuid, chunk_row) qrow. cr_source_type (q_payload c) = ''document'' \<and> List.member docs (cr_source (q_payload c))"
  let ?native = "\<lambda>c :: (uuid, chunk_row) qrow. List.member SOURCE_NATIVE (cr_source_type (q_payload c)) \<and> cr_vault (q_payload c) = vault"
  let ?ix = "delete_chunks_where ?legacy (enqueue_deletes (filter ?legacy (ix_chunks (sy_ix s))) (sy_ix s))"
  have "index_ok (s\<lparr>sy_ix := ?ix\<rparr>)" by (rule index_ok_drop [OF vault_dropped]) auto
  then have "index_ok ((s\<lparr>sy_ix := ?ix\<rparr>)\<lparr>sy_ix := delete_chunks_where ?native
      (enqueue_deletes (filter ?native (ix_chunks (sy_ix (s\<lparr>sy_ix := ?ix\<rparr>)))) (sy_ix (s\<lparr>sy_ix := ?ix\<rparr>)))\<rparr>)"
    by (rule index_ok_drop) auto
  then show ?case by (simp add: delete_vault_chunks_def Let_def)
next
  case (time_passes s k)
  then show ?case by (rule index_ok_queue) (simp_all add: kept_refl)
next
  case (embed_claim m locked s batch ix rs w)
  obtain rows where c: "claim_rows chunk_order m locked (ix_now (sy_ix s)) (ix_chunks (sy_ix s)) = (batch, rows)"
    "ix = (sy_ix s)\<lparr>ix_chunks := rows\<rparr>"
    using embed_claim(1) by (auto simp: claim_chunks_def split: prod.splits)
  have "kept None (ix_chunks (sy_ix s)) rows"
    using kept_statements(1) [of "ix_chunks (sy_ix s)" chunk_order m locked "ix_now (sy_ix s)"] c(1) by simp
  moreover have "\<exists>c\<in>set (ix_chunks (sy_ix s)). q_id c = q_id r \<and> q_payload c = q_payload r" if "r \<in> set rs" for r
    using claimed_held [of rs chunk_order m locked "ix_now (sy_ix s)" "ix_chunks (sy_ix s)" r] c(1) embed_claim(2) that by simp
  ultimately show ?case using c(2)
    by (intro index_ok_queue [OF embed_claim(3)]) (auto simp: set_embed_def kept_refl split: if_splits)
next
  case (embed_stored s w r rs dense sparse)
  show ?case
  proof (cases "chunk_exists (q_id r) (sy_ix s)")
    case True
    then show ?thesis using embed_stored(1)
      by (intro index_ok_upsert [OF embed_stored(2) _ True, of w]) (auto simp: set_embed_def store_chunk_def kept_statements(2))
  next
    case False
    then show ?thesis using embed_stored(1)
      by (intro index_ok_queue [OF embed_stored(2)]) (auto simp: set_embed_def store_chunk_def kept_refl split: if_splits)
  qed
next
  case (embed_arrived s w r rs dense sparse)
  have "kept (Some (q_id r)) (ix_chunks (sy_ix s)) (ix_chunks (sy_ix s))"
    by (simp add: kept_def list_all2_same)
  then show ?case using embed_arrived(1)
    by (intro index_ok_upsert [OF embed_arrived(3) _ embed_arrived(2), of w]) (auto simp: upsert_arrived_def)
next
  case (embed_failed s w r rs e)
  then show ?case
    by (intro index_ok_queue [OF embed_failed(2)])
      (auto simp: set_embed_def chunk_failure_def kept_refl kept_statements(3) split: if_splits)
next
  case (embed_terminal s w r rs e)
  then show ?case
    by (intro index_ok_queue [OF embed_terminal(2)])
      (auto simp: set_embed_def chunk_terminal_def kept_refl kept_terminal split: if_splits)
next
  case (embed_released s w)
  then show ?case
    by (intro index_ok_queue [OF embed_released])
      (auto simp: set_embed_def release_chunks_def kept_refl kept_statements(4) split: if_splits)
next
  case (embed_crash s w)
  then show ?case
    by (intro index_ok_queue [OF embed_crash]) (auto simp: set_embed_def kept_refl split: if_splits)
next
  case (delete_claim lk s dbatch ix ds w)
  obtain rows where c: "claim_batch DELETE_BATCH_SIZE lk (ix_now (sy_ix s)) (ix_deletes (sy_ix s)) = (dbatch, rows)"
    "ix = (sy_ix s)\<lparr>ix_deletes := rows\<rparr>"
    using delete_claim(1) by (auto simp: claim_deletes_def split: prod.splits)
  have "kept None (ix_deletes (sy_ix s)) rows"
    using kept_statements(1) [of "ix_deletes (sy_ix s)" claim_order DELETE_BATCH_SIZE lk "ix_now (sy_ix s)"] c(1) by simp
  moreover have "\<exists>d\<in>set (ix_deletes (sy_ix s)). q_id d = q_id r \<and> q_payload d = q_payload r" if "r \<in> set ds" for r
    using claimed_held [of ds claim_order DELETE_BATCH_SIZE lk "ix_now (sy_ix s)" "ix_deletes (sy_ix s)" r] c(1)
      delete_claim(2) that by simp
  ultimately show ?case using c(2)
    by (intro index_ok_queue [OF delete_claim(3)]) (auto simp: set_delete_def kept_refl split: if_splits)
next
  case (delete_done s w d ds)
  then show ?case
    by (intro index_ok_delete [OF delete_done(2), of d w]) (auto simp: set_delete_def delete_done_def)
next
  case (delete_arrived s w d ds)
  then show ?case
    by (intro index_ok_delete [OF delete_arrived(2), of d w]) (auto simp: delete_arrived_def)
next
  case (delete_failed s w d ds e)
  then show ?case
    by (intro index_ok_queue [OF delete_failed(2)])
      (auto simp: set_delete_def delete_failure_def kept_refl kept_statements(3) split: if_splits)
next
  case (delete_released s w)
  then show ?case
    by (intro index_ok_queue [OF delete_released])
      (auto simp: set_delete_def release_deletes_def kept_refl kept_statements(4) split: if_splits)
next
  case (delete_crash s w)
  then show ?case
    by (intro index_ok_queue [OF delete_crash]) (auto simp: set_delete_def kept_refl split: if_splits)
next
  case (rescued s)
  then show ?case by (rule index_ok_queue) (simp_all add: kept_statements(5))
next
  case (swept s grace)
  have u: "unique_by q_id (ix_deletes (sy_ix s))" using swept by (simp add: index_ok_def tables_ok_def)
  have ix: "snd (sweep_outbox grace (sy_ix s)) = (sy_ix s)\<lparr>ix_deletes := snd (sweep grace (ix_now (sy_ix s)) (ix_deletes (sy_ix s)))\<rparr>"
    by (simp add: sweep_outbox_def split: prod.splits)
  show ?case
    using u swept unfolding ix
    by (intro index_ok_frame [OF swept])
      (auto simp: sweep_def Let_def unique_by_def distinct_map_filter scheduled_def index_ok_def points_ok_def)
next
  case (reaped s grace lk)
  let ?old = "reapable grace lk (ix_now (sy_ix s))"
  let ?sched = "\<lambda>c :: (uuid, chunk_row) qrow. list_ex (\<lambda>d. vd_chunk (q_payload d) = q_id c \<and> q_done d = None) (ix_deletes (sy_ix s))"
  have "index_ok (s\<lparr>sy_ix := delete_chunks_where ?old (enqueue_deletes
      (filter (\<lambda>c. \<not> ?sched c) (filter ?old (ix_chunks (sy_ix s)))) (sy_ix s))\<rparr>)"
    by (rule index_ok_drop [OF reaped]) (auto simp: list_ex_iff scheduled_def)
  then show ?case by (simp add: reap_abandoned_chunks_def Let_def)
qed

section \<open>What the index guarantees\<close>

lemma index_init_ok: "index_ok index_init"
  by (simp add: index_ok_def index_init_def tables_ok_def points_ok_def unique_by_def)

lemma index_reachable: "index_steps index_init s \<Longrightarrow> index_ok s"
  by (induction rule: rtranclp_induct) (auto intro: index_init_ok index_step_ok)

text \<open>C10: However writers, embed workers, delete workers and the maintenance jobs interleave, stall, crash or lose
  the store's answers, every point of the vector store is made of a chunk that exists or is scheduled for
  deletion, and every chunk marked as indexed has its point. So once the outbox is drained and every chunk
  is indexed, the store holds a point for each chunk and no other.\<close>

theorem index_sound:
  assumes "index_steps index_init s"
  shows "(\<forall>p\<in>set (ix_points (sy_ix s)). (\<exists>c\<in>set (ix_chunks (sy_ix s)). describes p c) \<or> scheduled (pt_id p) (sy_ix s))
     \<and> (\<forall>c\<in>set (ix_chunks (sy_ix s)). q_done c \<noteq> None \<longrightarrow> q_id c \<in> pt_id ` set (ix_points (sy_ix s)))
     \<and> ((\<forall>d\<in>set (ix_deletes (sy_ix s)). q_done d \<noteq> None) \<and> (\<forall>c\<in>set (ix_chunks (sy_ix s)). q_done c \<noteq> None)
          \<longrightarrow> pt_id ` set (ix_points (sy_ix s)) = q_id ` set (ix_chunks (sy_ix s)))"
proof -
  let ?ix = "sy_ix s"
  have p: "points_ok (set (sy_used s)) ?ix" using index_reachable [OF assms] by (simp add: index_ok_def)
  have "pt_id ` set (ix_points ?ix) = q_id ` set (ix_chunks ?ix)"
    if "\<forall>d\<in>set (ix_deletes ?ix). q_done d \<noteq> None" "\<forall>c\<in>set (ix_chunks ?ix). q_done c \<noteq> None"
  proof
    have "\<not> scheduled i ?ix" for i using that(1) by (auto simp: scheduled_def)
    then show "pt_id ` set (ix_points ?ix) \<subseteq> q_id ` set (ix_chunks ?ix)"
      using p describes_id unfolding points_ok_def by fastforce
    show "q_id ` set (ix_chunks ?ix) \<subseteq> pt_id ` set (ix_points ?ix)"
      using p that(2) unfolding points_ok_def by blast
  qed
  then show ?thesis using p unfolding points_ok_def by simp
qed

section \<open>A working store drains the deletions\<close>

definition delete_tick :: "nat \<Rightarrow> (nat, delete_row) qrow list \<times> 'v point list \<Rightarrow> (nat, delete_row) qrow list \<times> 'v point list" where
  "delete_tick now s =
     (let ix = snd (process_deletes_once (\<lambda>_. Deleted) []
            \<lparr>ix_now = now, ix_chunks = [], ix_deletes = fst s, ix_serial = 0, ix_points = snd s\<rparr>)
      in (ix_deletes ix, ix_points ix))"

definition delete_work :: "(nat, delete_row) qrow \<Rightarrow> 'v point list \<Rightarrow> 'v point list" where
  "delete_work r ps = delete_point (vd_chunk (q_payload r)) ps"

lemma delete_rows_ok:
  "snd (delete_rows (\<lambda>_. Deleted) batch ix) =
     ix\<lparr>ix_points := fold delete_work batch (ix_points ix), ix_deletes := finish batch (ix_now ix) (ix_deletes ix)\<rparr>"
  by (induction batch arbitrary: ix) (simp_all add: delete_done_def delete_work_def finish_Cons case_prod_unfold)

lemma fold_delete_claimed: "fold delete_work (map (claimed_row now) batch) ps = fold delete_work batch ps"
  by (induction batch arbitrary: ps) (simp_all add: delete_work_def)

interpretation deleter: queue_worker delete_tick DELETE_BATCH_SIZE delete_work
proof
  fix now :: nat and rows :: "(nat, delete_row) qrow list" and s :: "'v point list"
  show "delete_tick now (rows, s) =
      (finish (pending DELETE_BATCH_SIZE now rows) now rows, fold delete_work (pending DELETE_BATCH_SIZE now rows) s)"
    by (simp add: delete_tick_def process_deletes_once_def claim_deletes_def claim_batch_pending delete_rows_ok
        finish_claimed fold_delete_claimed Let_def)
qed

lemma fold_delete_filter:
  "fold delete_work order ps = filter (\<lambda>p. pt_id p \<notin> (\<lambda>r. vd_chunk (q_payload r)) ` set order) ps"
  by (induction order arbitrary: ps) (auto simp: delete_work_def delete_point_def intro: filter_cong)

text \<open>C14: While the store answers, as many passes as there are batches among the claimable rows finish every one
  of them, touch no other row, and leave exactly the points none of them names.\<close>

theorem deletes_drain:
  assumes "unique_by q_id rows" and "length (filter (claimable now) rows) \<le> DELETE_BATCH_SIZE * k"
  shows "(delete_tick now ^^ k) (rows, ps) =
     (map (\<lambda>r. if claimable now r then delivered now r else r) rows,
      filter (\<lambda>p. \<not> (\<exists>r\<in>set rows. claimable now r \<and> vd_chunk (q_payload r) = pt_id p)) ps)"
proof -
  from deleter.drains [OF assms, of ps] obtain order where o:
    "fst ((delete_tick now ^^ k) (rows, ps)) = map (\<lambda>r. if claimable now r then delivered now r else r) rows"
    "mset order = mset (filter (claimable now) rows)" "snd ((delete_tick now ^^ k) (rows, ps)) = fold delete_work order ps"
    by blast
  have "set order = set (filter (claimable now) rows)" using mset_eq_setD [OF o(2)] .
  then have "snd ((delete_tick now ^^ k) (rows, ps)) =
      filter (\<lambda>p. \<not> (\<exists>r\<in>set rows. claimable now r \<and> vd_chunk (q_payload r) = pt_id p)) ps"
    unfolding o(3) fold_delete_filter by (intro filter_cong) (auto simp: image_iff)
  then show ?thesis using o(1) by (simp add: prod_eq_iff)
qed

section \<open>A concrete run\<close>

text \<open>A chunk is written, claimed, stored and dropped again: its point waits for the delete worker.\<close>

definition ex_chunk :: chunk where
  "ex_chunk = \<lparr>ch_section = '''', ch_content = ''text'', ch_index = 0, ch_start = 0, ch_end = 4\<rparr>"

definition ex_chunk_row :: "(uuid, chunk_row) qrow" where
  "ex_chunk_row = new_qrow 7
     \<lparr>cr_source_type = ''document'', cr_source = 3, cr_vault = 5, cr_created = 0, cr_chunk = ex_chunk\<rparr> None"

definition ex_index :: "nat index" where
  "ex_index = \<lparr>ix_now = 0, ix_chunks = [ex_chunk_row], ix_deletes = [], ix_serial = 0, ix_points = []\<rparr>"

definition ex_written :: "nat system" where
  "ex_written = \<lparr>sy_ix = ex_index, sy_embed = (\<lambda>_. []), sy_delete = (\<lambda>_. []), sy_used = [7]\<rparr>"

definition ex_row_claimed :: "(uuid, chunk_row) qrow" where
  "ex_row_claimed = claimed_row 0 ex_chunk_row"

definition ex_claim :: "nat system" where
  "ex_claim = set_embed 0 [ex_row_claimed] (ex_index\<lparr>ix_chunks := [ex_row_claimed]\<rparr>) ex_written"

definition ex_stored_chunk :: "nat system" where
  "ex_stored_chunk = set_embed 0 [] (store_chunk ex_row_claimed None [(1, 2)] (sy_ix ex_claim)) ex_claim"

definition ex_dropped :: "nat system" where
  "ex_dropped = ex_stored_chunk\<lparr>sy_ix := drop_source_chunks ''document'' 3 (sy_ix ex_stored_chunk)\<rparr>"

lemma ex_index_steps: "index_steps index_init ex_dropped"
proof -
  have "write_source_chunks ''document'' 3 5 [(7, ex_chunk)] (sy_ix (index_init :: nat system)) = Inr (1, ex_index)"
    by (simp add: write_source_chunks_def drop_source_chunks_def enqueue_source_deletes_def enqueue_deletes_def
        delete_chunks_where_def insert_chunk_def index_init_def ex_index_def ex_chunk_row_def Let_def)
  from index_step.written [OF this] have "index_step index_init ex_written"
    by (simp add: ex_written_def index_init_def)
  moreover have "claim_chunks 16 [] (sy_ix ex_written) = ([ex_row_claimed], ex_index\<lparr>ix_chunks := [ex_row_claimed]\<rparr>)"
    by (simp add: claim_chunks_def ex_written_def ex_index_def claim_rows_def claimable_def open_row_def due_def
        ex_chunk_row_def new_qrow_def ex_row_claimed_def claimed_row_def Let_def)
  from index_step.embed_claim [OF this, of "[ex_row_claimed]" 0] have "index_step ex_written ex_claim"
    by (simp add: ex_claim_def)
  moreover have "index_step ex_claim ex_stored_chunk" unfolding ex_stored_chunk_def
    by (rule index_step.embed_stored) (simp add: ex_claim_def set_embed_def)
  moreover have "index_step ex_stored_chunk ex_dropped" unfolding ex_dropped_def by (rule index_step.dropped)
  ultimately show ?thesis by (meson converse_rtranclp_into_rtranclp rtranclp.rtrancl_refl)
qed

lemma ex_dropped_tables: "ix_chunks (sy_ix ex_dropped) = []" "map pt_id (ix_points (sy_ix ex_dropped)) = [7]"
  by (simp_all add: ex_dropped_def drop_source_chunks_def enqueue_source_deletes_def enqueue_deletes_def
      delete_chunks_where_def ex_stored_chunk_def set_embed_def store_chunk_def chunk_exists_def ex_claim_def
      ex_row_claimed_def ex_chunk_row_def new_qrow_def claimed_row_def ex_index_def mark_success_def tab_update_def
      of_source_def upsert_point_def Let_def)

lemma index_sound_witness:
  "ix_chunks (sy_ix ex_dropped) = [] \<and> map pt_id (ix_points (sy_ix ex_dropped)) = [7] \<and> scheduled 7 (sy_ix ex_dropped)"
proof -
  obtain p where p: "p \<in> set (ix_points (sy_ix ex_dropped))" "pt_id p = 7"
    using ex_dropped_tables(2) by (cases "ix_points (sy_ix ex_dropped)") auto
  then show ?thesis using index_sound [OF ex_index_steps] ex_dropped_tables by auto
qed

lemma deletes_drain_witness:
  "snd ((delete_tick 9 ^^ 1) ([delete_for 0 1 ex_chunk_row], [point_of ex_chunk_row None [(1, 2 :: nat)]])) = []"
proof -
  let ?d = "delete_for 0 1 ex_chunk_row"
  have "claimable 9 ?d" "vd_chunk (q_payload ?d) = pt_id (point_of ex_chunk_row None [(1, 2 :: nat)])"
    by (simp_all add: delete_for_def new_qrow_def claimable_def open_row_def due_def)
  moreover have "unique_by q_id [?d]" by (simp add: unique_by_def)
  ultimately show ?thesis
    using deletes_drain [of "[?d]" 9 1 "[point_of ex_chunk_row None [(1, 2 :: nat)]]"]
    by (simp add: DELETE_BATCH_SIZE_def)
qed

end
