(* ===== verification/Spec2Isabelle.thy ===== *)
theory Spec2Isabelle
  imports Uri Drift RoleHooks WriteLane LedgerReads IndexInv
begin

text \<open>
  AKB is a knowledge base whose FastAPI/MCP backend (\<^verbatim>\<open>backend/app\<close>) keeps vaults of documents, files and
  tables behind one permission model. This library models the part every surface relies on: who may act
  on a vault, how that authority is mirrored into PostgreSQL roles for the SQL surface, how objects are
  named, how writes are admitted, and the ledger of revisions that holds every document.

  \<^bold>\<open>Parts and how they interact.\<close> A request carries a context (token id and vault scope). A handler of
  \<^verbatim>\<open>services/access_service.py\<close> checks it against the catalog (\<open>AccessCheck\<close>), opens a transaction, writes
  the catalog through \<^verbatim>\<open>services/access_contributions.py\<close> (\<open>Contributions\<close>) or
  \<^verbatim>\<open>repositories/vault_write_policy_repo.py\<close> (\<open>WritePolicy\<close>), appends an event, and synchronises the
  PostgreSQL role of the user it touched in the same transaction (\<^verbatim>\<open>services/role_sync.py\<close>, \<open>RoleSync\<close>).
  Hooks run after the commit and may be late or fail (\<open>RoleHooks\<close>); a timer reconciles the roles with the
  catalog from scratch (\<open>Reconcile\<close>, \<open>Drift\<close>). Committing writes pass \<^verbatim>\<open>services/write_lane.py\<close>
  (\<open>WriteLane\<close>) first. A document lives in the native ledger: its text is stored as a verified body
  (\<^verbatim>\<open>services/m1_reference_payload_store.py\<close>, \<^verbatim>\<open>services/m1_pg_body_store.py\<close>), and one transaction of
  \<^verbatim>\<open>services/native_revision_service.py\<close> publishes the mutation through
  \<^verbatim>\<open>repositories/native_revision_repo.py\<close>: resource, manifest, revision, head, aliases, image references,
  activity, event and invalidation intent.

  \<^bold>\<open>Theories.\<close>
  \<^item> \<open>Prelude\<close>, \<open>Tables\<close>: results, Python string functions, JSON values, UUIDs; lists of rows with a key,
    upsert and delete (a locale for a keyed table, interpreted on each table of the catalog).
  \<^item> \<open>Paths\<close>, \<open>Uri\<close>: \<^verbatim>\<open>util/text.py\<close> (collection paths, slugs, document paths, LIKE escapes) and
    \<^verbatim>\<open>services/uri_service.py\<close> (the URI grammar, builders and parsers).
  \<^item> \<open>Digest\<close>, \<open>TableNames\<close>: SHA-1 on 32-bit words and the physical table names of
    \<^verbatim>\<open>repositories/table_data_repo.py\<close>.
  \<^item> \<open>Catalog\<close>: the rows (users, vaults, tokens, access, contributions, write policies and grants, events,
    PostgreSQL roles, memberships and privileges) as one record \<open>db\<close>, and \<^verbatim>\<open>models/vault_scope.py\<close>.
  \<^item> \<open>Contributions\<close>: the bases of a person's role and the materialised role.
  \<^item> \<open>AccessCheck\<close>, \<open>AccessGrants\<close>, \<open>WritePolicy\<close>, \<open>AccessSystem\<close>: the permission check, the handlers that
    change authority, vault creation, and the step relation of all of them with its invariant.
  \<^item> \<open>RoleSync\<close>, \<open>RoleHooks\<close>, \<open>Reconcile\<close>, \<open>Drift\<close>: the role projection, the lifecycle hooks, the reconciler
    and the drift report.
  \<^item> \<open>WriteLane\<close>: admission control as a step relation over tasks.
  \<^item> \<open>BodyStore\<close>: both body stores, with a locale of what a store promises interpreted on each, and the
    choice between them (\<^verbatim>\<open>services/native_payload_verification.py\<close>).
  \<^item> \<open>Ledger\<close>: the tables of \<^verbatim>\<open>db/migrations/048_native_revision_core.py\<close> and every statement of the
    repository, one definition each. \<open>LedgerAssets\<close>: \<^verbatim>\<open>services/native_document_assets.py\<close> and the
    statements it uses. \<open>LedgerService\<close>: the publications (\<open>publish_create\<close> for \<open>_publish_create\<close>, and so
    on). \<open>LedgerOps\<close>: the public operations around them and the verified reads.
  \<^item> \<open>LedgerInv\<close>: the effect of each publication as one lemma, the invariant \<open>ledger_ok\<close> and its
    preservation. \<open>LedgerExample\<close>: a ledger built by the operations, for the concrete instances.
    \<open>LedgerProps\<close>, \<open>LedgerReads\<close>: reachable ledgers and what they guarantee.
  \<^item> \<open>Queue\<close>: the statements every durable queue of the backend shares (claim with a lease, success, failure
    with the backoff of \<^verbatim>\<open>services/_backfill.py\<close>, release, rescue by \<^verbatim>\<open>services/queue_rescuer.py\<close>, sweep).
    \<open>Outbox\<close>: the event publisher \<^verbatim>\<open>services/events_publisher.py\<close> on the table \<^verbatim>\<open>events\<close>, one undisturbed pass
    (\<open>publish_once\<close>) and several publishers side by side (\<open>outbox_step\<close>, one step per transaction).
    A locale of \<open>Queue\<close> states what a worker does in a pass in which all its work succeeds and proves that
    repeated passes empty the queue; it is interpreted on the publisher and on the delete worker.
  \<^item> \<open>Chunker\<close>: the chunker of \<^verbatim>\<open>services/index_service.py\<close> (headers, size-bounded splits, Markdown sections along
    the matches of its heading pattern). \<open>Indexing\<close>: the tables \<^verbatim>\<open>chunks\<close> and \<^verbatim>\<open>vector_delete_outbox\<close>, the points
    of the vector store, and the operations of \<^verbatim>\<open>services/index_service.py\<close>, \<^verbatim>\<open>services/embed_worker.py\<close> and
    \<^verbatim>\<open>services/delete_worker.py\<close> on them. \<open>IndexInv\<close>: all of them interleaved (\<open>index_step\<close>) and the invariant.

  \<^bold>\<open>Conventions.\<close> A fallible function returns \<open>error + 'a\<close>; a transaction is a function from the catalog to
  a result, so \<open>Inl\<close> is its rollback, and a handler is a check and a transaction with arbitrary committed
  work of other requests between them. Strings are lists of code points below 256. Dictionaries and sets
  whose order is not defined by Python are sets or an enumeration given as an argument. Row and advisory
  locks only serialise transactions and have no other effect.
  A publication takes the ledger it finds once it holds its locks; what it read before that is a separate
  argument (\<open>pre\<close>, \<open>seen\<close>), so stale reads are arbitrary. Random ids and clock values are the record
  \<open>fresh\<close>, and the parser of images in a document body (Markdown and front-matter libraries) is the
  parameter \<open>parse_images\<close>, about which nothing is assumed. Immediate constraints of a table are errors of
  the statement; the deferred foreign keys are part of \<open>ledger_ok\<close>, which every commit restores.

  \<^bold>\<open>What the lemmas show.\<close> \<open>Contributions\<close>: the materialised role is always the strongest basis.
  \<open>AccessCheck\<close>: the exact condition under which a request passes. \<open>AccessSystem\<close>: under every interleaving
  the roles are exactly what the catalog asks for, and the SQL surface and the application agree.
  \<open>RoleHooks\<close>: late or failing hooks cannot undo newer authority. \<open>Drift\<close>: a reconcile run without errors
  leaves no drift. \<open>WritePolicy\<close>: marking, granting, bootstrapping and unmarking. \<open>WriteLane\<close>: mutual
  exclusion, bounded occupancy, no deadlock, termination, no leaked resource, no lost compensation.
  \<open>LedgerProps\<close>: the invariant of every reachable ledger (no dangling key, one chain of revisions per
  resource, a path names one live resource), mutations that take effect exactly once, no lost update.
  \<open>LedgerReads\<close>: references resolve without guessing and survive moves, the history is the head's lineage,
  a written text reads back unchanged for ever, and the bulk read equals the single reads.
  \<open>Chunker\<close>: no phrase within a paragraph is lost, a Markdown phrase keeps its heading, and the bound the chunks
  really keep. \<open>IndexInv\<close>: no point of the vector store is orphaned, an indexed chunk has its point, and a
  working store drains the deletions.
  \<open>Outbox\<close>: no committed event is lost and none is invented, and a working broker drains the queue.
  \<open>Uri\<close>, \<open>Paths\<close>, \<open>TableNames\<close>: round trips, canonical forms and bounds of names.

  \<^bold>\<open>Bounds.\<close> No function uses fuel; the depth of the recursive history query is its own limit, and
  \<open>history_is_lineage\<close> shows it reaches every revision within it. \<open>WriteLane\<close> gives each lane body a number of git calls and the
  environment a number of cancellations, both arbitrary; every step decreases \<open>lane_weight\<close>.

  \<^bold>\<open>Not modelled.\<close> Unicode normalisation (the model's characters are single bytes), the document, file,
  table and search services around the ledger, the git backend, the embedding API, the sparse encoder, the search
  queries of the vector store, SSO and
  sessions, the MCP server, the frontend, deployment and evaluation code: they are input/output or call
  services whose code is not in the repository. Of the ledger: the fail points (a test hook), the columns
  the delivery worker fills on an intent, and the cascade of a vault's deletion. Log lines are left out
  everywhere.
\<close>

end
